(* ===== verification/Pulse_Prelude.thy ===== *)
theory Pulse_Prelude
  imports Complex_Main "HOL-Library.List_Lexorder" "HOL-Library.Char_ord" "HOL-Library.Multiset"
begin

text \<open>
  Shared vocabulary of the development: the lemma collections the component proofs draw
  on, the fragments of Python's standard library the sources use (string splitting,
  stripping, joining, formatting, rounding of floats, calendar arithmetic), insertion
  ordered grouping (\<open>dict.setdefault(k, []).append(v)\<close>), and generic facts on lists.

  Conventions: a Python \<open>str\<close> is a \<^typ>\<open>string\<close> holding its UTF-8 bytes; a Python
  \<open>float\<close> is an exact \<^typ>\<open>rat\<close>; a naive \<open>datetime\<close> and a \<open>timedelta\<close> are an
  \<^typ>\<open>int\<close> number of microseconds (the resolution of Python's own type), counted from
  1970-01-01 00:00:00; a \<open>date\<close> is the number of days from the same origin.
\<close>

named_theorems pulse_defs \<open>unfoldings of the non-recursive operations\<close>
named_theorems frame_simps \<open>fields an operation leaves unchanged\<close>
named_theorems open_simps \<open>how an operation changes the set of open incidents\<close>

type_synonym datetime = int
type_synonym timedelta = int
type_synonym date = int

subsection \<open>Python truthiness and defaults\<close>

text \<open>\<open>x or default\<close> for an optional integer field: NULL and 0 are both false.\<close>

fun or_int :: "int option \<Rightarrow> int \<Rightarrow> int" where
  "or_int None d = d"
| "or_int (Some n) d = (if n = 0 then d else n)"

text \<open>\<open>cint\<close>/\<open>flt\<close> of a field that is NULL or a number.\<close>

fun opt_int :: "int option \<Rightarrow> int" where
  "opt_int None = 0"
| "opt_int (Some n) = n"

fun opt_rat :: "rat option \<Rightarrow> rat" where
  "opt_rat None = 0"
| "opt_rat (Some n) = n"

text \<open>\<open>s or ""\<close>, and the truth value of an optional string.\<close>

fun opt_str :: "string option \<Rightarrow> string" where
  "opt_str None = []"
| "opt_str (Some s) = s"

definition truthy :: "string option \<Rightarrow> bool" where
  "truthy s \<longleftrightarrow> opt_str s \<noteq> []"

subsection \<open>Strings\<close>

definition py_space :: "char \<Rightarrow> bool" where
  "py_space c \<longleftrightarrow> (let n = (of_char c :: nat) in n = 32 \<or> (9 \<le> n \<and> n \<le> 13) \<or> (28 \<le> n \<and> n \<le> 31))"

definition py_lstrip :: "string \<Rightarrow> string" where
  "py_lstrip s = dropWhile py_space s"

definition py_strip :: "string \<Rightarrow> string" where
  "py_strip s = rev (dropWhile py_space (rev (dropWhile py_space s)))"

definition char_lower :: "char \<Rightarrow> char" where
  "char_lower c = (let n = (of_char c :: nat) in if 65 \<le> n \<and> n \<le> 90 then char_of (n + 32) else c)"

definition py_lower :: "string \<Rightarrow> string" where
  "py_lower s = map char_lower s"

fun py_split :: "char \<Rightarrow> string \<Rightarrow> string list" where
  "py_split c [] = [[]]"
| "py_split c (x # xs) =
     (if x = c then [] # py_split c xs
      else (case py_split c xs of [] \<Rightarrow> [[x]] | w # ws \<Rightarrow> (x # w) # ws))"

definition py_replace_char :: "char \<Rightarrow> char \<Rightarrow> string \<Rightarrow> string" where
  "py_replace_char a b s = map (\<lambda>c. if c = a then b else c) s"

fun py_join :: "string \<Rightarrow> string list \<Rightarrow> string" where
  "py_join sep [] = []"
| "py_join sep [x] = x"
| "py_join sep (x # y # zs) = x @ sep @ py_join sep (y # zs)"

text \<open>\<open>needle in s\<close>, and the text behind the first occurrence of \<open>needle\<close>.\<close>

fun starts_with :: "string \<Rightarrow> string \<Rightarrow> bool" where
  "starts_with [] s = True"
| "starts_with (c # cs) [] = False"
| "starts_with (c # cs) (x # xs) = (c = x \<and> starts_with cs xs)"

fun py_after :: "string \<Rightarrow> string \<Rightarrow> string option" where
  "py_after p [] = (if p = [] then Some [] else None)"
| "py_after p (x # xs) = (if starts_with p (x # xs) then Some (drop (length p) (x # xs)) else py_after p xs)"

definition py_contains :: "string \<Rightarrow> string \<Rightarrow> bool" where
  "py_contains p s \<longleftrightarrow> py_after p s \<noteq> None"

definition is_digit :: "char \<Rightarrow> bool" where
  "is_digit c \<longleftrightarrow> (let n = (of_char c :: nat) in 48 \<le> n \<and> n \<le> 57)"

definition digit_val :: "char \<Rightarrow> nat" where
  "digit_val c = (of_char c :: nat) - 48"

fun nat_of_digits :: "nat \<Rightarrow> string \<Rightarrow> nat" where
  "nat_of_digits acc [] = acc"
| "nat_of_digits acc (c # cs) = nat_of_digits (10 * acc + digit_val c) cs"

fun show_nat :: "nat \<Rightarrow> string" where
  "show_nat n = (if n < 10 then [char_of (48 + n)] else show_nat (n div 10) @ [char_of (48 + n mod 10)])"

declare show_nat.simps [simp del]

definition show_int :: "int \<Rightarrow> string" where
  "show_int i = (if i < 0 then CHR ''-'' # show_nat (nat (- i)) else show_nat (nat i))"

definition pad0 :: "nat \<Rightarrow> int \<Rightarrow> string" where
  "pad0 w i = (let s = show_int i in replicate (w - length s) (CHR ''0'') @ s)"

text \<open>The two non-ASCII characters of the message texts, as UTF-8: the arrow and the em dash.\<close>

definition utf8_arrow :: string where
  "utf8_arrow = [CHR 0xE2, CHR 0x86, CHR 0x92]"

definition utf8_dash :: string where
  "utf8_dash = [CHR 0xE2, CHR 0x80, CHR 0x94]"

definition newline :: string where
  "newline = [CHR 0x0A]"

subsection \<open>Rounding\<close>

text \<open>\<open>round(x)\<close> rounds halves to even; \<open>round(x, n)\<close> does so at the n-th decimal.\<close>

definition py_round :: "rat \<Rightarrow> int" where
  "py_round x =
     (let f = \<lfloor>x\<rfloor>; d = x - of_int f
      in if d < 1 / 2 then f else if d > 1 / 2 then f + 1 else if even f then f else f + 1)"

definition py_round_nd :: "nat \<Rightarrow> rat \<Rightarrow> rat" where
  "py_round_nd n x = of_int (py_round (x * 10 ^ n)) / 10 ^ n"

subsection \<open>Calendar\<close>

definition SECOND :: timedelta where "SECOND = 1000000"
definition MINUTE :: timedelta where "MINUTE = 60000000"
definition HOUR :: timedelta where "HOUR = 3600000000"
definition DAY :: timedelta where "DAY = 86400000000"

lemmas time_units = SECOND_def MINUTE_def HOUR_def DAY_def

definition date_of :: "datetime \<Rightarrow> date" where
  "date_of t = t div DAY"

definition midnight_of :: "date \<Rightarrow> datetime" where
  "midnight_of d = d * DAY"

text \<open>\<open>date.weekday()\<close>: Monday is 0, and 1970-01-01 was a Thursday.\<close>

definition weekday :: "date \<Rightarrow> int" where
  "weekday d = (d + 3) mod 7"

text \<open>The proleptic Gregorian calendar: \<open>date.toordinal\<close> and its inverse.\<close>

definition days_from_civil :: "int \<Rightarrow> int \<Rightarrow> int \<Rightarrow> date" where
  "days_from_civil y m d =
     (let y' = (if m \<le> 2 then y - 1 else y);
          era = y' div 400; yoe = y' - era * 400;
          doy = (153 * (if m > 2 then m - 3 else m + 9) + 2) div 5 + d - 1;
          doe = yoe * 365 + yoe div 4 - yoe div 100 + doy
      in era * 146097 + doe - 719468)"

definition civil_from_days :: "date \<Rightarrow> int \<times> int \<times> int" where
  "civil_from_days z =
     (let z' = z + 719468; era = z' div 146097; doe = z' mod 146097;
          yoe = (doe - doe div 1460 + doe div 36524 - doe div 146096) div 365;
          doy = doe - (365 * yoe + yoe div 4 - yoe div 100);
          mp = (5 * doy + 2) div 153;
          d = doy - (153 * mp + 2) div 5 + 1;
          m = (if mp < 10 then mp + 3 else mp - 9)
      in (yoe + era * 400 + (if m \<le> 2 then 1 else 0), m, d))"

text \<open>\<open>str(datetime)\<close>: the microseconds are printed only when they are not zero.\<close>

definition show_datetime :: "datetime \<Rightarrow> string" where
  "show_datetime t =
     (case civil_from_days (date_of t) of (y, m, d) \<Rightarrow>
        (let r = t mod DAY; us = r mod SECOND
         in pad0 4 y @ ''-'' @ pad0 2 m @ ''-'' @ pad0 2 d @ '' '' @
            pad0 2 (r div HOUR) @ '':'' @ pad0 2 (r div MINUTE mod 60) @ '':'' @
            pad0 2 (r div SECOND mod 60) @ (if us = 0 then [] else ''.'' @ pad0 6 us)))"

subsection \<open>Insertion-ordered grouping\<close>

text \<open>\<open>groups.setdefault(key, []).append(row)\<close> on a Python \<open>dict\<close>, which keeps insertion order.\<close>

fun group_add :: "'k \<Rightarrow> 'v \<Rightarrow> ('k \<times> 'v list) list \<Rightarrow> ('k \<times> 'v list) list" where
  "group_add k v [] = [(k, [v])]"
| "group_add k v ((k', vs) # gs) = (if k = k' then (k', vs @ [v]) # gs else (k', vs) # group_add k v gs)"

definition group_rows :: "('v \<Rightarrow> 'k) \<Rightarrow> 'v list \<Rightarrow> ('k \<times> 'v list) list" where
  "group_rows key rows = fold (\<lambda>r gs. group_add (key r) r gs) rows []"

lemma map_of_group_add:
  "map_of (group_add k v gs) k' =
     (if k' = k then Some ((case map_of gs k of None \<Rightarrow> [] | Some vs \<Rightarrow> vs) @ [v]) else map_of gs k')"
  by (induction gs) auto

lemma fst_set_group_add [simp]: "fst ` set (group_add k v gs) = insert k (fst ` set gs)"
proof (induction gs)
  case (Cons g gs)
  then show ?case by (cases g) auto
qed simp

lemma distinct_group_add:
  "distinct (map fst gs) \<Longrightarrow> distinct (map fst (group_add k v gs))"
proof (induction gs)
  case (Cons g gs)
  then show ?case by (cases g) auto
qed simp

lemma map_of_group_fold:
  "map_of (fold (\<lambda>r gs. group_add (key r) r gs) rows gs) k =
     (let new = filter (\<lambda>r. key r = k) rows
      in case map_of gs k of None \<Rightarrow> (if new = [] then None else Some new) | Some vs \<Rightarrow> Some (vs @ new))"
  by (induction rows arbitrary: gs) (auto simp: map_of_group_add Let_def split: option.splits)

text \<open>Grouping loses no row, invents none and keeps the order inside each group.\<close>

lemma map_of_group_rows:
  "map_of (group_rows key rows) k =
     (let g = filter (\<lambda>r. key r = k) rows in if g = [] then None else Some g)"
  by (simp add: group_rows_def map_of_group_fold Let_def)

lemma distinct_group_fold:
  "distinct (map fst gs) \<Longrightarrow> distinct (map fst (fold (\<lambda>r gs. group_add (key r) r gs) rows gs))"
  by (induction rows arbitrary: gs) (auto intro: distinct_group_add)

lemma distinct_group_rows: "distinct (map fst (group_rows key rows))"
  by (simp add: group_rows_def distinct_group_fold)

lemma group_rows_mem:
  assumes "(k, g) \<in> set (group_rows key rows)"
  shows "g = filter (\<lambda>r. key r = k) rows" and "g \<noteq> []"
proof -
  have "map_of (group_rows key rows) k = Some g"
    using assms by (simp add: map_of_eq_Some_iff [OF distinct_group_rows])
  then show "g = filter (\<lambda>r. key r = k) rows" and "g \<noteq> []"
    by (auto simp: map_of_group_rows Let_def split: if_splits)
qed

lemma group_rows_keys: "fst ` set (group_rows key rows) = key ` set rows"
proof -
  have "fst ` set (fold (\<lambda>r gs. group_add (key r) r gs) rows gs) = fst ` set gs \<union> key ` set rows" for gs
    by (induction rows arbitrary: gs) auto
  then show ?thesis by (simp add: group_rows_def)
qed

subsection \<open>Generic list facts\<close>

lemma filter_map_update_other:
  assumes "\<And>x. x \<in> set xs \<Longrightarrow> P (if Q x then f x else x) = P x"
    and "\<And>x. x \<in> set xs \<Longrightarrow> P x \<Longrightarrow> \<not> Q x"
  shows "filter P (map (\<lambda>x. if Q x then f x else x) xs) = filter P xs"
  using assms by (induction xs) (auto split: if_splits)

lemma fold_invariant:
  assumes "\<And>x s. x \<in> set xs \<Longrightarrow> I s \<Longrightarrow> I (f x s)" and "I s"
  shows "I (fold f xs s)"
  using assms by (induction xs arbitrary: s) auto

lemma fold_preserves:
  assumes "\<And>x s. x \<in> set xs \<Longrightarrow> g (f x s) = g s"
  shows "g (fold f xs s) = g s"
  using assms by (induction xs arbitrary: s) auto

subsection \<open>Facts on the string operations\<close>

lemma py_split_nonempty [simp]: "py_split c s \<noteq> []"
  by (induction s) (auto split: list.splits)

lemma py_split_no_sep: "w \<in> set (py_split c s) \<Longrightarrow> c \<notin> set w"
  by (induction s arbitrary: w) (auto split: if_splits list.splits)

lemma set_py_strip: "set (py_strip s) \<subseteq> set s"
proof -
  have "set (py_strip s) \<subseteq> set (dropWhile py_space s)"
    by (auto simp: py_strip_def dest: set_dropWhileD)
  then show ?thesis by (auto dest: set_dropWhileD)
qed

lemma show_nat_digits: "c \<in> set (show_nat n) \<Longrightarrow> is_digit c"
proof (induction n arbitrary: c rule: show_nat.induct)
  case (1 n)
  have small: "is_digit (char_of (48 + d))" if "d < 10" for d :: nat
    using that by (simp add: is_digit_def Let_def of_char_of)
  show ?case
  proof (cases "n < 10")
    case True
    with "1.prems" small show ?thesis by (simp add: show_nat.simps [of n])
  next
    case False
    with "1.prems" have "c \<in> set (show_nat (n div 10)) \<or> c = char_of (48 + n mod 10)"
      by (auto simp: show_nat.simps [of n])
    with "1.IH" [OF False] small [of "n mod 10"] show ?thesis by auto
  qed
qed

lemma nat_of_digits_append:
  "nat_of_digits acc (s @ [c]) = 10 * nat_of_digits acc s + digit_val c"
  by (induction s arbitrary: acc) auto

lemma nat_of_digits_show_nat: "nat_of_digits 0 (show_nat n) = n"
proof (induction n rule: show_nat.induct)
  case (1 n)
  have small: "digit_val (char_of (48 + d)) = d" if "d < 10" for d :: nat
    using that by (simp add: digit_val_def of_char_of)
  show ?case
  proof (cases "n < 10")
    case True
    then show ?thesis using small [of n] by (simp add: show_nat.simps [of n])
  next
    case False
    with "1.IH" small [of "n mod 10"] show ?thesis
      by (simp add: show_nat.simps [of n] nat_of_digits_append)
  qed
qed

lemma show_nat_inj: "show_nat m = show_nat n \<Longrightarrow> m = n"
  by (metis nat_of_digits_show_nat)

lemma show_nat_nonempty [simp]: "show_nat n \<noteq> []"
  by (subst show_nat.simps) simp

lemma show_int_inj: "show_int a = show_int b \<Longrightarrow> a = b"
proof -
  have minus: "CHR ''-'' \<notin> set (show_nat n)" for n
    using show_nat_digits [of "CHR ''-''" n] by (auto simp: is_digit_def Let_def)
  assume eq: "show_int a = show_int b"
  show "a = b"
  proof (cases "a < 0"; cases "b < 0")
    assume "a < 0" "b < 0"
    with eq have "nat (- a) = nat (- b)" by (auto simp: show_int_def intro: show_nat_inj)
    with \<open>a < 0\<close> \<open>b < 0\<close> show ?thesis by simp
  next
    assume "\<not> a < 0" "\<not> b < 0"
    with eq have "nat a = nat b" by (auto simp: show_int_def intro: show_nat_inj)
    with \<open>\<not> a < 0\<close> \<open>\<not> b < 0\<close> show ?thesis by simp
  next
    assume "a < 0" "\<not> b < 0"
    with eq have "show_nat (nat b) = CHR ''-'' # show_nat (nat (- a))" by (simp add: show_int_def)
    then have "CHR ''-'' \<in> set (show_nat (nat b))" by simp
    with minus show ?thesis by blast
  next
    assume "\<not> a < 0" "b < 0"
    with eq have "show_nat (nat a) = CHR ''-'' # show_nat (nat (- b))" by (simp add: show_int_def)
    then have "CHR ''-'' \<in> set (show_nat (nat a))" by simp
    with minus show ?thesis by blast
  qed
qed

subsection \<open>Facts on rounding\<close>

lemma py_round_mono: "x \<le> y \<Longrightarrow> py_round x \<le> py_round y"
proof -
  assume xy: "x \<le> y"
  have lo: "\<lfloor>z\<rfloor> \<le> py_round z" and hi: "py_round z \<le> \<lfloor>z\<rfloor> + 1" for z
    by (auto simp: py_round_def Let_def)
  from xy have "\<lfloor>x\<rfloor> \<le> \<lfloor>y\<rfloor>" by (rule floor_mono)
  then consider "\<lfloor>x\<rfloor> + 1 \<le> \<lfloor>y\<rfloor>" | "\<lfloor>x\<rfloor> = \<lfloor>y\<rfloor>" by linarith
  then show ?thesis
  proof cases
    case 1
    then show ?thesis using lo [of y] hi [of x] by linarith
  next
    case 2
    then show ?thesis using xy by (auto simp: py_round_def Let_def)
  qed
qed

lemma py_round_of_int [simp]: "py_round (of_int n) = n"
  by (simp add: py_round_def)

lemma py_round_nd_mono: "x \<le> y \<Longrightarrow> py_round_nd n x \<le> py_round_nd n y"
  by (simp add: py_round_nd_def divide_right_mono py_round_mono)

lemma py_round_nd_of_int [simp]: "py_round_nd n (of_int k) = of_int k"
proof -
  have "(of_int k :: rat) * 10 ^ n = of_int (k * 10 ^ n)" by simp
  then show ?thesis unfolding py_round_nd_def by (simp only: py_round_of_int) simp
qed

lemma weekday_range: "0 \<le> weekday d \<and> weekday d < 7"
  by (simp add: weekday_def)

lemma date_of_midnight [simp]: "date_of (midnight_of d) = d"
  by (simp add: date_of_def midnight_of_def DAY_def)

lemma midnight_le: "midnight_of (date_of t) \<le> t"
  by (simp add: date_of_def midnight_of_def DAY_def)

lemma next_midnight_gt: "t < midnight_of (date_of t + 1)"
  by (simp add: date_of_def midnight_of_def DAY_def)

lemma date_of_mono: "s \<le> t \<Longrightarrow> date_of s \<le> date_of t"
  by (simp add: date_of_def DAY_def zdiv_mono1)

end
