(* ===== verification/Incident_Log.thy ===== *)
theory Incident_Log
  imports Pulse_Prelude
begin

text \<open>
  The interface every monitor of the app relies on: a log of incidents, each open or
  resolved, identified by a key. The locale states what raising, resolving and recovering
  an incident do to the open incidents of every key; the two triggers the monitors are
  built from (an edge trigger that remembers the previous verdict, and a level trigger
  that looks at the log itself) are analysed once, inside the locale. The alert log of
  \<open>alerts/dispatch.py\<close> is the provider (theory \<open>Alert_Dispatch\<close>).
\<close>

subsection \<open>The two triggers\<close>

text \<open>Alert when the condition appears, resolve when it disappears, and raise again when the
  condition persists without an open incident.\<close>

definition edge_trigger ::
    "('s \<Rightarrow> bool) \<Rightarrow> ('s \<Rightarrow> 's) \<Rightarrow> ('s \<Rightarrow> 's) \<Rightarrow> ('s \<Rightarrow> 's) \<Rightarrow> bool \<Rightarrow> bool \<Rightarrow> 's \<Rightarrow> 's" where
  "edge_trigger opn rse rsv rcv was now s =
     (if now \<and> \<not> was then rse s
      else if was \<and> \<not> now then rcv (rsv s)
      else if now \<and> was \<and> \<not> opn s then rse s
      else s)"

text \<open>Alert when the condition holds and nothing is open, resolve when it does not hold and
  something is open.\<close>

definition level_trigger ::
    "('s \<Rightarrow> bool) \<Rightarrow> ('s \<Rightarrow> 's) \<Rightarrow> ('s \<Rightarrow> 's) \<Rightarrow> ('s \<Rightarrow> 's) \<Rightarrow> bool \<Rightarrow> 's \<Rightarrow> 's" where
  "level_trigger opn rse rsv rcv now s =
     (if now \<and> \<not> opn s then rse s
      else if \<not> now \<and> opn s then rcv (rsv s)
      else s)"

subsection \<open>The interface\<close>

locale incident_log =
  fixes invar :: "'s \<Rightarrow> bool"
    and open_count :: "'s \<Rightarrow> 'k \<Rightarrow> nat"
    and is_open :: "'s \<Rightarrow> 'k \<Rightarrow> bool"
    and raise_inc :: "'k \<Rightarrow> 'm \<Rightarrow> 's \<Rightarrow> 's"
    and resolve_inc :: "'k \<Rightarrow> 's \<Rightarrow> 's"
    and recover_inc :: "'k \<Rightarrow> 'm \<Rightarrow> 's \<Rightarrow> 's"
  assumes open_iff: "is_open s k \<longleftrightarrow> 0 < open_count s k"
    and raise_invar: "invar s \<Longrightarrow> invar (raise_inc k m s)"
    and resolve_invar: "invar s \<Longrightarrow> invar (resolve_inc k s)"
    and recover_invar: "invar s \<Longrightarrow> invar (recover_inc k m s)"
    and raise_count: "invar s \<Longrightarrow>
          open_count (raise_inc k m s) k' = open_count s k' + (if k' = k then 1 else 0)"
    and resolve_count: "invar s \<Longrightarrow>
          open_count (resolve_inc k s) k' = (if k' = k then 0 else open_count s k')"
    and recover_count: "invar s \<Longrightarrow> open_count (recover_inc k m s) k' = open_count s k'"
begin

lemmas log_laws = open_iff raise_invar resolve_invar recover_invar raise_count resolve_count recover_count

lemma edge_invar:
  "invar s \<Longrightarrow> invar (edge_trigger (\<lambda>s. is_open s k) (raise_inc k m) (resolve_inc k) (recover_inc k m') was now s)"
  by (simp add: edge_trigger_def log_laws)

lemma edge_quiet_invar:
  "invar s \<Longrightarrow> invar (edge_trigger (\<lambda>s. is_open s k) (raise_inc k m) (resolve_inc k) id was now s)"
  by (simp add: edge_trigger_def log_laws)

text \<open>An open incident never survives a verdict that the condition is gone, provided incidents
  are only open while the remembered verdict says so; and a verdict that it holds always
  leaves an incident open.\<close>

lemma edge_open:
  assumes "invar s" and "is_open s k \<longrightarrow> was"
  shows "is_open (edge_trigger (\<lambda>s. is_open s k) (raise_inc k m) (resolve_inc k) (recover_inc k m') was now s) k
           \<longleftrightarrow> now"
    and "is_open (edge_trigger (\<lambda>s. is_open s k) (raise_inc k m) (resolve_inc k) id was now s) k \<longleftrightarrow> now"
  using assms by (cases was; cases now; simp add: edge_trigger_def log_laws)+

text \<open>At most one incident per key is open.\<close>

lemma edge_at_most_one:
  assumes "invar s" and "is_open s k \<longrightarrow> was" and "open_count s k \<le> 1"
  shows "open_count (edge_trigger (\<lambda>s. is_open s k) (raise_inc k m) (resolve_inc k) (recover_inc k m') was now s) k \<le> 1"
    and "open_count (edge_trigger (\<lambda>s. is_open s k) (raise_inc k m) (resolve_inc k) id was now s) k \<le> 1"
  using assms by (cases was; cases now; simp add: edge_trigger_def log_laws)+

text \<open>Incidents of other keys are untouched.\<close>

lemma edge_other:
  assumes "invar s" and "k' \<noteq> k"
  shows "open_count (edge_trigger (\<lambda>s. is_open s k) (raise_inc k m) (resolve_inc k) (recover_inc k m') was now s) k'
           = open_count s k'"
    and "open_count (edge_trigger (\<lambda>s. is_open s k) (raise_inc k m) (resolve_inc k) id was now s) k'
           = open_count s k'"
  using assms by (cases was; cases now; simp add: edge_trigger_def log_laws)+

lemma level_invar:
  "invar s \<Longrightarrow> invar (level_trigger (\<lambda>s. is_open s k) (raise_inc k m) (resolve_inc k) (recover_inc k m') now s)"
  "invar s \<Longrightarrow> invar (level_trigger (\<lambda>s. is_open s k) (raise_inc k m) (resolve_inc k) id now s)"
  by (simp_all add: level_trigger_def log_laws)

text \<open>The level trigger needs no remembered verdict: the log follows the condition.\<close>

lemma level_open:
  assumes "invar s"
  shows "is_open (level_trigger (\<lambda>s. is_open s k) (raise_inc k m) (resolve_inc k) (recover_inc k m') now s) k
           \<longleftrightarrow> now"
    and "is_open (level_trigger (\<lambda>s. is_open s k) (raise_inc k m) (resolve_inc k) id now s) k \<longleftrightarrow> now"
  using assms by (cases now; simp add: level_trigger_def log_laws)+

lemma level_at_most_one:
  assumes "invar s" and "open_count s k \<le> 1"
  shows "open_count (level_trigger (\<lambda>s. is_open s k) (raise_inc k m) (resolve_inc k) (recover_inc k m') now s) k \<le> 1"
    and "open_count (level_trigger (\<lambda>s. is_open s k) (raise_inc k m) (resolve_inc k) id now s) k \<le> 1"
  using assms by (cases now; simp add: level_trigger_def log_laws)+

lemma level_other:
  assumes "invar s" and "k' \<noteq> k"
  shows "open_count (level_trigger (\<lambda>s. is_open s k) (raise_inc k m) (resolve_inc k) (recover_inc k m') now s) k'
           = open_count s k'"
    and "open_count (level_trigger (\<lambda>s. is_open s k) (raise_inc k m) (resolve_inc k) id now s) k' = open_count s k'"
  using assms by (cases now; simp add: level_trigger_def log_laws)+

text \<open>Running the level trigger twice with the same condition does nothing the second time.\<close>

lemma level_idem:
  assumes "invar s"
    and "t = level_trigger (\<lambda>s. is_open s k) (raise_inc k m) (resolve_inc k) (recover_inc k m') now"
  shows "t (t s) = t s"
proof -
  have "is_open (t s) k \<longleftrightarrow> now" unfolding assms(2) using assms(1) by (rule level_open(1))
  then show ?thesis by (cases now) (simp_all add: assms(2) level_trigger_def)
qed

end

end
