(* ===== verification/Alert_Dispatch.thy ===== *)
theory Alert_Dispatch
  imports Incident_Log
begin

text \<open>
  \<open>alerts/dispatch.py\<close>: recording an alert in the \<open>Proxmox Alert Log\<close> and sending it by
  e-mail and WhatsApp. The state is the part of the site's database and of the outside
  world this module touches: the rows of the alert log in insertion order, the counter the
  row names are drawn from, the messages that have left the system, the titles written to
  the error log, and the single \<open>Proxmox Monitor Settings\<close> document. Later theories extend
  the record with the tables of their own doctypes, and every operation here works on the
  extended record as well.

  What the sources only call is a parameter, bundled in the record \<open>env\<close>: the clock,
  whether \<open>frappe.sendmail\<close> returns or raises on given arguments, and the \<open>frappe_whatsapp\<close>
  app (whether it is installed, which templates it has, whether inserting a message raises).
\<close>

record env =
  now_datetime :: datetime
  sendmail :: "string list \<Rightarrow> string \<Rightarrow> string \<Rightarrow> bool"
  whatsapp_installed :: bool
  whatsapp_insert :: "string \<Rightarrow> string \<Rightarrow> string \<Rightarrow> bool"
  whatsapp_template_exists :: "string \<Rightarrow> bool"
  whatsapp_template_named :: "string \<Rightarrow> string option"

record monitor_settings =
  enable_email_alerts :: bool
  email_recipients :: "string option"
  enable_whatsapp_alerts :: bool
  whatsapp_recipients :: "string option"
  whatsapp_template :: "string option"
  whatsapp_recovery_template :: "string option"
  whatsapp_health_digest_template :: "string option"
  warning_threshold_percent :: "int option"
  critical_threshold_percent :: "int option"
  confirmation_checks_setting :: "int option"
  poll_interval_seconds :: "int option"
  backup_overdue_hours :: "int option"
  resource_history_enabled :: bool
  resource_history_interval_seconds :: "int option"
  resource_history_retention_days :: "int option"

record alert_row =
  alert_name :: nat
  alert_type :: string
  reference_doctype :: string
  reference_name :: string
  alert_message :: string
  channels_sent :: string
  sent_at :: datetime
  resolved :: bool

datatype outgoing =
  Email "string list" string string
| WhatsApp string string string

record alert_db =
  alert_log :: "alert_row list"
  next_alert :: nat
  outbox :: "outgoing list"
  error_log :: "string list"
  monitor_settings :: monitor_settings

type_synonym alert_key = "string \<times> string \<times> string"

definition DIGEST_ONLY_ALERT_TYPES :: "string list" where
  "DIGEST_ONLY_ALERT_TYPES =
     [''Service Down'', ''Worker Degraded'', ''Failed Job Threshold'', ''Long Running Job'',
      ''Scheduler Stalled'', ''Host Unreachable'']"

definition BATCHED_RESOURCE_ALERT_TYPES :: "string list" where
  "BATCHED_RESOURCE_ALERT_TYPES =
     [''High Load Average'', ''High Swap Usage'', ''Backup Overdue'', ''Recurring Error'']"

definition log_error :: "string \<Rightarrow> 'a alert_db_scheme \<Rightarrow> 'a alert_db_scheme" where
  "log_error title st = st\<lparr>error_log := error_log st @ [title]\<rparr>"

subsection \<open>Recipients\<close>

fun merge_recipients :: "string list \<Rightarrow> string list \<Rightarrow> string list" where
  "merge_recipients seen [] = []"
| "merge_recipients seen (v # vs) =
     (let v' = py_strip v
      in if v' = [] \<or> py_lower v' \<in> set seen then merge_recipients seen vs
         else v' # merge_recipients (py_lower v' # seen) vs)"

definition recipients :: "bool \<Rightarrow> string option \<Rightarrow> bool \<Rightarrow> string list" where
  "recipients enabled value include_global =
     (if \<not> enabled \<or> \<not> include_global then []
      else merge_recipients [] (py_split (CHR '','') (opt_str value)))"

subsection \<open>Sending\<close>

definition alert_severity :: "string option \<Rightarrow> string \<Rightarrow> string" where
  "alert_severity severity atype =
     (if truthy severity then opt_str severity
      else if atype = ''Resource Warning'' then ''Warning''
      else if atype = ''Test Alert'' then ''Test'' else ''Critical'')"

definition send_email ::
    "env \<Rightarrow> string list \<Rightarrow> string \<Rightarrow> string \<Rightarrow> string option \<Rightarrow> 'a alert_db_scheme \<Rightarrow> bool \<times> 'a alert_db_scheme" where
  "send_email e rcpts atype message severity st =
     (if rcpts = [] then (False, st)
      else let location = takeWhile (\<lambda>c. c \<noteq> CHR '':'') message;
               subject = ''Infra '' @ alert_severity severity atype @ '' Alert - '' @ location
           in if sendmail e rcpts subject message
              then (True, st\<lparr>outbox := outbox st @ [Email rcpts subject message]\<rparr>)
              else (False, log_error ''Proxmox Monitor: email alert failed'' st))"

definition resolve_whatsapp_template :: "env \<Rightarrow> string \<Rightarrow> string option" where
  "resolve_whatsapp_template e template_setting =
     (if whatsapp_template_exists e template_setting then Some template_setting
      else whatsapp_template_named e template_setting)"

text \<open>The loop over the numbers: an insert that raises ends it; the messages inserted before stay.\<close>

fun whatsapp_loop ::
    "env \<Rightarrow> string \<Rightarrow> string \<Rightarrow> string list \<Rightarrow> 'a alert_db_scheme \<Rightarrow> bool \<times> 'a alert_db_scheme" where
  "whatsapp_loop e template message [] st = (True, st)"
| "whatsapp_loop e template message (n # ns) st =
     (if whatsapp_insert e n template message
      then whatsapp_loop e template message ns (st\<lparr>outbox := outbox st @ [WhatsApp n template message]\<rparr>)
      else (False, st))"

definition send_whatsapp ::
    "env \<Rightarrow> string list \<Rightarrow> string \<Rightarrow> string \<Rightarrow> 'a alert_db_scheme \<Rightarrow> bool \<times> 'a alert_db_scheme" where
  "send_whatsapp e numbers template message st =
     (if \<not> whatsapp_installed e then (False, st)
      else case whatsapp_loop e template message numbers st of
             (True, st') \<Rightarrow> (numbers \<noteq> [], st')
           | (False, st') \<Rightarrow> (False, log_error ''Proxmox Monitor: whatsapp alert failed'' st'))"

text \<open>The template a setting selects: none when the setting is empty.\<close>

definition template_of :: "env \<Rightarrow> string option \<Rightarrow> string option" where
  "template_of e setting = (if truthy setting then resolve_whatsapp_template e (opt_str setting) else None)"

text \<open>The channel block that \<open>dispatch_alert\<close> and \<open>dispatch_recovery\<close> share: e-mail first, then
  WhatsApp; the result lists the channels that accepted the message.\<close>

definition send_channels ::
    "env \<Rightarrow> string \<Rightarrow> string \<Rightarrow> string option \<Rightarrow> string option \<Rightarrow> bool \<Rightarrow> 'a alert_db_scheme
      \<Rightarrow> string list \<times> 'a alert_db_scheme" where
  "send_channels e atype message severity template_setting notify_global st =
     (if atype \<in> set DIGEST_ONLY_ALERT_TYPES \<or> atype \<in> set BATCHED_RESOURCE_ALERT_TYPES then ([], st)
      else let cfg = monitor_settings st;
               emails = recipients (enable_email_alerts cfg) (email_recipients cfg) notify_global;
               numbers = recipients (enable_whatsapp_alerts cfg) (whatsapp_recipients cfg) notify_global;
               (email_ok, st1) = (if emails \<noteq> [] then send_email e emails atype message severity st else (False, st));
               template = template_of e template_setting;
               (wa_ok, st2) = (if numbers \<noteq> [] \<and> truthy template
                               then send_whatsapp e numbers (opt_str template) message st1 else (False, st1))
           in ((if email_ok then [''Email''] else []) @ (if wa_ok then [''WhatsApp''] else []), st2))"

subsection \<open>The alert log\<close>

definition insert_alert ::
    "env \<Rightarrow> string \<Rightarrow> string \<Rightarrow> string \<Rightarrow> string \<Rightarrow> string list \<Rightarrow> bool \<Rightarrow> 'a alert_db_scheme \<Rightarrow> 'a alert_db_scheme" where
  "insert_alert e atype doctype name message channels res st =
     st\<lparr>alert_log := alert_log st @
          [\<lparr>alert_name = next_alert st, alert_type = atype, reference_doctype = doctype,
            reference_name = name, alert_message = message,
            channels_sent = py_join '', '' channels, sent_at = now_datetime e, resolved = res\<rparr>],
        next_alert := Suc (next_alert st)\<rparr>"

definition dispatch_alert ::
    "env \<Rightarrow> string \<Rightarrow> string \<Rightarrow> string \<Rightarrow> string \<Rightarrow> bool \<Rightarrow> 'a alert_db_scheme \<Rightarrow> 'a alert_db_scheme" where
  "dispatch_alert e atype doctype name message notify_global st =
     (let (channels, st') = send_channels e atype message None (whatsapp_template (monitor_settings st)) notify_global st
      in insert_alert e atype doctype name message channels False st')"

definition dispatch_recovery ::
    "env \<Rightarrow> string \<Rightarrow> string \<Rightarrow> string \<Rightarrow> string \<Rightarrow> bool \<Rightarrow> 'a alert_db_scheme \<Rightarrow> 'a alert_db_scheme" where
  "dispatch_recovery e atype doctype name message notify_global st =
     (let (channels, st') = send_channels e atype message (Some ''Resolved'')
                              (whatsapp_recovery_template (monitor_settings st)) notify_global st
      in insert_alert e atype doctype name message channels True st')"

definition open_row :: "string \<Rightarrow> string \<Rightarrow> string \<Rightarrow> alert_row \<Rightarrow> bool" where
  "open_row doctype name atype r \<longleftrightarrow>
     reference_doctype r = doctype \<and> reference_name r = name \<and> alert_type r = atype \<and> \<not> resolved r"

definition has_open_alert :: "string \<Rightarrow> string \<Rightarrow> string \<Rightarrow> 'a alert_db_scheme \<Rightarrow> bool" where
  "has_open_alert doctype name atype st \<longleftrightarrow> filter (open_row doctype name atype) (alert_log st) \<noteq> []"

definition set_resolved :: "nat \<Rightarrow> 'a alert_db_scheme \<Rightarrow> 'a alert_db_scheme" where
  "set_resolved n st =
     st\<lparr>alert_log := map (\<lambda>r. if alert_name r = n then r\<lparr>resolved := True\<rparr> else r) (alert_log st)\<rparr>"

definition resolve_alert :: "string \<Rightarrow> string \<Rightarrow> string \<Rightarrow> 'a alert_db_scheme \<Rightarrow> 'a alert_db_scheme" where
  "resolve_alert doctype name atype st =
     (let open_alerts = map alert_name (filter (open_row doctype name atype) (alert_log st))
      in fold set_resolved open_alerts st)"

subsection \<open>The test button\<close>

datatype perm_error = PermissionError

definition strip_list :: "string option \<Rightarrow> string list" where
  "strip_list value = filter (\<lambda>v. v \<noteq> []) (map py_strip (py_split (CHR '','') (opt_str value)))"

definition TEST_MESSAGE :: string where
  "TEST_MESSAGE = ''alfaEdge Pulse Test: this is a test alert to verify your notification channels are configured correctly.''"

definition send_test_alert ::
    "env \<Rightarrow> bool \<Rightarrow> 'a alert_db_scheme \<Rightarrow> perm_error + ((string \<times> bool) list \<times> 'a alert_db_scheme)" where
  "send_test_alert e is_manager st =
     (if \<not> is_manager then Inl PermissionError
      else let cfg = monitor_settings st;
               (r1, st1) =
                 (if enable_email_alerts cfg \<and> truthy (email_recipients cfg)
                  then (let (ok, s) = send_email e (strip_list (email_recipients cfg)) ''Test Alert'' TEST_MESSAGE None st
                        in ([(''Email'', ok)], s))
                  else ([], st));
               (r2, st2) =
                 (if enable_whatsapp_alerts cfg \<and> truthy (whatsapp_recipients cfg) \<and> truthy (whatsapp_template cfg)
                  then (let template = resolve_whatsapp_template e (opt_str (whatsapp_template cfg));
                            (ok, s) = (if truthy template
                                       then send_whatsapp e (strip_list (whatsapp_recipients cfg)) (opt_str template) TEST_MESSAGE st1
                                       else (False, st1))
                        in ([(''WhatsApp'', ok)], s))
                  else ([], st1))
           in Inr (r1 @ r2, st2))"

subsection \<open>What sending leaves alone\<close>

lemma log_error_frame [frame_simps, simp]:
  "alert_log (log_error t st) = alert_log st" "next_alert (log_error t st) = next_alert st"
  "outbox (log_error t st) = outbox st" "monitor_settings (log_error t st) = monitor_settings st"
  "alert_db.more (log_error t st) = alert_db.more st"
  by (simp_all add: log_error_def)

lemma send_email_frame [frame_simps]:
  assumes "send_email e rs ty m sev st = (ok, st')"
  shows "alert_log st' = alert_log st \<and> next_alert st' = next_alert st \<and>
    monitor_settings st' = monitor_settings st \<and> alert_db.more st' = alert_db.more st"
  using assms by (auto simp: send_email_def Let_def split: if_splits)

lemma whatsapp_loop_frame:
  "whatsapp_loop e t m ns st = (ok, st') \<Longrightarrow>
    alert_log st' = alert_log st \<and> next_alert st' = next_alert st \<and>
    monitor_settings st' = monitor_settings st \<and> alert_db.more st' = alert_db.more st"
  by (induction ns arbitrary: st) (auto split: if_splits)

lemma send_whatsapp_frame [frame_simps]:
  assumes "send_whatsapp e ns t m st = (ok, st')"
  shows "alert_log st' = alert_log st \<and> next_alert st' = next_alert st \<and>
    monitor_settings st' = monitor_settings st \<and> alert_db.more st' = alert_db.more st"
  using assms by (auto simp: send_whatsapp_def split: if_splits prod.splits bool.splits
      dest: whatsapp_loop_frame)

lemma send_channels_frame:
  assumes "send_channels e ty m sev tpl g st = (chs, st')"
  shows "alert_log st' = alert_log st \<and> next_alert st' = next_alert st \<and>
    monitor_settings st' = monitor_settings st \<and> alert_db.more st' = alert_db.more st"
  using assms by (auto simp: send_channels_def Let_def split: if_splits prod.splits
      dest!: send_email_frame send_whatsapp_frame)

lemma insert_alert_frame [frame_simps, simp]:
  "monitor_settings (insert_alert e ty d n m chs r st) = monitor_settings st"
  "alert_db.more (insert_alert e ty d n m chs r st) = alert_db.more st"
  "outbox (insert_alert e ty d n m chs r st) = outbox st"
  by (simp_all add: insert_alert_def)

lemma dispatch_frame [frame_simps, simp]:
  "monitor_settings (dispatch_alert e ty d n m g st) = monitor_settings st"
  "alert_db.more (dispatch_alert e ty d n m g st) = alert_db.more st"
  "monitor_settings (dispatch_recovery e ty d n m g st) = monitor_settings st"
  "alert_db.more (dispatch_recovery e ty d n m g st) = alert_db.more st"
  by (auto simp: dispatch_alert_def dispatch_recovery_def Let_def split: prod.splits
      dest!: send_channels_frame)

subsection \<open>The log as an incident log\<close>

definition alert_inv :: "'a alert_db_scheme \<Rightarrow> bool" where
  "alert_inv st \<longleftrightarrow> (let names = map alert_name (alert_log st)
      in distinct names \<and> list_all (\<lambda>n. n < next_alert st) names)"

definition open_alerts_of :: "'a alert_db_scheme \<Rightarrow> alert_key \<Rightarrow> nat" where
  "open_alerts_of st k = (case k of (d, n, ty) \<Rightarrow> length (filter (open_row d n ty) (alert_log st)))"

text \<open>The row an alert or a recovery appends.\<close>

lemma dispatch_alert_log:
  "\<exists>chs. alert_log (dispatch_alert e ty d n m g st) = alert_log st @
     [\<lparr>alert_name = next_alert st, alert_type = ty, reference_doctype = d, reference_name = n,
       alert_message = m, channels_sent = chs, sent_at = now_datetime e, resolved = False\<rparr>]"
  "next_alert (dispatch_alert e ty d n m g st) = Suc (next_alert st)"
  by (auto simp: dispatch_alert_def insert_alert_def Let_def split: prod.splits dest!: send_channels_frame)

lemma dispatch_recovery_log:
  "\<exists>chs. alert_log (dispatch_recovery e ty d n m g st) = alert_log st @
     [\<lparr>alert_name = next_alert st, alert_type = ty, reference_doctype = d, reference_name = n,
       alert_message = m, channels_sent = chs, sent_at = now_datetime e, resolved = True\<rparr>]"
  "next_alert (dispatch_recovery e ty d n m g st) = Suc (next_alert st)"
  by (auto simp: dispatch_recovery_def insert_alert_def Let_def split: prod.splits dest!: send_channels_frame)

lemma fold_set_resolved:
  "fold set_resolved ns st =
     st\<lparr>alert_log := map (\<lambda>r. if alert_name r \<in> set ns then r\<lparr>resolved := True\<rparr> else r) (alert_log st)\<rparr>"
  by (induction ns arbitrary: st) (auto simp: set_resolved_def)

lemma resolve_alert_frame [frame_simps, simp]:
  "monitor_settings (resolve_alert d n ty st) = monitor_settings st"
  "alert_db.more (resolve_alert d n ty st) = alert_db.more st"
  "outbox (resolve_alert d n ty st) = outbox st"
  "next_alert (resolve_alert d n ty st) = next_alert st"
  "error_log (resolve_alert d n ty st) = error_log st"
  by (simp_all add: resolve_alert_def fold_set_resolved)

lemma resolve_alert_names [simp]:
  "map alert_name (alert_log (resolve_alert d n ty st)) = map alert_name (alert_log st)"
  by (auto simp: resolve_alert_def fold_set_resolved)

text \<open>Row names are unique, so resolving by name closes exactly the matching rows.\<close>

lemma resolve_alert_log:
  assumes "alert_inv st"
  shows "alert_log (resolve_alert d n ty st) =
     map (\<lambda>r. if open_row d n ty r then r\<lparr>resolved := True\<rparr> else r) (alert_log st)"
proof -
  have "alert_name r \<in> alert_name ` set (filter (open_row d n ty) (alert_log st)) \<longleftrightarrow> open_row d n ty r"
    if "r \<in> set (alert_log st)" for r
    using assms that by (auto simp: alert_inv_def Let_def distinct_map inj_on_def)
  then show ?thesis
    by (auto simp: resolve_alert_def fold_set_resolved)
qed

lemma dispatch_names:
  "map alert_name (alert_log (dispatch_alert e ty d n m g st)) = map alert_name (alert_log st) @ [next_alert st]"
  "map alert_name (alert_log (dispatch_recovery e ty d n m g st)) = map alert_name (alert_log st) @ [next_alert st]"
  using dispatch_alert_log(1) [of e ty d n m g st] dispatch_recovery_log(1) [of e ty d n m g st] by auto

lemma alert_inv_names:
  assumes "alert_inv st" and "map alert_name (alert_log st') = map alert_name (alert_log st) @ [next_alert st]"
    and "next_alert st' = Suc (next_alert st)"
  shows "alert_inv st'"
  using assms by (auto simp: alert_inv_def Let_def list_all_iff less_Suc_eq)

lemma alert_inv_dispatch: "alert_inv st \<Longrightarrow> alert_inv (dispatch_alert e ty d n m g st)"
  by (erule alert_inv_names) (simp_all add: dispatch_names dispatch_alert_log)

lemma alert_inv_recovery: "alert_inv st \<Longrightarrow> alert_inv (dispatch_recovery e ty d n m g st)"
  by (erule alert_inv_names) (simp_all add: dispatch_names dispatch_recovery_log)

lemma alert_inv_resolve: "alert_inv st \<Longrightarrow> alert_inv (resolve_alert d n ty st)"
  by (simp add: alert_inv_def Let_def del: map_map list.map)

lemma has_open_iff: "has_open_alert d n ty st \<longleftrightarrow> 0 < open_alerts_of st (d, n, ty)"
  by (simp add: has_open_alert_def open_alerts_of_def)

lemma open_dispatch:
  "open_alerts_of (dispatch_alert e ty d n m g st) k = open_alerts_of st k + (if k = (d, n, ty) then 1 else 0)"
proof (cases k)
  case (fields d' n' ty')
  obtain chs where "alert_log (dispatch_alert e ty d n m g st) = alert_log st @
     [\<lparr>alert_name = next_alert st, alert_type = ty, reference_doctype = d, reference_name = n,
       alert_message = m, channels_sent = chs, sent_at = now_datetime e, resolved = False\<rparr>]"
    using dispatch_alert_log(1) by blast
  then show ?thesis by (auto simp: open_alerts_of_def open_row_def fields)
qed

lemma open_recovery:
  "open_alerts_of (dispatch_recovery e ty d n m g st) k = open_alerts_of st k"
proof (cases k)
  case (fields d' n' ty')
  obtain chs where "alert_log (dispatch_recovery e ty d n m g st) = alert_log st @
     [\<lparr>alert_name = next_alert st, alert_type = ty, reference_doctype = d, reference_name = n,
       alert_message = m, channels_sent = chs, sent_at = now_datetime e, resolved = True\<rparr>]"
    using dispatch_recovery_log(1) by blast
  then show ?thesis by (simp add: open_alerts_of_def open_row_def fields)
qed

lemma filter_resolved:
  "filter (open_row d' n' ty') (map (\<lambda>r. if open_row d n ty r then r\<lparr>resolved := True\<rparr> else r) rs) =
     (if (d', n', ty') = (d, n, ty) then [] else filter (open_row d' n' ty') rs)"
proof (cases "(d', n', ty') = (d, n, ty)")
  case True
  then show ?thesis by (induction rs) (auto simp: open_row_def)
next
  case False
  then have "open_row d n ty r \<Longrightarrow> \<not> open_row d' n' ty' r" for r by (auto simp: open_row_def)
  moreover have "\<not> open_row d' n' ty' (r\<lparr>resolved := True\<rparr>)" for r by (simp add: open_row_def)
  ultimately have "filter (open_row d' n' ty') (map (\<lambda>r. if open_row d n ty r then r\<lparr>resolved := True\<rparr> else r) rs)
      = filter (open_row d' n' ty') rs"
    by (induction rs) auto
  then show ?thesis using False by (simp only: if_False)
qed

lemma open_resolve:
  assumes "alert_inv st"
  shows "open_alerts_of (resolve_alert d n ty st) k = (if k = (d, n, ty) then 0 else open_alerts_of st k)"
  by (cases k) (simp add: open_alerts_of_def resolve_alert_log [OF assms] filter_resolved del: filter_map)

interpretation alog: incident_log alert_inv open_alerts_of
  "\<lambda>st (d, n, ty). has_open_alert d n ty st"
  "\<lambda>(d, n, ty) (m, g). dispatch_alert e ty d n m g"
  "\<lambda>(d, n, ty). resolve_alert d n ty"
  "\<lambda>(d, n, ty) (m, g). dispatch_recovery e ty d n m g" for e :: env
  by unfold_locales
    (auto simp: has_open_iff open_dispatch open_recovery open_resolve
      alert_inv_dispatch alert_inv_recovery alert_inv_resolve split: prod.splits)

lemmas open_laws [open_simps] = open_dispatch open_recovery open_resolve has_open_iff

subsection \<open>Recipient lists\<close>

lemma merge_recipients_props:
  "set (merge_recipients seen vs) \<subseteq> set (filter (\<lambda>v. v \<noteq> []) (map py_strip vs))"
  "distinct (map py_lower (merge_recipients seen vs))"
  "py_lower ` set (merge_recipients seen vs) =
     py_lower ` set (filter (\<lambda>v. v \<noteq> []) (map py_strip vs)) - set seen"
proof (induction vs arbitrary: seen)
  case (Cons v vs)
  {
    case 1
    show ?case using Cons.IH(1) by (auto simp: Let_def)
  next
    case 2
    show ?case using Cons.IH(2,3) [of "py_lower (py_strip v) # seen"] Cons.IH(2) [of seen]
      by (auto simp: Let_def)
  next
    case 3
    show ?case using Cons.IH(3) [of "py_lower (py_strip v) # seen"] Cons.IH(3) [of seen]
      by (auto simp: Let_def)
  }
qed simp_all

text \<open>A channel's recipient list holds exactly the comma-separated entries of the setting, stripped
  and without the empty ones, each address once however it is capitalised; a disabled channel and
  a non-global alert have no recipients.\<close>

theorem recipients_exact:
  "set (recipients True v True) \<subseteq> set (strip_list v) \<and>
   distinct (map py_lower (recipients True v True)) \<and>
   py_lower ` set (recipients True v True) = py_lower ` set (strip_list v) \<and>
   recipients False v g = [] \<and> recipients b v False = []"
  using merge_recipients_props [of "[]" "py_split (CHR '','') (opt_str v)"]
  by (simp add: recipients_def strip_list_def)

subsection \<open>What is sent\<close>

lemma whatsapp_loop_sent:
  "whatsapp_loop e t m ns st = (ok, st') \<Longrightarrow>
     \<exists>k \<le> length ns. outbox st' = outbox st @ map (\<lambda>n. WhatsApp n t m) (take k ns) \<and> (ok \<longleftrightarrow> k = length ns)"
proof (induction ns arbitrary: st)
  case (Cons n ns)
  show ?case
  proof (cases "whatsapp_insert e n t m")
    case True
    with Cons.prems Cons.IH [of "st\<lparr>outbox := outbox st @ [WhatsApp n t m]\<rparr>"]
    obtain k where "k \<le> length ns"
      and "outbox st' = outbox st @ [WhatsApp n t m] @ map (\<lambda>n. WhatsApp n t m) (take k ns)"
      and "ok \<longleftrightarrow> k = length ns" by auto
    then show ?thesis by (intro exI [of _ "Suc k"]) auto
  next
    case False
    with Cons.prems show ?thesis by (intro exI [of _ 0]) auto
  qed
qed auto

lemma send_whatsapp_grows:
  assumes "send_whatsapp e ns t m st = (ok, st')"
  shows "\<exists>sent. outbox st' = outbox st @ sent"
  using assms by (auto simp: send_whatsapp_def split: if_splits prod.splits bool.splits
      dest: whatsapp_loop_sent)

text \<open>A WhatsApp send that is reported as delivered has inserted one message per number, in order;
  one that is not has inserted a prefix of them (an insert that raised stops the loop and what was
  inserted before stays), or nothing when the WhatsApp app is not installed.\<close>

theorem send_whatsapp_outcome:
  assumes "send_whatsapp e ns t m st = (ok, st')"
  shows "\<exists>k \<le> length ns. outbox st' = outbox st @ map (\<lambda>n. WhatsApp n t m) (take k ns) \<and>
    (ok \<longleftrightarrow> whatsapp_installed e \<and> ns \<noteq> [] \<and> k = length ns)"
proof (cases "whatsapp_installed e")
  case False
  with assms show ?thesis by (auto simp: send_whatsapp_def intro: exI [of _ 0])
next
  case True
  obtain ok1 st1 where loop: "whatsapp_loop e t m ns st = (ok1, st1)" by force
  from whatsapp_loop_sent [OF loop] obtain k where k: "k \<le> length ns"
    "outbox st1 = outbox st @ map (\<lambda>n. WhatsApp n t m) (take k ns)" "ok1 \<longleftrightarrow> k = length ns" by blast
  from assms True loop have "ok \<longleftrightarrow> ok1 \<and> ns \<noteq> []" and "outbox st' = outbox st1"
    by (auto simp: send_whatsapp_def split: bool.splits)
  with k True show ?thesis by auto
qed

definition demo_env :: env where
  "demo_env = \<lparr>now_datetime = 1000, sendmail = (\<lambda>rs sub msg. True), whatsapp_installed = True,
     whatsapp_insert = (\<lambda>n t m. n \<noteq> ''bad''), whatsapp_template_exists = (\<lambda>t. t = ''alert-en''),
     whatsapp_template_named = (\<lambda>t. if t = ''alert'' then Some ''alert-en'' else None)\<rparr>"

definition demo_settings :: monitor_settings where
  "demo_settings = \<lparr>enable_email_alerts = True, email_recipients = Some ''a@x, b@x'',
     enable_whatsapp_alerts = True, whatsapp_recipients = Some ''100,200'',
     whatsapp_template = Some ''alert'', whatsapp_recovery_template = Some ''alert'',
     whatsapp_health_digest_template = Some ''alert'', warning_threshold_percent = Some 85,
     critical_threshold_percent = Some 95, confirmation_checks_setting = Some 3,
     poll_interval_seconds = Some 20, backup_overdue_hours = Some 26,
     resource_history_enabled = True, resource_history_interval_seconds = Some 60,
     resource_history_retention_days = Some 30\<rparr>"

definition demo_db :: alert_db where
  "demo_db = \<lparr>alert_log = [], next_alert = 0, outbox = [], error_log = [], monitor_settings = demo_settings\<rparr>"

theorem send_whatsapp_outcome_witness:
  "\<exists>k \<le> 2. outbox (snd (send_whatsapp demo_env [''100'', ''bad''] ''alert-en'' ''m'' demo_db)) =
     map (\<lambda>n. WhatsApp n ''alert-en'' ''m'') (take k [''100'', ''bad'']) \<and> k \<noteq> 2"
  using send_whatsapp_outcome [of demo_env "[''100'', ''bad'']" "''alert-en''" "''m''" demo_db False
      "snd (send_whatsapp demo_env [''100'', ''bad''] ''alert-en'' ''m'' demo_db)"]
  by (simp add: send_whatsapp_def demo_env_def demo_db_def numeral_2_eq_2)

text \<open>C1: every alert is recorded, whatever the channels do: dispatching appends exactly one open row
  with a fresh name and the channels that accepted it, only adds to the outbox, and an alert
  of a digest or batched type sends nothing at all.\<close>

theorem dispatch_alert_records:
  "\<exists>chs sent. alert_log (dispatch_alert e ty d n m g st) = alert_log st @
     [\<lparr>alert_name = next_alert st, alert_type = ty, reference_doctype = d, reference_name = n,
       alert_message = m, channels_sent = py_join '', '' chs, sent_at = now_datetime e, resolved = False\<rparr>] \<and>
   outbox (dispatch_alert e ty d n m g st) = outbox st @ sent \<and>
   (ty \<in> set DIGEST_ONLY_ALERT_TYPES \<union> set BATCHED_RESOURCE_ALERT_TYPES \<longrightarrow>
      chs = [] \<and> sent = [] \<and> error_log (dispatch_alert e ty d n m g st) = error_log st) \<and>
   (\<not> g \<longrightarrow> chs = [] \<and> sent = [])"
proof -
  obtain chs st' where sc:
    "send_channels e ty m None (whatsapp_template (monitor_settings st)) g st = (chs, st')" by force
  have "\<exists>sent. outbox st' = outbox st @ sent"
    using sc by (auto simp: send_channels_def Let_def send_email_def split: if_splits prod.splits
        dest!: send_whatsapp_grows)
  then obtain sent where sent: "outbox st' = outbox st @ sent" ..
  have quiet: "chs = []" "st' = st"
    if "ty \<in> set DIGEST_ONLY_ALERT_TYPES \<union> set BATCHED_RESOURCE_ALERT_TYPES"
    using sc that by (auto simp: send_channels_def)
  have silent: "chs = []" "st' = st" if "\<not> g"
    using sc that by (auto simp: send_channels_def recipients_def Let_def split: if_splits)
  show ?thesis
    using send_channels_frame [OF sc] sent quiet silent
    by (intro exI [of _ chs] exI [of _ sent]) (auto simp: dispatch_alert_def sc insert_alert_def)
qed

theorem dispatch_alert_records_witness:
  "length (alert_log (dispatch_alert demo_env ''Service Down'' ''d'' ''n'' ''m'' True demo_db)) = 1 \<and>
   outbox (dispatch_alert demo_env ''Service Down'' ''d'' ''n'' ''m'' True demo_db) = []"
  using dispatch_alert_records [of demo_env "''Service Down''" "''d''" "''n''" "''m''" True demo_db]
  by (auto simp: DIGEST_ONLY_ALERT_TYPES_def demo_db_def)

text \<open>Resolving is scoped to one kind of incident of one document: afterwards no alert of that key is
  open, every other key keeps its open alerts, no row is added or lost and nothing is sent.\<close>

theorem resolve_alert_scoped:
  assumes "alert_inv st"
  shows "\<not> has_open_alert d n ty (resolve_alert d n ty st) \<and>
    ((d', n', ty') \<noteq> (d, n, ty) \<longrightarrow>
       filter (open_row d' n' ty') (alert_log (resolve_alert d n ty st)) = filter (open_row d' n' ty') (alert_log st)) \<and>
    map alert_name (alert_log (resolve_alert d n ty st)) = map alert_name (alert_log st) \<and>
    outbox (resolve_alert d n ty st) = outbox st"
proof (intro conjI impI)
  show "\<not> has_open_alert d n ty (resolve_alert d n ty st)"
    using assms by (simp add: has_open_iff open_resolve)
  show "filter (open_row d' n' ty') (alert_log (resolve_alert d n ty st)) = filter (open_row d' n' ty') (alert_log st)"
    if "(d', n', ty') \<noteq> (d, n, ty)"
    using that by (simp only: resolve_alert_log [OF assms] filter_resolved if_False)
qed (rule resolve_alert_names, rule resolve_alert_frame)

theorem resolve_alert_scoped_witness:
  "alert_inv demo_db \<and> (let st = dispatch_alert demo_env ''A'' ''d'' ''n'' ''m'' True
       (dispatch_alert demo_env ''B'' ''d'' ''n'' ''m'' True demo_db)
     in \<not> has_open_alert ''d'' ''n'' ''A'' (resolve_alert ''d'' ''n'' ''A'' st) \<and>
        filter (open_row ''d'' ''n'' ''B'') (alert_log (resolve_alert ''d'' ''n'' ''A'' st)) =
          filter (open_row ''d'' ''n'' ''B'') (alert_log st))"
proof -
  have inv: "alert_inv demo_db" by (simp add: alert_inv_def demo_db_def)
  note inv2 = alert_inv_dispatch [OF alert_inv_dispatch [OF inv]]
  show ?thesis
    using inv resolve_alert_scoped [OF inv2, where d = "''d''" and n = "''n''" and ty = "''A''" and d' = "''d''" and n' = "''n''" and ty' = "''B''"] by (simp add: Let_def)
qed

end
