(* ===== verification/Severity.thy ===== *)
theory Severity
  imports Alert_Dispatch
begin

text \<open>
  The shared alerting core of \<open>tasks/poller.py\<close>: the two-phase severity tracker with its
  confirmation streaks, the transition handler every monitor funnels through, and the text
  that names the metrics over a threshold. Every monitored document (server, guest,
  datastore) carries the streak counters and the critical flag, so these are the base record
  the documents extend.
\<close>

record thresholds =
  warning_percent :: int
  critical_percent :: int
  confirmation_checks :: int

definition get_thresholds :: "'a alert_db_scheme \<Rightarrow> thresholds" where
  "get_thresholds st =
     \<lparr>warning_percent = or_int (warning_threshold_percent (monitor_settings st)) 85,
      critical_percent = or_int (critical_threshold_percent (monitor_settings st)) 95,
      confirmation_checks = or_int (confirmation_checks_setting (monitor_settings st)) 3\<rparr>"

record monitored_doc =
  warning_streak :: "int option"
  critical_streak :: "int option"
  is_critical :: bool

definition track_severity ::
    "'a monitored_doc_scheme \<Rightarrow> rat \<Rightarrow> thresholds \<Rightarrow> (bool \<times> bool) \<times> 'a monitored_doc_scheme" where
  "track_severity doc value th =
     (let cs = (if value \<ge> of_int (critical_percent th) then opt_int (critical_streak doc) + 1 else 0);
          ws = (if value \<ge> of_int (warning_percent th) then opt_int (warning_streak doc) + 1 else 0);
          crit = cs \<ge> confirmation_checks th;
          warn = ws \<ge> confirmation_checks th
      in ((crit, warn \<and> \<not> crit), doc\<lparr>critical_streak := Some cs, warning_streak := Some ws\<rparr>))"

definition format_over_threshold :: "(string \<times> rat) list \<Rightarrow> int \<Rightarrow> string" where
  "format_over_threshold metrics threshold =
     py_join '', '' (map (\<lambda>(label, value). label @ '' '' @ show_int (py_round value) @ ''%'')
       (filter (\<lambda>(label, value). value \<ge> of_int threshold) metrics))"

definition handle_transition ::
    "env \<Rightarrow> bool \<Rightarrow> bool \<Rightarrow> string \<Rightarrow> string \<Rightarrow> string \<Rightarrow> string \<Rightarrow> string option \<Rightarrow> bool
      \<Rightarrow> 'a alert_db_scheme \<Rightarrow> 'a alert_db_scheme" where
  "handle_transition e was_critical is_crit doctype name atype message recovery_message notify_global st =
     (if is_crit \<and> \<not> was_critical then dispatch_alert e atype doctype name message notify_global st
      else if was_critical \<and> \<not> is_crit then
        (let st' = resolve_alert doctype name atype st
         in if truthy recovery_message
            then dispatch_recovery e atype doctype name (opt_str recovery_message) notify_global st'
            else st')
      else if is_crit \<and> was_critical \<and> \<not> has_open_alert doctype name atype st
        then dispatch_alert e atype doctype name message notify_global st
      else st)"

subsection \<open>Confirmation streaks\<close>

text \<open>A history of readings, fed to the tracker one poll at a time.\<close>

fun track_all :: "'a monitored_doc_scheme \<Rightarrow> rat list \<Rightarrow> thresholds \<Rightarrow> 'a monitored_doc_scheme" where
  "track_all doc [] th = doc"
| "track_all doc (v # vs) th = track_all (snd (track_severity doc v th)) vs th"

text \<open>The reference: the last \<open>n\<close> readings of a history all reach a threshold.\<close>

definition sustained :: "nat \<Rightarrow> int \<Rightarrow> rat list \<Rightarrow> bool" where
  "sustained n limit vs \<longleftrightarrow> n \<le> length vs \<and> list_all (\<lambda>v. of_int limit \<le> v) (drop (length vs - n) vs)"

definition run_length :: "int \<Rightarrow> rat list \<Rightarrow> nat" where
  "run_length limit vs = length (takeWhile (\<lambda>v. of_int limit \<le> v) (rev vs))"

lemma run_length_snoc [simp]:
  "run_length limit (vs @ [v]) = (if of_int limit \<le> v then Suc (run_length limit vs) else 0)"
  by (simp add: run_length_def)

lemma run_length_Nil [simp]: "run_length limit [] = 0"
  by (simp add: run_length_def)

lemma le_takeWhile_iff: "n \<le> length (takeWhile P xs) \<longleftrightarrow> n \<le> length xs \<and> list_all P (take n xs)"
proof (induction xs arbitrary: n)
  case (Cons x xs)
  then show ?case by (cases n) auto
qed simp

lemma sustained_iff_run_length: "sustained n limit vs \<longleftrightarrow> n \<le> run_length limit vs"
proof -
  have "list_all P (take n (rev vs)) \<longleftrightarrow> list_all P (drop (length vs - n) vs)" for P
    by (simp add: take_rev list_all_iff)
  then show ?thesis by (simp add: sustained_def run_length_def le_takeWhile_iff)
qed

lemma track_all_snoc: "track_all doc (vs @ [v]) th = snd (track_severity (track_all doc vs th) v th)"
  by (induction vs arbitrary: doc) simp_all

text \<open>The counters stored on a document that starts without history are the lengths of the current runs.\<close>

lemma track_all_streaks:
  assumes "opt_int (critical_streak doc) = 0" and "opt_int (warning_streak doc) = 0"
  shows "opt_int (critical_streak (track_all doc vs th)) = int (run_length (critical_percent th) vs)"
    and "opt_int (warning_streak (track_all doc vs th)) = int (run_length (warning_percent th) vs)"
proof (induction vs rule: rev_induct)
  case (snoc v vs)
  {
    case 1
    show ?case using snoc.IH by (simp add: track_all_snoc track_severity_def Let_def)
  next
    case 2
    show ?case using snoc.IH by (simp add: track_all_snoc track_severity_def Let_def)
  }
qed (use assms in simp_all)

text \<open>C2: The severity the tracker reports after a history of polls is Critical exactly when the last
  \<open>confirmation_checks\<close> readings all reached the critical line, and Warning exactly when they all
  reached the warning line and Critical does not apply; so one reading below a line always clears
  it, a single spike never confirms, and the two verdicts exclude each other.\<close>

theorem severity_needs_confirmation:
  assumes "critical_streak doc = None" and "warning_streak doc = None"
    and "confirmation_checks th = int n"
  shows "fst (track_severity (track_all doc vs th) v th) =
     (sustained n (critical_percent th) (vs @ [v]),
      sustained n (warning_percent th) (vs @ [v]) \<and> \<not> sustained n (critical_percent th) (vs @ [v]))"
proof -
  note streaks = track_all_streaks [of doc vs th]
  have suc: "int n \<le> int k + 1 \<longleftrightarrow> n \<le> Suc k" for k by arith
  have "fst (track_severity (track_all doc vs th) v th) =
     (int n \<le> int (run_length (critical_percent th) (vs @ [v])),
      int n \<le> int (run_length (warning_percent th) (vs @ [v])) \<and>
      \<not> int n \<le> int (run_length (critical_percent th) (vs @ [v])))"
    using streaks assms by (simp add: track_severity_def Let_def suc)
  then show ?thesis by (simp only: sustained_iff_run_length of_nat_le_iff)
qed

definition demo_thresholds :: thresholds where
  "demo_thresholds = \<lparr>warning_percent = 85, critical_percent = 95, confirmation_checks = 3\<rparr>"

definition fresh_doc :: monitored_doc where
  "fresh_doc = \<lparr>warning_streak = None, critical_streak = None, is_critical = False\<rparr>"

theorem severity_needs_confirmation_witness:
  "fst (track_severity (track_all fresh_doc [96, 97] demo_thresholds) 98 demo_thresholds) = (True, False) \<and>
   fst (track_severity (track_all fresh_doc [96, 50] demo_thresholds) 98 demo_thresholds) = (False, False)"
proof -
  have h: "critical_streak fresh_doc = None" "warning_streak fresh_doc = None"
    "confirmation_checks demo_thresholds = int 3"
    by (simp_all add: fresh_doc_def demo_thresholds_def)
  show ?thesis
    using severity_needs_confirmation [OF h, of "[96, 97]" 98] severity_needs_confirmation [OF h, of "[96, 50]" 98]
    by (simp add: sustained_def demo_thresholds_def)
qed

text \<open>Dropping out of Critical into the warning band reports Warning at once, without counting
  again: the warning counter keeps running while a document is critical.\<close>

theorem critical_falls_back_to_warning:
  assumes "fst (fst (track_severity doc v th))" and "critical_percent th \<ge> warning_percent th"
    and "of_int (warning_percent th) \<le> v'" and "v' < of_int (critical_percent th)"
    and "opt_int (critical_streak doc) \<le> opt_int (warning_streak doc)"
    and "confirmation_checks th > 0"
  shows "fst (track_severity (snd (track_severity doc v th)) v' th) = (False, True)"
proof -
  have "\<not> v' \<ge> of_int (critical_percent th)" using assms(4) by simp
  moreover have "v \<ge> of_int (critical_percent th)"
    using assms(1,6) by (auto simp: track_severity_def Let_def split: if_splits)
  moreover have "v \<ge> of_int (warning_percent th)"
    using calculation(2) assms(2) by (meson of_int_le_iff order_trans)
  ultimately show ?thesis
    using assms(1,3,5,6) by (auto simp: track_severity_def Let_def)
qed

theorem critical_falls_back_to_warning_witness:
  "fst (track_severity (snd (track_severity (track_all fresh_doc [96, 97] demo_thresholds) 98 demo_thresholds))
     90 demo_thresholds) = (False, True)"
  by (rule critical_falls_back_to_warning)
    (simp_all add: track_severity_def demo_thresholds_def fresh_doc_def)

subsection \<open>The transition handler is the edge trigger\<close>

lemma handle_transition_edge:
  "handle_transition e was now d n ty m rec g st =
     edge_trigger (\<lambda>st. has_open_alert d n ty st) (dispatch_alert e ty d n m g) (resolve_alert d n ty)
       (if truthy rec then dispatch_recovery e ty d n (opt_str rec) g else id) was now st"
  by (simp add: handle_transition_def edge_trigger_def Let_def)

lemma handle_transition_inv: "alert_inv st \<Longrightarrow> alert_inv (handle_transition e was now d n ty m rec g st)"
  by (simp add: handle_transition_def Let_def alert_inv_dispatch alert_inv_recovery alert_inv_resolve)

lemma handle_transition_frame [frame_simps, simp]:
  "monitor_settings (handle_transition e was now d n ty m rec g st) = monitor_settings st"
  "alert_db.more (handle_transition e was now d n ty m rec g st) = alert_db.more st"
  by (simp_all add: handle_transition_def Let_def)

lemma handle_transition_open [open_simps]:
  assumes "alert_inv st" and "has_open_alert d n ty st \<longrightarrow> was"
  shows "has_open_alert d n ty (handle_transition e was now d n ty m rec g st) \<longleftrightarrow> now"
  using alog.edge_open(1) [where s = st and k = "(d, n, ty)" and was = was and now = now and e = e
      and m = "(m, g)" and m' = "(opt_str rec, g)"]
    alog.edge_open(2) [where s = st and k = "(d, n, ty)" and was = was and now = now and e = e
      and m = "(m, g)"] assms
  by (simp add: handle_transition_edge)

lemma handle_transition_at_most_one:
  assumes "alert_inv st" and "has_open_alert d n ty st \<longrightarrow> was" and "open_alerts_of st (d, n, ty) \<le> 1"
  shows "open_alerts_of (handle_transition e was now d n ty m rec g st) (d, n, ty) \<le> 1"
  using alog.edge_at_most_one(1) [where s = st and k = "(d, n, ty)" and was = was and now = now and e = e
      and m = "(m, g)" and m' = "(opt_str rec, g)"]
    alog.edge_at_most_one(2) [where s = st and k = "(d, n, ty)" and was = was and now = now and e = e
      and m = "(m, g)"] assms
  by (simp add: handle_transition_edge)

lemma handle_transition_other [open_simps]:
  assumes "alert_inv st" and "k \<noteq> (d, n, ty)"
  shows "open_alerts_of (handle_transition e was now d n ty m rec g st) k = open_alerts_of st k"
  using alog.edge_other(1) [where s = st and k = "(d, n, ty)" and k' = k and was = was and now = now and e = e
      and m = "(m, g)" and m' = "(opt_str rec, g)"]
    alog.edge_other(2) [where s = st and k = "(d, n, ty)" and k' = k and was = was and now = now and e = e
      and m = "(m, g)"] assms
  by (simp add: handle_transition_edge)

lemma handle_transition_quiet:
  assumes "has_open_alert d n ty st \<longleftrightarrow> now" and "was = now"
  shows "handle_transition e was now d n ty m rec g st = st"
  using assms by (auto simp: handle_transition_def)

text \<open>The verdicts of successive polls, each compared with the one before.\<close>

fun transitions ::
    "env \<Rightarrow> bool \<Rightarrow> bool list \<Rightarrow> string \<Rightarrow> string \<Rightarrow> string \<Rightarrow> string \<Rightarrow> string option \<Rightarrow> bool
      \<Rightarrow> 'a alert_db_scheme \<Rightarrow> 'a alert_db_scheme" where
  "transitions e was [] d n ty m rec g st = st"
| "transitions e was (v # vs) d n ty m rec g st =
     transitions e v vs d n ty m rec g (handle_transition e was v d n ty m rec g st)"

lemma transitions_sync:
  assumes "alert_inv st" and "open_alerts_of st (d, n, ty) = (if was then 1 else 0)"
  shows "open_alerts_of (transitions e was vs d n ty m rec g st) (d, n, ty) =
           (if last (was # vs) then 1 else 0)"
  using assms
proof (induction vs arbitrary: was st)
  case (Cons v vs)
  let ?t = "handle_transition e was v d n ty m rec g st"
  have pre: "has_open_alert d n ty st \<longrightarrow> was" using Cons.prems by (simp add: has_open_iff)
  have "has_open_alert d n ty ?t \<longleftrightarrow> v" using Cons.prems(1) pre by (rule handle_transition_open)
  moreover have "open_alerts_of ?t (d, n, ty) \<le> 1"
    using Cons.prems by (intro handle_transition_at_most_one) (auto simp: has_open_iff)
  ultimately have "open_alerts_of ?t (d, n, ty) = (if v then 1 else 0)"
    by (cases v) (auto simp: has_open_iff)
  with Cons.IH [OF handle_transition_inv [OF Cons.prems(1)]] show ?case by simp
qed simp

text \<open>C3: over any sequence of verdicts, each compared with the one before, an incident that starts in
  step with the log stays in step: exactly one alert of its kind is open while the last verdict is
  bad and none otherwise, so a persisting condition is reported once and never left dangling.\<close>

theorem transitions_keep_one_open:
  assumes "alert_inv st" and "open_alerts_of st (d, n, ty) = (if was then 1 else 0)"
  shows "open_alerts_of (transitions e was vs d n ty m rec g st) (d, n, ty) = (if last (was # vs) then 1 else 0) \<and>
    (vs \<noteq> [] \<and> list_all (\<lambda>v. v = was) vs \<longrightarrow> transitions e was vs d n ty m rec g st = st)"
proof (intro conjI impI)
  show "open_alerts_of (transitions e was vs d n ty m rec g st) (d, n, ty) = (if last (was # vs) then 1 else 0)"
    using assms by (rule transitions_sync)
  assume "vs \<noteq> [] \<and> list_all (\<lambda>v. v = was) vs"
  then have "list_all (\<lambda>v. v = was) vs" by simp
  then show "transitions e was vs d n ty m rec g st = st"
    using assms(2)
    by (induction vs) (auto simp: handle_transition_quiet has_open_iff)
qed

theorem transitions_keep_one_open_witness:
  "open_alerts_of (transitions demo_env False [True, True, False, True] ''d'' ''n'' ''Critical Resource'' ''m'' None True demo_db)
     (''d'', ''n'', ''Critical Resource'') = 1"
proof -
  have "alert_inv demo_db" "open_alerts_of demo_db (''d'', ''n'', ''Critical Resource'') = (if False then 1 else 0)"
    by (simp_all add: alert_inv_def demo_db_def open_alerts_of_def)
  from transitions_keep_one_open [OF this, of demo_env "[True, True, False, True]" "''m''" None True]
  show ?thesis by simp
qed

text \<open>A condition that is already critical but has no open alert (the log was cleared, or alerting was
  set up later) is reported at the next poll.\<close>

theorem handle_transition_self_heals:
  assumes "alert_inv st" and "\<not> has_open_alert d n ty st"
  shows "open_alerts_of (handle_transition e True True d n ty m rec g st) (d, n, ty) = 1"
  using assms by (simp add: handle_transition_def has_open_iff open_dispatch)

theorem handle_transition_self_heals_witness:
  "open_alerts_of (handle_transition demo_env True True ''d'' ''n'' ''Site Down'' ''m'' None True demo_db)
     (''d'', ''n'', ''Site Down'') = 1"
  by (rule handle_transition_self_heals) (simp_all add: alert_inv_def demo_db_def has_open_alert_def)

end
