(* ===== verification/Proxmox_Client.thy ===== *)
theory Proxmox_Client
  imports Pulse_Prelude
begin

text \<open>
  \<open>proxmox_client/pve.py\<close> and \<open>proxmox_client/pbs.py\<close>. What the HTTP server answers is a
  parameter: one record per API with a field per endpoint, giving the decoded answer or the
  \<open>ProxmoxAPIError\<close> that \<open>BaseProxmoxClient.get\<close> raises. A JSON object is a record whose
  optional fields are the keys the code reads with \<open>.get\<close>; the client methods that do more than
  pass an answer on are the functions below.
\<close>

datatype api_error = ProxmoxAPIError string

record node_status =
  ns_cpu :: "rat option"
  ns_mem_used :: "rat option"
  ns_mem_total :: "rat option"
  ns_swap_used :: "rat option"
  ns_swap_total :: "rat option"
  ns_root_used :: "rat option"
  ns_root_total :: "rat option"
  ns_cores :: "int option"
  ns_uptime :: "int option"
  ns_loadavg :: "rat list"

record vm_summary =
  vm_vmid :: int
  vm_name :: "string option"
  vm_status :: "string option"
  vm_cpu :: "rat option"
  vm_mem :: "rat option"
  vm_maxmem :: "rat option"
  vm_disk :: "rat option"
  vm_maxdisk :: "rat option"
  vm_swap :: "rat option"
  vm_maxswap :: "rat option"
  vm_uptime :: "int option"
  vm_cpus :: "int option"

record pve_storage =
  st_storage :: string
  st_type :: "string option"
  st_used :: "rat option"
  st_total :: "rat option"

record vzdump_task =
  tk_upid :: "string option"
  tk_id :: "string option"
  tk_status :: "string option"
  tk_starttime :: int
  tk_endtime :: "int option"

record backup_file =
  bf_vmid :: "int option"
  bf_ctime :: "rat option"
  bf_notes :: "string option"

record filesystem =
  fs_total :: "int option"
  fs_used :: "int option"

record agent_iface =
  ai_name :: "string option"
  ai_addrs :: "(string option \<times> string option) list"

record lxc_iface =
  li_name :: "string option"
  li_inet :: "string option"
  li_inet6 :: "string option"

record pve_api =
  api_nodes :: "api_error + string list"
  api_node_status :: "string \<Rightarrow> api_error + node_status"
  api_qemu :: "string \<Rightarrow> api_error + vm_summary list"
  api_lxc :: "string \<Rightarrow> api_error + vm_summary list"
  api_storage :: "string \<Rightarrow> api_error + pve_storage list"
  api_tasks :: "string \<Rightarrow> api_error + vzdump_task list"
  api_task_log :: "string \<Rightarrow> string \<Rightarrow> api_error + string list"
  api_backup_files :: "string \<Rightarrow> string \<Rightarrow> api_error + backup_file list"
  api_fsinfo :: "string \<Rightarrow> int \<Rightarrow> api_error + filesystem list"
  api_agent_ifaces :: "string \<Rightarrow> int \<Rightarrow> api_error + agent_iface list"
  api_lxc_ifaces :: "string \<Rightarrow> int \<Rightarrow> api_error + lxc_iface list"

definition discover_node_name :: "pve_api \<Rightarrow> api_error + string" where
  "discover_node_name c =
     (case api_nodes c of
        Inl err \<Rightarrow> Inl err
      | Inr [] \<Rightarrow> Inl (ProxmoxAPIError ''PVE host returned no nodes'')
      | Inr (n # _) \<Rightarrow> Inr n)"

text \<open>The sums over the guest agent's file systems: an entry without a size is skipped.\<close>

fun fs_sums :: "filesystem list \<Rightarrow> int \<times> int \<Rightarrow> int \<times> int" where
  "fs_sums [] acc = acc"
| "fs_sums (f # fs) (tot, used) =
     (if opt_int (fs_total f) \<noteq> 0
      then fs_sums fs (tot + opt_int (fs_total f), used + opt_int (fs_used f))
      else fs_sums fs (tot, used))"

definition get_qemu_disk_usage_percent :: "pve_api \<Rightarrow> string \<Rightarrow> int \<Rightarrow> rat option" where
  "get_qemu_disk_usage_percent c node vmid =
     (case api_fsinfo c node vmid of
        Inl _ \<Rightarrow> None
      | Inr [] \<Rightarrow> None
      | Inr fs \<Rightarrow> (case fs_sums fs (0, 0) of (total_bytes, used_bytes) \<Rightarrow>
          if total_bytes = 0 then None
          else Some (py_round_nd 1 (of_int used_bytes / of_int total_bytes * 100))))"

fun first_ipv4 :: "(string option \<times> string option) list \<Rightarrow> string option option" where
  "first_ipv4 [] = None"
| "first_ipv4 ((ty, ip) # rest) = (if ty = Some ''ipv4'' then Some ip else first_ipv4 rest)"

fun agent_ip_loop :: "agent_iface list \<Rightarrow> string option" where
  "agent_ip_loop [] = None"
| "agent_ip_loop (i # is) =
     (if ai_name i = Some ''lo'' then agent_ip_loop is
      else case first_ipv4 (ai_addrs i) of Some ip \<Rightarrow> ip | None \<Rightarrow> agent_ip_loop is)"

definition get_qemu_agent_ip :: "pve_api \<Rightarrow> string \<Rightarrow> int \<Rightarrow> string option" where
  "get_qemu_agent_ip c node vmid =
     (case api_agent_ifaces c node vmid of Inl _ \<Rightarrow> None | Inr ifs \<Rightarrow> agent_ip_loop ifs)"

fun lxc_ip_loop :: "lxc_iface list \<Rightarrow> string option" where
  "lxc_ip_loop [] = None"
| "lxc_ip_loop (i # is) =
     (if li_name i = Some ''lo'' then lxc_ip_loop is
      else if truthy (li_inet i) then Some (hd (py_split (CHR ''/'') (opt_str (li_inet i))))
      else if truthy (li_inet6 i) then Some (hd (py_split (CHR ''/'') (opt_str (li_inet6 i))))
      else lxc_ip_loop is)"

definition get_lxc_ip :: "pve_api \<Rightarrow> string \<Rightarrow> int \<Rightarrow> string option" where
  "get_lxc_ip c node vmid =
     (case api_lxc_ifaces c node vmid of Inl _ \<Rightarrow> None | Inr ifs \<Rightarrow> lxc_ip_loop ifs)"

subsection \<open>Proxmox Backup Server\<close>

record snapshot =
  sn_backup_id :: "string option"
  sn_backup_time :: "int option"
  sn_size :: "rat option"

record pbs_api =
  pbs_node_status :: "string \<Rightarrow> api_error + node_status"
  pbs_datastores :: "api_error + string list"
  pbs_datastore_usage :: "string \<Rightarrow> api_error + (rat option \<times> rat option)"
  pbs_snapshots :: "string \<Rightarrow> api_error + snapshot list"

definition pbs_discover_node_name :: string where
  "pbs_discover_node_name = ''localhost''"

definition snapshot_group :: "snapshot \<Rightarrow> string" where
  "snapshot_group s = (case sn_backup_id s of None \<Rightarrow> ''unknown'' | Some i \<Rightarrow> i)"

definition list_snapshots_by_guest :: "pbs_api \<Rightarrow> string \<Rightarrow> api_error + (string \<times> snapshot list) list" where
  "list_snapshots_by_guest c store =
     map_sum id (\<lambda>snaps. map (\<lambda>(k, g). (k, sort_key (\<lambda>s. - opt_int (sn_backup_time s)) g)) (group_rows snapshot_group snaps))
       (pbs_snapshots c store)"

subsection \<open>Properties\<close>

lemma fs_sums_eq:
  "fs_sums fs (t, u) =
     (t + sum_list (map (\<lambda>f. opt_int (fs_total f)) fs),
      u + sum_list (map (\<lambda>f. if opt_int (fs_total f) = 0 then 0 else opt_int (fs_used f)) fs))"
  by (induction fs arbitrary: t u) auto

lemma fs_used_le_total:
  assumes "list_all (\<lambda>f. 0 \<le> opt_int (fs_used f) \<and> opt_int (fs_used f) \<le> opt_int (fs_total f)) fs"
    and "fs_sums fs (0, 0) = (t, u)"
  shows "0 \<le> u" "u \<le> t"
proof -
  let ?u = "\<lambda>f. if opt_int (fs_total f) = 0 then 0 else opt_int (fs_used f)"
  have "0 \<le> sum_list (map ?u fs) \<and> sum_list (map ?u fs) \<le> sum_list (map (\<lambda>f. opt_int (fs_total f)) fs)"
    using assms(1) by (induction fs) auto
  moreover have "t = sum_list (map (\<lambda>f. opt_int (fs_total f)) fs)" and "u = sum_list (map ?u fs)"
    using assms(2) by (simp_all add: fs_sums_eq)
  ultimately show "0 \<le> u" and "u \<le> t" by simp_all
qed

text \<open>The disk usage read through the guest agent is a percentage: when every file system uses at most
  its size, the reported value lies between 0 and 100, and no value is reported when the agent
  fails, answers nothing, or reports no sized file system.\<close>

theorem qemu_disk_usage_percentage:
  assumes "api_fsinfo c node vmid = Inr fs"
    and "list_all (\<lambda>f. 0 \<le> opt_int (fs_used f) \<and> opt_int (fs_used f) \<le> opt_int (fs_total f)) fs"
    and "get_qemu_disk_usage_percent c node vmid = Some p"
  shows "0 \<le> p \<and> p \<le> 100 \<and> sum_list (map (\<lambda>f. opt_int (fs_total f)) fs) > 0"
proof -
  obtain t u where sums: "fs_sums fs (0, 0) = (t, u)" by force
  from fs_used_le_total [OF assms(2) sums] have ut: "0 \<le> u" "u \<le> t" .
  have t: "t = sum_list (map (\<lambda>f. opt_int (fs_total f)) fs)" using sums by (simp add: fs_sums_eq)
  from assms(1,3) sums have "t \<noteq> 0" and p: "p = py_round_nd 1 (of_int u / of_int t * 100)"
    by (auto simp: get_qemu_disk_usage_percent_def split: list.splits if_splits)
  with ut have "0 < t" by simp
  have "(of_int 0 :: rat) \<le> of_int u / of_int t * 100" "of_int u / of_int t * 100 \<le> (of_int 100 :: rat)"
    using ut \<open>0 < t\<close> by (simp_all add: divide_le_eq)
  then have "py_round_nd 1 (of_int 0) \<le> p" "p \<le> py_round_nd 1 (of_int 100)"
    unfolding p by (simp_all only: py_round_nd_mono)
  with \<open>0 < t\<close> t show ?thesis by (simp only: py_round_nd_of_int) simp
qed

definition demo_pve :: pve_api where
  "demo_pve = \<lparr>api_nodes = Inr [''pve1''], api_node_status = (\<lambda>n. Inl (ProxmoxAPIError ''down'')),
     api_qemu = (\<lambda>n. Inr []), api_lxc = (\<lambda>n. Inr []), api_storage = (\<lambda>n. Inr []), api_tasks = (\<lambda>n. Inr []),
     api_task_log = (\<lambda>n u. Inr []), api_backup_files = (\<lambda>n s. Inr []),
     api_fsinfo = (\<lambda>n v. Inr [\<lparr>fs_total = Some 200, fs_used = Some 50\<rparr>, \<lparr>fs_total = None, fs_used = None\<rparr>]),
     api_agent_ifaces = (\<lambda>n v. Inr []), api_lxc_ifaces = (\<lambda>n v. Inr [])\<rparr>"

theorem qemu_disk_usage_percentage_witness:
  "get_qemu_disk_usage_percent demo_pve ''pve1'' 100 = Some 25 \<and> (0 :: rat) \<le> 25 \<and> (25 :: rat) \<le> 100"
proof -
  have fs: "api_fsinfo demo_pve ''pve1'' 100 =
      Inr [\<lparr>fs_total = Some 200, fs_used = Some 50\<rparr>, \<lparr>fs_total = None, fs_used = None\<rparr>]"
    by (simp add: demo_pve_def)
  have v: "get_qemu_disk_usage_percent demo_pve ''pve1'' 100 = Some 25"
    by (simp add: get_qemu_disk_usage_percent_def fs py_round_nd_def py_round_def)
  show ?thesis using v qemu_disk_usage_percentage [OF fs _ v] by simp
qed

text \<open>Grouping the snapshots of a datastore loses none and puts the newest of each guest first.\<close>

theorem snapshots_newest_first:
  assumes "pbs_snapshots c store = Inr snaps"
    and "list_snapshots_by_guest c store = Inr groups" and "(k, g) \<in> set groups"
  shows "g \<noteq> [] \<and> mset g = mset (filter (\<lambda>s. snapshot_group s = k) snaps) \<and>
    (\<forall>s \<in> set snaps. snapshot_group s = k \<longrightarrow> opt_int (sn_backup_time s) \<le> opt_int (sn_backup_time (hd g)))"
proof -
  from assms obtain g0 where g0: "(k, g0) \<in> set (group_rows snapshot_group snaps)"
    and g: "g = sort_key (\<lambda>s. - opt_int (sn_backup_time s)) g0"
    by (auto simp: list_snapshots_by_guest_def)
  note g0_eq = group_rows_mem(1) [OF g0] and g0_ne = group_rows_mem(2) [OF g0]
  have ne: "g \<noteq> []" using g g0_ne by (metis length_0_conv length_sort)
  have "sorted (map (\<lambda>s. - opt_int (sn_backup_time s)) g)" unfolding g by simp
  then have "- opt_int (sn_backup_time (hd g)) \<le> - opt_int (sn_backup_time s)" if "s \<in> set g" for s
    using ne that by (cases g) auto
  then show ?thesis using ne g g0_eq by auto
qed

definition demo_pbs :: pbs_api where
  "demo_pbs = \<lparr>pbs_node_status = (\<lambda>n. Inl (ProxmoxAPIError ''down'')), pbs_datastores = Inr [''ds''],
     pbs_datastore_usage = (\<lambda>s. Inr (Some 10, Some 100)),
     pbs_snapshots = (\<lambda>s. Inr [\<lparr>sn_backup_id = Some ''100'', sn_backup_time = Some 5, sn_size = None\<rparr>,
       \<lparr>sn_backup_id = Some ''100'', sn_backup_time = Some 9, sn_size = None\<rparr>])\<rparr>"

theorem snapshots_newest_first_witness:
  "\<exists>g. list_snapshots_by_guest demo_pbs ''ds'' = Inr [(''100'', g)] \<and> sn_backup_time (hd g) = Some 9 \<and> g \<noteq> []"
proof -
  let ?a = "\<lparr>sn_backup_id = Some ''100'', sn_backup_time = Some 5, sn_size = None\<rparr>"
  let ?b = "\<lparr>sn_backup_id = Some ''100'', sn_backup_time = Some 9, sn_size = None\<rparr>"
  have p: "pbs_snapshots demo_pbs ''ds'' = Inr [?a, ?b]" by (simp add: demo_pbs_def)
  have l: "list_snapshots_by_guest demo_pbs ''ds'' = Inr [(''100'', [?b, ?a])]"
    by (simp add: list_snapshots_by_guest_def p group_rows_def snapshot_group_def)
  show ?thesis using l snapshots_newest_first [OF p l, of "''100''" "[?b, ?a]"] by simp
qed

end
