(* ===== verification/Proxmox_Store.thy ===== *)
theory Proxmox_Store
  imports Severity Proxmox_Client
begin

text \<open>
  The documents the Proxmox poller keeps: servers, guests, datastores, backup logs and the two
  metric logs, each a record with the fields of its doctype (\<open>proxmox_fleet_monitor/doctype\<close>,
  \<open>proxmox_resource_history/doctype\<close>), in tables that extend the alert state; the Redis keys
  with their expiry times; and what the poller's code only calls (the Redis server, the local
  time zone, row inserts that may fail), bundled in \<open>poll_env\<close>.
\<close>

record server = monitored_doc +
  srv_name :: string
  server_name :: string
  server_type :: string
  srv_role :: string
  hostname :: string
  srv_enabled :: bool
  srv_status :: string
  srv_cpu_usage :: "rat option"
  srv_memory_usage :: "rat option"
  srv_cores :: "int option"
  srv_memory_total :: rat
  srv_swap_usage :: "rat option"
  srv_swap_total :: "rat option"
  srv_storage_usage :: rat
  srv_storage_total :: rat
  srv_uptime :: int
  srv_load_avg :: "rat list"
  backup_critical :: bool
  last_error :: string
  srv_last_synced :: "datetime option"

record guest = monitored_doc +
  g_name :: string
  g_server :: string
  g_vmid :: int
  g_guest_name :: string
  g_guest_type :: string
  g_node :: string
  g_status :: string
  g_is_warning :: bool
  g_cpu_usage :: rat
  g_cpus :: "int option"
  g_memory_usage :: rat
  g_memory_total :: rat
  g_disk_usage :: "rat option"
  g_disk_total :: "rat option"
  g_uptime :: int
  g_last_synced :: "datetime option"
  g_last_successful_backup :: "datetime option"
  g_ip_address :: "string option"
  g_tags :: "string option"
  g_creation :: datetime

record datastore = monitored_doc +
  ds_name :: string
  ds_server :: string
  ds_datastore_name :: string
  ds_datastore_type :: string
  ds_storage_role :: string
  ds_is_warning :: bool
  ds_used :: rat
  ds_total :: rat
  ds_usage_percent :: rat
  ds_last_synced :: "datetime option"

record backup_log =
  bl_server :: string
  bl_guest :: "string option"
  bl_vmid :: int
  bl_backup_source :: string
  bl_status :: string
  bl_backup_time :: datetime
  bl_size :: "rat option"
  bl_storage_target :: string
  bl_notes :: string
  bl_error_message :: string
  bl_upid :: string

record host_metric =
  hm_server :: string
  hm_collected_at :: datetime
  hm_source :: string
  hm_cpu_usage :: rat
  hm_memory_usage :: rat
  hm_memory_used_gb :: rat
  hm_memory_total_gb :: rat
  hm_swap_usage :: "rat option"
  hm_swap_used_gb :: "rat option"
  hm_swap_total_gb :: "rat option"
  hm_storage_usage :: rat
  hm_storage_used_gb :: rat
  hm_storage_total_gb :: rat

record guest_metric =
  gm_guest :: string
  gm_server :: string
  gm_vmid :: int
  gm_guest_type :: string
  gm_collected_at :: datetime
  gm_source :: string
  gm_cpu_usage :: rat
  gm_memory_usage :: rat
  gm_memory_used_gb :: rat
  gm_memory_total_gb :: rat
  gm_disk_usage :: "rat option"
  gm_swap_usage_percent :: "rat option"
  gm_swap_used_gb :: "rat option"
  gm_swap_total_gb :: "rat option"

record proxmox_db = alert_db +
  servers :: "server list"
  guests :: "guest list"
  datastores :: "datastore list"
  backup_logs :: "backup_log list"
  host_metrics :: "host_metric list"
  guest_metrics :: "guest_metric list"
  cache_expiry :: "string \<Rightarrow> datetime option"

record poll_env =
  base_env :: env
  redis_up :: bool
  metric_insert_ok :: "string \<Rightarrow> bool"
  fromtimestamp :: "int \<Rightarrow> datetime"
  timestamp :: "datetime \<Rightarrow> rat"

definition clock :: "poll_env \<Rightarrow> datetime" where
  "clock pe = now_datetime (base_env pe)"

subsection \<open>Tables keyed by name\<close>

definition find_row :: "('r \<Rightarrow> string) \<Rightarrow> string \<Rightarrow> 'r list \<Rightarrow> 'r option" where
  "find_row key n rs = find (\<lambda>r. key r = n) rs"

definition put_row :: "('r \<Rightarrow> string) \<Rightarrow> 'r \<Rightarrow> 'r list \<Rightarrow> 'r list" where
  "put_row key r rs =
     (if find_row key (key r) rs = None then rs @ [r] else map (\<lambda>x. if key x = key r then r else x) rs)"

definition delete_rows :: "('r \<Rightarrow> string) \<Rightarrow> string list \<Rightarrow> 'r list \<Rightarrow> 'r list" where
  "delete_rows key ns rs = filter (\<lambda>r. key r \<notin> set ns) rs"

lemma find_row_None: "find_row key n rs = None \<longleftrightarrow> n \<notin> key ` set rs"
  by (auto simp: find_row_def find_None_iff)

lemma find_row_Some: "find_row key n rs = Some r \<Longrightarrow> r \<in> set rs \<and> key r = n"
  by (auto simp: find_row_def find_Some_iff)

lemma find_append: "find P (xs @ ys) = (case find P xs of None \<Rightarrow> find P ys | Some x \<Rightarrow> Some x)"
  by (induction xs) auto

lemma find_row_put_same: "find_row key (key r) (put_row key r rs) = Some r"
proof (cases "find_row key (key r) rs = None")
  case True
  then show ?thesis by (simp add: put_row_def) (simp add: find_row_def find_append)
next
  case False
  then have "find (\<lambda>x. key x = key r) (map (\<lambda>x. if key x = key r then r else x) rs) = Some r"
    unfolding find_row_def by (induction rs) auto
  with False show ?thesis by (auto simp: put_row_def find_row_def)
qed

lemma find_row_put_other: "n \<noteq> key r \<Longrightarrow> find_row key n (put_row key r rs) = find_row key n rs"
proof -
  assume n: "n \<noteq> key r"
  have "find (\<lambda>x. key x = n) (map (\<lambda>x. if key x = key r then r else x) rs) = find (\<lambda>x. key x = n) rs"
    using n by (induction rs) auto
  then show ?thesis using n
    by (auto simp: put_row_def find_row_def find_append split: option.splits)
qed

lemma find_row_put:
  "find_row key n (put_row key r rs) = (if n = key r then Some r else find_row key n rs)"
  by (simp add: find_row_put_same find_row_put_other)

lemma set_put_row:
  "set (put_row key r rs) \<subseteq> insert r (set rs)" "r \<in> set (put_row key r rs)"
proof -
  show "set (put_row key r rs) \<subseteq> insert r (set rs)" by (auto simp: put_row_def)
  show "r \<in> set (put_row key r rs)"
    using find_row_Some [OF find_row_put_same [of key r rs]] by simp
qed

lemma map_key_put_row:
  "map key (put_row key r rs) = (if key r \<in> key ` set rs then map key rs else map key rs @ [key r])"
  by (auto simp: put_row_def find_row_None)

lemma distinct_put_row: "distinct (map key rs) \<Longrightarrow> distinct (map key (put_row key r rs))"
  by (simp add: map_key_put_row)

lemma find_row_delete:
  "find_row key n (delete_rows key ns rs) = (if n \<in> set ns then None else find_row key n rs)"
  unfolding find_row_def delete_rows_def by (induction rs) auto

lemma distinct_delete_rows: "distinct (map key rs) \<Longrightarrow> distinct (map key (delete_rows key ns rs))"
  by (simp add: delete_rows_def distinct_map_filter)

lemma delete_rows_filter:
  assumes "distinct (map key rs)"
  shows "delete_rows key (map key (filter P rs)) rs = filter (\<lambda>r. \<not> P r) rs"
  unfolding delete_rows_def
proof (rule filter_cong [OF refl])
  fix r assume "r \<in> set rs"
  with assms show "(key r \<notin> set (map key (filter P rs))) = (\<not> P r)"
    by (auto simp: distinct_map dest: inj_onD)
qed

text \<open>A row whose key is unique in the table is the row its key finds.\<close>

lemma find_row_member: "distinct (map key rs) \<Longrightarrow> r \<in> set rs \<Longrightarrow> find_row key (key r) rs = Some r"
  unfolding find_row_def by (induction rs) auto

lemma find_row_map_if:
  assumes "\<And>x. key (f x) = key x"
  shows "find_row key n (map (\<lambda>x. if P x then f x else x) rs) = map_option (\<lambda>x. if P x then f x else x) (find_row key n rs)"
  unfolding find_row_def using assms by (induction rs) auto

lemma find_row_map_name:
  assumes "\<And>x. key (f x) = key x"
  shows "find_row key n (map (\<lambda>a. if key a = n then f a else a) rs) = map_option f (find_row key n rs)"
  unfolding find_row_def using assms by (induction rs) auto

subsection \<open>Cache keys with a time to live\<close>

definition cache_get :: "poll_env \<Rightarrow> string \<Rightarrow> ('a proxmox_db_scheme) \<Rightarrow> bool" where
  "cache_get pe k st \<longleftrightarrow> (case cache_expiry st k of None \<Rightarrow> False | Some t \<Rightarrow> clock pe < t)"

definition cache_set :: "poll_env \<Rightarrow> string \<Rightarrow> int \<Rightarrow> 'a proxmox_db_scheme \<Rightarrow> 'a proxmox_db_scheme" where
  "cache_set pe k expires_in_sec st =
     st\<lparr>cache_expiry := (cache_expiry st)(k := Some (clock pe + expires_in_sec * SECOND))\<rparr>"

end
