(* ===== verification/Batch_Purge.thy ===== *)
theory Batch_Purge
  imports Pulse_Prelude
begin

text \<open>
  The retention loop the purge jobs of the app share (\<open>proxmox_resource_history/retention.py\<close>,
  \<open>tasks/uptime_kuma_poller.py\<close>, \<open>tasks/resource_monitor.py\<close>): query at most \<open>batch\<close> expired
  rows, delete them, commit, and stop after a query that came back short or empty.
\<close>

text \<open>Delete the first \<open>n\<close> rows that satisfy \<open>old\<close>: the rows one limited query names.\<close>

fun delete_some :: "nat \<Rightarrow> ('r \<Rightarrow> bool) \<Rightarrow> 'r list \<Rightarrow> 'r list" where
  "delete_some n old [] = []"
| "delete_some n old (r # rs) =
     (if old r \<and> n > 0 then delete_some (n - 1) old rs else r # delete_some n old rs)"

lemma filter_delete_some: "filter old (delete_some n old rs) = drop n (filter old rs)"
proof (induction n old rs rule: delete_some.induct)
  case (2 n old r rs)
  then show ?case by (cases n) auto
qed simp

lemma keep_delete_some: "filter (\<lambda>r. \<not> old r) (delete_some n old rs) = filter (\<lambda>r. \<not> old r) rs"
  by (induction n old rs rule: delete_some.induct) auto

lemma delete_some_all: "length (filter old rs) \<le> n \<Longrightarrow> delete_some n old rs = filter (\<lambda>r. \<not> old r) rs"
  by (induction n old rs rule: delete_some.induct) auto

function purge_loop :: "nat \<Rightarrow> ('r \<Rightarrow> bool) \<Rightarrow> 'r list \<Rightarrow> nat \<Rightarrow> 'r list \<times> nat" where
  "purge_loop batch old rs total_deleted =
     (let names = take batch (filter old rs)
      in if names = [] then (rs, total_deleted)
         else let rs' = delete_some batch old rs; total' = total_deleted + length names
              in if length names < batch then (rs', total') else purge_loop batch old rs' total')"
  by pat_completeness auto
termination
  by (relation "measure (\<lambda>(batch, old, rs, tot). length (filter old rs))") (auto simp: filter_delete_some)

declare purge_loop.simps [simp del]

text \<open>The loop ends with every expired row gone, the rest in place, and the right count.\<close>

lemma purge_loop_eq:
  "0 < batch \<Longrightarrow> purge_loop batch old rs tot = (filter (\<lambda>r. \<not> old r) rs, tot + length (filter old rs))"
proof (induction batch old rs tot rule: purge_loop.induct)
  case (1 batch old rs tot)
  show ?case
  proof (cases "filter old rs = []")
    case True
    then have "filter (\<lambda>r. \<not> old r) rs = rs" by (auto simp: filter_empty_conv filter_id_conv)
    with True show ?thesis by (simp add: purge_loop.simps [of batch old rs tot])
  next
    case ne: False
    show ?thesis
    proof (cases "length (filter old rs) < batch")
      case True
      with ne "1.prems" show ?thesis
        by (simp add: purge_loop.simps [of batch old rs tot] Let_def delete_some_all)
    next
      case False
      with "1.IH" [OF refl _ refl refl] ne "1.prems"
      have "purge_loop batch old (delete_some batch old rs) (tot + batch) =
          (filter (\<lambda>r. \<not> old r) rs, tot + batch + length (drop batch (filter old rs)))"
        by (simp add: keep_delete_some filter_delete_some)
      with ne False "1.prems" show ?thesis
        by (simp add: purge_loop.simps [of batch old rs tot] Let_def)
    qed
  qed
qed

end
