(* ===== verification/Resource_History.thy ===== *)
theory Resource_History
  imports Proxmox_Store Batch_Purge
begin

text \<open>
  \<open>proxmox_resource_history/collector.py\<close> and \<open>retention.py\<close>: interval-gated samples of host
  and guest usage, and the batched purge of old samples. The gate is a cache key that expires
  after the sample interval. A purge deletes at most \<open>batch\<close> rows per query until a query comes
  back short; the loop is \<open>purge_loop\<close>, shared with the other purges of the app.
\<close>

definition DEFAULT_INTERVAL_SECONDS :: int where "DEFAULT_INTERVAL_SECONDS = 60"

record history_settings =
  hs_enabled :: bool
  hs_interval_seconds :: int

definition get_settings :: "'a proxmox_db_scheme \<Rightarrow> history_settings" where
  "get_settings st =
     \<lparr>hs_enabled = resource_history_enabled (monitor_settings st),
      hs_interval_seconds = or_int (resource_history_interval_seconds (monitor_settings st)) DEFAULT_INTERVAL_SECONDS\<rparr>"

text \<open>\<open>None\<close> when Redis is not reachable, as the cache calls raise then.\<close>

definition should_log :: "poll_env \<Rightarrow> string \<Rightarrow> int \<Rightarrow> 'a proxmox_db_scheme \<Rightarrow> (bool \<times> 'a proxmox_db_scheme) option" where
  "should_log pe cache_key interval_seconds st =
     (if \<not> redis_up pe then None
      else if cache_get pe cache_key st then Some (False, st)
      else Some (True, cache_set pe cache_key (max interval_seconds 1) st))"

definition should_log_safe :: "poll_env \<Rightarrow> string \<Rightarrow> int \<Rightarrow> 'a proxmox_db_scheme \<Rightarrow> bool \<times> 'a proxmox_db_scheme" where
  "should_log_safe pe cache_key interval_seconds st =
     (case should_log pe cache_key interval_seconds st of
        Some r \<Rightarrow> r
      | None \<Rightarrow> (True, log_error ''Proxmox Resource History: cache gate failed, logging anyway'' st))"

definition or_rat :: "rat option \<Rightarrow> rat \<Rightarrow> rat" where
  "or_rat x d = (if opt_rat x = 0 then d else opt_rat x)"

definition gb :: "nat \<Rightarrow> rat \<Rightarrow> rat" where
  "gb nd bytes = py_round_nd nd (bytes / 1000000000)"

definition percent_of :: "nat \<Rightarrow> rat option \<Rightarrow> rat option \<Rightarrow> rat" where
  "percent_of nd used tot = py_round_nd nd (opt_rat used / or_rat tot 1 * 100)"

definition HOST_CACHE_KEY :: "string \<Rightarrow> string" where
  "HOST_CACHE_KEY name = ''alfaedge_pulse:res_hist_last:host:'' @ name"

definition GUEST_CACHE_KEY :: "string \<Rightarrow> string" where
  "GUEST_CACHE_KEY name = ''alfaedge_pulse:res_hist_last:guest:'' @ name"

definition host_metric_row :: "poll_env \<Rightarrow> string \<Rightarrow> node_status \<Rightarrow> host_metric" where
  "host_metric_row pe name s =
     (let swap_total = opt_rat (ns_swap_total s)
      in \<lparr>hm_server = name, hm_collected_at = clock pe, hm_source = ''Live Poll'',
          hm_cpu_usage = py_round_nd 2 (opt_rat (ns_cpu s) * 100),
          hm_memory_usage = percent_of 2 (ns_mem_used s) (ns_mem_total s),
          hm_memory_used_gb = gb 4 (opt_rat (ns_mem_used s)),
          hm_memory_total_gb = gb 4 (opt_rat (ns_mem_total s)),
          hm_swap_usage = (if swap_total \<noteq> 0 then Some (py_round_nd 2 (opt_rat (ns_swap_used s) / swap_total * 100)) else None),
          hm_swap_used_gb = (if swap_total \<noteq> 0 then Some (gb 4 (opt_rat (ns_swap_used s))) else None),
          hm_swap_total_gb = (if swap_total \<noteq> 0 then Some (gb 4 swap_total) else None),
          hm_storage_usage = percent_of 2 (ns_root_used s) (ns_root_total s),
          hm_storage_used_gb = gb 4 (opt_rat (ns_root_used s)),
          hm_storage_total_gb = gb 4 (opt_rat (ns_root_total s))\<rparr>)"

definition log_host_metrics :: "poll_env \<Rightarrow> string \<Rightarrow> node_status \<Rightarrow> 'a proxmox_db_scheme \<Rightarrow> 'a proxmox_db_scheme" where
  "log_host_metrics pe name status st =
     (if \<not> hs_enabled (get_settings st) then st
      else case should_log_safe pe (HOST_CACHE_KEY name) (hs_interval_seconds (get_settings st)) st of
          (False, st1) \<Rightarrow> st1
        | (True, st1) \<Rightarrow>
            (if metric_insert_ok pe name
             then st1\<lparr>host_metrics := host_metrics st1 @ [host_metric_row pe name status]\<rparr>
             else log_error (''Proxmox Resource History: failed to log host metrics for '' @ name) st1))"

definition guest_metric_row ::
    "poll_env \<Rightarrow> string \<Rightarrow> string \<Rightarrow> int \<Rightarrow> string \<Rightarrow> rat \<Rightarrow> rat \<Rightarrow> rat \<Rightarrow> rat option \<Rightarrow> rat option \<Rightarrow> rat option \<Rightarrow> guest_metric" where
  "guest_metric_row pe guest srv vmid guest_type cpu_pct mem_used mem_total disk_pct swap_used swap_total =
     \<lparr>gm_guest = guest, gm_server = srv, gm_vmid = vmid, gm_guest_type = guest_type,
      gm_collected_at = clock pe, gm_source = ''Live Poll'',
      gm_cpu_usage = py_round_nd 2 cpu_pct,
      gm_memory_usage = (if mem_total \<noteq> 0 then py_round_nd 2 (mem_used / mem_total * 100) else 0),
      gm_memory_used_gb = gb 4 mem_used, gm_memory_total_gb = gb 4 mem_total,
      gm_disk_usage = disk_pct,
      gm_swap_usage_percent =
        (if opt_rat swap_total \<noteq> 0 then Some (py_round_nd 2 (opt_rat swap_used / opt_rat swap_total * 100)) else None),
      gm_swap_used_gb = (if opt_rat swap_total \<noteq> 0 then Some (gb 4 (opt_rat swap_used)) else None),
      gm_swap_total_gb = (if opt_rat swap_total \<noteq> 0 then Some (gb 4 (opt_rat swap_total)) else None)\<rparr>"

definition log_guest_metrics ::
    "poll_env \<Rightarrow> string \<Rightarrow> int \<Rightarrow> string \<Rightarrow> rat \<Rightarrow> rat \<Rightarrow> rat \<Rightarrow> rat option \<Rightarrow> rat option \<Rightarrow> rat option
      \<Rightarrow> 'a proxmox_db_scheme \<Rightarrow> 'a proxmox_db_scheme" where
  "log_guest_metrics pe srv vmid guest_type cpu_pct mem_used mem_total disk_pct swap_used swap_total st =
     (if \<not> hs_enabled (get_settings st) then st
      else let guest = srv @ ''-'' @ show_int vmid
           in case should_log_safe pe (GUEST_CACHE_KEY guest) (hs_interval_seconds (get_settings st)) st of
                (False, st1) \<Rightarrow> st1
              | (True, st1) \<Rightarrow>
                  (if metric_insert_ok pe guest
                   then st1\<lparr>guest_metrics := guest_metrics st1 @
                          [guest_metric_row pe guest srv vmid guest_type cpu_pct mem_used mem_total disk_pct swap_used swap_total]\<rparr>
                   else log_error (''Proxmox Resource History: failed to log guest metrics for '' @ guest) st1))"

subsection \<open>Retention\<close>

definition PURGE_BATCH_SIZE :: nat where "PURGE_BATCH_SIZE = 5000"

definition DEFAULT_RETENTION_DAYS :: int where "DEFAULT_RETENTION_DAYS = 30"

definition purge_old_resource_history :: "poll_env \<Rightarrow> 'a proxmox_db_scheme \<Rightarrow> 'a proxmox_db_scheme" where
  "purge_old_resource_history pe st =
     (let retention_days = or_int (resource_history_retention_days (monitor_settings st)) DEFAULT_RETENTION_DAYS;
          cutoff = clock pe - retention_days * DAY
      in st\<lparr>host_metrics := fst (purge_loop PURGE_BATCH_SIZE (\<lambda>r. hm_collected_at r < cutoff) (host_metrics st) 0),
            guest_metrics := fst (purge_loop PURGE_BATCH_SIZE (\<lambda>r. gm_collected_at r < cutoff) (guest_metrics st) 0)\<rparr>)"

subsection \<open>Properties\<close>

lemma cache_set_frame [frame_simps, simp]:
  "alert_log (cache_set pe k n st) = alert_log st" "next_alert (cache_set pe k n st) = next_alert st"
  "outbox (cache_set pe k n st) = outbox st" "error_log (cache_set pe k n st) = error_log st"
  "monitor_settings (cache_set pe k n st) = monitor_settings st"
  "servers (cache_set pe k n st) = servers st" "guests (cache_set pe k n st) = guests st"
  "datastores (cache_set pe k n st) = datastores st" "backup_logs (cache_set pe k n st) = backup_logs st"
  "host_metrics (cache_set pe k n st) = host_metrics st" "guest_metrics (cache_set pe k n st) = guest_metrics st"
  by (simp_all add: cache_set_def)

lemma proxmox_log_error [frame_simps, simp]:
  "servers (log_error t st) = servers st" "guests (log_error t st) = guests st"
  "datastores (log_error t st) = datastores st" "backup_logs (log_error t st) = backup_logs st"
  "host_metrics (log_error t st) = host_metrics st" "guest_metrics (log_error t st) = guest_metrics st"
  "cache_expiry (log_error t st) = cache_expiry st"
  by (simp_all add: log_error_def)

lemma should_log_safe_frame:
  assumes "should_log_safe pe k n st = (b, st')"
  shows "alert_log st' = alert_log st \<and> next_alert st' = next_alert st \<and> outbox st' = outbox st \<and>
    monitor_settings st' = monitor_settings st \<and> servers st' = servers st \<and> guests st' = guests st \<and>
    datastores st' = datastores st \<and> backup_logs st' = backup_logs st \<and>
    host_metrics st' = host_metrics st \<and> guest_metrics st' = guest_metrics st"
  using assms by (auto simp: should_log_safe_def should_log_def split: if_splits)

text \<open>Sampling touches nothing but its own log, the gate and the error log.\<close>

lemma log_metrics_frame [frame_simps, simp]:
  "alert_log (log_host_metrics pe n s st) = alert_log st" "next_alert (log_host_metrics pe n s st) = next_alert st"
  "outbox (log_host_metrics pe n s st) = outbox st"
  "monitor_settings (log_host_metrics pe n s st) = monitor_settings st"
  "servers (log_host_metrics pe n s st) = servers st" "guests (log_host_metrics pe n s st) = guests st"
  "datastores (log_host_metrics pe n s st) = datastores st"
  "backup_logs (log_host_metrics pe n s st) = backup_logs st"
  "alert_log (log_guest_metrics pe n v ty c mu mt dp su sw st) = alert_log st"
  "next_alert (log_guest_metrics pe n v ty c mu mt dp su sw st) = next_alert st"
  "outbox (log_guest_metrics pe n v ty c mu mt dp su sw st) = outbox st"
  "monitor_settings (log_guest_metrics pe n v ty c mu mt dp su sw st) = monitor_settings st"
  "servers (log_guest_metrics pe n v ty c mu mt dp su sw st) = servers st"
  "guests (log_guest_metrics pe n v ty c mu mt dp su sw st) = guests st"
  "datastores (log_guest_metrics pe n v ty c mu mt dp su sw st) = datastores st"
  "backup_logs (log_guest_metrics pe n v ty c mu mt dp su sw st) = backup_logs st"
  by (auto simp: log_host_metrics_def log_guest_metrics_def Let_def split: prod.splits bool.splits
      dest!: should_log_safe_frame)

text \<open>With Redis up, two samples of one host are never stored within the sample interval: after a poll
  that found the gate open, a later poll stores a row exactly when the interval has elapsed.\<close>

theorem host_samples_spaced:
  assumes "redis_up pe" and "redis_up pe'" and "hs_enabled (get_settings st)"
    and "\<not> cache_get pe (HOST_CACHE_KEY n) st" and "metric_insert_ok pe n" and "metric_insert_ok pe' n"
    and "clock pe \<le> clock pe'"
  shows "length (host_metrics (log_host_metrics pe' n s' (log_host_metrics pe n s st))) =
    length (host_metrics st) +
      (if clock pe' < clock pe + max (hs_interval_seconds (get_settings st)) 1 * SECOND then 1 else 2)"
proof -
  let ?iv = "max (hs_interval_seconds (get_settings st)) 1"
  let ?st1 = "log_host_metrics pe n s st"
  have st1: "?st1 = (cache_set pe (HOST_CACHE_KEY n) ?iv st)
      \<lparr>host_metrics := host_metrics st @ [host_metric_row pe n s]\<rparr>"
    using assms by (simp add: log_host_metrics_def should_log_safe_def should_log_def)
  have same: "get_settings ?st1 = get_settings st" by (simp add: get_settings_def)
  have gate: "cache_get pe' (HOST_CACHE_KEY n) ?st1 \<longleftrightarrow> clock pe' < clock pe + ?iv * SECOND"
    unfolding st1 by (simp add: cache_get_def cache_set_def)
  have len: "length (host_metrics ?st1) = length (host_metrics st) + 1" unfolding st1 by simp
  have "log_host_metrics pe' n s' ?st1 =
      (if cache_get pe' (HOST_CACHE_KEY n) ?st1 then ?st1
       else (cache_set pe' (HOST_CACHE_KEY n) ?iv ?st1)\<lparr>host_metrics := host_metrics ?st1 @ [host_metric_row pe' n s']\<rparr>)"
    using assms(2,3,6) by (simp add: log_host_metrics_def [of pe'] should_log_safe_def should_log_def same)
  then show ?thesis using gate len by simp
qed

definition demo_poll_env :: poll_env where
  "demo_poll_env = \<lparr>base_env = demo_env, redis_up = True, metric_insert_ok = (\<lambda>n. True),
     fromtimestamp = (\<lambda>t. t * SECOND), timestamp = (\<lambda>t. of_int t / of_int SECOND)\<rparr>"

definition demo_proxmox_db :: proxmox_db where
  "demo_proxmox_db = \<lparr>alert_log = [], next_alert = 0, outbox = [], error_log = [], monitor_settings = demo_settings,
     servers = [], guests = [], datastores = [], backup_logs = [], host_metrics = [], guest_metrics = [],
     cache_expiry = (\<lambda>k. None)\<rparr>"

definition demo_status :: node_status where
  "demo_status = \<lparr>ns_cpu = Some (1 / 2), ns_mem_used = Some 40, ns_mem_total = Some 100, ns_swap_used = None,
     ns_swap_total = None, ns_root_used = Some 10, ns_root_total = Some 100, ns_cores = Some 8,
     ns_uptime = Some 5, ns_loadavg = [1, 2, 3]\<rparr>"

theorem host_samples_spaced_witness:
  "length (host_metrics (log_host_metrics demo_poll_env ''h'' demo_status
     (log_host_metrics demo_poll_env ''h'' demo_status demo_proxmox_db))) = 1"
proof -
  have "redis_up demo_poll_env" "hs_enabled (get_settings demo_proxmox_db)"
    "\<not> cache_get demo_poll_env (HOST_CACHE_KEY ''h'') demo_proxmox_db" "metric_insert_ok demo_poll_env ''h''"
    by (simp_all add: demo_poll_env_def get_settings_def demo_proxmox_db_def demo_settings_def cache_get_def)
  from host_samples_spaced [OF this(1) this(1) this(2) this(3) this(4) this(4) order_refl, of demo_status demo_status]
  show ?thesis by (simp add: SECOND_def demo_proxmox_db_def)
qed

text \<open>The purge ends and removes exactly the samples older than the retention period, from both logs,
  keeping the others in order.\<close>

theorem purge_old_resource_history_exact:
  "let cutoff = clock pe - or_int (resource_history_retention_days (monitor_settings st)) 30 * DAY
   in host_metrics (purge_old_resource_history pe st) = filter (\<lambda>r. cutoff \<le> hm_collected_at r) (host_metrics st) \<and>
      guest_metrics (purge_old_resource_history pe st) = filter (\<lambda>r. cutoff \<le> gm_collected_at r) (guest_metrics st)"
  by (simp add: purge_old_resource_history_def Let_def purge_loop_eq PURGE_BATCH_SIZE_def
      DEFAULT_RETENTION_DAYS_def not_less)

end
