(* ===== verification/Guest_Sync.thy ===== *)
theory Guest_Sync
  imports Resource_History
begin

text \<open>
  The resource half of \<open>tasks/poller.py\<close>: applying a host's status, and keeping the guest and
  datastore documents in step with what a host reports, severity flags and alerts included. A
  step that can raise \<open>ProxmoxAPIError\<close> part-way returns the error beside the state reached, since
  what was saved before the error stays saved.
\<close>

datatype poll_error = ApiError string | Unexpected string

type_synonym 's outcome = "poll_error option \<times> 's"

definition and_then :: "'s outcome \<Rightarrow> ('s \<Rightarrow> 't outcome) \<Rightarrow> ('s \<Rightarrow> 't) \<Rightarrow> 't outcome" where
  "and_then r f lift = (case r of (None, s) \<Rightarrow> f s | (Some err, s) \<Rightarrow> (Some err, lift s))"

fun api_fail :: "api_error \<Rightarrow> poll_error" where
  "api_fail (ProxmoxAPIError m) = ApiError m"

subsection \<open>Host status\<close>

definition apply_host_status ::
    "poll_env \<Rightarrow> server \<Rightarrow> node_status \<Rightarrow> thresholds \<Rightarrow> 'a proxmox_db_scheme \<Rightarrow> server \<times> 'a proxmox_db_scheme" where
  "apply_host_status pe srv status th st =
     (let cpu = py_round_nd 1 (opt_rat (ns_cpu status) * 100);
          mem = percent_of 1 (ns_mem_used status) (ns_mem_total status);
          swap_total = opt_rat (ns_swap_total status);
          srv1 = srv\<lparr>srv_status := ''Online'', srv_cpu_usage := Some cpu,
            srv_cores := (if opt_int (ns_cores status) \<noteq> 0 then ns_cores status else srv_cores srv),
            srv_memory_usage := Some mem,
            srv_memory_total := gb 2 (opt_rat (ns_mem_total status)),
            srv_swap_usage := (if swap_total \<noteq> 0
               then Some (py_round_nd 1 (opt_rat (ns_swap_used status) / swap_total * 100)) else None),
            srv_swap_total := (if swap_total \<noteq> 0 then Some (gb 2 swap_total) else None),
            srv_storage_usage := percent_of 1 (ns_root_used status) (ns_root_total status),
            srv_storage_total := gb 2 (opt_rat (ns_root_total status)),
            srv_uptime := opt_int (ns_uptime status),
            srv_load_avg := (if length (ns_loadavg status) \<ge> 3 then take 3 (ns_loadavg status) else srv_load_avg srv)\<rparr>;
          st1 = log_host_metrics pe (srv_name srv) status st;
          sev = track_severity srv1 (max cpu mem) th;
          crit = fst (fst sev); warn = snd (fst sev)
      in ((snd sev)\<lparr>is_critical := crit,
               srv_status := (if crit then ''Critical'' else if warn then ''Warning'' else ''Online'')\<rparr>, st1))"

subsection \<open>Guests\<close>

definition guest_docname :: "string \<Rightarrow> int \<Rightarrow> string" where
  "guest_docname srv vmid = srv @ ''-'' @ show_int vmid"

definition new_guest :: "poll_env \<Rightarrow> string \<Rightarrow> int \<Rightarrow> guest" where
  "new_guest pe srv vmid =
     \<lparr>warning_streak = Some 0, critical_streak = Some 0, is_critical = False,
      g_name = guest_docname srv vmid, g_server = srv, g_vmid = vmid, g_guest_name = [], g_guest_type = [],
      g_node = [], g_status = [], g_is_warning = False, g_cpu_usage = 0, g_cpus = None, g_memory_usage = 0,
      g_memory_total = 0, g_disk_usage = None, g_disk_total = None, g_uptime = 0, g_last_synced = None,
      g_last_successful_backup = None, g_ip_address = None, g_tags = None, g_creation = clock pe\<rparr>"

definition guest_metrics_list :: "rat \<Rightarrow> rat \<Rightarrow> rat option \<Rightarrow> (string \<times> rat) list" where
  "guest_metrics_list cpu mem disk =
     [(''CPU'', cpu), (''RAM'', mem)] @ (case disk of None \<Rightarrow> [] | Some d \<Rightarrow> [(''Disk'', d)])"

text \<open>The document an upsert works on: the stored one, or a new one.\<close>

definition guest_doc :: "poll_env \<Rightarrow> string \<Rightarrow> int \<Rightarrow> 'a proxmox_db_scheme \<Rightarrow> guest" where
  "guest_doc pe srv vmid st =
     (case find_row g_name (guest_docname srv vmid) (guests st) of Some d \<Rightarrow> d | None \<Rightarrow> new_guest pe srv vmid)"

definition guest_severity :: "guest \<Rightarrow> rat list \<Rightarrow> thresholds \<Rightarrow> (bool \<times> bool) \<times> guest" where
  "guest_severity doc readings th =
     (if readings \<noteq> [] then track_severity doc (Max (set readings)) th
      else ((False, False), doc\<lparr>warning_streak := Some 0, critical_streak := Some 0\<rparr>))"

definition guest_label :: "server \<Rightarrow> string \<Rightarrow> string" where
  "guest_label srv guest_name = server_name srv @ '' '' @ utf8_arrow @ '' '' @ guest_name @ '': ''"

definition guest_critical_message :: "string \<Rightarrow> (string \<times> rat) list \<Rightarrow> thresholds \<Rightarrow> string" where
  "guest_critical_message label metrics th =
     label @ format_over_threshold metrics (critical_percent th) @ '' above '' @ show_int (critical_percent th) @ ''%''"

definition guest_recovery_message :: "string \<Rightarrow> thresholds \<Rightarrow> string" where
  "guest_recovery_message label th = label @ ''usage back below '' @ show_int (critical_percent th) @ ''%''"

definition guest_warning_message :: "string \<Rightarrow> (string \<times> rat) list \<Rightarrow> thresholds \<Rightarrow> string" where
  "guest_warning_message label metrics th =
     label @ format_over_threshold metrics (warning_percent th) @ '' above '' @ show_int (warning_percent th) @
     ''% for '' @ show_int (confirmation_checks th) @ ''+ checks''"

definition guest_memory_usage :: "rat \<Rightarrow> rat \<Rightarrow> rat" where
  "guest_memory_usage mem_used mem_total =
     (if mem_total \<noteq> 0 then py_round_nd 1 (mem_used / mem_total * 100) else 0)"

definition upsert_guest ::
    "poll_env \<Rightarrow> server \<Rightarrow> int \<Rightarrow> string \<Rightarrow> string \<Rightarrow> string \<Rightarrow> rat \<Rightarrow> rat \<Rightarrow> rat \<Rightarrow> rat option \<Rightarrow> rat option
      \<Rightarrow> int \<Rightarrow> string option \<Rightarrow> thresholds \<Rightarrow> string \<Rightarrow> int option \<Rightarrow> 'a proxmox_db_scheme \<Rightarrow> 'a proxmox_db_scheme" where
  "upsert_guest pe srv vmid guest_name guest_type status cpu_pct mem_used mem_total disk_pct disk_total
      uptime ip_address th node cpus st =
     (let docname = guest_docname (srv_name srv) vmid;
          memory_usage = guest_memory_usage mem_used mem_total;
          memory_total_gb = (if mem_total \<noteq> 0 then gb 2 mem_total else 0);
          cpu_usage = py_round_nd 1 cpu_pct;
          doc = guest_doc pe (srv_name srv) vmid st;
          metrics = guest_metrics_list cpu_usage memory_usage disk_pct;
          sev = guest_severity doc (map snd metrics) th;
          crit = fst (fst sev); warn = snd (fst sev);
          doc1 = (snd sev)\<lparr>g_guest_name := guest_name, g_guest_type := guest_type, g_node := node, g_status := status,
            g_cpu_usage := cpu_usage, g_cpus := (if opt_int cpus \<noteq> 0 then cpus else g_cpus (snd sev)),
            g_memory_usage := memory_usage, g_memory_total := memory_total_gb, g_disk_usage := disk_pct,
            g_disk_total := disk_total, g_uptime := uptime, g_last_synced := Some (clock pe),
            is_critical := crit, g_is_warning := warn,
            g_ip_address := (if truthy ip_address then ip_address else g_ip_address (snd sev))\<rparr>;
          st1 = st\<lparr>guests := put_row g_name doc1 (guests st)\<rparr>;
          notify_global = (srv_role srv = ''Production'');
          label = guest_label srv guest_name;
          st2 = handle_transition (base_env pe) (is_critical doc) crit ''Proxmox Guest'' docname ''Critical Resource''
            (guest_critical_message label metrics th) (Some (guest_recovery_message label th)) notify_global st1
      in handle_transition (base_env pe) (g_is_warning doc) warn ''Proxmox Guest'' docname ''Resource Warning''
           (guest_warning_message label metrics th) None notify_global st2)"

definition or_name :: "string option \<Rightarrow> string \<Rightarrow> int \<Rightarrow> string" where
  "or_name name prefix vmid = (if truthy name then opt_str name else prefix @ show_int vmid)"

definition status_of :: "vm_summary \<Rightarrow> string" where
  "status_of vm = (case vm_status vm of None \<Rightarrow> ''unknown'' | Some s \<Rightarrow> s)"

definition sync_qemu :: "poll_env \<Rightarrow> pve_api \<Rightarrow> server \<Rightarrow> string \<Rightarrow> thresholds \<Rightarrow> vm_summary \<Rightarrow> 'a proxmox_db_scheme \<Rightarrow> 'a proxmox_db_scheme" where
  "sync_qemu pe c srv node th vm st =
     (let vmid = vm_vmid vm;
          running = (vm_status vm = Some ''running'');
          disk_usage = (if running then get_qemu_disk_usage_percent c node vmid else None);
          ip_address = (if running then get_qemu_agent_ip c node vmid else None);
          disk_total = (if opt_rat (vm_maxdisk vm) \<noteq> 0 then Some (gb 2 (opt_rat (vm_maxdisk vm))) else None);
          cpu = opt_rat (vm_cpu vm) * 100;
          st1 = upsert_guest pe srv vmid (or_name (vm_name vm) ''vm-'' vmid) ''QEMU (VM)'' (status_of vm)
                  cpu (opt_rat (vm_mem vm)) (opt_rat (vm_maxmem vm)) disk_usage disk_total (opt_int (vm_uptime vm))
                  ip_address th node (vm_cpus vm) st
      in log_guest_metrics pe (srv_name srv) vmid ''QEMU (VM)'' cpu (opt_rat (vm_mem vm)) (opt_rat (vm_maxmem vm))
           disk_usage None None st1)"

definition sync_lxc :: "poll_env \<Rightarrow> pve_api \<Rightarrow> server \<Rightarrow> string \<Rightarrow> thresholds \<Rightarrow> vm_summary \<Rightarrow> 'a proxmox_db_scheme \<Rightarrow> 'a proxmox_db_scheme" where
  "sync_lxc pe c srv node th ct st =
     (let vmid = vm_vmid ct;
          maxdisk = opt_rat (vm_maxdisk ct);
          disk_usage = (if maxdisk \<noteq> 0 then Some (py_round_nd 1 (opt_rat (vm_disk ct) / maxdisk * 100)) else None);
          disk_total = (if maxdisk \<noteq> 0 then Some (gb 2 maxdisk) else None);
          ip_address = (if vm_status ct = Some ''running'' then get_lxc_ip c node vmid else None);
          cpu = opt_rat (vm_cpu ct) * 100;
          has_swap = (opt_rat (vm_maxswap ct) \<noteq> 0);
          st1 = upsert_guest pe srv vmid (or_name (vm_name ct) ''ct-'' vmid) ''LXC (CT)'' (status_of ct)
                  cpu (opt_rat (vm_mem ct)) (opt_rat (vm_maxmem ct)) disk_usage disk_total (opt_int (vm_uptime ct))
                  ip_address th node (vm_cpus ct) st
      in log_guest_metrics pe (srv_name srv) vmid ''LXC (CT)'' cpu (opt_rat (vm_mem ct)) (opt_rat (vm_maxmem ct))
           disk_usage (if has_swap then Some (opt_rat (vm_swap ct)) else None)
           (if has_swap then Some (opt_rat (vm_maxswap ct)) else None) st1)"

definition delete_stale_guests :: "server \<Rightarrow> int list \<Rightarrow> 'a proxmox_db_scheme \<Rightarrow> 'a proxmox_db_scheme" where
  "delete_stale_guests srv seen_vmids st =
     (let keep = (if seen_vmids = [] then [0] else seen_vmids);
          stale = map g_name (filter (\<lambda>g. g_server g = srv_name srv \<and> g_vmid g \<notin> set keep) (guests st))
      in st\<lparr>guests := delete_rows g_name stale (guests st)\<rparr>)"

definition sync_pve_guests ::
    "poll_env \<Rightarrow> pve_api \<Rightarrow> server \<Rightarrow> string \<Rightarrow> thresholds \<Rightarrow> 'a proxmox_db_scheme \<Rightarrow> 'a proxmox_db_scheme outcome" where
  "sync_pve_guests pe c srv node th st =
     (case api_qemu c node of
        Inl err \<Rightarrow> (Some (api_fail err), st)
      | Inr vms \<Rightarrow>
          (let st1 = fold (sync_qemu pe c srv node th) vms st
           in case api_lxc c node of
                Inl err \<Rightarrow> (Some (api_fail err), st1)
              | Inr cts \<Rightarrow>
                  (let st2 = fold (sync_lxc pe c srv node th) cts st1
                   in (None, delete_stale_guests srv (map vm_vmid vms @ map vm_vmid cts) st2))))"

subsection \<open>Datastores\<close>

definition classify_storage_role :: "pve_storage \<Rightarrow> string" where
  "classify_storage_role storage =
     (if st_type storage = Some ''lvmthin'' \<or> st_type storage = Some ''lvm'' then ''Guest Storage (LVM-Thin)''
      else if st_type storage = Some ''dir'' \<and> st_storage storage = ''local'' then ''OS + Local Backup Drive''
      else ''Other'')"

definition datastore_docname :: "string \<Rightarrow> string \<Rightarrow> string" where
  "datastore_docname srv name = srv @ ''-'' @ name"

definition new_datastore :: "string \<Rightarrow> string \<Rightarrow> datastore" where
  "new_datastore srv name =
     \<lparr>warning_streak = Some 0, critical_streak = Some 0, is_critical = False,
      ds_name = datastore_docname srv name, ds_server = srv, ds_datastore_name = name, ds_datastore_type = [],
      ds_storage_role = [], ds_is_warning = False, ds_used = 0, ds_total = 0, ds_usage_percent = 0, ds_last_synced = None\<rparr>"

definition datastore_doc :: "string \<Rightarrow> string \<Rightarrow> 'a proxmox_db_scheme \<Rightarrow> datastore" where
  "datastore_doc srv name st =
     (case find_row ds_name (datastore_docname srv name) (datastores st) of Some d \<Rightarrow> d | None \<Rightarrow> new_datastore srv name)"

definition datastore_usage :: "rat \<Rightarrow> rat \<Rightarrow> rat" where
  "datastore_usage used_bytes total_bytes =
     (if total_bytes \<noteq> 0 then py_round_nd 1 (used_bytes / total_bytes * 100) else 0)"

definition upsert_datastore ::
    "poll_env \<Rightarrow> server \<Rightarrow> string \<Rightarrow> string \<Rightarrow> string \<Rightarrow> rat \<Rightarrow> rat \<Rightarrow> thresholds \<Rightarrow> 'a proxmox_db_scheme \<Rightarrow> 'a proxmox_db_scheme" where
  "upsert_datastore pe srv name datastore_type storage_role used_bytes total_bytes th st =
     (let docname = datastore_docname (srv_name srv) name;
          usage_percent = datastore_usage used_bytes total_bytes;
          doc = datastore_doc (srv_name srv) name st;
          sev = track_severity doc usage_percent th;
          crit = fst (fst sev); warn = snd (fst sev);
          doc1 = (snd sev)\<lparr>ds_datastore_type := datastore_type, ds_storage_role := storage_role,
            ds_used := gb 2 used_bytes, ds_total := gb 2 total_bytes, ds_usage_percent := usage_percent,
            is_critical := crit, ds_is_warning := warn, ds_last_synced := Some (clock pe)\<rparr>;
          st1 = st\<lparr>datastores := put_row ds_name doc1 (datastores st)\<rparr>;
          pct = show_int (py_round usage_percent);
          label = server_name srv @ '': '' @ name @ '' storage '';
          st2 = handle_transition (base_env pe) (is_critical doc) crit ''Proxmox Datastore'' docname ''Critical Resource''
            (label @ pct @ ''% full (above '' @ show_int (critical_percent th) @ ''%)'')
            (Some (label @ ''back below '' @ show_int (critical_percent th) @ ''% full (now '' @ pct @ ''%)'')) True st1
      in handle_transition (base_env pe) (ds_is_warning doc) warn ''Proxmox Datastore'' docname ''Resource Warning''
           (label @ pct @ ''% full (above '' @ show_int (warning_percent th) @ ''% for '' @
            show_int (confirmation_checks th) @ ''+ checks)'') None True st2)"

definition delete_stale_datastores :: "server \<Rightarrow> string list \<Rightarrow> 'a proxmox_db_scheme \<Rightarrow> 'a proxmox_db_scheme" where
  "delete_stale_datastores srv seen_names st =
     (let keep = (if seen_names = [] then [[]] else seen_names);
          stale = map ds_name (filter (\<lambda>d. ds_server d = srv_name srv \<and> ds_datastore_type d = ''PVE Storage'' \<and>
                    ds_datastore_name d \<notin> set keep) (datastores st))
      in st\<lparr>datastores := delete_rows ds_name stale (datastores st)\<rparr>)"

definition sync_pve_storage ::
    "poll_env \<Rightarrow> pve_api \<Rightarrow> server \<Rightarrow> string \<Rightarrow> thresholds \<Rightarrow> 'a proxmox_db_scheme \<Rightarrow> 'a proxmox_db_scheme outcome" where
  "sync_pve_storage pe c srv node th st =
     (case api_storage c node of
        Inl err \<Rightarrow> (Some (api_fail err), st)
      | Inr storages \<Rightarrow>
          (let sized = filter (\<lambda>s. st_total s \<noteq> None) storages;
               st1 = fold (\<lambda>s. upsert_datastore pe srv (st_storage s) ''PVE Storage'' (classify_storage_role s)
                                 (opt_rat (st_used s)) (opt_rat (st_total s)) th) sized st
           in (None, delete_stale_datastores srv (map st_storage sized) st1)))"

subsection \<open>What alerting leaves alone\<close>

lemma proxmox_fields_of_more:
  fixes s t :: "'a proxmox_db_scheme"
  assumes "alert_db.more s = alert_db.more t"
  shows "servers s = servers t" "guests s = guests t" "datastores s = datastores t"
    "backup_logs s = backup_logs t" "host_metrics s = host_metrics t" "guest_metrics s = guest_metrics t"
    "cache_expiry s = cache_expiry t"
  using assms by (cases s; cases t; simp)+

lemma proxmox_transition_frame [frame_simps, simp]:
  fixes st :: "'a proxmox_db_scheme"
  shows "servers (handle_transition e was now d n ty m rec g st) = servers st"
    "guests (handle_transition e was now d n ty m rec g st) = guests st"
    "datastores (handle_transition e was now d n ty m rec g st) = datastores st"
    "backup_logs (handle_transition e was now d n ty m rec g st) = backup_logs st"
  by (rule proxmox_fields_of_more; simp)+

lemma proxmox_dispatch_frame [frame_simps, simp]:
  fixes st :: "'a proxmox_db_scheme"
  shows "servers (dispatch_alert e ty d n m g st) = servers st" "guests (dispatch_alert e ty d n m g st) = guests st"
    "datastores (dispatch_alert e ty d n m g st) = datastores st"
    "backup_logs (dispatch_alert e ty d n m g st) = backup_logs st"
    "servers (dispatch_recovery e ty d n m g st) = servers st" "guests (dispatch_recovery e ty d n m g st) = guests st"
    "datastores (dispatch_recovery e ty d n m g st) = datastores st"
    "backup_logs (dispatch_recovery e ty d n m g st) = backup_logs st"
    "servers (resolve_alert d n ty st) = servers st" "guests (resolve_alert d n ty st) = guests st"
    "datastores (resolve_alert d n ty st) = datastores st" "backup_logs (resolve_alert d n ty st) = backup_logs st"
  by (rule proxmox_fields_of_more; simp)+

lemma alert_inv_cong: "alert_log s = alert_log t \<Longrightarrow> next_alert s = next_alert t \<Longrightarrow> alert_inv s = alert_inv t"
  by (simp add: alert_inv_def)

lemma open_alerts_cong: "alert_log s = alert_log t \<Longrightarrow> open_alerts_of s k = open_alerts_of t k"
  by (simp add: open_alerts_of_def)

lemma has_open_cong: "alert_log s = alert_log t \<Longrightarrow> has_open_alert d n ty s = has_open_alert d n ty t"
  by (simp add: has_open_alert_def)

subsection \<open>Document names\<close>

text \<open>A guest's name determines its server and its vmid.\<close>

lemma guest_docname_inj:
  assumes "guest_docname s v = guest_docname s' v'" and "0 \<le> v" and "0 \<le> v'"
  shows "s = s' \<and> v = v'"
proof -
  have dash: "CHR ''-'' \<notin> set (show_nat n)" for n
    using show_nat_digits [of "CHR ''-''" n] by (auto simp: is_digit_def Let_def)
  have cut: "rev (dropWhile (\<lambda>c. c \<noteq> CHR ''-'') (rev (guest_docname s v))) = s @ ''-''" if "0 \<le> v" for s v
  proof -
    have "\<forall>c \<in> set (rev (show_int v)). c \<noteq> CHR ''-''"
      using that dash [of "nat v"] by (auto simp: show_int_def)
    then have "dropWhile (\<lambda>c. c \<noteq> CHR ''-'') (rev (show_int v) @ CHR ''-'' # rev s) = CHR ''-'' # rev s"
      by (subst dropWhile_append2) auto
    then show ?thesis by (simp add: guest_docname_def)
  qed
  from cut [OF assms(2), of s] cut [OF assms(3), of s'] assms(1) have "s = s'" by simp
  with assms(1) show ?thesis by (auto simp: guest_docname_def intro: show_int_inj)
qed

definition guest_wf :: "'a proxmox_db_scheme \<Rightarrow> bool" where
  "guest_wf st \<longleftrightarrow> distinct (map g_name (guests st)) \<and>
     list_all (\<lambda>g. g_name g = guest_docname (g_server g) (g_vmid g) \<and> 0 \<le> g_vmid g) (guests st)"

lemma guest_doc_key:
  assumes "guest_wf st" and "0 \<le> vmid"
  shows "g_name (guest_doc pe srv vmid st) = guest_docname srv vmid"
    and "g_server (guest_doc pe srv vmid st) = srv" and "g_vmid (guest_doc pe srv vmid st) = vmid"
proof -
  have "g_name d = guest_docname srv vmid \<and> g_server d = srv \<and> g_vmid d = vmid"
    if "find_row g_name (guest_docname srv vmid) (guests st) = Some d" for d
  proof -
    from find_row_Some [OF that] assms(1) have "d \<in> set (guests st)" "g_name d = guest_docname srv vmid"
      "g_name d = guest_docname (g_server d) (g_vmid d)" "0 \<le> g_vmid d"
      by (auto simp: guest_wf_def list_all_iff)
    with guest_docname_inj [of "g_server d" "g_vmid d" srv vmid] assms(2) show ?thesis by auto
  qed
  then have "g_name (guest_doc pe srv vmid st) = guest_docname srv vmid \<and>
      g_server (guest_doc pe srv vmid st) = srv \<and> g_vmid (guest_doc pe srv vmid st) = vmid"
    by (auto simp: guest_doc_def new_guest_def split: option.splits)
  then show "g_name (guest_doc pe srv vmid st) = guest_docname srv vmid"
    and "g_server (guest_doc pe srv vmid st) = srv" and "g_vmid (guest_doc pe srv vmid st) = vmid" by simp_all
qed

subsection \<open>What an upsert stores\<close>

lemma guest_metrics_list_nonempty [simp]: "guest_metrics_list c m d \<noteq> []"
  by (simp add: guest_metrics_list_def)

lemma track_severity_keeps:
  "is_critical (snd (track_severity doc v th)) = is_critical doc"
  "monitored_doc.more (snd (track_severity doc v th)) = monitored_doc.more doc"
  by (simp_all add: track_severity_def Let_def)

lemma guest_fields_of_more:
  fixes s t :: guest
  assumes "monitored_doc.more s = monitored_doc.more t"
  shows "g_name s = g_name t" "g_server s = g_server t" "g_vmid s = g_vmid t" "g_is_warning s = g_is_warning t"
    "g_last_successful_backup s = g_last_successful_backup t" "g_creation s = g_creation t" "g_tags s = g_tags t"
  using assms by (cases s; cases t; simp)+

lemma guest_severity_fields [simp]:
  "g_name (snd (guest_severity doc rs th)) = g_name doc" "g_server (snd (guest_severity doc rs th)) = g_server doc"
  "g_vmid (snd (guest_severity doc rs th)) = g_vmid doc"
  "g_last_successful_backup (snd (guest_severity doc rs th)) = g_last_successful_backup doc"
  by (auto simp: guest_severity_def intro!: guest_fields_of_more track_severity_keeps(2))

text \<open>The severity of a guest is that of its highest reading.\<close>

definition guest_verdict :: "guest \<Rightarrow> rat \<Rightarrow> rat \<Rightarrow> rat \<Rightarrow> rat option \<Rightarrow> thresholds \<Rightarrow> bool \<times> bool" where
  "guest_verdict doc cpu_pct mem_used mem_total disk_pct th =
     fst (track_severity doc
       (Max (set (map snd (guest_metrics_list (py_round_nd 1 cpu_pct) (guest_memory_usage mem_used mem_total) disk_pct)))) th)"

lemma guest_severity_verdict:
  "fst (guest_severity doc (map snd (guest_metrics_list (py_round_nd 1 cpu) (guest_memory_usage mu mt) dp)) th) =
     guest_verdict doc cpu mu mt dp th"
  by (simp add: guest_severity_def guest_verdict_def)

lemma upsert_guest_effect:
  fixes st :: "'a proxmox_db_scheme"
  assumes "guest_verdict (guest_doc pe (srv_name srv) vmid st) cpu mu mt dp th = (crit, warn)"
  obtains d m1 r1 m2 where
    "upsert_guest pe srv vmid gn gt status cpu mu mt dp dt up ip th node cpus st =
       handle_transition (base_env pe) (g_is_warning (guest_doc pe (srv_name srv) vmid st)) warn
         ''Proxmox Guest'' (guest_docname (srv_name srv) vmid) ''Resource Warning'' m2 None (srv_role srv = ''Production'')
       (handle_transition (base_env pe) (is_critical (guest_doc pe (srv_name srv) vmid st)) crit
         ''Proxmox Guest'' (guest_docname (srv_name srv) vmid) ''Critical Resource'' m1 (Some r1) (srv_role srv = ''Production'')
         (st\<lparr>guests := put_row g_name d (guests st)\<rparr>))"
    "is_critical d = crit" "g_is_warning d = warn"
    "g_name d = g_name (guest_doc pe (srv_name srv) vmid st)"
    "g_server d = g_server (guest_doc pe (srv_name srv) vmid st)"
    "g_vmid d = g_vmid (guest_doc pe (srv_name srv) vmid st)"
  using that assms unfolding upsert_guest_def Let_def guest_severity_verdict by fastforce

lemma guest_wf_put:
  assumes "guest_wf st" and "g_name d = guest_docname (g_server d) (g_vmid d)" and "0 \<le> g_vmid d"
    and "guests st' = put_row g_name d (guests st)"
  shows "guest_wf st'"
  using assms set_put_row(1) [of g_name d "guests st"]
  by (auto simp: guest_wf_def list_all_iff distinct_put_row)

definition server_vmids :: "string \<Rightarrow> 'a proxmox_db_scheme \<Rightarrow> int set" where
  "server_vmids s st = g_vmid ` {g \<in> set (guests st). g_server g = s}"

definition other_guests :: "string \<Rightarrow> 'a proxmox_db_scheme \<Rightarrow> guest list" where
  "other_guests s st = filter (\<lambda>g. g_server g \<noteq> s) (guests st)"

lemma put_guest_tables:
  assumes wf: "guest_wf st" and d: "g_name d = guest_docname s v" "g_server d = s" "g_vmid d = v" "0 \<le> v"
    and st': "guests st' = put_row g_name d (guests st)"
  shows "server_vmids s st' = insert v (server_vmids s st)" and "other_guests s st' = other_guests s st"
proof -
  have same: "g_server g = s \<and> g_vmid g = v" if "g \<in> set (guests st)" "g_name g = g_name d" for g
  proof -
    from wf that(1) have "g_name g = guest_docname (g_server g) (g_vmid g)" "0 \<le> g_vmid g"
      by (auto simp: guest_wf_def list_all_iff)
    with that(2) d guest_docname_inj show ?thesis by metis
  qed
  show "other_guests s st' = other_guests s st"
  proof (cases "find_row g_name (g_name d) (guests st) = None")
    case True
    then show ?thesis by (simp add: other_guests_def st' put_row_def d)
  next
    case False
    have "filter (\<lambda>g. g_server g \<noteq> s) (map (\<lambda>x. if g_name x = g_name d then d else x) (guests st)) =
        filter (\<lambda>g. g_server g \<noteq> s) (guests st)"
      using same d by (intro filter_map_update_other) auto
    with False show ?thesis by (simp add: other_guests_def st' put_row_def)
  qed
  show "server_vmids s st' = insert v (server_vmids s st)"
  proof
    show "server_vmids s st' \<subseteq> insert v (server_vmids s st)"
      using set_put_row(1) [of g_name d "guests st"] d by (auto simp: server_vmids_def st')
    have "d \<in> set (guests st')" using set_put_row(2) by (simp add: st')
    moreover have "g_vmid g \<in> server_vmids s st'" if "g \<in> set (guests st)" "g_server g = s" for g
    proof (cases "g_name g = g_name d")
      case True
      with same [OF that(1)] \<open>d \<in> set (guests st')\<close> d show ?thesis by (auto simp: server_vmids_def)
    next
      case False
      with that have "g \<in> set (guests st')" by (auto simp: st' put_row_def)
      with that show ?thesis by (auto simp: server_vmids_def)
    qed
    ultimately show "insert v (server_vmids s st) \<subseteq> server_vmids s st'"
      using d by (auto simp: server_vmids_def)
  qed
qed

lemma upsert_guest_tables:
  fixes st :: "'a proxmox_db_scheme"
  assumes "guest_wf st" and "0 \<le> vmid"
    and st'_def: "st' = upsert_guest pe srv vmid gn gt status cpu mu mt dp dt up ip th node cpus st"
  shows "guest_wf st'" and "server_vmids (srv_name srv) st' = insert vmid (server_vmids (srv_name srv) st)"
    and "other_guests (srv_name srv) st' = other_guests (srv_name srv) st"
proof -
  obtain crit warn where v: "guest_verdict (guest_doc pe (srv_name srv) vmid st) cpu mu mt dp th = (crit, warn)"
    by force
  obtain d m1 r1 m2 where e: "st' = handle_transition (base_env pe) (g_is_warning (guest_doc pe (srv_name srv) vmid st)) warn
         ''Proxmox Guest'' (guest_docname (srv_name srv) vmid) ''Resource Warning'' m2 None (srv_role srv = ''Production'')
       (handle_transition (base_env pe) (is_critical (guest_doc pe (srv_name srv) vmid st)) crit
         ''Proxmox Guest'' (guest_docname (srv_name srv) vmid) ''Critical Resource'' m1 (Some r1) (srv_role srv = ''Production'')
         (st\<lparr>guests := put_row g_name d (guests st)\<rparr>))"
    and d0: "g_name d = g_name (guest_doc pe (srv_name srv) vmid st)"
      "g_server d = g_server (guest_doc pe (srv_name srv) vmid st)" "g_vmid d = g_vmid (guest_doc pe (srv_name srv) vmid st)"
    unfolding st'_def by (rule upsert_guest_effect [OF v])
  have d: "guests st' = put_row g_name d (guests st)" "g_name d = guest_docname (srv_name srv) vmid"
    "g_server d = srv_name srv" "g_vmid d = vmid"
    by (simp_all only: e proxmox_transition_frame d0 guest_doc_key [OF assms(1,2)]) simp
  show "guest_wf st'" by (rule guest_wf_put [OF assms(1) _ _ d(1)]) (simp_all add: d(2-4) assms(2))
  show "server_vmids (srv_name srv) st' = insert vmid (server_vmids (srv_name srv) st)"
    and "other_guests (srv_name srv) st' = other_guests (srv_name srv) st"
    by (rule put_guest_tables [OF assms(1) d(2-4) assms(2) d(1)])+
qed

lemma sync_one_tables:
  fixes st :: "'a proxmox_db_scheme"
  assumes "guest_wf st" and "0 \<le> vm_vmid vm"
  shows "guest_wf (sync_qemu pe c srv node th vm st)"
    "server_vmids (srv_name srv) (sync_qemu pe c srv node th vm st) = insert (vm_vmid vm) (server_vmids (srv_name srv) st)"
    "other_guests (srv_name srv) (sync_qemu pe c srv node th vm st) = other_guests (srv_name srv) st"
    "guest_wf (sync_lxc pe c srv node th vm st)"
    "server_vmids (srv_name srv) (sync_lxc pe c srv node th vm st) = insert (vm_vmid vm) (server_vmids (srv_name srv) st)"
    "other_guests (srv_name srv) (sync_lxc pe c srv node th vm st) = other_guests (srv_name srv) st"
  using upsert_guest_tables [OF assms refl]
  by (simp_all add: sync_qemu_def sync_lxc_def Let_def guest_wf_def server_vmids_def other_guests_def)

lemma fold_sync_tables:
  fixes st :: "'a proxmox_db_scheme"
  assumes "\<And>vm st. vm \<in> set vms \<Longrightarrow> guest_wf st \<Longrightarrow> guest_wf (f vm st) \<and>
      server_vmids s (f vm st) = insert (vm_vmid vm) (server_vmids s st) \<and> other_guests s (f vm st) = other_guests s st"
    and "guest_wf st"
  shows "guest_wf (fold f vms st)"
    and "server_vmids s (fold f vms st) = set (map vm_vmid vms) \<union> server_vmids s st"
    and "other_guests s (fold f vms st) = other_guests s st"
  using assms by (induction vms arbitrary: st) auto

lemma delete_stale_tables:
  assumes "guest_wf st"
  shows "guest_wf (delete_stale_guests srv seen st)"
    and "server_vmids (srv_name srv) (delete_stale_guests srv seen st) =
      server_vmids (srv_name srv) st \<inter> (if seen = [] then {0} else set seen)"
    and "other_guests (srv_name srv) (delete_stale_guests srv seen st) = other_guests (srv_name srv) st"
proof -
  let ?keep = "if seen = [] then {0} else set seen"
  have eq: "guests (delete_stale_guests srv seen st) =
      filter (\<lambda>g. \<not> (g_server g = srv_name srv \<and> g_vmid g \<notin> ?keep)) (guests st)"
  proof -
    have "set (if seen = [] then [0] else seen) = ?keep" by simp
    with assms show ?thesis
      by (simp only: delete_stale_guests_def Let_def delete_rows_filter guest_wf_def) simp
  qed
  show "guest_wf (delete_stale_guests srv seen st)"
    using assms unfolding guest_wf_def eq by (auto simp: list_all_iff distinct_map_filter)
  show "server_vmids (srv_name srv) (delete_stale_guests srv seen st) =
      server_vmids (srv_name srv) st \<inter> (if seen = [] then {0} else set seen)"
    unfolding server_vmids_def eq by auto
  show "other_guests (srv_name srv) (delete_stale_guests srv seen st) = other_guests (srv_name srv) st"
    unfolding other_guests_def eq filter_filter by (rule filter_cong) auto
qed

subsection \<open>Properties\<close>

abbreviation guest_alert :: "string \<Rightarrow> string \<Rightarrow> alert_key" where
  "guest_alert n ty \<equiv> (''Proxmox Guest'', n, ty)"

text \<open>Two transitions on different alert types of one document.\<close>

lemma two_transitions:
  fixes st :: "'a proxmox_db_scheme"
  assumes "alert_inv st" and "ty \<noteq> ty'"
    and "has_open_alert dt n ty st \<longrightarrow> was" and "has_open_alert dt n ty' st \<longrightarrow> was'"
    and st': "st' = handle_transition e was' now' dt n ty' m' rec' g (handle_transition e was now dt n ty m rec g st)"
  shows "alert_inv st'" and "has_open_alert dt n ty st' \<longleftrightarrow> now" and "has_open_alert dt n ty' st' \<longleftrightarrow> now'"
    and "k \<noteq> (dt, n, ty) \<Longrightarrow> k \<noteq> (dt, n, ty') \<Longrightarrow> open_alerts_of st' k = open_alerts_of st k"
proof -
  let ?m = "handle_transition e was now dt n ty m rec g st"
  have inv: "alert_inv ?m" using assms(1) by (rule handle_transition_inv)
  have o: "has_open_alert dt n ty ?m \<longleftrightarrow> now" using assms(1,3) by (rule handle_transition_open)
  have o': "has_open_alert dt n ty' ?m \<longleftrightarrow> has_open_alert dt n ty' st"
    using assms(1,2) by (simp add: has_open_iff handle_transition_other)
  show "alert_inv st'" unfolding st' using inv by (rule handle_transition_inv)
  show "has_open_alert dt n ty' st' \<longleftrightarrow> now'"
    unfolding st' using inv o' assms(4) by (simp add: handle_transition_open)
  show "has_open_alert dt n ty st' \<longleftrightarrow> now"
    using o assms(2) inv by (simp add: st' has_open_iff handle_transition_other)
  show "open_alerts_of st' k = open_alerts_of st k" if "k \<noteq> (dt, n, ty)" "k \<noteq> (dt, n, ty')"
    using that inv assms(1) by (simp add: st' handle_transition_other)
qed

text \<open>After a guest is polled its stored flags are the tracker's verdict on its highest reading, and an
  alert of each tier is open exactly when the corresponding flag is set; every other guest's
  document and every other open alert is untouched.\<close>

theorem upsert_guest_flags_match_alerts:
  fixes st :: "'a proxmox_db_scheme"
  assumes "alert_inv st" and "guest_wf st" and "0 \<le> vmid"
    and n: "n = guest_docname (srv_name srv) vmid" and doc: "doc = guest_doc pe (srv_name srv) vmid st"
    and "has_open_alert ''Proxmox Guest'' n ''Critical Resource'' st \<longrightarrow> is_critical doc"
    and "has_open_alert ''Proxmox Guest'' n ''Resource Warning'' st \<longrightarrow> g_is_warning doc"
    and st': "st' = upsert_guest pe srv vmid gn gt status cpu mu mt dp dt up ip th node cpus st"
  shows "\<exists>d. find_row g_name n (guests st') = Some d \<and>
      (is_critical d, g_is_warning d) = guest_verdict doc cpu mu mt dp th \<and>
      (has_open_alert ''Proxmox Guest'' n ''Critical Resource'' st' \<longleftrightarrow> is_critical d) \<and>
      (has_open_alert ''Proxmox Guest'' n ''Resource Warning'' st' \<longleftrightarrow> g_is_warning d) \<and>
      (\<forall>n'. n' \<noteq> n \<longrightarrow> find_row g_name n' (guests st') = find_row g_name n' (guests st)) \<and>
      (\<forall>k. k \<noteq> guest_alert n ''Critical Resource'' \<and> k \<noteq> guest_alert n ''Resource Warning'' \<longrightarrow>
         open_alerts_of st' k = open_alerts_of st k)"
proof -
  obtain crit warn where v: "guest_verdict doc cpu mu mt dp th = (crit, warn)" by force
  obtain d m1 r1 m2 where e: "st' = handle_transition (base_env pe) (g_is_warning doc) warn
         ''Proxmox Guest'' n ''Resource Warning'' m2 None (srv_role srv = ''Production'')
       (handle_transition (base_env pe) (is_critical doc) crit
         ''Proxmox Guest'' n ''Critical Resource'' m1 (Some r1) (srv_role srv = ''Production'')
         (st\<lparr>guests := put_row g_name d (guests st)\<rparr>))"
    and d: "is_critical d = crit" "g_is_warning d = warn" "g_name d = g_name doc"
    unfolding st' n doc using v unfolding doc by (rule upsert_guest_effect)
  let ?st1 = "st\<lparr>guests := put_row g_name d (guests st)\<rparr>"
  have log: "alert_log ?st1 = alert_log st" "next_alert ?st1 = next_alert st" by simp_all
  have inv1: "alert_inv ?st1" using assms(1) alert_inv_cong [OF log] by simp
  note two = two_transitions [OF inv1 _ _ _ e]
  have name: "g_name d = n" using d(3) guest_doc_key(1) [OF assms(2,3)] by (simp add: n doc)
  have rows: "guests st' = put_row g_name d (guests st)" by (simp only: e proxmox_transition_frame) simp
  have pre: "has_open_alert ''Proxmox Guest'' n ''Critical Resource'' ?st1 \<longrightarrow> is_critical doc"
    "has_open_alert ''Proxmox Guest'' n ''Resource Warning'' ?st1 \<longrightarrow> g_is_warning doc"
    using assms(6,7) by (simp_all add: has_open_alert_def)
  have "has_open_alert ''Proxmox Guest'' n ''Critical Resource'' st' \<longleftrightarrow> crit"
    "has_open_alert ''Proxmox Guest'' n ''Resource Warning'' st' \<longleftrightarrow> warn"
    using two(2,3) pre by simp_all
  moreover have "open_alerts_of st' k = open_alerts_of st k"
    if "k \<noteq> guest_alert n ''Critical Resource''" "k \<noteq> guest_alert n ''Resource Warning''" for k
    using two(4) [of k] pre that by (simp add: open_alerts_cong [OF log(1)])
  ultimately show ?thesis
    by (intro exI [of _ d]) (simp add: rows name d v find_row_put_other find_row_put_same [of g_name d, unfolded name])
qed

definition demo_server :: server where
  "demo_server = \<lparr>warning_streak = Some 0, critical_streak = Some 0, is_critical = False, srv_name = ''alpha'',
     server_name = ''alpha'', server_type = ''PVE'', srv_role = ''Production'', hostname = ''alpha.example.com'',
     srv_enabled = True, srv_status = ''Online'', srv_cpu_usage = Some 10, srv_memory_usage = Some 20, srv_cores = Some 8,
     srv_memory_total = 64, srv_swap_usage = None, srv_swap_total = None, srv_storage_usage = 10, srv_storage_total = 100,
     srv_uptime = 1, srv_load_avg = [], backup_critical = False, last_error = [], srv_last_synced = None\<rparr>"

lemma demo_proxmox_inv [simp]: "alert_inv demo_proxmox_db" "guest_wf demo_proxmox_db"
  by (simp_all add: alert_inv_def demo_proxmox_db_def guest_wf_def)

theorem upsert_guest_flags_match_alerts_witness:
  "\<exists>st' d. st' = upsert_guest demo_poll_env demo_server 100 ''web'' ''QEMU (VM)'' ''running'' 99 0 0 None None 5 None
       (demo_thresholds\<lparr>confirmation_checks := 1\<rparr>) ''pve1'' None demo_proxmox_db \<and>
     find_row g_name (guest_docname ''alpha'' 100) (guests st') = Some d \<and> is_critical d \<and>
     has_open_alert ''Proxmox Guest'' (guest_docname ''alpha'' 100) ''Critical Resource'' st'"
proof -
  let ?th = "demo_thresholds\<lparr>confirmation_checks := 1\<rparr>"
  let ?doc = "guest_doc demo_poll_env (srv_name demo_server) 100 demo_proxmox_db"
  have no: "\<not> has_open_alert d n ty demo_proxmox_db" for d n ty
    by (simp add: has_open_alert_def demo_proxmox_db_def)
  have v: "guest_verdict ?doc 99 0 0 None ?th = (True, False)"
    by (simp add: guest_verdict_def guest_metrics_list_def guest_memory_usage_def track_severity_def demo_thresholds_def
        guest_doc_def demo_proxmox_db_def find_row_def new_guest_def py_round_nd_def py_round_def)
  from upsert_guest_flags_match_alerts [OF demo_proxmox_inv(1,2) _ refl refl _ _ refl,
      of 100 demo_server demo_poll_env "''web''" "''QEMU (VM)''" "''running''" 99 0 0 None None 5 None ?th "''pve1''" None]
  show ?thesis using no v by (simp add: demo_server_def) blast
qed

text \<open>C4: a completed guest sync mirrors the host: afterwards the documents of this server carry exactly
  the reported vmids (new guests added, vanished ones deleted), the documents of every other
  server are unchanged, and names stay unique. A host that reports no guest at all loses every
  document but one with vmid 0, which no host hands out: the query for the stale ones then
  excludes the list [0].\<close>

theorem sync_pve_guests_mirrors_host:
  fixes st :: "'a proxmox_db_scheme"
  assumes "guest_wf st" and "api_qemu c node = Inr vms" and "api_lxc c node = Inr cts"
    and "list_all (\<lambda>vm. 0 \<le> vm_vmid vm) (vms @ cts)"
  shows "\<exists>st'. sync_pve_guests pe c srv node th st = (None, st') \<and> guest_wf st' \<and>
    server_vmids (srv_name srv) st' =
      (if vms @ cts = [] then server_vmids (srv_name srv) st \<inter> {0} else set (map vm_vmid (vms @ cts))) \<and>
    other_guests (srv_name srv) st' = other_guests (srv_name srv) st"
proof -
  let ?s = "srv_name srv"
  let ?st1 = "fold (sync_qemu pe c srv node th) vms st"
  let ?st2 = "fold (sync_lxc pe c srv node th) cts ?st1"
  have nonneg: "0 \<le> vm_vmid vm" if "vm \<in> set vms \<union> set cts" for vm
    using assms(4) that by (auto simp: list_all_iff)
  have step_q: "guest_wf (sync_qemu pe c srv node th vm s) \<and>
      server_vmids ?s (sync_qemu pe c srv node th vm s) = insert (vm_vmid vm) (server_vmids ?s s) \<and>
      other_guests ?s (sync_qemu pe c srv node th vm s) = other_guests ?s s"
    if "vm \<in> set vms" "guest_wf s" for vm and s :: "'a proxmox_db_scheme"
    using sync_one_tables(1-3) [OF that(2) nonneg] that(1) by blast
  have step_l: "guest_wf (sync_lxc pe c srv node th vm s) \<and>
      server_vmids ?s (sync_lxc pe c srv node th vm s) = insert (vm_vmid vm) (server_vmids ?s s) \<and>
      other_guests ?s (sync_lxc pe c srv node th vm s) = other_guests ?s s"
    if "vm \<in> set cts" "guest_wf s" for vm and s :: "'a proxmox_db_scheme"
    using sync_one_tables(4-6) [OF that(2) nonneg] that(1) by blast
  note q = fold_sync_tables [OF step_q assms(1), simplified]
  note l = fold_sync_tables [OF step_l q(1), simplified]
  let ?st' = "delete_stale_guests srv (map vm_vmid vms @ map vm_vmid cts) ?st2"
  have "sync_pve_guests pe c srv node th st = (None, ?st')"
    by (simp add: sync_pve_guests_def assms(2,3) Let_def)
  moreover have "server_vmids ?s ?st' =
      (if vms @ cts = [] then server_vmids ?s st \<inter> {0} else set (map vm_vmid (vms @ cts)))"
  proof -
    let ?seen = "map vm_vmid vms @ map vm_vmid cts"
    have "server_vmids ?s ?st' = (set (map vm_vmid cts) \<union> (set (map vm_vmid vms) \<union> server_vmids ?s st))
        \<inter> (if ?seen = [] then {0} else set ?seen)"
      using delete_stale_tables(2) [OF l(1), where srv = srv and seen = ?seen] l(2) q(2) by simp
    then show ?thesis by (rule trans) auto
  qed
  ultimately show ?thesis
    using delete_stale_tables(1,3) [OF l(1), where srv = srv and seen = "map vm_vmid vms @ map vm_vmid cts"] l(3) q(3) by auto
qed

definition demo_vm :: vm_summary where
  "demo_vm = \<lparr>vm_vmid = 100, vm_name = Some ''web'', vm_status = Some ''running'', vm_cpu = Some (1 / 10),
     vm_mem = Some 10, vm_maxmem = Some 100, vm_disk = None, vm_maxdisk = None, vm_swap = None, vm_maxswap = None,
     vm_uptime = Some 5, vm_cpus = Some 2\<rparr>"

theorem sync_pve_guests_mirrors_host_witness:
  "\<exists>st' st''. sync_pve_guests demo_poll_env (demo_pve\<lparr>api_qemu := (\<lambda>n. Inr [demo_vm])\<rparr>) demo_server ''pve1'' demo_thresholds
      demo_proxmox_db = (None, st') \<and> server_vmids ''alpha'' st' = {100} \<and>
    sync_pve_guests demo_poll_env demo_pve demo_server ''pve1'' demo_thresholds st' = (None, st'') \<and>
    server_vmids ''alpha'' st'' = {}"
proof -
  from sync_pve_guests_mirrors_host [of demo_proxmox_db "demo_pve\<lparr>api_qemu := (\<lambda>n. Inr [demo_vm])\<rparr>" "''pve1''" "[demo_vm]" "[]"
      demo_poll_env demo_server demo_thresholds]
  obtain st' where one: "sync_pve_guests demo_poll_env (demo_pve\<lparr>api_qemu := (\<lambda>n. Inr [demo_vm])\<rparr>) demo_server ''pve1''
      demo_thresholds demo_proxmox_db = (None, st')" "guest_wf st'" "server_vmids ''alpha'' st' = {100}"
    by (auto simp: demo_pve_def demo_vm_def demo_server_def)
  from sync_pve_guests_mirrors_host [OF one(2), of demo_pve "''pve1''" "[]" "[]" demo_poll_env demo_server demo_thresholds]
  obtain st'' where "sync_pve_guests demo_poll_env demo_pve demo_server ''pve1'' demo_thresholds st' = (None, st'')"
    "server_vmids ''alpha'' st'' = {}"
    using one(3) by (auto simp: demo_pve_def demo_server_def)
  with one show ?thesis by blast
qed

text \<open>Deleting a guest that vanished from the host leaves its open alerts open: nothing resolves them,
  so an incident of a removed guest keeps counting as open.\<close>

theorem stale_guest_alerts_stay_open:
  fixes st :: "'a proxmox_db_scheme"
  assumes "guest_wf st" and "g \<in> set (guests st)" and "g_server g = srv_name srv"
    and "g_vmid g \<notin> set seen" and "seen \<noteq> []"
    and "has_open_alert ''Proxmox Guest'' (g_name g) ty st"
  shows "find_row g_name (g_name g) (guests (delete_stale_guests srv seen st)) = None \<and>
    has_open_alert ''Proxmox Guest'' (g_name g) ty (delete_stale_guests srv seen st)"
  using assms by (auto simp: delete_stale_guests_def Let_def find_row_delete has_open_alert_def)

theorem stale_guest_alerts_stay_open_witness:
  "\<exists>st :: proxmox_db. has_open_alert ''Proxmox Guest'' (guest_docname ''alpha'' 7) ''Critical Resource''
      (delete_stale_guests demo_server [100] st) \<and>
    find_row g_name (guest_docname ''alpha'' 7) (guests (delete_stale_guests demo_server [100] st)) = None"
proof -
  let ?g = "new_guest demo_poll_env ''alpha'' 7"
  let ?st = "dispatch_alert demo_env ''Critical Resource'' ''Proxmox Guest'' (guest_docname ''alpha'' 7) ''m'' True
    (demo_proxmox_db\<lparr>guests := [?g]\<rparr>)"
  have wf: "guest_wf ?st" by (simp add: guest_wf_def new_guest_def)
  have op: "has_open_alert ''Proxmox Guest'' (g_name ?g) ''Critical Resource'' ?st"
    by (simp add: has_open_iff open_dispatch new_guest_def)
  have mem: "?g \<in> set (guests ?st)" by simp
  from stale_guest_alerts_stay_open [OF wf mem _ _ _ op, of demo_server "[100]"]
  show ?thesis by (intro exI [of _ ?st]) (simp add: new_guest_def demo_server_def)
qed

end
