(* ===== verification/Backup_Log.thy ===== *)
theory Backup_Log
  imports Guest_Sync
begin

text \<open>
  Reading vzdump task logs, from \<open>tasks/poller.py\<close>: the regular expressions as search functions on
  strings, the archive size, the time stamps with the host's time-zone offset, the per-guest
  results of a bulk job, and the notes lookup. A \<open>float(...)\<close> that raises \<open>ValueError\<close> is an
  \<open>Unexpected\<close> error, which the poller does not catch here.
\<close>

subsection \<open>Regular expressions\<close>

text \<open>\<open>literal(\d+)\<close>, searched: the number and what follows it.\<close>

fun search_num :: "string \<Rightarrow> string \<Rightarrow> (nat \<times> string) option" where
  "search_num lit [] = None"
| "search_num lit (c # cs) =
     (let rest = drop (length lit) (c # cs)
      in if starts_with lit (c # cs) \<and> takeWhile is_digit rest \<noteq> []
         then Some (nat_of_digits 0 (takeWhile is_digit rest), dropWhile is_digit rest)
         else search_num lit cs)"

text \<open>\<open>literal(.+)\<close>, searched: the rest of the line.\<close>

definition line_rest :: "string \<Rightarrow> string" where
  "line_rest s = takeWhile (\<lambda>c. c \<noteq> CHR 0x0A) s"

fun search_rest :: "string \<Rightarrow> string \<Rightarrow> string option" where
  "search_rest lit [] = None"
| "search_rest lit (c # cs) =
     (let rest = line_rest (drop (length lit) (c # cs))
      in if starts_with lit (c # cs) \<and> rest \<noteq> [] then Some rest else search_rest lit cs)"

text \<open>\<open>ERROR: Backup of VM (\d+) failed(?: - (.+))?\<close>\<close>

fun search_failed :: "string \<Rightarrow> (nat \<times> string option) option" where
  "search_failed [] = None"
| "search_failed (c # cs) =
     (let lit = ''ERROR: Backup of VM '';
          rest = drop (length lit) (c # cs);
          after = dropWhile is_digit rest
      in if starts_with lit (c # cs) \<and> takeWhile is_digit rest \<noteq> [] \<and> starts_with '' failed'' after
         then (let tl1 = drop 7 after; reason = line_rest (drop 3 tl1)
               in Some (nat_of_digits 0 (takeWhile is_digit rest),
                        if starts_with '' - '' tl1 \<and> reason \<noteq> [] then Some reason else None))
         else search_failed cs)"

definition num_char :: "char \<Rightarrow> bool" where
  "num_char c \<longleftrightarrow> is_digit c \<or> c = CHR ''.''"

text \<open>The unit factors of \<open>_SIZE_UNIT_TO_GB\<close>.\<close>

definition size_unit_to_gb :: "string \<Rightarrow> rat option" where
  "size_unit_to_gb u =
     map_of [(''KB'', 1 / 1000000), (''MB'', 1 / 1000), (''GB'', 1), (''TB'', 1000)] u"

text \<open>\<open>archive file size:\s*([\d.]+)\s*([KMGT]B)\<close>: the number text and the unit factor.\<close>

fun search_size :: "string \<Rightarrow> (string \<times> rat) option" where
  "search_size [] = None"
| "search_size (c # cs) =
     (let lit = ''archive file size:'';
          rest = dropWhile py_space (drop (length lit) (c # cs));
          num = takeWhile num_char rest;
          u = take 2 (dropWhile py_space (dropWhile num_char rest))
      in if starts_with lit (c # cs) \<and> num \<noteq> [] \<and> size_unit_to_gb u \<noteq> None
         then Some (num, the (size_unit_to_gb u))
         else search_size cs)"

text \<open>\<open>float\<close> on a text of digits and points: \<open>None\<close> where it raises.\<close>

definition parse_float :: "string \<Rightarrow> rat option" where
  "parse_float s =
     (let whole = takeWhile is_digit s; rest = dropWhile is_digit s
      in if rest = [] then (if whole = [] then None else Some (of_nat (nat_of_digits 0 whole)))
         else let frac = tl rest
              in if hd rest = CHR ''.'' \<and> list_all is_digit frac \<and> (whole \<noteq> [] \<or> frac \<noteq> [])
                 then Some (of_nat (nat_of_digits 0 whole) + of_nat (nat_of_digits 0 frac) / 10 ^ length frac)
                 else None)"

definition parse_archive_size_gb :: "string \<Rightarrow> poll_error + rat option" where
  "parse_archive_size_gb text =
     (case search_size text of
        None \<Rightarrow> Inr None
      | Some (num, factor) \<Rightarrow>
          (case parse_float num of
             None \<Rightarrow> Inl (Unexpected ''ValueError'')
           | Some v \<Rightarrow> Inr (Some (py_round_nd 3 (v * factor)))))"

subsection \<open>Time stamps\<close>

text \<open>\<open>datetime.strptime(s, "%Y-%m-%d %H:%M:%S")\<close>; \<open>None\<close> where it raises \<open>ValueError\<close>.\<close>

definition take_digits :: "nat \<Rightarrow> nat \<Rightarrow> string \<Rightarrow> (int \<times> string) option" where
  "take_digits lo hi s =
     (let ds = take hi (takeWhile is_digit s)
      in if length ds < lo then None else Some (int (nat_of_digits 0 ds), drop (length ds) s))"

definition expect :: "char \<Rightarrow> string \<Rightarrow> string option" where
  "expect c s = (case s of [] \<Rightarrow> None | x # xs \<Rightarrow> if x = c then Some xs else None)"

definition days_in_month :: "int \<Rightarrow> int \<Rightarrow> int" where
  "days_in_month y m =
     (if m = 2 then (if y mod 4 = 0 \<and> (y mod 100 \<noteq> 0 \<or> y mod 400 = 0) then 29 else 28)
      else if m \<in> {4, 6, 9, 11} then 30 else 31)"

definition make_datetime :: "int \<Rightarrow> int \<Rightarrow> int \<Rightarrow> int \<Rightarrow> int \<Rightarrow> int \<Rightarrow> datetime option" where
  "make_datetime y mo d h mi s =
     (if 1 \<le> y \<and> y \<le> 9999 \<and> 1 \<le> mo \<and> mo \<le> 12 \<and> 1 \<le> d \<and> d \<le> days_in_month y mo \<and>
         0 \<le> h \<and> h \<le> 23 \<and> 0 \<le> mi \<and> mi \<le> 59 \<and> 0 \<le> s \<and> s \<le> 59
      then Some (midnight_of (days_from_civil y mo d) + h * HOUR + mi * MINUTE + s * SECOND) else None)"

definition strptime :: "string \<Rightarrow> datetime option" where
  "strptime s =
     Option.bind (take_digits 4 4 s) (\<lambda>(y, s). Option.bind (expect (CHR ''-'') s) (\<lambda>s.
     Option.bind (take_digits 1 2 s) (\<lambda>(mo, s). Option.bind (expect (CHR ''-'') s) (\<lambda>s.
     Option.bind (take_digits 1 2 s) (\<lambda>(d, s).
       if s = [] \<or> \<not> py_space (hd s) then None else
     Option.bind (take_digits 1 2 (py_lstrip s)) (\<lambda>(h, s). Option.bind (expect (CHR '':'') s) (\<lambda>s.
     Option.bind (take_digits 1 2 s) (\<lambda>(mi, s). Option.bind (expect (CHR '':'') s) (\<lambda>s.
     Option.bind (take_digits 1 2 s) (\<lambda>(sec, s).
       if s = [] then make_datetime y mo d h mi sec else None))))))))))"

fun detect_log_timezone_offset :: "poll_env \<Rightarrow> string list \<Rightarrow> vzdump_task \<Rightarrow> timedelta" where
  "detect_log_timezone_offset pe [] task = 0"
| "detect_log_timezone_offset pe (line # ls) task =
     (case search_rest ''Backup started at '' line of
        None \<Rightarrow> detect_log_timezone_offset pe ls task
      | Some t \<Rightarrow> (case strptime (py_strip t) of
                     None \<Rightarrow> 0
                   | Some wall_clock \<Rightarrow> wall_clock - fromtimestamp pe (tk_starttime task)))"

subsection \<open>The log of a bulk job\<close>

type_synonym backup_entry = "int \<times> string \<times> datetime \<times> string \<times> rat option"

definition finished_time :: "string list \<Rightarrow> datetime \<Rightarrow> timedelta \<Rightarrow> datetime" where
  "finished_time following fallback_time tz_offset =
     (case following of
        [] \<Rightarrow> fallback_time
      | l # _ \<Rightarrow> (case search_rest ''Backup finished at '' l of
                   None \<Rightarrow> fallback_time
                 | Some t \<Rightarrow> (case strptime (py_strip t) of None \<Rightarrow> fallback_time | Some d \<Rightarrow> d - tz_offset)))"

fun bulk_loop ::
    "datetime \<Rightarrow> timedelta \<Rightarrow> string list \<Rightarrow> nat option \<Rightarrow> rat option \<Rightarrow> poll_error + backup_entry list" where
  "bulk_loop fb tz [] cur sz = Inr []"
| "bulk_loop fb tz (text # ls) cur sz =
     (case search_num ''Starting Backup of VM '' text of
        Some (v, _) \<Rightarrow> bulk_loop fb tz ls (Some v) None
      | None \<Rightarrow>
     (case cur of
        None \<Rightarrow> bulk_loop fb tz ls None sz
      | Some vmid \<Rightarrow>
     (case parse_archive_size_gb text of
        Inl err \<Rightarrow> Inl err
      | Inr (Some gbs) \<Rightarrow> bulk_loop fb tz ls cur (Some gbs)
      | Inr None \<Rightarrow>
     (if map_option fst (search_failed text) = Some vmid
      then map_sum id (\<lambda>es. (int vmid, ''Failed'', fb,
               (case search_failed text of Some (_, Some reason) \<Rightarrow> reason | _ \<Rightarrow> ''Backup failed''), None) # es)
             (bulk_loop fb tz ls None sz)
      else if map_option fst (search_num ''Finished Backup of VM '' text) = Some vmid
      then map_sum id (\<lambda>es. (int vmid, ''Success'', finished_time ls fb tz, [], sz) # es)
             (bulk_loop fb tz ls None sz)
      else bulk_loop fb tz ls cur sz))))"

definition parse_bulk_backup_log ::
    "string list \<Rightarrow> datetime \<Rightarrow> timedelta \<Rightarrow> poll_error + backup_entry list" where
  "parse_bulk_backup_log log_lines fallback_time tz_offset = bulk_loop fallback_time tz_offset log_lines None None"

subsection \<open>Vmids and notes\<close>

definition parse_vmid :: "string option \<Rightarrow> int option" where
  "parse_vmid raw =
     (case raw of
        None \<Rightarrow> None
      | Some s \<Rightarrow>
          (let body = dropWhile (\<lambda>c. c = CHR ''-'') s; dashes = length s - length body
           in if body = [] \<or> \<not> list_all is_digit body then None
              else Some (if dashes = 0 then int (nat_of_digits 0 body)
                         else if dashes = 1 then - int (nat_of_digits 0 body) else 0)))"

fun closest_file :: "rat \<Rightarrow> backup_file \<Rightarrow> backup_file list \<Rightarrow> backup_file" where
  "closest_file target best [] = best"
| "closest_file target best (f # fs) =
     closest_file target (if \<bar>opt_rat (bf_ctime f) - target\<bar> < \<bar>opt_rat (bf_ctime best) - target\<bar> then f else best) fs"

definition find_backup_notes :: "poll_env \<Rightarrow> backup_file list \<Rightarrow> int \<Rightarrow> datetime \<Rightarrow> string" where
  "find_backup_notes pe backup_files vmid backup_time =
     (case filter (\<lambda>f. opt_int (bf_vmid f) = vmid) backup_files of
        [] \<Rightarrow> []
      | f # fs \<Rightarrow>
          (let target = timestamp pe backup_time; closest = closest_file target f fs
           in if \<bar>opt_rat (bf_ctime closest) - target\<bar> > 3600 then [] else opt_str (bf_notes closest)))"

subsection \<open>Searching rendered lines\<close>

lemma starts_with_append [simp]: "starts_with p (p @ s)"
  by (induction p) auto

lemma digits_then [simp]:
  assumes "r = [] \<or> \<not> is_digit (hd r)"
  shows "takeWhile is_digit (show_nat v @ r) = show_nat v" "dropWhile is_digit (show_nat v @ r) = r"
proof -
  have "\<forall>c \<in> set (show_nat v). is_digit c" using show_nat_digits by blast
  with assms show "takeWhile is_digit (show_nat v @ r) = show_nat v" "dropWhile is_digit (show_nat v @ r) = r"
    by (cases r; simp add: takeWhile_append2 dropWhile_append2)+
qed

lemma search_num_Cons:
  "\<not> starts_with lit (c # cs) \<Longrightarrow> search_num lit (c # cs) = search_num lit cs"
  by (simp add: Let_def)

lemma search_num_hit:
  assumes "lit \<noteq> []" and "r = [] \<or> \<not> is_digit (hd r)"
  shows "search_num lit (lit @ show_nat v @ r) = Some (v, r)"
proof -
  obtain c cs where lit: "lit = c # cs" using assms(1) by (cases lit) auto
  have "starts_with (c # cs) (c # cs @ show_nat v @ r)" using starts_with_append [of lit] by (simp add: lit)
  then show ?thesis using assms(2) nat_of_digits_show_nat [of v] by (simp add: lit Let_def)
qed

lemma not_digit [simp]: "\<not> is_digit (CHR '' '')" "\<not> is_digit (CHR ''G'')" "\<not> is_digit (CHR ''.'')"
  "\<not> is_digit (CHR ''S'')" "\<not> is_digit (CHR ''a'')" "\<not> is_digit (CHR ''E'')"
  by (simp_all add: is_digit_def)

lemma not_num_char [simp]: "\<not> num_char (CHR ''G'')" "\<not> num_char (CHR '' '')"
  by (simp_all add: num_char_def)

lemma spaces [simp]: "py_space (CHR '' '')" "\<not> py_space (CHR ''G'')"
  by (simp_all add: py_space_def)

lemma show_nat_not_space [simp]: "dropWhile py_space (show_nat v @ r) = show_nat v @ r"
proof -
  obtain c cs where s: "show_nat v = c # cs" by (cases "show_nat v") auto
  have "is_digit c" using show_nat_digits [of c v] s by simp
  then have "\<not> py_space c" by (auto simp: is_digit_def py_space_def Let_def)
  with s show ?thesis by simp
qed

lemma num_then [simp]:
  assumes "r = [] \<or> \<not> num_char (hd r)"
  shows "takeWhile num_char (show_nat v @ r) = show_nat v" "dropWhile num_char (show_nat v @ r) = r"
proof -
  have "\<forall>c \<in> set (show_nat v). num_char c" using show_nat_digits by (auto simp: num_char_def)
  with assms show "takeWhile num_char (show_nat v @ r) = show_nat v" "dropWhile num_char (show_nat v @ r) = r"
    by (cases r; simp add: takeWhile_append2 dropWhile_append2)+
qed

text \<open>A search whose literal starts with a letter runs through a number.\<close>

lemma search_skip:
  assumes "\<forall>c \<in> set ds. is_digit c"
  shows "lit \<noteq> [] \<Longrightarrow> \<not> is_digit (hd lit) \<Longrightarrow> search_num lit (ds @ r) = search_num lit r"
    and "search_size (ds @ r) = search_size r" and "search_failed (ds @ r) = search_failed r"
proof -
  have no: "\<not> starts_with lit (c # s)" if "is_digit c" "lit \<noteq> []" "\<not> is_digit (hd lit)" for c s lit
    using that by (cases lit) auto
  show "search_num lit (ds @ r) = search_num lit r" if "lit \<noteq> []" "\<not> is_digit (hd lit)"
    using assms that no [of _ lit] by (induction ds) (simp_all add: Let_def)
  show "search_size (ds @ r) = search_size r"
    using assms by (induction ds) (auto simp: Let_def)
  show "search_failed (ds @ r) = search_failed r"
    using assms by (induction ds) (auto simp: Let_def)
qed

lemmas skip_nat = search_skip [where ds = "show_nat v" for v, OF ballI [OF show_nat_digits]]

definition start_line :: "nat \<Rightarrow> string" where
  "start_line v = ''INFO: Starting Backup of VM '' @ show_nat v @ '' (qemu)''"
definition size_line :: "nat \<Rightarrow> string" where
  "size_line n = ''INFO: archive file size: '' @ show_nat n @ ''GB''"
definition finished_line :: "nat \<Rightarrow> string" where
  "finished_line v = ''INFO: Finished Backup of VM '' @ show_nat v @ '' (00:00:42)''"
definition failed_line :: "nat \<Rightarrow> string \<Rightarrow> string" where
  "failed_line v r = ''ERROR: Backup of VM '' @ show_nat v @ '' failed - '' @ r"
definition finished_at_line :: "string \<Rightarrow> string" where
  "finished_at_line t = ''INFO: Backup finished at '' @ t"

lemma start_line_start: "search_num ''Starting Backup of VM '' (start_line v) = Some (v, '' (qemu)'')"
  by (simp add: start_line_def Let_def nat_of_digits_show_nat)

lemma size_line_start: "search_num ''Starting Backup of VM '' (size_line n) = None"
  by (simp add: size_line_def Let_def skip_nat)

lemma parse_float_nat: "parse_float (show_nat n) = Some (of_nat n)"
proof -
  have tw: "takeWhile is_digit (show_nat n) = show_nat n" and dw: "dropWhile is_digit (show_nat n) = []"
    using digits_then [of "[]" n] by simp_all
  show ?thesis unfolding parse_float_def Let_def tw dw by (simp add: nat_of_digits_show_nat)
qed

lemma size_line_size: "parse_archive_size_gb (size_line n) = Inr (Some (of_nat n))"
proof -
  have "py_round_nd 3 (of_nat n) = of_nat n" using py_round_nd_of_int [of 3 "int n"] by simp
  then show ?thesis
    by (simp add: parse_archive_size_gb_def size_line_def Let_def size_unit_to_gb_def parse_float_nat)
qed

lemma finished_line_start: "search_num ''Starting Backup of VM '' (finished_line v) = None"
  and finished_line_size: "parse_archive_size_gb (finished_line v) = Inr None"
  and finished_line_failed: "search_failed (finished_line v) = None"
  and finished_line_finished: "search_num ''Finished Backup of VM '' (finished_line v) = Some (v, '' (00:00:42)'')"
  by (simp_all add: finished_line_def Let_def skip_nat parse_archive_size_gb_def nat_of_digits_show_nat)

lemma failed_line_failed:
  assumes "line_rest r = r" and "r \<noteq> []"
  shows "search_failed (failed_line v r) = Some (v, Some r)"
  using assms by (simp add: failed_line_def Let_def nat_of_digits_show_nat)

lemma finished_at_rest:
  assumes "line_rest t = t" and "t \<noteq> []"
  shows "search_rest ''Backup finished at '' (finished_at_line t) = Some t"
  using assms by (simp add: finished_at_line_def Let_def)


subsection \<open>The round trip over a bulk log\<close>

datatype job_result = Done nat string | Broke string

text \<open>One guest's section: vmid, the lines vzdump prints in between, and how it ended.\<close>

type_synonym job_section = "nat \<times> string list \<times> job_result"

fun render_section :: "job_section \<Rightarrow> string list" where
  "render_section (v, noise, Done n t) =
     start_line v # noise @ [size_line n, finished_line v, finished_at_line t]"
| "render_section (v, noise, Broke r) = start_line v # noise @ [failed_line v r]"

definition quiet :: "nat \<Rightarrow> string \<Rightarrow> bool" where
  "quiet v l \<longleftrightarrow> search_num ''Starting Backup of VM '' l = None \<and> parse_archive_size_gb l = Inr None \<and>
     map_option fst (search_failed l) \<noteq> Some v \<and>
     map_option fst (search_num ''Finished Backup of VM '' l) \<noteq> Some v"

fun section_ok :: "job_section \<Rightarrow> bool" where
  "section_ok (v, noise, Done n t) \<longleftrightarrow>
     list_all (quiet v) noise \<and> line_rest t = t \<and> strptime (py_strip t) \<noteq> None \<and>
     search_num ''Starting Backup of VM '' t = None"
| "section_ok (v, noise, Broke r) \<longleftrightarrow>
     list_all (quiet v) noise \<and> line_rest r = r \<and> r \<noteq> [] \<and>
     search_num ''Starting Backup of VM '' r = None \<and> search_size r = None"

fun section_entry :: "datetime \<Rightarrow> timedelta \<Rightarrow> job_section \<Rightarrow> backup_entry" where
  "section_entry fb tz (v, noise, Done n t) =
     (int v, ''Success'', the (strptime (py_strip t)) - tz, [], Some (of_nat n))"
| "section_entry fb tz (v, noise, Broke r) = (int v, ''Failed'', fb, r, None)"

lemma bulk_loop_quiet:
  "list_all (quiet v) noise \<Longrightarrow> bulk_loop fb tz (noise @ ls) (Some v) sz = bulk_loop fb tz ls (Some v) sz"
  by (induction noise) (auto simp: quiet_def split: option.splits)

lemma failed_line_other:
  "search_num ''Starting Backup of VM '' r = None \<Longrightarrow> search_num ''Starting Backup of VM '' (failed_line v r) = None"
  "search_size r = None \<Longrightarrow> parse_archive_size_gb (failed_line v r) = Inr None"
  by (simp_all add: failed_line_def parse_archive_size_gb_def Let_def skip_nat)

lemma finished_at_start:
  "search_num ''Starting Backup of VM '' t = None \<Longrightarrow> search_num ''Starting Backup of VM '' (finished_at_line t) = None"
  by (simp add: finished_at_line_def Let_def)

lemma strptime_nonempty: "strptime (py_strip []) = None"
  by (simp add: strptime_def py_strip_def py_lstrip_def take_digits_def)

lemma bulk_loop_start: "bulk_loop fb tz (start_line v # ls) cur sz = bulk_loop fb tz ls (Some v) None"
  by (simp add: start_line_start)

lemma bulk_loop_broke:
  assumes "section_ok (v, noise, Broke r)"
  shows "bulk_loop fb tz (failed_line v r # ls) (Some v) sz =
    map_sum id ((#) (int v, ''Failed'', fb, r, None)) (bulk_loop fb tz ls None sz)"
  using assms failed_line_failed [of r v] failed_line_other [of r v] by simp

lemma bulk_loop_done:
  assumes "section_ok (v, noise, Done n t)"
  shows "bulk_loop fb tz (size_line n # finished_line v # finished_at_line t # ls) (Some v) sz =
    map_sum id ((#) (int v, ''Success'', the (strptime (py_strip t)) - tz, [], Some (of_nat n)))
      (bulk_loop fb tz ls None (Some (of_nat n)))"
proof -
  obtain d where d: "strptime (py_strip t) = Some d" using assms by auto
  then have "t \<noteq> []" using strptime_nonempty by auto
  then have "search_rest ''Backup finished at '' (finished_at_line t) = Some t"
    using assms finished_at_rest by simp
  then have "finished_time (finished_at_line t # ls) fb tz = d - tz" using d by (simp add: finished_time_def)
  moreover have "search_num ''Starting Backup of VM '' (finished_at_line t) = None"
    using assms finished_at_start by simp
  ultimately show ?thesis
    by (simp add: size_line_start size_line_size finished_line_start finished_line_size
        finished_line_failed finished_line_finished d)
qed

lemma bulk_loop_section:
  assumes "section_ok s"
  shows "\<exists>sz'. bulk_loop fb tz (render_section s @ ls) cur sz =
    map_sum id ((#) (section_entry fb tz s)) (bulk_loop fb tz ls None sz')"
proof -
  obtain v noise res where s: "s = (v, noise, res)" by (cases s)
  have noise: "list_all (quiet v) noise" using assms by (cases res) (simp_all add: s)
  show ?thesis
  proof (cases res)
    case (Done n t)
    have ok: "section_ok (v, noise, Done n t)" using assms by (simp add: s Done)
    show ?thesis unfolding s Done render_section.simps append_Cons append_assoc bulk_loop_start
        append_Nil bulk_loop_quiet [OF noise] bulk_loop_done [OF ok] section_entry.simps by blast
  next
    case (Broke r)
    have ok: "section_ok (v, noise, Broke r)" using assms by (simp add: s Broke)
    show ?thesis unfolding s Broke render_section.simps append_Cons append_assoc bulk_loop_start
        append_Nil bulk_loop_quiet [OF noise] bulk_loop_broke [OF ok] section_entry.simps by blast
  qed
qed

text \<open>C6: Round trip of a bulk vzdump log. For any sequence of guest sections as vzdump prints them (a
  start line, lines that carry none of the markers, then either the size line, the finished line
  and the line with the time, or the failure line with its reason), the parser returns one entry
  per section, in order, with the section's vmid, result, time, reason and size.\<close>

theorem parse_bulk_backup_log_roundtrip:
  assumes "list_all section_ok jobs"
  shows "parse_bulk_backup_log (concat (map render_section jobs)) fb tz = Inr (map (section_entry fb tz) jobs)"
proof -
  have "bulk_loop fb tz (concat (map render_section jobs)) cur sz = Inr (map (section_entry fb tz) jobs)" for cur sz
    using assms
  proof (induction jobs arbitrary: cur sz)
    case (Cons s jobs)
    then obtain sz' where "bulk_loop fb tz (render_section s @ concat (map render_section jobs)) cur sz =
        map_sum id ((#) (section_entry fb tz s)) (bulk_loop fb tz (concat (map render_section jobs)) None sz')"
      using bulk_loop_section by fastforce
    with Cons show ?case by simp
  qed simp
  then show ?thesis by (simp add: parse_bulk_backup_log_def)
qed


definition demo_jobs :: "job_section list" where
  "demo_jobs = [(101, [''INFO: status: running''], Done 12 ''2026-03-01 02:00:30''),
                (102, [], Broke ''no space left'')]"

theorem parse_bulk_backup_log_roundtrip_witness:
  "parse_bulk_backup_log (concat (map render_section demo_jobs)) 0 0 = Inr (map (section_entry 0 0) demo_jobs)"
proof -
  have "list_all section_ok demo_jobs" by code_simp
  then show ?thesis by (rule parse_bulk_backup_log_roundtrip)
qed

text \<open>Whatever the log holds, the entries are well formed.\<close>

definition entry_ok :: "datetime \<Rightarrow> backup_entry \<Rightarrow> bool" where
  "entry_ok fb e = (case e of (v, st, tm, err, sz) \<Rightarrow>
     (st = ''Success'' \<and> err = []) \<or> (st = ''Failed'' \<and> err \<noteq> [] \<and> tm = fb \<and> sz = None))"

lemma search_failed_reason: "search_failed l = Some (v, Some r) \<Longrightarrow> r \<noteq> []"
  by (induction l rule: search_failed.induct) (auto simp: Let_def split: if_splits)

definition started :: "string list \<Rightarrow> nat \<Rightarrow> bool" where
  "started ls v \<longleftrightarrow> (\<exists>l \<in> set ls. map_option fst (search_num ''Starting Backup of VM '' l) = Some v)"

definition reported :: "string list \<Rightarrow> nat \<Rightarrow> bool" where
  "reported ls v \<longleftrightarrow> (\<exists>l \<in> set ls. map_option fst (search_num ''Finished Backup of VM '' l) = Some v
                                \<or> map_option fst (search_failed l) = Some v)"

lemma started_Cons: "started (l # ls) v \<longleftrightarrow>
    map_option fst (search_num ''Starting Backup of VM '' l) = Some v \<or> started ls v"
  by (auto simp: started_def)

lemma reported_Cons: "reported (l # ls) v \<longleftrightarrow>
    map_option fst (search_num ''Finished Backup of VM '' l) = Some v \<or>
    map_option fst (search_failed l) = Some v \<or> reported ls v"
  by (auto simp: reported_def)

lemma bulk_loop_entries:
  "bulk_loop fb tz ls cur sz = Inr es \<Longrightarrow> e \<in> set es \<Longrightarrow>
    entry_ok fb e \<and> (\<exists>v. fst e = int v \<and> (started ls v \<or> cur = Some v) \<and> reported ls v)"
proof (induction ls arbitrary: cur sz es)
  case (Cons l ls)
  let ?P = "\<lambda>cur ls. entry_ok fb e \<and> (\<exists>v. fst e = int v \<and> (started ls v \<or> cur = Some v) \<and> reported ls v)"
  have rest: "?P cur (l # ls)" if "?P None ls" using that by (auto simp: started_Cons reported_Cons)
  show ?case
  proof (cases "search_num ''Starting Backup of VM '' l")
    case (Some p)
    then have "bulk_loop fb tz ls (Some (fst p)) None = Inr es" using Cons.prems(1) by (cases p) simp
    from Cons.IH [OF this Cons.prems(2)] show ?thesis using Some by (auto simp: started_Cons reported_Cons)
  next
    case None
    note no_start = None
    show ?thesis
    proof (cases cur)
      case None
      then have "bulk_loop fb tz ls None sz = Inr es" using Cons.prems(1) no_start by simp
      from rest [OF Cons.IH [OF this Cons.prems(2)]] show ?thesis .
    next
      case (Some v)
      consider (size) g where "parse_archive_size_gb l = Inr (Some g)" "bulk_loop fb tz ls cur (Some g) = Inr es"
        | (failed) es' where "map_option fst (search_failed l) = Some v"
            "es = (int v, ''Failed'', fb, (case search_failed l of Some (_, Some r) \<Rightarrow> r | _ \<Rightarrow> ''Backup failed''), None) # es'"
            "bulk_loop fb tz ls None sz = Inr es'"
        | (finished) es' where "map_option fst (search_num ''Finished Backup of VM '' l) = Some v"
            "es = (int v, ''Success'', finished_time ls fb tz, [], sz) # es'" "bulk_loop fb tz ls None sz = Inr es'"
        | (other) "bulk_loop fb tz ls cur sz = Inr es"
        using Cons.prems(1) no_start Some
        by (auto simp: map_sum_def split: sum.splits option.splits if_splits)
      then show ?thesis
      proof cases
        case size
        from Cons.IH [OF size(2) Cons.prems(2)] show ?thesis by (auto simp: started_Cons reported_Cons)
      next
        case failed
        have "?P cur (l # ls)" if "e = hd es"
          using that failed Some search_failed_reason
          by (auto simp: entry_ok_def reported_Cons started_Cons split: option.splits)
        then show ?thesis using rest Cons.IH [OF failed(3)] Cons.prems(2) failed(2) by auto
      next
        case finished
        have "?P cur (l # ls)" if "e = hd es"
          using that finished Some by (auto simp: entry_ok_def reported_Cons started_Cons)
        then show ?thesis using rest Cons.IH [OF finished(3)] Cons.prems(2) finished(2) by auto
      next
        case other
        from Cons.IH [OF this Cons.prems(2)] show ?thesis by (auto simp: started_Cons reported_Cons)
      qed
    qed
  qed
qed simp

text \<open>Whatever text a bulk job's log holds, every entry read from it is of a guest whose section the
  log opens and whose result the log reports; a success carries no error text, and a failure
  carries one, no size and the task's own end time.\<close>

theorem parse_bulk_backup_log_sound:
  assumes "parse_bulk_backup_log ls fb tz = Inr es" and "e \<in> set es"
  shows "entry_ok fb e \<and> (\<exists>v. fst e = int v \<and> started ls v \<and> reported ls v)"
  using bulk_loop_entries [of fb tz ls None None es e] assms by (simp add: parse_bulk_backup_log_def)

subsection \<open>Time zones and notes\<close>

text \<open>The correction cancels the host's offset from UTC: a guest that finished so many microseconds
  after the job's own start line is recorded at that distance from the job's start time.\<close>

lemma detect_offset_skip:
  "list_all (\<lambda>l. search_rest ''Backup started at '' l = None) pre \<Longrightarrow>
    detect_log_timezone_offset pe (pre @ ls) task = detect_log_timezone_offset pe ls task"
  by (induction pre) auto

text \<open>The time recorded for a guest is independent of the host's time zone: when the log's first
  start line shows the wall clock at the job's start, the recorded time is the job's start time plus
  the distance between the two wall-clock readings.\<close>

theorem finished_time_host_zone_free:
  assumes "list_all (\<lambda>l. search_rest ''Backup started at '' l = None) pre"
    and "search_rest ''Backup started at '' l = Some ts" and "strptime (py_strip ts) = Some wall_start"
    and "search_rest ''Backup finished at '' f = Some tf" and "strptime (py_strip tf) = Some wall_end"
  shows "finished_time (f # ls) fb (detect_log_timezone_offset pe (pre @ l # rest) task) =
    fromtimestamp pe (tk_starttime task) + (wall_end - wall_start)"
  using assms by (simp add: detect_offset_skip finished_time_def)

theorem finished_time_host_zone_free_witness:
  "finished_time [''INFO: Backup finished at 2026-03-01 02:00:30''] 0
     (detect_log_timezone_offset demo_poll_env [''INFO: Backup started at 2026-03-01 02:00:00''] (\<lparr> tk_upid = None, tk_id = None, tk_status = None, tk_starttime = 1000, tk_endtime = Some 2000 \<rparr>)) =
   fromtimestamp demo_poll_env 1000 + 30 * SECOND"
proof -
  have "strptime ''2026-03-01 02:00:00'' = Some 1772330400000000"
    and "strptime ''2026-03-01 02:00:30'' = Some 1772330430000000" by code_simp+
  then show ?thesis
    using finished_time_host_zone_free [where pre = "[]" and l = "''INFO: Backup started at 2026-03-01 02:00:00''"
      and ts = "''2026-03-01 02:00:00''" and tf = "''2026-03-01 02:00:30''" and rest = "[]"
      and f = "''INFO: Backup finished at 2026-03-01 02:00:30''" and ls = "[]" and pe = demo_poll_env
      and task = "\<lparr> tk_upid = None, tk_id = None, tk_status = None, tk_starttime = 1000, tk_endtime = Some 2000 \<rparr>"]
    by (simp add: Let_def line_rest_def py_strip_def py_lstrip_def py_space_def SECOND_def)
qed

lemma closest_file_props:
  "closest_file x b fs \<in> set (b # fs) \<and>
   (\<forall>f \<in> set (b # fs). \<bar>opt_rat (bf_ctime (closest_file x b fs)) - x\<bar> \<le> \<bar>opt_rat (bf_ctime f) - x\<bar>)"
proof (induction fs arbitrary: b)
  case (Cons f fs)
  let ?b = "if \<bar>opt_rat (bf_ctime f) - x\<bar> < \<bar>opt_rat (bf_ctime b) - x\<bar> then f else b"
  have "\<bar>opt_rat (bf_ctime ?b) - x\<bar> \<le> \<bar>opt_rat (bf_ctime f) - x\<bar>"
    "\<bar>opt_rat (bf_ctime ?b) - x\<bar> \<le> \<bar>opt_rat (bf_ctime b) - x\<bar>" by auto
  then show ?case using Cons.IH [of ?b] by (auto intro: order_trans split: if_splits)
qed simp

lemma find_backup_notes_closest:
  assumes "find_backup_notes pe files vmid t \<noteq> []"
  obtains f where "f \<in> set files" and "opt_int (bf_vmid f) = vmid"
    and "\<bar>opt_rat (bf_ctime f) - timestamp pe t\<bar> \<le> 3600" and "find_backup_notes pe files vmid t = opt_str (bf_notes f)"
    and "\<forall>g \<in> set files. opt_int (bf_vmid g) = vmid \<longrightarrow>
      \<bar>opt_rat (bf_ctime f) - timestamp pe t\<bar> \<le> \<bar>opt_rat (bf_ctime g) - timestamp pe t\<bar>"
proof -
  obtain b fs where cand: "filter (\<lambda>f. opt_int (bf_vmid f) = vmid) files = b # fs"
    using assms by (auto simp: find_backup_notes_def split: list.splits)
  let ?f = "closest_file (timestamp pe t) b fs"
  have mem: "set (b # fs) = {f \<in> set files. opt_int (bf_vmid f) = vmid}" using cand by (metis set_filter)
  have "?f \<in> set files" "opt_int (bf_vmid ?f) = vmid"
    "\<forall>g \<in> set files. opt_int (bf_vmid g) = vmid \<longrightarrow>
      \<bar>opt_rat (bf_ctime ?f) - timestamp pe t\<bar> \<le> \<bar>opt_rat (bf_ctime g) - timestamp pe t\<bar>"
    using closest_file_props [where x = "timestamp pe t" and b = b and fs = fs] unfolding mem by auto
  moreover have "\<bar>opt_rat (bf_ctime ?f) - timestamp pe t\<bar> \<le> 3600" "find_backup_notes pe files vmid t = opt_str (bf_notes ?f)"
    using assms cand by (auto simp: find_backup_notes_def Let_def split: if_splits)
  ultimately show thesis using that by blast
qed


end
