(* ===== verification/Backup_Sync.thy ===== *)
theory Backup_Sync
  imports Backup_Log
begin

text \<open>
  The backup half of \<open>tasks/poller.py\<close>: recording vzdump results and PBS snapshots in the backup
  log without duplicates, the guests' last successful backup, and the two overdue checks (the
  host-level one with its remembered flag and the per-guest one on the alert log). The backup log's
  \<open>upid\<close> column is unique in the database, so an insert that repeats one raises.
\<close>

subsection \<open>Sequencing steps that may raise\<close>

fun each :: "('x \<Rightarrow> 's \<Rightarrow> 's outcome) \<Rightarrow> 'x list \<Rightarrow> 's \<Rightarrow> 's outcome" where
  "each f [] s = (None, s)"
| "each f (x # xs) s = (case f x s of (None, s') \<Rightarrow> each f xs s' | (Some err, s') \<Rightarrow> (Some err, s'))"

text \<open>SQL's \<open>LIKE\<close>: \<open>%\<close> any text, \<open>_\<close> any character, a backslash makes the next character literal.\<close>

fun sql_like :: "string \<Rightarrow> string \<Rightarrow> bool" where
  "sql_like [] s = (s = [])"
| "sql_like (p # ps) s =
     (if p = CHR ''%'' then sql_like ps s \<or> (case s of [] \<Rightarrow> False | c # cs \<Rightarrow> sql_like (p # ps) cs)
      else if p = CHR 0x5C \<and> ps \<noteq> []
      then (case ps of [] \<Rightarrow> False | q # qs \<Rightarrow> (case s of [] \<Rightarrow> False | c # cs \<Rightarrow> c = q \<and> sql_like qs cs))
      else (case s of [] \<Rightarrow> False | c # cs \<Rightarrow> (p = CHR ''_'' \<or> c = p) \<and> sql_like ps cs))"

lemma sql_like_any: "sql_like ''%'' s"
  by (induction s) auto

lemma sql_like_prefix:
  "CHR 0x5C \<notin> set p \<Longrightarrow> sql_like (p @ ''%'') (p @ s)"
proof (induction p)
  case Nil
  then show ?case using sql_like_any by simp
next
  case (Cons c p)
  then show ?case by (cases "p @ s") auto
qed

subsection \<open>Recording one result\<close>

definition match_guest_by_vmid :: "server \<Rightarrow> int option \<Rightarrow> 'a proxmox_db_scheme \<Rightarrow> string option" where
  "match_guest_by_vmid srv vmid st =
     (case vmid of None \<Rightarrow> None
      | Some v \<Rightarrow> map_option g_name (find (\<lambda>g. g_server g = srv_name srv \<and> g_vmid g = v) (guests st)))"

definition bump_last_successful_backup ::
    "string option \<Rightarrow> datetime \<Rightarrow> 'a proxmox_db_scheme \<Rightarrow> 'a proxmox_db_scheme" where
  "bump_last_successful_backup guest_name backup_time st =
     (if \<not> truthy guest_name then st
      else case Option.bind (find_row g_name (opt_str guest_name) (guests st)) g_last_successful_backup of
             Some current \<Rightarrow>
               if backup_time > current
               then st\<lparr>guests := map (\<lambda>g. if g_name g = opt_str guest_name then g\<lparr>g_last_successful_backup := Some backup_time\<rparr> else g) (guests st)\<rparr>
               else st
           | None \<Rightarrow> st\<lparr>guests := map (\<lambda>g. if g_name g = opt_str guest_name then g\<lparr>g_last_successful_backup := Some backup_time\<rparr> else g) (guests st)\<rparr>)"

definition upid_exists :: "string \<Rightarrow> 'a proxmox_db_scheme \<Rightarrow> bool" where
  "upid_exists upid st \<longleftrightarrow> list_ex (\<lambda>r. bl_upid r = upid) (backup_logs st)"

definition insert_backup_log :: "backup_log \<Rightarrow> 'a proxmox_db_scheme \<Rightarrow> 'a proxmox_db_scheme outcome" where
  "insert_backup_log row st =
     (if upid_exists (bl_upid row) st then (Some (Unexpected ''UniqueValidationError''), st)
      else (None, st\<lparr>backup_logs := backup_logs st @ [row]\<rparr>))"

definition create_backup_log ::
    "server \<Rightarrow> int \<Rightarrow> string \<Rightarrow> string \<Rightarrow> datetime \<Rightarrow> string \<Rightarrow> string \<Rightarrow> string \<Rightarrow> rat option \<Rightarrow> string
      \<Rightarrow> 'a proxmox_db_scheme \<Rightarrow> 'a proxmox_db_scheme outcome" where
  "create_backup_log srv vmid backup_source status backup_time storage_target error_message upid size_gb notes st =
     (let guest_name = match_guest_by_vmid srv (Some vmid) st;
          row = \<lparr>bl_server = srv_name srv, bl_guest = guest_name, bl_vmid = vmid, bl_backup_source = backup_source,
                 bl_status = status, bl_backup_time = backup_time, bl_size = size_gb, bl_storage_target = storage_target,
                 bl_notes = notes, bl_error_message = error_message, bl_upid = upid\<rparr>
      in case insert_backup_log row st of
           (Some err, st1) \<Rightarrow> (Some err, st1)
         | (None, st1) \<Rightarrow>
             (None, if status = ''Success'' \<and> truthy guest_name
                    then bump_last_successful_backup guest_name backup_time st1 else st1))"

text \<open>What a log's joined text says about the target.\<close>

definition target_of_log :: "string list \<Rightarrow> string \<times> string" where
  "target_of_log log_lines =
     (if py_contains ''Proxmox Backup Server archive'' (py_join '' '' log_lines)
      then (''PBS Remote'', ''pbs'') else (''Local Disk'', ''local''))"

fun first_size :: "string list \<Rightarrow> poll_error + rat option" where
  "first_size [] = Inr None"
| "first_size (l # ls) =
     (case parse_archive_size_gb l of
        Inl err \<Rightarrow> Inl err | Inr (Some g) \<Rightarrow> Inr (Some g) | Inr None \<Rightarrow> first_size ls)"

definition classify_backup_target ::
    "pve_api \<Rightarrow> string \<Rightarrow> string \<Rightarrow> poll_error + (string \<times> string \<times> rat option)" where
  "classify_backup_target c node upid =
     (case api_task_log c node upid of
        Inl _ \<Rightarrow> Inr (''Local Disk'', [], None)
      | Inr log_lines \<Rightarrow>
          map_sum id (\<lambda>size_gb. (fst (target_of_log log_lines), snd (target_of_log log_lines), size_gb))
            (first_size log_lines))"

definition record_single_guest_backup ::
    "poll_env \<Rightarrow> pve_api \<Rightarrow> server \<Rightarrow> string \<Rightarrow> vzdump_task \<Rightarrow> string \<Rightarrow> int \<Rightarrow> backup_file list
      \<Rightarrow> 'a proxmox_db_scheme \<Rightarrow> 'a proxmox_db_scheme outcome" where
  "record_single_guest_backup pe c srv node task upid vmid backup_files st =
     (if upid_exists upid st then (None, st)
      else
        let status = (if tk_status task = Some ''OK'' then ''Success'' else ''Failed'');
            error_message = (if status = ''Success'' then []
              else case tk_status task of None \<Rightarrow> ''Unknown error'' | Some s \<Rightarrow> s)
        in case classify_backup_target c node upid of
             Inl err \<Rightarrow> (Some err, st)
           | Inr (backup_source, storage_target, size_gb) \<Rightarrow>
               (let backup_time = fromtimestamp pe (opt_int (tk_endtime task));
                    notes = (if backup_source = ''Local Disk'' then find_backup_notes pe backup_files vmid backup_time else [])
                in create_backup_log srv vmid backup_source status backup_time storage_target error_message upid
                     size_gb notes st))"

definition bulk_upid :: "string \<Rightarrow> int \<Rightarrow> string" where
  "bulk_upid upid vmid = upid @ ''#'' @ show_int vmid"

definition record_bulk_entry ::
    "poll_env \<Rightarrow> server \<Rightarrow> string \<Rightarrow> string \<times> string \<Rightarrow> backup_file list \<Rightarrow> backup_entry
      \<Rightarrow> 'a proxmox_db_scheme \<Rightarrow> 'a proxmox_db_scheme outcome" where
  "record_bulk_entry pe srv upid tgt backup_files en st =
     (case en of (vmid, status, backup_time, error_message, size_gb) \<Rightarrow>
        (let notes = (if fst tgt = ''Local Disk'' then find_backup_notes pe backup_files vmid backup_time else [])
         in create_backup_log srv vmid (fst tgt) status backup_time (snd tgt) error_message (bulk_upid upid vmid)
              size_gb notes st))"

definition bulk_recorded :: "string \<Rightarrow> 'a proxmox_db_scheme \<Rightarrow> bool" where
  "bulk_recorded upid st \<longleftrightarrow> list_ex (\<lambda>r. sql_like (upid @ ''#%'') (bl_upid r)) (backup_logs st)"

definition bulk_entries :: "poll_env \<Rightarrow> vzdump_task \<Rightarrow> string list \<Rightarrow> poll_error + backup_entry list" where
  "bulk_entries pe task log_lines =
     parse_bulk_backup_log log_lines (fromtimestamp pe (opt_int (tk_endtime task)))
       (detect_log_timezone_offset pe log_lines task)"

definition record_bulk_backup_job ::
    "poll_env \<Rightarrow> pve_api \<Rightarrow> server \<Rightarrow> string \<Rightarrow> vzdump_task \<Rightarrow> string \<Rightarrow> backup_file list
      \<Rightarrow> 'a proxmox_db_scheme \<Rightarrow> 'a proxmox_db_scheme outcome" where
  "record_bulk_backup_job pe c srv node task upid backup_files st =
     (if bulk_recorded upid st then (None, st)
      else case api_task_log c node upid of
             Inl _ \<Rightarrow> (None, st)
           | Inr log_lines \<Rightarrow>
               (case bulk_entries pe task log_lines of
                  Inl err \<Rightarrow> (Some err, st)
                | Inr entries \<Rightarrow> each (record_bulk_entry pe srv upid (target_of_log log_lines) backup_files) entries st))"

text \<open>The body of the task loop: running tasks and tasks without an id are skipped.\<close>

definition record_task ::
    "poll_env \<Rightarrow> pve_api \<Rightarrow> server \<Rightarrow> string \<Rightarrow> backup_file list \<Rightarrow> vzdump_task
      \<Rightarrow> 'a proxmox_db_scheme \<Rightarrow> 'a proxmox_db_scheme outcome" where
  "record_task pe c srv node backup_files task st =
     (if opt_int (tk_endtime task) = 0 \<or> \<not> truthy (tk_upid task) then (None, st)
      else case parse_vmid (tk_id task) of
             Some vmid \<Rightarrow> record_single_guest_backup pe c srv node task (opt_str (tk_upid task)) vmid backup_files st
           | None \<Rightarrow> record_bulk_backup_job pe c srv node task (opt_str (tk_upid task)) backup_files st)"

subsection \<open>The overdue checks\<close>

definition BACKUP_OVERDUE_HOURS :: int where "BACKUP_OVERDUE_HOURS = 24"

definition successes :: "string \<Rightarrow> 'a proxmox_db_scheme \<Rightarrow> datetime list" where
  "successes srv st = map bl_backup_time (filter (\<lambda>r. bl_server r = srv \<and> bl_status r = ''Success'') (backup_logs st))"

definition last_success :: "string \<Rightarrow> 'a proxmox_db_scheme \<Rightarrow> datetime option" where
  "last_success srv st = (case successes srv st of [] \<Rightarrow> None | ts \<Rightarrow> Some (Max (set ts)))"

definition handle_backup_task_result ::
    "poll_env \<Rightarrow> server \<Rightarrow> 'a proxmox_db_scheme \<Rightarrow> server \<times> 'a proxmox_db_scheme" where
  "handle_backup_task_result pe srv st =
     (let cutoff = clock pe - BACKUP_OVERDUE_HOURS * HOUR;
          last = last_success (srv_name srv) st;
          is_critical_now = (case last of None \<Rightarrow> True | Some t \<Rightarrow> t < cutoff);
          was_critical = backup_critical srv;
          srv1 = srv\<lparr>backup_critical := is_critical_now\<rparr>;
          shown = (case last of None \<Rightarrow> ''None'' | Some t \<Rightarrow> show_datetime t)
      in if is_critical_now \<and> \<not> was_critical then
           (srv1, dispatch_alert (base_env pe) ''Backup Failure'' ''Proxmox Server'' (srv_name srv)
              (server_name srv @ '': no successful backup in over '' @ show_int BACKUP_OVERDUE_HOURS @ ''h ('' @
               (case last of None \<Rightarrow> ''no successful backup has ever been recorded''
                | Some t \<Rightarrow> ''last successful backup was '' @ show_datetime t) @
               '') '' @ utf8_dash @ '' see Backups tab for details'') True st)
         else if was_critical \<and> \<not> is_critical_now then
           (srv1, dispatch_recovery (base_env pe) ''Backup Failure'' ''Proxmox Server'' (srv_name srv)
              (server_name srv @ '': backups succeeding again (last successful backup '' @ shown @ '')'') True
              (resolve_alert ''Proxmox Server'' (srv_name srv) ''Backup Failure'' st))
         else (srv1, st))"

definition NO_BACKUP_TAG :: string where "NO_BACKUP_TAG = ''no-backup''"

definition guest_tags :: "guest \<Rightarrow> string list" where
  "guest_tags g = map (\<lambda>t. py_lower (py_strip t))
     (py_split (CHR '','') (py_replace_char (CHR '';'') (CHR '','') (opt_str (g_tags g))))"

definition backup_exempt :: "datetime \<Rightarrow> guest \<Rightarrow> bool" where
  "backup_exempt cutoff g \<longleftrightarrow> g_status g \<noteq> ''running'' \<or> NO_BACKUP_TAG \<in> set (guest_tags g) \<or> g_creation g > cutoff"

definition backup_overdue :: "datetime \<Rightarrow> guest \<Rightarrow> bool" where
  "backup_overdue cutoff g \<longleftrightarrow> \<not> backup_exempt cutoff g \<and>
     (case g_last_successful_backup g of None \<Rightarrow> True | Some t \<Rightarrow> t < cutoff)"

definition open_names :: "string \<Rightarrow> string \<Rightarrow> 'a alert_db_scheme \<Rightarrow> string list" where
  "open_names doctype atype st =
     map reference_name (filter (\<lambda>r. alert_type r = atype \<and> reference_doctype r = doctype \<and> \<not> resolved r) (alert_log st))"

definition check_guest_backup ::
    "poll_env \<Rightarrow> server \<Rightarrow> int \<Rightarrow> string list \<Rightarrow> guest \<Rightarrow> 'a proxmox_db_scheme \<Rightarrow> 'a proxmox_db_scheme" where
  "check_guest_backup pe srv hours open_alerts g st =
     (let cutoff = clock pe - hours * HOUR;
          notify_global = (srv_role srv = ''Production'');
          label = g_guest_name g @ '' ('' @ show_int (g_vmid g) @ '') on '' @ server_name srv;
          overdue = backup_overdue cutoff g;
          is_open = (g_name g \<in> set open_alerts);
          last = g_last_successful_backup g
      in if overdue \<and> \<not> is_open then
           dispatch_alert (base_env pe) ''Backup Overdue'' ''Proxmox Guest'' (g_name g)
             (label @ '': no backup in over '' @ show_int hours @ ''h ('' @
              (case last of None \<Rightarrow> ''no successful backup recorded''
               | Some t \<Rightarrow> ''last successful backup '' @ show_datetime t) @ '')'') notify_global st
         else if \<not> overdue \<and> is_open then
           (let st1 = resolve_alert ''Proxmox Guest'' (g_name g) ''Backup Overdue'' st
            in if \<not> backup_exempt cutoff g
               then dispatch_recovery (base_env pe) ''Backup Overdue'' ''Proxmox Guest'' (g_name g)
                      (label @ '': backed up again ('' @
                       (case last of None \<Rightarrow> ''None'' | Some t \<Rightarrow> show_datetime t) @ '')'') notify_global st1
               else st1)
         else st)"

definition check_guest_backups :: "poll_env \<Rightarrow> server \<Rightarrow> 'a proxmox_db_scheme \<Rightarrow> 'a proxmox_db_scheme" where
  "check_guest_backups pe srv st =
     (let hours = opt_int (backup_overdue_hours (monitor_settings st))
      in if hours \<le> 0 then st
         else fold (check_guest_backup pe srv hours (open_names ''Proxmox Guest'' ''Backup Overdue'' st))
                (filter (\<lambda>g. g_server g = srv_name srv) (guests st)) st)"

definition sync_pve_backups ::
    "poll_env \<Rightarrow> pve_api \<Rightarrow> server \<Rightarrow> string \<Rightarrow> 'a proxmox_db_scheme \<Rightarrow> (server \<times> 'a proxmox_db_scheme) outcome" where
  "sync_pve_backups pe c srv node st =
     (let backup_files = (case api_backup_files c node ''local'' of Inl _ \<Rightarrow> [] | Inr fs \<Rightarrow> fs)
      in case api_tasks c node of
           Inl err \<Rightarrow> (Some (api_fail err), (srv, st))
         | Inr tasks \<Rightarrow>
             (case each (record_task pe c srv node backup_files) tasks st of
                (Some err, st1) \<Rightarrow> (Some err, (srv, st1))
              | (None, st1) \<Rightarrow>
                  (let r = handle_backup_task_result pe srv st1
                   in (None, (fst r, check_guest_backups pe srv (snd r))))))"

subsection \<open>PBS datastores and snapshots\<close>

definition synthetic_upid :: "string \<Rightarrow> string \<Rightarrow> int option \<Rightarrow> string" where
  "synthetic_upid store backup_id t =
     ''pbs:'' @ store @ '':'' @ backup_id @ '':'' @ (case t of None \<Rightarrow> ''None'' | Some i \<Rightarrow> show_int i)"

definition match_guest_in_fleet :: "int \<Rightarrow> 'a proxmox_db_scheme \<Rightarrow> string option" where
  "match_guest_in_fleet vmid st =
     (let matches = take 2 (map g_name (filter (\<lambda>g. g_vmid g = vmid) (guests st)))
      in if length matches = 1 then Some (hd matches) else None)"

definition snapshot_row :: "poll_env \<Rightarrow> server \<Rightarrow> string \<Rightarrow> string \<Rightarrow> int \<Rightarrow> snapshot \<Rightarrow> int \<Rightarrow> string option \<Rightarrow> backup_log" where
  "snapshot_row pe srv store backup_id vmid latest t guest_name =
     \<lparr>bl_server = srv_name srv, bl_guest = guest_name, bl_vmid = vmid, bl_backup_source = ''PBS Remote'',
      bl_status = ''Success'', bl_backup_time = fromtimestamp pe t,
      bl_size = (if opt_rat (sn_size latest) \<noteq> 0
                 then Some (py_round_nd 3 (opt_rat (sn_size latest) / 1000000000)) else None),
      bl_storage_target = store, bl_notes = [], bl_error_message = [],
      bl_upid = synthetic_upid store backup_id (Some t)\<rparr>"

definition backfill_group ::
    "poll_env \<Rightarrow> server \<Rightarrow> string \<Rightarrow> string \<times> snapshot list \<Rightarrow> 'a proxmox_db_scheme \<Rightarrow> 'a proxmox_db_scheme outcome" where
  "backfill_group pe srv store grp st =
     (let backup_id = fst grp; latest = hd (snd grp)
      in case parse_vmid (Some backup_id) of
           None \<Rightarrow> (None, st)
         | Some vmid \<Rightarrow>
             if upid_exists (synthetic_upid store backup_id (sn_backup_time latest)) st then (None, st)
             else let guest_name = match_guest_in_fleet vmid st
                  in case sn_backup_time latest of
                       None \<Rightarrow> (Some (Unexpected ''KeyError''), st)
                     | Some t \<Rightarrow>
                         (case insert_backup_log (snapshot_row pe srv store backup_id vmid latest t guest_name) st of
                            (Some err, st1) \<Rightarrow> (Some err, st1)
                          | (None, st1) \<Rightarrow> (None, bump_last_successful_backup guest_name (fromtimestamp pe t) st1)))"

definition backfill_pbs_snapshots ::
    "poll_env \<Rightarrow> pbs_api \<Rightarrow> server \<Rightarrow> string \<Rightarrow> 'a proxmox_db_scheme \<Rightarrow> 'a proxmox_db_scheme outcome" where
  "backfill_pbs_snapshots pe c srv store st =
     (case list_snapshots_by_guest c store of
        Inl err \<Rightarrow> (Some (api_fail err), st)
      | Inr groups \<Rightarrow> each (backfill_group pe srv store) groups st)"

definition sync_pbs_datastore ::
    "poll_env \<Rightarrow> pbs_api \<Rightarrow> server \<Rightarrow> thresholds \<Rightarrow> string \<Rightarrow> 'a proxmox_db_scheme \<Rightarrow> 'a proxmox_db_scheme outcome" where
  "sync_pbs_datastore pe c srv th store st =
     (case pbs_datastore_usage c store of
        Inl err \<Rightarrow> (Some (api_fail err), st)
      | Inr usage \<Rightarrow>
          backfill_pbs_snapshots pe c srv store
            (upsert_datastore pe srv store ''PBS Datastore'' ''Other'' (opt_rat (fst usage)) (opt_rat (snd usage)) th st))"

definition sync_pbs_datastores ::
    "poll_env \<Rightarrow> pbs_api \<Rightarrow> server \<Rightarrow> thresholds \<Rightarrow> 'a proxmox_db_scheme \<Rightarrow> 'a proxmox_db_scheme outcome" where
  "sync_pbs_datastores pe c srv th st =
     (case pbs_datastores c of
        Inl err \<Rightarrow> (Some (api_fail err), st)
      | Inr stores \<Rightarrow> each (sync_pbs_datastore pe c srv th) stores st)"

subsection \<open>Recording each result once\<close>

lemma each_preserves:
  assumes "\<And>x s r s'. f x s = (r, s') \<Longrightarrow> P s \<Longrightarrow> P s'"
  shows "each f xs s = (r, s') \<Longrightarrow> P s \<Longrightarrow> P s'"
proof (induction xs arbitrary: s)
  case (Cons x xs)
  obtain e t where x: "f x s = (e, t)" by (cases "f x s")
  then have "P t" using assms Cons.prems(2) by blast
  with Cons x show ?case by (cases e) auto
qed simp

text \<open>The contract of a recorder: a task it has dealt with counts as settled, stays settled whatever is
  recorded afterwards, and is skipped.\<close>

locale task_recorder =
  fixes ok :: "'t \<Rightarrow> bool"
    and settled :: "'t \<Rightarrow> 's \<Rightarrow> bool"
    and step :: "'t \<Rightarrow> 's \<Rightarrow> 's outcome"
  assumes settles: "ok t \<Longrightarrow> step t s = (None, s') \<Longrightarrow> settled t s'"
    and stays: "settled t s \<Longrightarrow> step u s = (r, s') \<Longrightarrow> settled t s'"
    and skips: "settled t s \<Longrightarrow> step t s = (None, s)"
begin

lemma each_stays: "each step ts s = (r, s') \<Longrightarrow> settled t s \<Longrightarrow> settled t s'"
  by (rule each_preserves [where f = step and P = "settled t"]) (auto intro: stays)

lemma each_settles:
  "list_all ok ts \<Longrightarrow> each step ts s = (None, s') \<Longrightarrow> list_all (\<lambda>t. settled t s') ts"
proof (induction ts arbitrary: s)
  case (Cons t ts)
  obtain s1 where "step t s = (None, s1)" "each step ts s1 = (None, s')"
    using Cons.prems(2) by (auto split: prod.splits option.splits)
  with Cons show ?case using settles each_stays by (auto simp del: each.simps)
qed simp

lemma each_skips: "list_all (\<lambda>t. settled t s) ts \<Longrightarrow> each step ts s = (None, s)"
  by (induction ts) (auto simp: skips)

lemma each_again:
  assumes "list_all ok ts" and "each step ts s = (None, s')" and "set us \<subseteq> set ts"
  shows "each step us s' = (None, s')"
  using each_settles [OF assms(1,2)] assms(3) by (intro each_skips) (auto simp: list_all_iff)

end

subsection \<open>What recording adds\<close>

lemma bump_frame [frame_simps, simp]:
  fixes st :: "'a proxmox_db_scheme"
  shows "backup_logs (bump_last_successful_backup g t st) = backup_logs st"
    "alert_log (bump_last_successful_backup g t st) = alert_log st"
    "next_alert (bump_last_successful_backup g t st) = next_alert st"
    "servers (bump_last_successful_backup g t st) = servers st"
    "monitor_settings (bump_last_successful_backup g t st) = monitor_settings st"
  by (auto simp: bump_last_successful_backup_def split: option.splits)

lemma insert_backup_log_cases:
  assumes "insert_backup_log row st = (r, st')"
  obtains (dup) "r = Some (Unexpected ''UniqueValidationError'')" "st' = st" "upid_exists (bl_upid row) st"
  | (new) "r = None" "st' = st\<lparr>backup_logs := backup_logs st @ [row]\<rparr>" "\<not> upid_exists (bl_upid row) st"
  using assms by (auto simp: insert_backup_log_def split: if_splits)

lemma create_backup_log_cases:
  assumes "create_backup_log srv vmid src status t tgt err upid sz notes st = (r, st')"
  obtains (dup) "r = Some (Unexpected ''UniqueValidationError'')" "st' = st"
  | (new) row where "r = None" "bl_upid row = upid" "bl_status row = status" "bl_backup_time row = t"
      "bl_guest row = match_guest_by_vmid srv (Some vmid) st" "bl_server row = srv_name srv" "bl_vmid row = vmid"
      "\<not> upid_exists upid st"
      "st' = (if status = ''Success'' \<and> truthy (bl_guest row)
              then bump_last_successful_backup (bl_guest row) t (st\<lparr>backup_logs := backup_logs st @ [row]\<rparr>)
              else st\<lparr>backup_logs := backup_logs st @ [row]\<rparr>)"
proof -
  let ?row = "\<lparr>bl_server = srv_name srv, bl_guest = match_guest_by_vmid srv (Some vmid) st, bl_vmid = vmid,
    bl_backup_source = src, bl_status = status, bl_backup_time = t, bl_size = sz, bl_storage_target = tgt,
    bl_notes = notes, bl_error_message = err, bl_upid = upid\<rparr>"
  show thesis
  proof (cases "upid_exists upid st")
    case True
    with assms show thesis by (intro dup) (auto simp: create_backup_log_def insert_backup_log_def Let_def)
  next
    case False
    with assms show thesis by (intro new [of ?row]) (auto simp: create_backup_log_def insert_backup_log_def Let_def)
  qed
qed

text \<open>Every recording step appends rows to the backup log.\<close>

definition log_extends :: "'a proxmox_db_scheme \<Rightarrow> 'a proxmox_db_scheme \<Rightarrow> bool" where
  "log_extends st st' \<longleftrightarrow> (\<exists>rows. backup_logs st' = backup_logs st @ rows)"

lemma log_extends_refl [simp, intro]: "log_extends st st"
  by (simp add: log_extends_def)

lemma log_extends_trans: "log_extends s t \<Longrightarrow> log_extends t u \<Longrightarrow> log_extends s u"
  by (auto simp: log_extends_def)

lemma create_backup_log_extends:
  "create_backup_log srv vmid src status t tgt err upid sz notes st = (r, st') \<Longrightarrow> log_extends st st'"
  by (erule create_backup_log_cases) (auto simp: log_extends_def)

lemma each_extends:
  assumes "\<And>x s r s'. f x s = (r, s') \<Longrightarrow> log_extends s s'" and "each f xs s = (r, s')"
  shows "log_extends s s'"
  by (rule each_preserves [where f = f and P = "log_extends s", OF _ assms(2)])
    (auto intro: log_extends_trans assms(1))

lemma record_bulk_entry_extends: "record_bulk_entry pe srv upid tgt files en st = (r, st') \<Longrightarrow> log_extends st st'"
  by (auto simp: record_bulk_entry_def Let_def split: prod.splits elim: create_backup_log_extends)

lemma each_bulk_extends:
  "each (record_bulk_entry pe srv upid tgt files) es st = (r, st') \<Longrightarrow> log_extends st st'"
  by (rule each_extends) (rule record_bulk_entry_extends)

lemma record_task_extends:
  assumes "record_task pe c srv node files task st = (r, st')" shows "log_extends st st'"
  using assms
  by (auto simp: record_task_def record_single_guest_backup_def record_bulk_backup_job_def Let_def
      split: if_splits option.splits sum.splits prod.splits
      elim!: create_backup_log_extends each_bulk_extends)

lemma backfill_group_extends:
  "backfill_group pe srv store grp st = (r, st') \<Longrightarrow> log_extends st st'"
  by (auto simp: backfill_group_def Let_def log_extends_def split: if_splits option.splits prod.splits
      elim!: insert_backup_log_cases)

lemma exists_extends:
  assumes "log_extends st st'"
  shows "upid_exists u st \<Longrightarrow> upid_exists u st'" and "bulk_recorded u st \<Longrightarrow> bulk_recorded u st'"
  using assms by (auto simp: log_extends_def upid_exists_def bulk_recorded_def list_ex_iff)

definition task_settled :: "poll_env \<Rightarrow> pve_api \<Rightarrow> string \<Rightarrow> vzdump_task \<Rightarrow> 'a proxmox_db_scheme \<Rightarrow> bool" where
  "task_settled pe c node task st \<longleftrightarrow>
     opt_int (tk_endtime task) = 0 \<or> \<not> truthy (tk_upid task) \<or>
     (let upid = opt_str (tk_upid task) in
      if parse_vmid (tk_id task) \<noteq> None then upid_exists upid st
      else bulk_recorded upid st \<or>
        (case api_task_log c node upid of Inl _ \<Rightarrow> True | Inr ls \<Rightarrow> bulk_entries pe task ls = Inr []))"

lemma create_backup_log_exists:
  "create_backup_log srv vmid src status t tgt err upid sz notes st = (None, st') \<Longrightarrow> upid_exists upid st'"
  by (erule create_backup_log_cases) (auto simp: upid_exists_def list_ex_iff)

lemma record_bulk_entry_recorded:
  assumes "record_bulk_entry pe srv upid tgt files en st = (None, st')" and "CHR 0x5C \<notin> set upid"
  shows "bulk_recorded upid st'"
proof -
  obtain vmid where "upid_exists (bulk_upid upid vmid) st'"
    using assms(1) by (auto simp: record_bulk_entry_def Let_def split: prod.splits dest: create_backup_log_exists)
  moreover have "sql_like (upid @ ''#%'') (bulk_upid upid vmid)"
    using sql_like_prefix [of "upid @ ''#''" "show_int vmid"] assms(2) by (simp add: bulk_upid_def)
  ultimately show ?thesis unfolding upid_exists_def bulk_recorded_def list_ex_iff by metis
qed

lemma record_task_settles:
  assumes "CHR 0x5C \<notin> set (opt_str (tk_upid task))" and "record_task pe c srv node files task st = (None, st')"
  shows "task_settled pe c node task st'"
proof (cases "opt_int (tk_endtime task) = 0 \<or> \<not> truthy (tk_upid task)")
  case False
  let ?u = "opt_str (tk_upid task)"
  show ?thesis
  proof (cases "parse_vmid (tk_id task)")
    case (Some v)
    with assms False show ?thesis
      by (auto simp: record_task_def record_single_guest_backup_def task_settled_def Let_def
          split: if_splits sum.splits dest: create_backup_log_exists)
  next
    case None
    then have job: "record_bulk_backup_job pe c srv node task ?u files st = (None, st')"
      using assms(2) False by (simp add: record_task_def)
    show ?thesis
    proof (cases "api_task_log c node ?u")
      case (Inr ls)
      have "bulk_recorded ?u st' \<or> bulk_entries pe task ls = Inr []"
      proof (cases "bulk_recorded ?u st")
        case True
        then show ?thesis using exists_extends(2) [OF record_task_extends [OF assms(2)]] by simp
      next
        case False
        then obtain es where es: "bulk_entries pe task ls = Inr es"
          "each (record_bulk_entry pe srv ?u (target_of_log ls) files) es st = (None, st')"
          using job Inr by (auto simp: record_bulk_backup_job_def split: sum.splits)
        show ?thesis
        proof (cases es)
          case (Cons en es')
          then obtain s1 where s1: "record_bulk_entry pe srv ?u (target_of_log ls) files en st = (None, s1)"
            "each (record_bulk_entry pe srv ?u (target_of_log ls) files) es' s1 = (None, st')"
            using es(2) by (auto split: prod.splits option.splits)
          have "log_extends s1 st'" using s1(2) by (rule each_bulk_extends)
          then show ?thesis using record_bulk_entry_recorded [OF s1(1) assms(1)] exists_extends(2) by blast
        qed (use es in simp)
      qed
      then show ?thesis using None Inr by (auto simp: task_settled_def Let_def)
    qed (use None in \<open>simp add: task_settled_def Let_def\<close>)
  qed
qed (auto simp: task_settled_def)

lemma task_settled_skips: "task_settled pe c node task st \<Longrightarrow> record_task pe c srv node files task st = (None, st)"
  by (auto simp: task_settled_def record_task_def record_single_guest_backup_def record_bulk_backup_job_def Let_def
      split: if_splits option.splits sum.splits)

interpretation recorder: task_recorder "\<lambda>task. CHR 0x5C \<notin> set (opt_str (tk_upid task))"
  "task_settled pe c node" "record_task pe c srv node files"
  for pe :: poll_env and c :: pve_api and srv :: server and node :: string and files :: "backup_file list"
proof
  fix t u :: vzdump_task and s s' :: "'a proxmox_db_scheme" and r
  show "CHR 0x5C \<notin> set (opt_str (tk_upid t)) \<Longrightarrow> record_task pe c srv node files t s = (None, s') \<Longrightarrow>
    task_settled pe c node t s'" by (rule record_task_settles)
  show "task_settled pe c node t s \<Longrightarrow> record_task pe c srv node files u s = (r, s') \<Longrightarrow> task_settled pe c node t s'"
    using exists_extends [OF record_task_extends] by (fastforce simp: task_settled_def Let_def split: if_splits)
  show "task_settled pe c node t s \<Longrightarrow> record_task pe c srv node files t s = (None, s)" by (rule task_settled_skips)
qed

definition group_settled :: "string \<Rightarrow> string \<times> snapshot list \<Rightarrow> 'a proxmox_db_scheme \<Rightarrow> bool" where
  "group_settled store grp st \<longleftrightarrow> parse_vmid (Some (fst grp)) = None \<or>
     upid_exists (synthetic_upid store (fst grp) (sn_backup_time (hd (snd grp)))) st"

interpretation backfill: task_recorder "\<lambda>_. True" "group_settled store" "backfill_group pe srv store"
  for store :: string and pe :: poll_env and srv :: server
proof
  fix t u :: "string \<times> snapshot list" and s s' :: "'a proxmox_db_scheme" and r
  show "backfill_group pe srv store t s = (None, s') \<Longrightarrow> group_settled store t s'"
    by (auto simp: backfill_group_def group_settled_def Let_def upid_exists_def snapshot_row_def
      split: if_splits option.splits prod.splits elim!: insert_backup_log_cases)
  show "group_settled store t s \<Longrightarrow> backfill_group pe srv store u s = (r, s') \<Longrightarrow> group_settled store t s'"
    unfolding group_settled_def by (metis exists_extends(1) backfill_group_extends)
  show "group_settled store t s \<Longrightarrow> backfill_group pe srv store t s = (None, s)"
    by (auto simp: backfill_group_def group_settled_def Let_def split: option.splits)
qed


subsection \<open>Frame of the overdue checks\<close>

lemma handle_backup_task_result_frame [frame_simps, simp]:
  fixes st :: "'a proxmox_db_scheme"
  shows "backup_logs (snd (handle_backup_task_result pe srv st)) = backup_logs st"
    "guests (snd (handle_backup_task_result pe srv st)) = guests st"
    "monitor_settings (snd (handle_backup_task_result pe srv st)) = monitor_settings st"
    "srv_name (fst (handle_backup_task_result pe srv st)) = srv_name srv"
  by (simp_all add: handle_backup_task_result_def Let_def)

lemma check_guest_backup_frame [frame_simps, simp]:
  fixes st :: "'a proxmox_db_scheme"
  shows "backup_logs (check_guest_backup pe srv h os g st) = backup_logs st"
    "guests (check_guest_backup pe srv h os g st) = guests st"
    "alert_db.more (check_guest_backup pe srv h os g st) = alert_db.more st"
  by (simp_all add: check_guest_backup_def Let_def)

lemma check_guest_backups_frame [frame_simps, simp]:
  fixes st :: "'a proxmox_db_scheme"
  shows "backup_logs (check_guest_backups pe srv st) = backup_logs st"
    "guests (check_guest_backups pe srv st) = guests st"
proof -
  have "alert_db.more (fold (check_guest_backup pe srv h os) gs st) = alert_db.more st" for h os gs
    by (induction gs arbitrary: st) simp_all
  then have "alert_db.more (check_guest_backups pe srv st) = alert_db.more st"
    by (simp add: check_guest_backups_def Let_def)
  then show "backup_logs (check_guest_backups pe srv st) = backup_logs st"
    "guests (check_guest_backups pe srv st) = guests st" by (rule proxmox_fields_of_more)+
qed

lemma task_settled_cong: "backup_logs s = backup_logs t \<Longrightarrow> task_settled pe c node task s = task_settled pe c node task t"
  by (simp add: task_settled_def upid_exists_def bulk_recorded_def)

text \<open>A second cycle over the same task list records nothing new: once a cycle has gone through,
  every finished task of the window is skipped (single-guest tasks by their id, bulk jobs by the
  prefix of theirs), so the backup log and the guests are left as they are.\<close>

theorem sync_pve_backups_idempotent:
  assumes "api_tasks c node = Inr tasks" and "list_all (\<lambda>t. CHR 0x5C \<notin> set (opt_str (tk_upid t))) tasks"
    and "sync_pve_backups pe c srv node st = (None, (srv1, st1))"
    and "sync_pve_backups pe c srv1 node st1 = (r, (srv2, st2))"
  shows "r = None \<and> backup_logs st2 = backup_logs st1 \<and> guests st2 = guests st1"
proof -
  let ?files = "case api_backup_files c node ''local'' of Inl _ \<Rightarrow> [] | Inr fs \<Rightarrow> fs"
  obtain s where s: "each (record_task pe c srv node ?files) tasks st = (None, s)"
    and st1: "st1 = check_guest_backups pe srv (snd (handle_backup_task_result pe srv s))"
    using assms(1,3) by (auto simp: sync_pve_backups_def Let_def split: prod.splits option.splits)
  have "list_all (\<lambda>t. task_settled pe c node t s) tasks"
    using recorder.each_settles [OF assms(2) s] .
  then have "list_all (\<lambda>t. task_settled pe c node t st1) tasks"
    using task_settled_cong [of s st1] by (simp add: st1)
  then have "each (record_task pe c srv1 node ?files) tasks st1 = (None, st1)"
    by (rule recorder.each_skips)
  then show ?thesis using assms(1,4) by (auto simp: sync_pve_backups_def Let_def)
qed

subsection \<open>The last successful backup\<close>

definition covers :: "backup_log \<Rightarrow> guest \<Rightarrow> bool" where
  "covers r g \<longleftrightarrow> (bl_status r = ''Success'' \<and> bl_guest r = Some (g_name g) \<longrightarrow>
     (case g_last_successful_backup g of None \<Rightarrow> False | Some t \<Rightarrow> bl_backup_time r \<le> t))"

definition backup_inv :: "'a proxmox_db_scheme \<Rightarrow> bool" where
  "backup_inv st \<longleftrightarrow> guest_wf st \<and> distinct (map bl_upid (backup_logs st)) \<and>
     list_all (\<lambda>r. list_all (covers r) (guests st)) (backup_logs st)"

lemma bump_guests:
  assumes "guest_wf st" and "bump_last_successful_backup (Some n) t st = st'" and "n \<noteq> []"
  shows "\<exists>f. guests st' = map (\<lambda>g. if g_name g = n then g\<lparr>g_last_successful_backup := Some (f g)\<rparr> else g) (guests st) \<and>
    (\<forall>g \<in> set (guests st). g_name g = n \<longrightarrow> t \<le> f g \<and> (\<forall>t'. g_last_successful_backup g = Some t' \<longrightarrow> t' \<le> f g))"
proof -
  have find: "find_row g_name n (guests st) = Some g" if "g \<in> set (guests st)" "g_name g = n" for g
    using find_row_member [of g_name "guests st" g] assms(1) that by (simp add: guest_wf_def)
  show ?thesis
  proof (cases "Option.bind (find_row g_name n (guests st)) g_last_successful_backup")
    case None
    with assms(2,3) find show ?thesis
      by (intro exI [of _ "\<lambda>g. t"]) (auto simp: bump_last_successful_backup_def truthy_def)
  next
    case (Some cur)
    have upd: "g\<lparr>g_last_successful_backup := Some cur\<rparr> = g" if "g \<in> set (guests st)" "g_name g = n" for g
      using find [OF that] Some by (cases g) simp
    have keep: "map (\<lambda>g. if g_name g = n then g\<lparr>g_last_successful_backup := Some cur\<rparr> else g) (guests st) = guests st"
      by (rule map_idI) (use upd in auto)
    show ?thesis
    proof (cases "cur < t")
      case True
      then show ?thesis using Some assms(2,3) find
        by (intro exI [of _ "\<lambda>g. t"]) (auto simp: bump_last_successful_backup_def truthy_def)
    next
      case False
      then show ?thesis using Some assms(2,3) find keep
        by (intro exI [of _ "\<lambda>g. cur"]) (auto simp: bump_last_successful_backup_def truthy_def)
    qed
  qed
qed

text \<open>Backup times only move forward.\<close>

definition times_advance :: "guest list \<Rightarrow> guest list \<Rightarrow> bool" where
  "times_advance gs gs' \<longleftrightarrow> list_all2 (\<lambda>g g'. g_name g' = g_name g \<and> g_server g' = g_server g \<and> g_vmid g' = g_vmid g \<and>
     (\<forall>t. g_last_successful_backup g = Some t \<longrightarrow> (\<exists>t' \<ge> t. g_last_successful_backup g' = Some t'))) gs gs'"

lemma times_advance_refl [simp, intro]: "times_advance gs gs"
  by (auto simp: times_advance_def list_all2_refl)

lemma times_advance_trans: "times_advance a b \<Longrightarrow> times_advance b c \<Longrightarrow> times_advance a c"
  unfolding times_advance_def by (erule list_all2_trans [rotated]) (fastforce intro: order_trans)+

lemma guest_wf_advance: "guest_wf st \<Longrightarrow> times_advance (guests st) (guests st') \<Longrightarrow> guest_wf st'"
proof -
  assume wf: "guest_wf st" and adv: "times_advance (guests st) (guests st')"
  have all: "map (\<lambda>g. (g_name g, g_server g, g_vmid g)) (guests st') = map (\<lambda>g. (g_name g, g_server g, g_vmid g)) (guests st)"
    using adv by (auto simp: times_advance_def list_all2_conv_all_nth intro!: nth_equalityI)
  have same: "map g_name (guests st') = map g_name (guests st)"
    using arg_cong [OF all, of "map fst"] by (simp add: comp_def)
  have img: "(\<lambda>g. (g_name g, g_server g, g_vmid g)) ` set (guests st') = (\<lambda>g. (g_name g, g_server g, g_vmid g)) ` set (guests st)"
    using arg_cong [OF all, of set] by simp
  have "g_name g = guest_docname (g_server g) (g_vmid g) \<and> 0 \<le> g_vmid g" if "g \<in> set (guests st')" for g
  proof -
    have "(g_name g, g_server g, g_vmid g) \<in> (\<lambda>g. (g_name g, g_server g, g_vmid g)) ` set (guests st)"
      unfolding img [symmetric] using that by blast
    then show ?thesis using wf by (auto simp: guest_wf_def list_all_iff)
  qed
  with same wf show ?thesis by (simp add: guest_wf_def list_all_iff)
qed

lemma guest_docname_nonempty [simp]: "guest_docname s v \<noteq> []"
  by (simp add: guest_docname_def)

text \<open>Adding one row, with the bump that goes with it, keeps the invariant.\<close>

lemma record_row:
  assumes inv: "backup_inv st" and new: "\<not> upid_exists (bl_upid row) st"
    and name: "bl_guest row = None \<or> (\<exists>g \<in> set (guests st). bl_guest row = Some (g_name g))"
    and st1: "st1 = st\<lparr>backup_logs := backup_logs st @ [row]\<rparr>"
    and st2: "st2 = (if bl_status row = ''Success'' \<and> truthy (bl_guest row)
      then bump_last_successful_backup (bl_guest row) (bl_backup_time row) st1 else st1)"
  shows "backup_inv st2 \<and> times_advance (guests st) (guests st2)"
proof -
  have wf: "guest_wf st1" using inv by (simp add: st1 guest_wf_def backup_inv_def)
  have uniq: "distinct (map bl_upid (backup_logs st2))"
    using inv new by (auto simp: st1 st2 backup_inv_def upid_exists_def list_ex_iff)
  show ?thesis
  proof (cases "bl_status row = ''Success'' \<and> truthy (bl_guest row)")
    case True
    then obtain n where n: "bl_guest row = Some n" "n \<noteq> []" by (cases "bl_guest row") (auto simp: truthy_def)
    with True have b: "bump_last_successful_backup (Some n) (bl_backup_time row) st1 = st2" by (simp add: st2)
    obtain f where f: "guests st2 = map (\<lambda>g. if g_name g = n then g\<lparr>g_last_successful_backup := Some (f g)\<rparr> else g) (guests st)"
      "\<forall>g \<in> set (guests st). g_name g = n \<longrightarrow> bl_backup_time row \<le> f g \<and>
         (\<forall>t'. g_last_successful_backup g = Some t' \<longrightarrow> t' \<le> f g)"
      using bump_guests [OF wf b n(2)] by (auto simp: st1)
    have adv: "times_advance (guests st) (guests st2)"
      using f(2) unfolding times_advance_def f(1) by (auto simp: list_all2_conv_all_nth)
    have "covers r g'" if r: "r \<in> set (backup_logs st @ [row])" and g': "g' \<in> set (guests st2)" for r g'
    proof -
      obtain g where g: "g \<in> set (guests st)"
        and upd: "g' = (if g_name g = n then g\<lparr>g_last_successful_backup := Some (f g)\<rparr> else g)"
        using g' f(1) by auto
      have old: "covers r g" if "r \<in> set (backup_logs st)"
        using inv g that by (auto simp: backup_inv_def list_all_iff)
      show ?thesis
      proof (cases "g_name g = n")
        case True
        then have "g_name g' = n" "g_last_successful_backup g' = Some (f g)" using upd by simp_all
        then show ?thesis using old r f(2) g True
          by (auto simp: covers_def split: option.splits intro: order_trans)
      next
        case False
        then show ?thesis using old r n(1) upd by (auto simp: covers_def)
      qed
    qed
    then have cov: "list_all (\<lambda>r. list_all (covers r) (guests st2)) (backup_logs st @ [row])"
      by (simp only: list_all_iff) blast
    have logs: "backup_logs st2 = backup_logs st @ [row]" by (simp add: st2 st1)
    show ?thesis using adv uniq cov guest_wf_advance [of st st2] inv
      unfolding backup_inv_def logs by blast
  next
    case False
    have "guests st2 = guests st" "backup_logs st2 = backup_logs st @ [row]" using False by (auto simp: st2 st1)
    moreover have "\<not> (bl_status row = ''Success'' \<and> bl_guest row = Some (g_name g))" if "g \<in> set (guests st)" for g
      using False inv that by (auto simp: truthy_def backup_inv_def guest_wf_def list_all_iff)
    ultimately show ?thesis using inv uniq
      by (auto simp: backup_inv_def guest_wf_def list_all_iff covers_def)
  qed
qed


definition backups_advance :: "'a proxmox_db_scheme \<Rightarrow> 'a proxmox_db_scheme \<Rightarrow> bool" where
  "backups_advance st st' \<longleftrightarrow> backup_inv st' \<and> times_advance (guests st) (guests st') \<and> log_extends st st'"

lemma backups_advance_refl: "backup_inv st \<Longrightarrow> backups_advance st st"
  by (auto simp: backups_advance_def)

lemma backups_advance_trans: "backups_advance s t \<Longrightarrow> backups_advance t u \<Longrightarrow> backups_advance s u"
  by (auto simp: backups_advance_def intro: times_advance_trans log_extends_trans)

lemma each_backups_advance:
  assumes step: "\<And>x s r s'. f x s = (r, s') \<Longrightarrow> backup_inv s \<Longrightarrow> backups_advance s s'"
    and "each f xs s = (r, s')" and "backup_inv s"
  shows "backups_advance s s'"
proof (rule each_preserves [where f = f and P = "backups_advance s", OF _ assms(2)])
  show "backups_advance s s" using assms(3) by (rule backups_advance_refl)
  show "backups_advance s u" if "f x t = (q, u)" "backups_advance s t" for x t q u
    using step [OF that(1)] that(2) backups_advance_trans by (auto simp: backups_advance_def)
qed

lemma find_mem: "find P xs = Some x \<Longrightarrow> x \<in> set xs \<and> P x"
  by (auto simp: find_Some_iff)

lemma match_guest_names:
  "match_guest_by_vmid srv v st = None \<or> (\<exists>g \<in> set (guests st). match_guest_by_vmid srv v st = Some (g_name g))"
  "match_guest_in_fleet w st = None \<or> (\<exists>g \<in> set (guests st). match_guest_in_fleet w st = Some (g_name g))"
proof -
  show "match_guest_by_vmid srv v st = None \<or> (\<exists>g \<in> set (guests st). match_guest_by_vmid srv v st = Some (g_name g))"
  proof (cases v)
    case (Some w)
    show ?thesis
      by (cases "find (\<lambda>g. g_server g = srv_name srv \<and> g_vmid g = w) (guests st)")
        (auto simp: match_guest_by_vmid_def Some dest: find_mem)
  qed (simp add: match_guest_by_vmid_def)
  show "match_guest_in_fleet w st = None \<or> (\<exists>g \<in> set (guests st). match_guest_in_fleet w st = Some (g_name g))"
  proof (cases "filter (\<lambda>g. g_vmid g = w) (guests st)")
    case (Cons g gs)
    then have "g \<in> set (filter (\<lambda>g. g_vmid g = w) (guests st))" by simp
    then have "g \<in> set (guests st)" by simp
    then show ?thesis by (auto simp: match_guest_in_fleet_def Let_def Cons)
  qed (simp add: match_guest_in_fleet_def)
qed

lemma create_backup_log_advance:
  assumes "create_backup_log srv vmid src status t tgt err upid sz notes st = (r, st')" and "backup_inv st"
  shows "backups_advance st st'"
  using assms(1)
proof (cases rule: create_backup_log_cases)
  case dup
  with assms(2) show ?thesis by (simp add: backups_advance_refl)
next
  case (new row)
  have "backup_inv st' \<and> times_advance (guests st) (guests st')"
    using record_row [OF assms(2), of row "st\<lparr>backup_logs := backup_logs st @ [row]\<rparr>" st'] new
      match_guest_names(1) [of srv "Some vmid" st] by simp
  then show ?thesis using create_backup_log_extends [OF assms(1)] by (simp add: backups_advance_def)
qed

lemma record_bulk_entry_advance:
  "record_bulk_entry pe srv upid tgt files en st = (r, st') \<Longrightarrow> backup_inv st \<Longrightarrow> backups_advance st st'"
  by (auto simp: record_bulk_entry_def Let_def split: prod.splits dest: create_backup_log_advance)

lemma each_bulk_advance:
  "each (record_bulk_entry pe srv upid tgt files) es st = (r, st') \<Longrightarrow> backup_inv st \<Longrightarrow> backups_advance st st'"
  by (rule each_backups_advance) (rule record_bulk_entry_advance)

lemma record_task_advance:
  "record_task pe c srv node files task st = (r, st') \<Longrightarrow> backup_inv st \<Longrightarrow> backups_advance st st'"
  by (auto simp: record_task_def record_single_guest_backup_def record_bulk_backup_job_def Let_def
      backups_advance_refl split: if_splits option.splits sum.splits prod.splits
      dest: create_backup_log_advance each_bulk_advance)

lemma snapshot_row_fields [simp]:
  "bl_guest (snapshot_row pe srv store i v l t n) = n" "bl_status (snapshot_row pe srv store i v l t n) = ''Success''"
  "bl_backup_time (snapshot_row pe srv store i v l t n) = fromtimestamp pe t"
  by (simp_all add: snapshot_row_def)

lemma backfill_group_advance:
  assumes "backfill_group pe srv store grp st = (r, st')" and "backup_inv st"
  shows "backups_advance st st'"
proof -
  have "backup_inv st' \<and> times_advance (guests st) (guests st')"
  proof (cases "st' = st")
    case False
    then obtain vmid t where t: "sn_backup_time (hd (snd grp)) = Some t"
      and row: "insert_backup_log (snapshot_row pe srv store (fst grp) vmid (hd (snd grp)) t (match_guest_in_fleet vmid st)) st =
        (None, st\<lparr>backup_logs := backup_logs st @ [snapshot_row pe srv store (fst grp) vmid (hd (snd grp)) t (match_guest_in_fleet vmid st)]\<rparr>)"
      "st' = bump_last_successful_backup (match_guest_in_fleet vmid st) (fromtimestamp pe t)
        (st\<lparr>backup_logs := backup_logs st @ [snapshot_row pe srv store (fst grp) vmid (hd (snd grp)) t (match_guest_in_fleet vmid st)]\<rparr>)"
      using assms(1) unfolding backfill_group_def Let_def insert_backup_log_def
      by (auto split: if_splits option.splits prod.splits)
    let ?row = "snapshot_row pe srv store (fst grp) vmid (hd (snd grp)) t (match_guest_in_fleet vmid st)"
    have "\<not> upid_exists (bl_upid ?row) st" using row(1) by (auto simp: insert_backup_log_def split: if_splits)
    moreover have "st' = (if bl_status ?row = ''Success'' \<and> truthy (bl_guest ?row)
        then bump_last_successful_backup (bl_guest ?row) (bl_backup_time ?row) (st\<lparr>backup_logs := backup_logs st @ [?row]\<rparr>)
        else st\<lparr>backup_logs := backup_logs st @ [?row]\<rparr>)"
      unfolding row(2) by (simp add: bump_last_successful_backup_def)
    ultimately show ?thesis
      using record_row [OF assms(2) _ _ refl, of ?row st'] match_guest_names(2) [of vmid st]
      unfolding snapshot_row_fields by blast
  qed (use assms(2) in auto)
  then show ?thesis using backfill_group_extends [OF assms(1)] by (simp add: backups_advance_def)
qed

lemma backup_inv_cong:
  "guests s = guests t \<Longrightarrow> backup_logs s = backup_logs t \<Longrightarrow> backup_inv s = backup_inv t"
  by (simp add: backup_inv_def guest_wf_def)

lemma backups_advance_cong:
  assumes "guests s = guests t" and "backup_logs s = backup_logs t" and "backups_advance u s"
  shows "backups_advance u t"
  using assms backup_inv_cong [of s t] by (simp add: backups_advance_def log_extends_def)

text \<open>C7: A PVE backup cycle, however it ends, only appends to the backup log, keeps its ids unique, never
  moves a guest's last successful backup backwards, and leaves it at least as late as every
  success recorded for that guest.\<close>

theorem sync_pve_backups_advance:
  assumes "backup_inv st" and "sync_pve_backups pe c srv node st = (r, (srv', st'))"
  shows "backup_inv st' \<and> times_advance (guests st) (guests st') \<and> log_extends st st'"
proof -
  let ?files = "case api_backup_files c node ''local'' of Inl _ \<Rightarrow> [] | Inr fs \<Rightarrow> fs"
  have "backups_advance st st'"
  proof (cases "api_tasks c node")
    case (Inr tasks)
    obtain e s where s: "each (record_task pe c srv node ?files) tasks st = (e, s)" by fastforce
    have "backups_advance st s" by (rule each_backups_advance [OF record_task_advance s assms(1)])
    moreover have "guests st' = guests s \<and> backup_logs st' = backup_logs s"
      using assms(2) Inr s by (cases e) (auto simp: sync_pve_backups_def Let_def)
    ultimately show ?thesis using backups_advance_cong [of s st' st] by simp
  qed (use assms in \<open>auto simp: sync_pve_backups_def Let_def backups_advance_refl\<close>)
  then show ?thesis by (simp add: backups_advance_def)
qed

text \<open>The same holds of a PBS cycle, which only ever records successes, and links a snapshot to a guest
  only when a single guest of the whole fleet has its vmid.\<close>

theorem backfill_pbs_snapshots_advance:
  assumes "backup_inv st" and "backfill_pbs_snapshots pe c srv store st = (r, st')"
  shows "backup_inv st' \<and> times_advance (guests st) (guests st') \<and> log_extends st st'"
proof -
  have "backups_advance st st'"
    using assms each_backups_advance [OF backfill_group_advance] backups_advance_refl
    by (auto simp: backfill_pbs_snapshots_def split: sum.splits)
  then show ?thesis by (simp add: backups_advance_def)
qed


subsection \<open>Overdue backups\<close>

lemma last_success_before:
  "(case last_success srv st of None \<Rightarrow> True | Some t \<Rightarrow> t < cutoff) \<longleftrightarrow>
     (\<forall>r \<in> set (backup_logs st). bl_server r = srv \<and> bl_status r = ''Success'' \<longrightarrow> bl_backup_time r < cutoff)"
proof -
  have mem: "set (successes srv st) = {bl_backup_time r | r. r \<in> set (backup_logs st) \<and> bl_server r = srv \<and> bl_status r = ''Success''}"
    by (auto simp: successes_def)
  show ?thesis
  proof (cases "successes srv st")
    case Nil
    then show ?thesis using mem by (auto simp: last_success_def)
  next
    case (Cons t ts)
    then have "last_success srv st = Some (Max (set (successes srv st)))" by (simp add: last_success_def)
    moreover have "Max (set (successes srv st)) < cutoff \<longleftrightarrow> (\<forall>t \<in> set (successes srv st). t < cutoff)"
      by (subst Max_less_iff) (simp_all add: Cons)
    ultimately show ?thesis using mem by auto
  qed
qed

text \<open>A server is flagged exactly when none of its recorded backups of the last 24 hours succeeded,
  whatever single tasks did; and while the flag and the alert log agree, they still agree
  afterwards, with one open Backup Failure alert at most, no other alert touched.\<close>

theorem backup_failure_tracks_last_success:
  assumes "alert_inv st"
    and "open_alerts_of st (''Proxmox Server'', srv_name srv, ''Backup Failure'') = (if backup_critical srv then 1 else 0)"
    and "handle_backup_task_result pe srv st = (srv', st')"
  shows "(backup_critical srv' \<longleftrightarrow> (\<forall>r \<in> set (backup_logs st). bl_server r = srv_name srv \<and> bl_status r = ''Success''
            \<longrightarrow> bl_backup_time r < clock pe - 24 * HOUR)) \<and>
    (\<forall>k. open_alerts_of st' k = (if k = (''Proxmox Server'', srv_name srv, ''Backup Failure'')
            then (if backup_critical srv' then 1 else 0) else open_alerts_of st k))"
proof
  show "backup_critical srv' \<longleftrightarrow> (\<forall>r \<in> set (backup_logs st). bl_server r = srv_name srv \<and> bl_status r = ''Success''
            \<longrightarrow> bl_backup_time r < clock pe - 24 * HOUR)"
    using assms(3) last_success_before [where srv = "srv_name srv" and st = st and cutoff = "clock pe - 24 * HOUR"]
    by (auto simp: handle_backup_task_result_def Let_def BACKUP_OVERDUE_HOURS_def split: if_splits)
  show "\<forall>k. open_alerts_of st' k = (if k = (''Proxmox Server'', srv_name srv, ''Backup Failure'')
            then (if backup_critical srv' then 1 else 0) else open_alerts_of st k)"
    using assms by (auto simp: handle_backup_task_result_def Let_def open_laws alert_inv_resolve split: if_splits)
qed

abbreviation overdue_key :: "guest \<Rightarrow> alert_key" where
  "overdue_key g \<equiv> (''Proxmox Guest'', g_name g, ''Backup Overdue'')"

lemma check_guest_backup_effect:
  assumes "alert_inv s" and "g_name g \<in> set os \<longleftrightarrow> 0 < open_alerts_of s (overdue_key g)"
    and "t = check_guest_backup pe srv h os g s"
  shows "alert_inv t" and "0 < open_alerts_of t (overdue_key g) \<longleftrightarrow> backup_overdue (clock pe - h * HOUR) g"
    and "k \<noteq> overdue_key g \<Longrightarrow> open_alerts_of t k = open_alerts_of s k"
    and "open_alerts_of s (overdue_key g) \<le> 1 \<Longrightarrow> open_alerts_of t (overdue_key g) \<le> 1"
proof -
  show "alert_inv t" using assms(1)
    by (simp add: assms(3) check_guest_backup_def Let_def alert_inv_dispatch alert_inv_resolve alert_inv_recovery)
  show "0 < open_alerts_of t (overdue_key g) \<longleftrightarrow> backup_overdue (clock pe - h * HOUR) g"
    using assms(1,2) by (simp add: assms(3) check_guest_backup_def Let_def open_laws alert_inv_resolve)
  show "open_alerts_of t k = open_alerts_of s k" if "k \<noteq> overdue_key g"
    using assms(1) that by (simp add: assms(3) check_guest_backup_def Let_def open_laws alert_inv_resolve)
  show "open_alerts_of t (overdue_key g) \<le> 1" if "open_alerts_of s (overdue_key g) \<le> 1"
    using assms(1,2) that by (simp add: assms(3) check_guest_backup_def Let_def open_laws alert_inv_resolve)
qed

lemma check_guest_backups_fold:
  assumes "distinct (map g_name gs)" and "alert_inv s"
    and "\<forall>g \<in> set gs. g_name g \<in> set os \<longleftrightarrow> 0 < open_alerts_of s (overdue_key g)"
    and "\<forall>g \<in> set gs. open_alerts_of s (overdue_key g) \<le> 1"
    and "t = fold (check_guest_backup pe srv h os) gs s"
  shows "(\<forall>g \<in> set gs. open_alerts_of t (overdue_key g) = (if backup_overdue (clock pe - h * HOUR) g then 1 else 0)) \<and>
    (\<forall>k. k \<notin> overdue_key ` set gs \<longrightarrow> open_alerts_of t k = open_alerts_of s k)"
  using assms
proof (induction gs arbitrary: s)
  case (Cons g gs)
  let ?u = "check_guest_backup pe srv h os g s"
  have pre: "g_name g \<in> set os \<longleftrightarrow> 0 < open_alerts_of s (overdue_key g)" using Cons.prems(3) by simp
  note eff = check_guest_backup_effect [OF Cons.prems(2) pre refl, where pe = pe and srv = srv and h = h]
  have other: "open_alerts_of ?u (overdue_key g') = open_alerts_of s (overdue_key g')" if "g' \<in> set gs" for g'
    using Cons.prems(1) that by (intro eff(3)) (auto simp: image_iff)
  have one: "open_alerts_of ?u (overdue_key g) = (if backup_overdue (clock pe - h * HOUR) g then 1 else 0)"
    using eff(2) eff(4) Cons.prems(4) by (cases "backup_overdue (clock pe - h * HOUR) g") force+
  have ih: "(\<forall>g \<in> set gs. open_alerts_of t (overdue_key g) = (if backup_overdue (clock pe - h * HOUR) g then 1 else 0)) \<and>
    (\<forall>k. k \<notin> overdue_key ` set gs \<longrightarrow> open_alerts_of t k = open_alerts_of ?u k)"
    using Cons.prems other eff(1) by (intro Cons.IH) auto
  moreover have "overdue_key g \<notin> overdue_key ` set gs" using Cons.prems(1) by auto
  ultimately have "open_alerts_of t (overdue_key g) = (if backup_overdue (clock pe - h * HOUR) g then 1 else 0)"
    using one by simp
  then show ?case using ih eff(3) by auto
qed simp

lemma open_names_iff: "n \<in> set (open_names d ty st) \<longleftrightarrow> 0 < open_alerts_of st (d, n, ty)"
  by (force simp: open_names_def open_alerts_of_def open_row_def filter_empty_conv)

text \<open>C8: After the per-guest check, every guest of the host has exactly one open Backup Overdue alert if it
  is running, not tagged \<open>no-backup\<close>, older than the window and without a success inside the window,
  and none otherwise; alerts of other hosts' guests and other kinds stay as they are.\<close>

theorem check_guest_backups_exact:
  assumes "alert_inv st" and "distinct (map g_name (guests st))"
    and "\<forall>g \<in> set (guests st). open_alerts_of st (overdue_key g) \<le> 1"
    and "hours = opt_int (backup_overdue_hours (monitor_settings st))" and "0 < hours"
  shows "(\<forall>g \<in> set (guests st). g_server g = srv_name srv \<longrightarrow>
      open_alerts_of (check_guest_backups pe srv st) (overdue_key g) =
        (if backup_overdue (clock pe - hours * HOUR) g then 1 else 0)) \<and>
    (\<forall>k. k \<notin> overdue_key ` {g \<in> set (guests st). g_server g = srv_name srv} \<longrightarrow>
      open_alerts_of (check_guest_backups pe srv st) k = open_alerts_of st k)"
proof -
  let ?gs = "filter (\<lambda>g. g_server g = srv_name srv) (guests st)"
  have "check_guest_backups pe srv st = fold (check_guest_backup pe srv hours (open_names ''Proxmox Guest'' ''Backup Overdue'' st)) ?gs st"
    using assms(4,5) by (simp add: check_guest_backups_def Let_def)
  from check_guest_backups_fold [OF _ assms(1) _ _ this] assms(2,3) show ?thesis
    by (auto simp: open_names_iff distinct_map_filter)
qed


subsection \<open>Witnesses\<close>

definition demo_task :: vzdump_task where
  "demo_task = \<lparr>tk_upid = Some ''UPID:pve:1'', tk_id = Some ''101'', tk_status = Some ''OK'', tk_starttime = 1000,
     tk_endtime = Some 2000\<rparr>"

definition demo_backup_pve :: pve_api where
  "demo_backup_pve = demo_pve\<lparr>api_tasks := (\<lambda>n. Inr [demo_task]), api_task_log := (\<lambda>n u. Inr [''archive file size: 3GB'']),
     api_backup_files := (\<lambda>n s. Inr [])\<rparr>"

definition demo_guest :: guest where
  "demo_guest = (new_guest demo_poll_env ''alpha'' 101)\<lparr>g_status := ''running'', g_creation := -1000000000000\<rparr>"

definition demo_backup_db :: proxmox_db where
  "demo_backup_db = demo_proxmox_db\<lparr>guests := [demo_guest]\<rparr>"

lemma demo_backup_inv: "backup_inv demo_backup_db" "alert_inv demo_backup_db"
  by (code_simp, code_simp)

lemma demo_first_cycle:
  obtains srv1 st1 where "sync_pve_backups demo_poll_env demo_backup_pve demo_server ''n'' demo_backup_db = (None, (srv1, st1))"
    and "map bl_upid (backup_logs st1) = [''UPID:pve:1'']"
    and "map g_last_successful_backup (guests st1) = [Some (2000 * SECOND)]"
proof -
  let ?r = "sync_pve_backups demo_poll_env demo_backup_pve demo_server ''n'' demo_backup_db"
  have "fst ?r = None" "map bl_upid (backup_logs (snd (snd ?r))) = [''UPID:pve:1'']"
    "map g_last_successful_backup (guests (snd (snd ?r))) = [Some (2000 * SECOND)]" by code_simp+
  then show thesis using that by (cases ?r) auto
qed

theorem sync_pve_backups_idempotent_witness:
  "\<exists>srv1 (st1 :: proxmox_db) srv2 st2. sync_pve_backups demo_poll_env demo_backup_pve srv1 ''n'' st1 = (None, (srv2, st2)) \<and>
     map bl_upid (backup_logs st2) = [''UPID:pve:1'']"
proof -
  obtain srv1 st1 where one: "sync_pve_backups demo_poll_env demo_backup_pve demo_server ''n'' demo_backup_db = (None, (srv1, st1))"
    "map bl_upid (backup_logs st1) = [''UPID:pve:1'']" by (rule demo_first_cycle)
  obtain r srv2 st2 where two: "sync_pve_backups demo_poll_env demo_backup_pve srv1 ''n'' st1 = (r, (srv2, st2))"
    by (cases "sync_pve_backups demo_poll_env demo_backup_pve srv1 ''n'' st1") auto
  have tasks: "api_tasks demo_backup_pve ''n'' = Inr [demo_task]" by (simp add: demo_backup_pve_def)
  have "list_all (\<lambda>t. CHR 0x5C \<notin> set (opt_str (tk_upid t))) [demo_task]" by (simp add: demo_task_def)
  from sync_pve_backups_idempotent [OF tasks this one(1) two]
  have "r = None" "backup_logs st2 = backup_logs st1" by simp_all
  then show ?thesis using one(2) two by (intro exI [of _ srv1] exI [of _ st1] exI [of _ srv2] exI [of _ st2]) simp
qed

theorem sync_pve_backups_advance_witness:
  "\<exists>srv1 st1. sync_pve_backups demo_poll_env demo_backup_pve demo_server ''n'' demo_backup_db = (None, (srv1, st1)) \<and>
     backup_inv st1 \<and> map g_last_successful_backup (guests st1) = [Some (2000 * SECOND)]"
proof -
  obtain srv1 st1 where one: "sync_pve_backups demo_poll_env demo_backup_pve demo_server ''n'' demo_backup_db = (None, (srv1, st1))"
    "map g_last_successful_backup (guests st1) = [Some (2000 * SECOND)]" by (rule demo_first_cycle)
  from sync_pve_backups_advance [OF demo_backup_inv(1) one(1)] have "backup_inv st1" by simp
  with one show ?thesis by (intro exI [of _ srv1] exI [of _ st1]) simp
qed

theorem backfill_pbs_snapshots_advance_witness:
  "\<exists>r st'. backfill_pbs_snapshots demo_poll_env demo_pbs demo_server ''ds'' demo_backup_db = (r, st') \<and> r = None \<and> backup_inv st'"
proof -
  let ?r = "backfill_pbs_snapshots demo_poll_env demo_pbs demo_server ''ds'' demo_backup_db"
  have "fst ?r = None" by code_simp
  with backfill_pbs_snapshots_advance [OF demo_backup_inv(1), of demo_poll_env demo_pbs demo_server "''ds''"]
  show ?thesis by (cases ?r) auto
qed

theorem backup_failure_tracks_last_success_witness:
  "backup_critical (fst (handle_backup_task_result demo_poll_env demo_server demo_backup_db)) \<and>
   open_alerts_of (snd (handle_backup_task_result demo_poll_env demo_server demo_backup_db))
     (''Proxmox Server'', ''alpha'', ''Backup Failure'') = 1"
proof -
  let ?r = "handle_backup_task_result demo_poll_env demo_server demo_backup_db"
  have r: "?r = (fst ?r, snd ?r)" by simp
  have zero: "open_alerts_of demo_backup_db (''Proxmox Server'', srv_name demo_server, ''Backup Failure'') =
    (if backup_critical demo_server then 1 else 0)" by code_simp
  have none: "backup_logs demo_backup_db = []" and name: "srv_name demo_server = ''alpha''" by code_simp+
  from backup_failure_tracks_last_success [OF demo_backup_inv(2) zero r] none name show ?thesis by simp
qed

theorem check_guest_backups_exact_witness:
  "open_alerts_of (check_guest_backups demo_poll_env demo_server demo_backup_db) (overdue_key demo_guest) = 1"
proof -
  have one: "\<forall>g \<in> set (guests demo_backup_db). open_alerts_of demo_backup_db (overdue_key g) \<le> 1"
    and dist: "distinct (map g_name (guests demo_backup_db))"
    and hrs: "26 = opt_int (backup_overdue_hours (monitor_settings demo_backup_db))"
    and mem: "demo_guest \<in> set (guests demo_backup_db)" and srv: "g_server demo_guest = srv_name demo_server"
    and due: "backup_overdue (clock demo_poll_env - 26 * HOUR) demo_guest"
    by (code_simp, code_simp, code_simp, simp add: demo_backup_db_def, code_simp, code_simp)
  from check_guest_backups_exact [OF demo_backup_inv(2) dist one hrs] mem srv due show ?thesis by simp
qed


end
