(* ===== verification/Loop_Jobs.thy ===== *)
theory Loop_Jobs
  imports Backup_Sync
begin

text \<open>
  \<open>tasks/jobs.py\<close>: the background jobs behind the poll loops. The jobs RQ knows of, with their status
  and times, are part of the state; the app's own code decides which queue to use, when a leftover
  job is dead, whether a loop has to be started, and which of its two job ids the next run gets.
  Frappe's \<open>enqueue\<close> is a parameter (\<open>rq_enqueue\<close>); what the code relies on, that an enqueue with
  \<open>deduplicate=True\<close> is refused while the id is queued or started and otherwise queues a job under that
  id and nothing else, is the named hypothesis \<open>enqueue_contract\<close>.
\<close>

datatype job_status = QUEUED | STARTED | OTHER_STATUS

record rq_job =
  rq_id :: string
  rq_status :: job_status
  rq_started_at :: "datetime option"
  rq_enqueued_at :: "datetime option"
  rq_worker :: string

record job_env =
  job_poll_env :: poll_env
  utc_now :: datetime
  pulse_listed :: bool
  pulse_workers :: "string + bool"
  rq_enqueue :: "string \<Rightarrow> string \<Rightarrow> string \<Rightarrow> rq_job list \<Rightarrow> rq_job list"

record job_db = proxmox_db +
  rq_jobs :: "rq_job list"
  logger_warnings :: "string list"

definition POLLER_QUEUE :: string where "POLLER_QUEUE = ''pulse''"

definition FALLBACK_WARNING_KEY :: string where
  "FALLBACK_WARNING_KEY = ''alfaedge_pulse:poller_queue_fallback_warned''"

definition poller_queue :: "job_env \<Rightarrow> 'a job_db_scheme \<Rightarrow> string \<times> 'a job_db_scheme" where
  "poller_queue je st =
     (let reason =
            (if \<not> pulse_listed je
             then Some ([CHR 0x22] @ POLLER_QUEUE @ [CHR 0x22] @ '' is not listed under '' @ [CHR 0x22] @ ''workers'' @ [CHR 0x22] @
                        '' in common_site_config.json'')
             else case pulse_workers je of
                    Inr True \<Rightarrow> None
                  | Inr False \<Rightarrow> Some (''no worker is serving the '' @ [CHR 0x22] @ POLLER_QUEUE @ [CHR 0x22] @
                        '' queue (is the supervisor program installed and running?)'')
                  | Inl exc \<Rightarrow> Some (''the '' @ [CHR 0x22] @ POLLER_QUEUE @ [CHR 0x22] @ '' queue could not be checked ('' @ exc @ '')''))
      in case reason of
           None \<Rightarrow> (POLLER_QUEUE, st)
         | Some r \<Rightarrow>
             (''long'',
              if cache_get (job_poll_env je) FALLBACK_WARNING_KEY st then st
              else (cache_set (job_poll_env je) FALLBACK_WARNING_KEY 3600 st)
                     \<lparr>logger_warnings := logger_warnings st @
                        [''Poll loops are using the long queue because '' @ r @ ''.'']\<rparr>))"

definition job_active :: "rq_job \<Rightarrow> bool" where
  "job_active j \<longleftrightarrow> rq_status j = QUEUED \<or> rq_status j = STARTED"

definition is_job_enqueued :: "string \<Rightarrow> rq_job list \<Rightarrow> bool" where
  "is_job_enqueued i js \<longleftrightarrow> list_ex (\<lambda>j. rq_id j = i \<and> job_active j) js"

definition job_since :: "rq_job \<Rightarrow> datetime option" where
  "job_since j = (case rq_started_at j of Some t \<Rightarrow> Some t | None \<Rightarrow> rq_enqueued_at j)"

definition clear_stale_job :: "job_env \<Rightarrow> string \<Rightarrow> int \<Rightarrow> string \<Rightarrow> 'a job_db_scheme \<Rightarrow> bool \<times> 'a job_db_scheme" where
  "clear_stale_job je job_id max_age_seconds label st =
     (case find_row rq_id job_id (rq_jobs st) of
        None \<Rightarrow> (False, st)
      | Some job \<Rightarrow>
          if \<not> job_active job then (False, st)
          else case job_since job of
                 None \<Rightarrow> (False, st)
               | Some since \<Rightarrow>
                   if utc_now je - since < max_age_seconds * SECOND then (False, st)
                   else (True, (log_error (''alfaEdge Pulse: cleared stale '' @ label @ '' job'') st)
                                 \<lparr>rq_jobs := delete_rows rq_id [job_id] (rq_jobs st)\<rparr>))"

definition loop_job_ids :: "string \<Rightarrow> string list" where
  "loop_job_ids job_id = [job_id, job_id @ ''_b'']"

definition enqueue_job :: "job_env \<Rightarrow> string \<Rightarrow> string \<Rightarrow> 'a job_db_scheme \<Rightarrow> 'a job_db_scheme" where
  "enqueue_job je method_path job_id st =
     (let (q, st1) = poller_queue je st
      in st1\<lparr>rq_jobs := rq_enqueue je method_path q job_id (rq_jobs st1)\<rparr>)"

definition start_loop_if_needed ::
    "job_env \<Rightarrow> string \<Rightarrow> string \<Rightarrow> string \<Rightarrow> int \<Rightarrow> string \<Rightarrow> 'a job_db_scheme \<Rightarrow> bool \<times> 'a job_db_scheme" where
  "start_loop_if_needed je method_path job_id heartbeat_key stale_seconds label st =
     (if cache_get (job_poll_env je) heartbeat_key st then (False, st)
      else
        let st1 = fold (\<lambda>one s. snd (clear_stale_job je one stale_seconds label s)) (loop_job_ids job_id) st
        in if list_ex (\<lambda>one. is_job_enqueued one (rq_jobs st1)) (loop_job_ids job_id) then (False, st1)
           else (True, enqueue_job je method_path job_id st1))"

text \<open>RQ prefixes a job's id with the site; the part after the last \<open>||\<close> is the app's own id.\<close>

function after_last_bars :: "string \<Rightarrow> string" where
  "after_last_bars s = (case py_after ''||'' s of None \<Rightarrow> s | Some r \<Rightarrow> after_last_bars r)"
  by pat_completeness auto

lemma py_after_shorter: "py_after p s = Some r \<Longrightarrow> p \<noteq> [] \<Longrightarrow> length r < length s"
proof (induction s)
  case (Cons c s)
  then show ?case by (cases p) (auto split: if_splits)
qed auto

termination after_last_bars
  by (relation "measure length") (auto dest: py_after_shorter)

declare after_last_bars.simps [simp del]

definition successor_id :: "string option \<Rightarrow> string \<Rightarrow> string" where
  "successor_id current job_id =
     (let current_id = (case current of None \<Rightarrow> job_id | Some i \<Rightarrow> after_last_bars i)
      in if current_id = job_id then job_id @ ''_b'' else job_id)"

definition hand_off_loop :: "job_env \<Rightarrow> string option \<Rightarrow> string \<Rightarrow> string \<Rightarrow> 'a job_db_scheme \<Rightarrow> 'a job_db_scheme" where
  "hand_off_loop je current method_path job_id st = enqueue_job je method_path (successor_id current job_id) st"

subsection \<open>What the code relies on\<close>

definition enqueue_contract :: "job_env \<Rightarrow> bool" where
  "enqueue_contract je \<longleftrightarrow> (\<forall>m q i js.
     (is_job_enqueued i js \<longrightarrow> rq_enqueue je m q i js = js) \<and>
     (\<not> is_job_enqueued i js \<longrightarrow> is_job_enqueued i (rq_enqueue je m q i js) \<and>
        (\<forall>k. k \<noteq> i \<longrightarrow> filter (\<lambda>j. rq_id j = k) (rq_enqueue je m q i js) = filter (\<lambda>j. rq_id j = k) js)))"

subsection \<open>The watchdog\<close>

lemma enqueue_contract_active: "enqueue_contract je \<Longrightarrow> is_job_enqueued i (rq_enqueue je m q i js)"
  by (cases "is_job_enqueued i js") (auto simp: enqueue_contract_def)

lemma enqueue_contract_other:
  assumes "enqueue_contract je" and "k \<noteq> i"
  shows "is_job_enqueued k (rq_enqueue je m q i js) = is_job_enqueued k js"
proof -
  have "is_job_enqueued k xs \<longleftrightarrow> list_ex job_active (filter (\<lambda>j. rq_id j = k) xs)" for xs
    by (auto simp: is_job_enqueued_def list_ex_iff)
  then show ?thesis using assms by (cases "is_job_enqueued i js") (auto simp: enqueue_contract_def)
qed

lemma poller_queue_jobs [simp]: "rq_jobs (snd (poller_queue je st)) = rq_jobs st"
  by (simp add: poller_queue_def Let_def cache_set_def split: option.splits)

lemma enqueue_job_jobs: "\<exists>q. rq_jobs (enqueue_job je m i st) = rq_enqueue je m q i (rq_jobs st)"
proof -
  obtain q s where q: "poller_queue je st = (q, s)" by (cases "poller_queue je st")
  then have "rq_jobs s = rq_jobs st" using poller_queue_jobs [of je st] by simp
  with q show ?thesis by (auto simp: enqueue_job_def)
qed

text \<open>A job past its age limit: dead, whatever RQ says.\<close>

definition stale_job :: "job_env \<Rightarrow> int \<Rightarrow> rq_job \<Rightarrow> bool" where
  "stale_job je limit j \<longleftrightarrow> job_active j \<and>
     (case job_since j of None \<Rightarrow> False | Some t \<Rightarrow> limit * SECOND \<le> utc_now je - t)"

lemma clear_stale_job_jobs:
  assumes "distinct (map rq_id (rq_jobs st))"
  shows "rq_jobs (snd (clear_stale_job je i limit label st)) =
    filter (\<lambda>j. \<not> (rq_id j = i \<and> stale_job je limit j)) (rq_jobs st)"
proof (cases "find_row rq_id i (rq_jobs st)")
  case None
  then have "i \<notin> rq_id ` set (rq_jobs st)" by (simp add: find_row_None)
  then show ?thesis using None by (auto simp: clear_stale_job_def intro!: filter_True [symmetric])
next
  case (Some job)
  have only: "j = job" if "j \<in> set (rq_jobs st)" "rq_id j = i" for j
    using find_row_member [OF assms that(1)] Some that(2) by simp
  have id: "rq_id job = i" "job \<in> set (rq_jobs st)" using find_row_Some [OF Some] by auto
  show ?thesis
  proof (cases "stale_job je limit job")
    case True
    then have "rq_jobs (snd (clear_stale_job je i limit label st)) = delete_rows rq_id [i] (rq_jobs st)"
      using Some by (auto simp: clear_stale_job_def stale_job_def split: option.splits)
    also have "\<dots> = filter (\<lambda>j. \<not> (rq_id j = i \<and> stale_job je limit j)) (rq_jobs st)"
      unfolding delete_rows_def by (rule filter_cong) (use only True in auto)
    finally show ?thesis .
  next
    case False
    then have "snd (clear_stale_job je i limit label st) = st"
      using Some by (auto simp: clear_stale_job_def stale_job_def split: option.splits)
    then show ?thesis using only False by (auto intro!: filter_True [symmetric])
  qed
qed

text \<open>A loop is alive while one of its two ids has a job that is queued or started and not past the limit.\<close>

definition loop_alive :: "job_env \<Rightarrow> string \<Rightarrow> int \<Rightarrow> rq_job list \<Rightarrow> bool" where
  "loop_alive je job_id limit js \<longleftrightarrow>
     list_ex (\<lambda>j. rq_id j \<in> set (loop_job_ids job_id) \<and> job_active j \<and> \<not> stale_job je limit j) js"

lemma clear_both:
  assumes "distinct (map rq_id (rq_jobs st))"
    and "st1 = fold (\<lambda>one s. snd (clear_stale_job je one limit label s)) (loop_job_ids job_id) st"
  shows "rq_jobs st1 = filter (\<lambda>j. \<not> (rq_id j \<in> set (loop_job_ids job_id) \<and> stale_job je limit j)) (rq_jobs st)"
proof -
  let ?s = "snd (clear_stale_job je job_id limit label st)"
  have one: "rq_jobs ?s = filter (\<lambda>j. \<not> (rq_id j = job_id \<and> stale_job je limit j)) (rq_jobs st)"
    using assms(1) by (rule clear_stale_job_jobs)
  have "distinct (map rq_id (rq_jobs ?s))" unfolding one using assms(1) by (rule distinct_map_filter)
  from clear_stale_job_jobs [OF this, of je "job_id @ ''_b''" limit label] one show ?thesis
    by (auto simp: assms(2) loop_job_ids_def intro: filter_cong)
qed

text \<open>C16: the watchdog never lets a loop stay dead and never starts a second one: with a stale heartbeat
  it queues a run exactly when neither of the loop's two ids has a live job (a leftover past the age
  limit does not count, and is removed), and in every case a job of the loop is queued or running
  afterwards; with a fresh heartbeat it does nothing.\<close>

theorem start_loop_if_needed_exact:
  assumes "enqueue_contract je" and "distinct (map rq_id (rq_jobs st))"
    and "start_loop_if_needed je m job_id hb limit label st = (queued, st')"
  shows "if cache_get (job_poll_env je) hb st then \<not> queued \<and> st' = st
    else (queued \<longleftrightarrow> \<not> loop_alive je job_id limit (rq_jobs st)) \<and>
         list_ex (\<lambda>i. is_job_enqueued i (rq_jobs st')) (loop_job_ids job_id)"
proof (cases "cache_get (job_poll_env je) hb st")
  case True
  then show ?thesis using assms(3) by (simp add: start_loop_if_needed_def)
next
  case False
  let ?st1 = "fold (\<lambda>one s. snd (clear_stale_job je one limit label s)) (loop_job_ids job_id) st"
  have "list_ex (\<lambda>one. is_job_enqueued one (rq_jobs ?st1)) (loop_job_ids job_id) \<longleftrightarrow>
      loop_alive je job_id limit (rq_jobs st)"
    unfolding clear_both [OF assms(2) refl] loop_alive_def is_job_enqueued_def list_ex_iff by auto
  moreover have "is_job_enqueued job_id (rq_jobs (enqueue_job je m job_id ?st1))"
    using enqueue_job_jobs [of je m job_id ?st1] enqueue_contract_active [OF assms(1)] by auto
  ultimately show ?thesis using False assms(3)
    by (auto simp: start_loop_if_needed_def Let_def loop_job_ids_def split: if_splits)
qed

subsection \<open>Handing over\<close>

lemma py_after_skip: "c \<notin> set s \<Longrightarrow> py_after (c # p) (s @ t) = py_after (c # p) t"
  by (induction s) auto

lemma py_after_absent: "c \<notin> set t \<Longrightarrow> py_after (c # p) t = None"
  using py_after_skip [of c t p "[]"] by simp

lemma after_last_bars_site:
  assumes "CHR ''|'' \<notin> set site" and "CHR ''|'' \<notin> set i"
  shows "after_last_bars (site @ ''||'' @ i) = i"
  using assms by (simp add: after_last_bars.simps py_after_skip py_after_absent)

text \<open>A run that has reached its time bound queues its successor under the other of the loop's two
  ids, which is accepted although the ending run is still recorded as running under its own; so the
  ids alternate from run to run.\<close>

theorem hand_off_alternates:
  assumes "enqueue_contract je" and "CHR ''|'' \<notin> set site" and "CHR ''|'' \<notin> set job_id"
    and "current \<in> set (loop_job_ids job_id)" and "is_job_enqueued current (rq_jobs st)"
    and "st' = hand_off_loop je (Some (site @ ''||'' @ current)) m job_id st"
  shows "\<exists>successor \<in> set (loop_job_ids job_id). successor \<noteq> current \<and> is_job_enqueued successor (rq_jobs st') \<and>
    is_job_enqueued current (rq_jobs st') \<and> successor_id (Some (site @ ''||'' @ successor)) job_id = current"
proof -
  let ?n = "successor_id (Some (site @ ''||'' @ current)) job_id"
  have bars: "CHR ''|'' \<notin> set i" if "i \<in> set (loop_job_ids job_id)" for i
    using that assms(3) by (auto simp: loop_job_ids_def)
  have succ: "successor_id (Some (site @ ''||'' @ i)) job_id = (if i = job_id then job_id @ ''_b'' else job_id)"
    if "i \<in> set (loop_job_ids job_id)" for i
    using after_last_bars_site [OF assms(2) bars [OF that]] by (simp add: successor_id_def)
  have n: "?n \<in> set (loop_job_ids job_id)" "?n \<noteq> current" "successor_id (Some (site @ ''||'' @ ?n)) job_id = current"
    using assms(4) succ by (auto simp: loop_job_ids_def)
  obtain q where "rq_jobs st' = rq_enqueue je m q ?n (rq_jobs st)"
    using enqueue_job_jobs [of je m ?n st] by (auto simp: assms(6) hand_off_loop_def)
  then have "is_job_enqueued ?n (rq_jobs st')" "is_job_enqueued current (rq_jobs st')"
    using enqueue_contract_active [OF assms(1)] enqueue_contract_other [OF assms(1), of current ?n] n(2) assms(5) by auto
  with n show ?thesis by blast
qed


definition demo_enqueue :: "string \<Rightarrow> string \<Rightarrow> string \<Rightarrow> rq_job list \<Rightarrow> rq_job list" where
  "demo_enqueue m q i js =
     (if is_job_enqueued i js then js
      else delete_rows rq_id [i] js @
        [\<lparr>rq_id = i, rq_status = QUEUED, rq_started_at = None, rq_enqueued_at = Some 0, rq_worker = []\<rparr>])"

definition demo_job_env :: job_env where
  "demo_job_env = \<lparr>job_poll_env = demo_poll_env, utc_now = 10000 * SECOND, pulse_listed = True, pulse_workers = Inr True,
     rq_enqueue = demo_enqueue\<rparr>"

text \<open>Two leftovers of a killed worker: one job recorded as started hours ago.\<close>

definition demo_job_db :: job_db where
  "demo_job_db = proxmox_db.extend demo_backup_db \<lparr>rq_jobs =
       [\<lparr>rq_id = ''poller'', rq_status = STARTED, rq_started_at = Some 0, rq_enqueued_at = Some 0, rq_worker = ''w''\<rparr>],
     logger_warnings = []\<rparr>"

lemma demo_contract: "enqueue_contract demo_job_env"
proof -
  have "filter (\<lambda>x. rq_id x \<noteq> i \<and> rq_id x = k) js = filter (\<lambda>j. rq_id j = k) js" if "k \<noteq> i" for k i js
    by (rule filter_cong) (use that in auto)
  then show ?thesis
    by (auto simp: enqueue_contract_def demo_job_env_def demo_enqueue_def delete_rows_def is_job_enqueued_def job_active_def)
qed

theorem start_loop_if_needed_exact_witness:
  "fst (start_loop_if_needed demo_job_env ''run'' ''poller'' ''hb'' 600 ''poller'' demo_job_db) \<and>
   fst (start_loop_if_needed demo_job_env ''run'' ''poller'' ''hb'' 600 ''poller'' demo_job_db) =
     (\<not> loop_alive demo_job_env ''poller'' 600 (rq_jobs demo_job_db))"
proof -
  let ?r = "start_loop_if_needed demo_job_env ''run'' ''poller'' ''hb'' 600 ''poller'' demo_job_db"
  have r: "?r = (fst ?r, snd ?r)" by simp
  have d: "distinct (map rq_id (rq_jobs demo_job_db))" and hb: "\<not> cache_get (job_poll_env demo_job_env) ''hb'' demo_job_db"
    and dead: "\<not> loop_alive demo_job_env ''poller'' 600 (rq_jobs demo_job_db)" by code_simp+
  from start_loop_if_needed_exact [OF demo_contract d r] hb dead show ?thesis by simp
qed

theorem hand_off_alternates_witness:
  "\<exists>successor \<in> set (loop_job_ids ''poller''). successor \<noteq> ''poller'' \<and>
     is_job_enqueued successor (rq_jobs (hand_off_loop demo_job_env (Some (''site'' @ ''||'' @ ''poller'')) ''run'' ''poller'' demo_job_db))"
proof -
  have a: "CHR ''|'' \<notin> set ''site''" "CHR ''|'' \<notin> set ''poller''" "''poller'' \<in> set (loop_job_ids ''poller'')"
    "is_job_enqueued ''poller'' (rq_jobs demo_job_db)" by code_simp+
  from hand_off_alternates [OF demo_contract a refl, of "''run''"] show ?thesis by blast
qed

end
