(* ===== verification/Proxmox_Poller.thy ===== *)
theory Proxmox_Poller
  imports Loop_Jobs
begin

text \<open>
  The orchestration of \<open>tasks/poller.py\<close>: one server's sync with its three alert transitions, the pass
  over all servers with its commit or rollback per server, the bounded poll loop, and the watchdog
  with its stall check. The PVE and PBS clients a server's documents lead to are parameters (\<open>fleet\<close>);
  an exception other than \<open>ProxmoxAPIError\<close> is the value \<open>Unexpected\<close>.
\<close>

record fleet =
  pve_of :: "string \<Rightarrow> pve_api"
  pbs_of :: "string \<Rightarrow> pbs_api"

subsection \<open>One server\<close>

type_synonym 'a synced = "poll_error option \<times> server \<times> 'a proxmox_db_scheme"

definition pbs_phase :: "poll_env \<Rightarrow> pbs_api \<Rightarrow> thresholds \<Rightarrow> server \<Rightarrow> 'a proxmox_db_scheme \<Rightarrow> 'a synced" where
  "pbs_phase pe c th srv st =
     (case pbs_node_status c pbs_discover_node_name of
        Inl err \<Rightarrow> (Some (api_fail err), srv, st)
      | Inr status \<Rightarrow>
          (let p = apply_host_status pe srv status th st;
               q = sync_pbs_datastores pe c (fst p) th (snd p)
           in (fst q, fst p, snd q)))"

definition pve_phase :: "poll_env \<Rightarrow> pve_api \<Rightarrow> thresholds \<Rightarrow> server \<Rightarrow> 'a proxmox_db_scheme \<Rightarrow> 'a synced" where
  "pve_phase pe c th srv st =
     (case discover_node_name c of
        Inl err \<Rightarrow> (Some (api_fail err), srv, st)
      | Inr node \<Rightarrow>
     (case api_node_status c node of
        Inl err \<Rightarrow> (Some (api_fail err), srv, st)
      | Inr status \<Rightarrow>
          (let p = apply_host_status pe srv status th st
           in case sync_pve_guests pe c (fst p) node th (snd p) of
                (Some err, st1) \<Rightarrow> (Some err, fst p, st1)
              | (None, st1) \<Rightarrow>
                  (case sync_pve_storage pe c (fst p) node th st1 of
                     (Some err, st2) \<Rightarrow> (Some err, fst p, st2)
                   | (None, st2) \<Rightarrow> sync_pve_backups pe c (fst p) node st2))))"

text \<open>The \<open>except\<close> and \<open>finally\<close> parts: the document as it is saved.\<close>

definition finish_server :: "poll_env \<Rightarrow> poll_error option \<Rightarrow> server \<Rightarrow> server" where
  "finish_server pe err srv =
     (let srv1 = (case err of
                    None \<Rightarrow> srv\<lparr>last_error := []\<rparr>
                  | Some (ApiError m) \<Rightarrow> srv\<lparr>srv_status := ''Offline'', last_error := m\<rparr>
                  | Some (Unexpected m) \<Rightarrow> srv);
          srv2 = (if server_type srv1 \<noteq> ''PBS'' \<and> backup_critical srv1 then srv1\<lparr>is_critical := True\<rparr> else srv1)
      in srv2\<lparr>srv_last_synced := Some (clock pe)\<rparr>)"

definition server_metrics :: "server \<Rightarrow> (string \<times> rat) list" where
  "server_metrics srv = [(''CPU'', opt_rat (srv_cpu_usage srv)), (''RAM'', opt_rat (srv_memory_usage srv))]"

definition old_resource_critical :: "server \<Rightarrow> thresholds \<Rightarrow> bool" where
  "old_resource_critical srv th \<longleftrightarrow> srv_cpu_usage srv \<noteq> None \<and>
     max (opt_rat (srv_cpu_usage srv)) (opt_rat (srv_memory_usage srv)) \<ge> of_int (critical_percent th)"

definition offline_transition ::
    "poll_env \<Rightarrow> string \<Rightarrow> server \<Rightarrow> 'a proxmox_db_scheme \<Rightarrow> 'a proxmox_db_scheme" where
  "offline_transition pe old_status srv st =
     (let offline_message = server_name srv @ '': server unreachable ('' @ hostname srv @ '')''
      in if old_status \<noteq> ''Offline'' \<and> srv_status srv = ''Offline'' then
           dispatch_alert (base_env pe) ''Server Offline'' ''Proxmox Server'' (srv_name srv) offline_message True st
         else if old_status = ''Offline'' \<and> srv_status srv \<noteq> ''Offline'' then
           dispatch_recovery (base_env pe) ''Server Offline'' ''Proxmox Server'' (srv_name srv)
             (server_name srv @ '': server back online ('' @ hostname srv @ '')'') True
             (resolve_alert ''Proxmox Server'' (srv_name srv) ''Server Offline'' st)
         else if srv_status srv = ''Offline'' \<and> \<not> has_open_alert ''Proxmox Server'' (srv_name srv) ''Server Offline'' st then
           dispatch_alert (base_env pe) ''Server Offline'' ''Proxmox Server'' (srv_name srv) offline_message True st
         else st)"

definition resource_transitions ::
    "poll_env \<Rightarrow> thresholds \<Rightarrow> bool \<Rightarrow> bool \<Rightarrow> bool \<Rightarrow> bool \<Rightarrow> server \<Rightarrow> 'a proxmox_db_scheme \<Rightarrow> 'a proxmox_db_scheme" where
  "resource_transitions pe th old_crit new_crit old_warn new_warn srv st =
     (let st1 = handle_transition (base_env pe) old_crit new_crit ''Proxmox Server'' (srv_name srv) ''Critical Resource''
                  (server_name srv @ '': '' @ format_over_threshold (server_metrics srv) (critical_percent th) @ '' above '' @
                   show_int (critical_percent th) @ ''%'')
                  (Some (server_name srv @ '': CPU/RAM usage back below '' @ show_int (critical_percent th) @ ''%'')) True st
      in handle_transition (base_env pe) old_warn new_warn ''Proxmox Server'' (srv_name srv) ''Resource Warning''
           (server_name srv @ '': '' @ format_over_threshold (server_metrics srv) (warning_percent th) @ '' above '' @
            show_int (warning_percent th) @ ''% for '' @ show_int (confirmation_checks th) @ ''+ checks'') None True st1)"

definition sync_server :: "poll_env \<Rightarrow> fleet \<Rightarrow> server \<Rightarrow> 'a proxmox_db_scheme \<Rightarrow> 'a proxmox_db_scheme outcome" where
  "sync_server pe fl srv st =
     (let th = get_thresholds st;
          old_crit = old_resource_critical srv th;
          old_warn = (srv_status srv = ''Warning'');
          r = (if server_type srv = ''PBS'' then pbs_phase pe (pbs_of fl (srv_name srv)) th srv st
               else pve_phase pe (pve_of fl (srv_name srv)) th srv st);
          err = fst r; srv1 = fst (snd r); st1 = snd (snd r);
          srv2 = finish_server pe err srv1;
          st2 = st1\<lparr>servers := put_row srv_name srv2 (servers st1)\<rparr>
      in case err of
           Some (Unexpected m) \<Rightarrow> (Some (Unexpected m), st2)
         | _ \<Rightarrow>
             (let st3 = resource_transitions pe th old_crit (is_critical srv1) old_warn (srv_status srv2 = ''Warning'') srv2 st2
              in (None, offline_transition pe (srv_status srv) srv2 st3)))"

subsection \<open>All servers\<close>

definition resolve_disabled_server_alerts :: "'a proxmox_db_scheme \<Rightarrow> 'a proxmox_db_scheme" where
  "resolve_disabled_server_alerts st =
     (let disabled = map srv_name (filter (\<lambda>s. \<not> srv_enabled s) (servers st))
      in if disabled = [] then st
         else let refs = disabled @ map g_name (filter (\<lambda>g. g_server g \<in> set disabled) (guests st)) @
                         map ds_name (filter (\<lambda>d. ds_server d \<in> set disabled) (datastores st))
              in st\<lparr>alert_log := map (\<lambda>r. if \<not> resolved r \<and>
                       reference_doctype r \<in> {''Proxmox Server'', ''Proxmox Guest'', ''Proxmox Datastore''} \<and>
                       reference_name r \<in> set refs then r\<lparr>resolved := True\<rparr> else r) (alert_log st)\<rparr>)"

text \<open>A rollback brings the tables back to the last commit; what was sent and what Redis holds stay.\<close>

definition rollback :: "'a proxmox_db_scheme \<Rightarrow> 'a proxmox_db_scheme \<Rightarrow> 'a proxmox_db_scheme" where
  "rollback committed st = committed\<lparr>outbox := outbox st, cache_expiry := cache_expiry st\<rparr>"

text \<open>The loop over the servers carries the current state and the last committed one.\<close>

definition sync_one :: "poll_env \<Rightarrow> fleet \<Rightarrow> string \<Rightarrow> 'a proxmox_db_scheme \<times> 'a proxmox_db_scheme
      \<Rightarrow> 'a proxmox_db_scheme \<times> 'a proxmox_db_scheme" where
  "sync_one pe fl name p =
     (let r = (case find_row srv_name name (servers (fst p)) of
                 None \<Rightarrow> (Some (Unexpected ''DoesNotExistError''), fst p)
               | Some srv \<Rightarrow> sync_server pe fl srv (fst p))
      in case fst r of
           None \<Rightarrow> (snd r, snd r)
         | Some _ \<Rightarrow> (log_error (''Proxmox Monitor: sync failed for '' @ name) (rollback (snd p) (snd r)), snd p))"

definition sync_all_servers :: "poll_env \<Rightarrow> fleet \<Rightarrow> 'a proxmox_db_scheme \<times> 'a proxmox_db_scheme
      \<Rightarrow> 'a proxmox_db_scheme \<times> 'a proxmox_db_scheme" where
  "sync_all_servers pe fl p =
     (let st = resolve_disabled_server_alerts (fst p);
          server_names = map srv_name (filter srv_enabled (servers st))
      in fold (sync_one pe fl) server_names (st, snd p))"

subsection \<open>What a server's phases leave alone\<close>

text \<open>Between reading a server's document and saving it, the phases change neither the server table nor
  the settings, keep the alert log well formed, and open or close no server alert but the server's
  own Backup Failure.\<close>

definition server_alert_kept :: "string \<Rightarrow> alert_key \<Rightarrow> bool" where
  "server_alert_kept n k \<longleftrightarrow> fst k = ''Proxmox Server'' \<and> k \<noteq> (''Proxmox Server'', n, ''Backup Failure'')"

definition phase_step :: "string \<Rightarrow> 'a proxmox_db_scheme \<Rightarrow> 'a proxmox_db_scheme \<Rightarrow> bool" where
  "phase_step n st st' \<longleftrightarrow> servers st' = servers st \<and> monitor_settings st' = monitor_settings st \<and>
     (alert_inv st \<longrightarrow> alert_inv st' \<and>
        (\<forall>k. server_alert_kept n k \<longrightarrow> open_alerts_of st' k = open_alerts_of st k))"

lemma phase_step_refl [simp, intro]: "phase_step n st st"
  by (simp add: phase_step_def)

lemma phase_step_trans: "phase_step n a b \<Longrightarrow> phase_step n b c \<Longrightarrow> phase_step n a c"
  by (simp add: phase_step_def)

lemma phase_step_fold:
  "(\<And>x s. phase_step n s (f x s)) \<Longrightarrow> phase_step n st (fold f xs st)"
  by (induction xs arbitrary: st) (auto intro: phase_step_trans)

lemma phase_step_each:
  assumes "\<And>x s r s'. f x s = (r, s') \<Longrightarrow> phase_step n s s'" and "each f xs s = (r, s')"
  shows "phase_step n s s'"
  by (rule each_preserves [where f = f and P = "phase_step n s", OF _ assms(2)])
    (auto intro: phase_step_trans assms(1))

lemma phase_step_same_log:
  assumes "servers st' = servers st" and "monitor_settings st' = monitor_settings st"
    and "alert_log st' = alert_log st" and "next_alert st' = next_alert st"
  shows "phase_step n st st'"
  using assms alert_inv_cong [of st' st] open_alerts_cong [of st' st] by (simp add: phase_step_def)

lemma phase_step_transition:
  assumes "\<not> server_alert_kept n (d, m, ty)"
  shows "phase_step n st (handle_transition e was now d m ty msg rec g st)"
  using assms by (auto simp: phase_step_def handle_transition_inv intro!: handle_transition_other)

lemma not_server_alert [simp]:
  "\<not> server_alert_kept n (''Proxmox Guest'', m, ty)" "\<not> server_alert_kept n (''Proxmox Datastore'', m, ty)"
  "\<not> server_alert_kept n (''Proxmox Server'', n, ''Backup Failure'')"
  by (simp_all add: server_alert_kept_def)

lemma phase_step_dispatch:
  assumes "\<not> server_alert_kept n (d, m, ty)"
  shows "phase_step n st (dispatch_alert e ty d m msg g st)" "phase_step n st (resolve_alert d m ty st)"
    "phase_step n st (dispatch_recovery e ty d m msg g st)"
  using assms by (auto simp: phase_step_def alert_inv_dispatch alert_inv_resolve alert_inv_recovery open_laws)

lemma upsert_guest_phase:
  "phase_step n st (upsert_guest pe srv v gn gt status cpu mu mt dp dt up ip th node cpus st)"
  unfolding upsert_guest_def Let_def
  by (rule phase_step_trans [OF phase_step_trans [OF _ phase_step_transition] phase_step_transition])
    (auto intro: phase_step_same_log)

lemma sync_guest_phase:
  "phase_step n st (sync_qemu pe c srv node th vm st)" "phase_step n st (sync_lxc pe c srv node th vm st)"
  unfolding sync_qemu_def sync_lxc_def Let_def
  by (rule phase_step_trans [OF upsert_guest_phase], rule phase_step_same_log; simp)+

lemma sync_pve_guests_phase: "sync_pve_guests pe c srv node th st = (r, st') \<Longrightarrow> phase_step n st st'"
proof -
  have del: "phase_step n s (delete_stale_guests srv vs s)" for s :: "'a proxmox_db_scheme" and vs
    by (rule phase_step_same_log) (simp_all add: delete_stale_guests_def Let_def)
  have folds: "phase_step n s (fold (sync_qemu pe c srv node th) vms s)" "phase_step n s (fold (sync_lxc pe c srv node th) vms s)"
    for s :: "'a proxmox_db_scheme" and vms
    by (rule phase_step_fold; rule sync_guest_phase)+
  assume "sync_pve_guests pe c srv node th st = (r, st')"
  then show ?thesis
    by (auto simp: sync_pve_guests_def Let_def split: sum.splits
        intro: phase_step_trans [OF phase_step_trans [OF folds] del] folds)
qed

lemma upsert_datastore_phase:
  "phase_step n st (upsert_datastore pe srv nm ty role u t th st)"
  unfolding upsert_datastore_def Let_def
  by (rule phase_step_trans [OF phase_step_trans [OF _ phase_step_transition] phase_step_transition])
    (auto intro: phase_step_same_log)

lemma sync_pve_storage_phase: "sync_pve_storage pe c srv node th st = (r, st') \<Longrightarrow> phase_step n st st'"
proof -
  have del: "phase_step n s (delete_stale_datastores srv vs s)" for s :: "'a proxmox_db_scheme" and vs
    by (rule phase_step_same_log) (simp_all add: delete_stale_datastores_def Let_def)
  assume "sync_pve_storage pe c srv node th st = (r, st')"
  then show ?thesis
    by (auto simp: sync_pve_storage_def Let_def split: sum.splits
        intro!: phase_step_trans [OF phase_step_fold del] upsert_datastore_phase)
qed

lemma insert_backup_log_phase: "insert_backup_log row st = (r, st') \<Longrightarrow> phase_step n st st'"
  by (erule insert_backup_log_cases) (auto intro: phase_step_same_log)

lemma bump_phase: "phase_step n st (bump_last_successful_backup g t st)"
  by (rule phase_step_same_log) simp_all

lemma create_backup_log_phase:
  "create_backup_log srv v src status t tgt err upid sz notes st = (r, st') \<Longrightarrow> phase_step n st st'"
  by (erule create_backup_log_cases) (auto intro: phase_step_same_log)

lemma record_task_phase: "record_task pe c srv node files task st = (r, st') \<Longrightarrow> phase_step n st st'"
proof -
  have entry: "record_bulk_entry pe srv upid tgt files en s = (q, s') \<Longrightarrow> phase_step n s s'"
    for upid tgt en q and s s' :: "'a proxmox_db_scheme"
    by (auto simp: record_bulk_entry_def Let_def split: prod.splits elim: create_backup_log_phase)
  have bulk: "each (record_bulk_entry pe srv upid tgt files) es s = (q, s') \<Longrightarrow> phase_step n s s'"
    for upid tgt es q and s s' :: "'a proxmox_db_scheme"
    by (rule phase_step_each) (rule entry)
  assume "record_task pe c srv node files task st = (r, st')"
  then show ?thesis
    by (auto simp: record_task_def record_single_guest_backup_def record_bulk_backup_job_def Let_def
        split: if_splits option.splits sum.splits prod.splits elim: create_backup_log_phase bulk)
qed

lemma handle_backup_task_result_phase:
  "phase_step (srv_name srv) st (snd (handle_backup_task_result pe srv st))"
  by (auto simp: handle_backup_task_result_def Let_def intro!: phase_step_dispatch
      phase_step_trans [OF phase_step_dispatch(2) phase_step_dispatch(3)])

lemma check_guest_backups_phase: "phase_step n st (check_guest_backups pe srv st)"
proof -
  have "phase_step n s (check_guest_backup pe srv h os g s)" for h os g and s :: "'a proxmox_db_scheme"
    by (auto simp: check_guest_backup_def Let_def intro!: phase_step_dispatch
        phase_step_trans [OF phase_step_dispatch(2) phase_step_dispatch(3)])
  then show ?thesis by (auto simp: check_guest_backups_def Let_def intro: phase_step_fold)
qed

lemma record_tasks_phase: "each (record_task pe c srv node files) ts st = (r, st') \<Longrightarrow> phase_step n st st'"
  by (rule phase_step_each) (rule record_task_phase)

lemma sync_pve_backups_phase:
  "sync_pve_backups pe c srv node st = (r, (srv', st')) \<Longrightarrow> phase_step (srv_name srv) st st'"
  by (auto simp: sync_pve_backups_def Let_def split: sum.splits option.splits prod.splits
      intro: record_tasks_phase
        phase_step_trans [OF record_tasks_phase phase_step_trans [OF handle_backup_task_result_phase check_guest_backups_phase]])

lemma sync_pbs_datastores_phase:
  assumes "sync_pbs_datastores pe c srv th st = (r, st')"
  shows "phase_step n st st'"
proof -
  have grp: "backfill_group pe srv store g s = (q, s') \<Longrightarrow> phase_step n s s'" for store g q and s s' :: "'a proxmox_db_scheme"
    by (auto simp: backfill_group_def Let_def split: if_splits option.splits prod.splits
        intro: insert_backup_log_phase phase_step_trans [OF insert_backup_log_phase bump_phase])
  have grps: "each (backfill_group pe srv store) gs s = (q, s') \<Longrightarrow> phase_step n s s'"
    for store gs q and s s' :: "'a proxmox_db_scheme"
    by (rule phase_step_each) (rule grp)
  have store: "sync_pbs_datastore pe c srv th store s = (q, s') \<Longrightarrow> phase_step n s s'"
    for store q and s s' :: "'a proxmox_db_scheme"
    by (auto simp: sync_pbs_datastore_def backfill_pbs_snapshots_def split: sum.splits
        intro: upsert_datastore_phase phase_step_trans [OF upsert_datastore_phase grps])
  have "each (sync_pbs_datastore pe c srv th) xs s = (q, s') \<Longrightarrow> phase_step n s s'"
    for xs q and s s' :: "'a proxmox_db_scheme"
    by (rule phase_step_each) (rule store)
  with assms show ?thesis by (auto simp: sync_pbs_datastores_def split: sum.splits)
qed


subsection \<open>The phases and the saved document\<close>

lemma apply_host_status_effect:
  fixes st :: "'a proxmox_db_scheme"
  assumes "p = apply_host_status pe srv status th st"
  shows "srv_name (fst p) = srv_name srv" "srv_status (fst p) \<noteq> ''Offline''" "server_type (fst p) = server_type srv"
    "phase_step n st (snd p)"
  unfolding assms by (simp_all add: apply_host_status_def Let_def track_severity_def phase_step_same_log)

lemma handle_backup_task_result_server [simp]:
  "srv_status (fst (handle_backup_task_result pe srv st)) = srv_status srv"
  "server_type (fst (handle_backup_task_result pe srv st)) = server_type srv"
  "is_critical (fst (handle_backup_task_result pe srv st)) = is_critical srv"
  by (simp_all add: handle_backup_task_result_def Let_def)

lemma sync_pve_backups_server:
  fixes st st' :: "'a proxmox_db_scheme"
  assumes "sync_pve_backups pe c srv node st = (r, (srv', st'))"
  shows "srv_name srv' = srv_name srv" "srv_status srv' = srv_status srv" "server_type srv' = server_type srv"
    "is_critical srv' = is_critical srv"
proof -
  have "srv' = srv \<or> (\<exists>s :: 'a proxmox_db_scheme. srv' = fst (handle_backup_task_result pe srv s))"
    using assms by (auto simp: sync_pve_backups_def Let_def split: sum.splits option.splits prod.splits)
  then show "srv_name srv' = srv_name srv" "srv_status srv' = srv_status srv" "server_type srv' = server_type srv"
    "is_critical srv' = is_critical srv" by auto
qed

text \<open>The state a phase reaches, and the status it leaves when it does not raise.\<close>

lemma pbs_phase_effect:
  assumes "pbs_phase pe c th srv st = (err, srv', st')"
  shows "srv_name srv' = srv_name srv \<and> server_type srv' = server_type srv \<and>
    (err = None \<longrightarrow> srv_status srv' \<noteq> ''Offline'') \<and> phase_step (srv_name srv) st st'"
  using assms
  by (auto simp: pbs_phase_def Let_def apply_host_status_effect(1-3) [OF refl] split: sum.splits
      intro: phase_step_trans [OF apply_host_status_effect(4) [OF refl] sync_pbs_datastores_phase [OF prod.collapse [symmetric]]])

lemma pve_phase_effect:
  assumes "pve_phase pe c th srv st = (err, srv', st')"
  shows "srv_name srv' = srv_name srv \<and> server_type srv' = server_type srv \<and>
    (err = None \<longrightarrow> srv_status srv' \<noteq> ''Offline'') \<and> phase_step (srv_name srv) st st'"
proof (cases "\<exists>node status. discover_node_name c = Inr node \<and> api_node_status c node = Inr status")
  case True
  then obtain node status where node: "discover_node_name c = Inr node" "api_node_status c node = Inr status" by blast
  let ?p = "apply_host_status pe srv status th st"
  note p = apply_host_status_effect [OF refl, where pe = pe and srv = srv and status = status and th = th and st = st]
  obtain e1 s1 where g: "sync_pve_guests pe c (fst ?p) node th (snd ?p) = (e1, s1)" by fastforce
  obtain e2 s2 where d: "sync_pve_storage pe c (fst ?p) node th s1 = (e2, s2)" by fastforce
  obtain e3 v3 s3 where b: "sync_pve_backups pe c (fst ?p) node s2 = (e3, v3, s3)"
    by (cases "sync_pve_backups pe c (fst ?p) node s2") auto
  note one = phase_step_trans [OF p(4) sync_pve_guests_phase [OF g]]
  note two = phase_step_trans [OF one sync_pve_storage_phase [OF d]]
  have three: "phase_step (srv_name srv) st s3"
    using phase_step_trans [OF two sync_pve_backups_phase [OF b]] by (simp add: p)
  show ?thesis
    using assms node g d b one two three sync_pve_backups_server [OF b]
    by (auto simp: pve_phase_def Let_def p split: option.splits)
next
  case False
  then show ?thesis using assms by (auto simp: pve_phase_def split: sum.splits)
qed


lemma sync_server_effect:
  fixes st :: "'a proxmox_db_scheme"
  assumes "sync_server pe fl srv st = (r, st')"
  obtains err srv1 st1 st2 where
    "(err, srv1, st1) = (if server_type srv = ''PBS'' then pbs_phase pe (pbs_of fl (srv_name srv)) (get_thresholds st) srv st
       else pve_phase pe (pve_of fl (srv_name srv)) (get_thresholds st) srv st)"
    "srv_name srv1 = srv_name srv" "phase_step (srv_name srv) st st1" "err = None \<longrightarrow> srv_status srv1 \<noteq> ''Offline''"
    "st2 = st1\<lparr>servers := put_row srv_name (finish_server pe err srv1) (servers st1)\<rparr>"
    "r = (case err of Some (Unexpected m) \<Rightarrow> Some (Unexpected m) | _ \<Rightarrow> None)"
    "st' = (case err of Some (Unexpected m) \<Rightarrow> st2 | _ \<Rightarrow>
       offline_transition pe (srv_status srv) (finish_server pe err srv1)
         (resource_transitions pe (get_thresholds st) (old_resource_critical srv (get_thresholds st)) (is_critical srv1)
            (srv_status srv = ''Warning'') (srv_status (finish_server pe err srv1) = ''Warning'') (finish_server pe err srv1) st2))"
proof -
  let ?ph = "if server_type srv = ''PBS'' then pbs_phase pe (pbs_of fl (srv_name srv)) (get_thresholds st) srv st
       else pve_phase pe (pve_of fl (srv_name srv)) (get_thresholds st) srv st"
  obtain err srv1 st1 where ph: "?ph = (err, srv1, st1)" by (cases ?ph) auto
  have eff: "srv_name srv1 = srv_name srv" "phase_step (srv_name srv) st st1" "err = None \<longrightarrow> srv_status srv1 \<noteq> ''Offline''"
    using ph pbs_phase_effect [of pe _ _ srv st err srv1 st1] pve_phase_effect [of pe _ _ srv st err srv1 st1]
    by (metis, metis, metis)
  have "(r, st') = (case err of Some (Unexpected m) \<Rightarrow> (Some (Unexpected m), st1\<lparr>servers := put_row srv_name (finish_server pe err srv1) (servers st1)\<rparr>)
      | _ \<Rightarrow> (None, offline_transition pe (srv_status srv) (finish_server pe err srv1)
         (resource_transitions pe (get_thresholds st) (old_resource_critical srv (get_thresholds st)) (is_critical srv1)
            (srv_status srv = ''Warning'') (srv_status (finish_server pe err srv1) = ''Warning'') (finish_server pe err srv1)
            (st1\<lparr>servers := put_row srv_name (finish_server pe err srv1) (servers st1)\<rparr>))))"
    using assms unfolding sync_server_def Let_def ph fst_conv snd_conv by (rule sym)
  then show thesis
    by (intro that [OF ph [symmetric] eff refl]) (auto split: option.splits poll_error.splits)
qed

lemma finish_server_fields [simp]:
  "srv_name (finish_server pe err srv) = srv_name srv" "srv_last_synced (finish_server pe err srv) = Some (clock pe)"
  "backup_critical (finish_server pe err srv) = backup_critical srv" "srv_cpu_usage (finish_server pe err srv) = srv_cpu_usage srv"
  "srv_memory_usage (finish_server pe err srv) = srv_memory_usage srv"
  by (auto simp: finish_server_def Let_def split: option.splits poll_error.splits)

lemma finish_server_status:
  "srv_status (finish_server pe err srv) = (case err of Some (ApiError m) \<Rightarrow> ''Offline'' | _ \<Rightarrow> srv_status srv)"
  by (auto simp: finish_server_def Let_def split: option.splits poll_error.splits)

lemma server_transitions_frame [simp]:
  fixes st :: "'a proxmox_db_scheme"
  shows "servers (resource_transitions pe th a b c d srv st) = servers st"
    "servers (offline_transition pe old srv st) = servers st"
  by (simp_all add: resource_transitions_def offline_transition_def Let_def)

lemma resource_transitions_inv: "alert_inv st \<Longrightarrow> alert_inv (resource_transitions pe th a b c d srv st)"
  by (simp add: resource_transitions_def Let_def handle_transition_inv)

lemma resource_transitions_other:
  assumes "alert_inv st" and "k \<noteq> (''Proxmox Server'', srv_name srv, ''Critical Resource'')"
    and "k \<noteq> (''Proxmox Server'', srv_name srv, ''Resource Warning'')"
  shows "open_alerts_of (resource_transitions pe th a b c d srv st) k = open_alerts_of st k"
  using assms by (simp add: resource_transitions_def Let_def handle_transition_inv handle_transition_other)

lemma offline_transition_open:
  assumes "alert_inv st" and "k = (''Proxmox Server'', srv_name srv, ''Server Offline'')"
    and "open_alerts_of st k = (if old = ''Offline'' then 1 else 0)"
  shows "open_alerts_of (offline_transition pe old srv st) k = (if srv_status srv = ''Offline'' then 1 else 0)"
  using assms by (auto simp: offline_transition_def Let_def open_laws alert_inv_resolve)

text \<open>The saved status and the Server Offline alert agree after every completed sync: a sync that could
  not reach the host stores Offline and leaves exactly one such alert open, any other stores
  another status and leaves none, whatever the phases before did.\<close>

theorem sync_server_offline_alert:
  assumes "alert_inv st" and "k = (''Proxmox Server'', srv_name srv, ''Server Offline'')"
    and "open_alerts_of st k = (if srv_status srv = ''Offline'' then 1 else 0)"
    and "sync_server pe fl srv st = (None, st')"
  shows "\<exists>srv'. find_row srv_name (srv_name srv) (servers st') = Some srv' \<and>
     srv_last_synced srv' = Some (clock pe) \<and>
     open_alerts_of st' k = (if srv_status srv' = ''Offline'' then 1 else 0)"
proof -
  obtain err srv1 st1 st2 where
    eff: "srv_name srv1 = srv_name srv" "phase_step (srv_name srv) st st1"
      "st2 = st1\<lparr>servers := put_row srv_name (finish_server pe err srv1) (servers st1)\<rparr>"
      "None = (case err of Some (Unexpected m) \<Rightarrow> Some (Unexpected m) | _ \<Rightarrow> None)"
      "st' = (case err of Some (Unexpected m) \<Rightarrow> st2 | _ \<Rightarrow>
       offline_transition pe (srv_status srv) (finish_server pe err srv1)
         (resource_transitions pe (get_thresholds st) (old_resource_critical srv (get_thresholds st)) (is_critical srv1)
            (srv_status srv = ''Warning'') (srv_status (finish_server pe err srv1) = ''Warning'') (finish_server pe err srv1) st2))"
    using assms(4) by (rule sync_server_effect)
  let ?srv = "finish_server pe err srv1"
  let ?st3 = "resource_transitions pe (get_thresholds st) (old_resource_critical srv (get_thresholds st)) (is_critical srv1)
            (srv_status srv = ''Warning'') (srv_status ?srv = ''Warning'') ?srv st2"
  have st': "st' = offline_transition pe (srv_status srv) ?srv ?st3"
    using eff(4,5) by (auto split: option.splits poll_error.splits)
  have "alert_inv st2" "open_alerts_of st2 k = open_alerts_of st k"
    using eff(2,3) assms(1,2) alert_inv_cong [of st2 st1] open_alerts_cong [of st2 st1 k]
    by (auto simp: phase_step_def server_alert_kept_def)
  then have "alert_inv ?st3" "open_alerts_of ?st3 k = (if srv_status srv = ''Offline'' then 1 else 0)"
    using assms(2,3) eff(1) resource_transitions_inv resource_transitions_other [of st2 k ?srv] by simp_all
  then have "open_alerts_of st' k = (if srv_status ?srv = ''Offline'' then 1 else 0)"
    unfolding st' using assms(2) eff(1) by (intro offline_transition_open) simp_all
  moreover have "find_row srv_name (srv_name srv) (servers st') = Some ?srv"
    using eff(1,3) find_row_put_same [of srv_name ?srv "servers st1"] by (simp add: st')
  ultimately show ?thesis by (intro exI [of _ ?srv]) simp
qed

text \<open>C40: a known defect: when a host whose critical flag stems from its overdue backups cannot be reached, the
  flag is read back as the resource verdict, so a Critical Resource alert is opened although its CPU
  and memory readings are below the line, and another one on every further cycle.\<close>

theorem offline_host_raises_false_resource_alert:
  assumes "alert_inv st" and "server_type srv \<noteq> ''PBS''"
    and "discover_node_name (pve_of fl (srv_name srv)) = Inl e"
    and "is_critical srv" and "\<not> old_resource_critical srv (get_thresholds st)"
    and "k = (''Proxmox Server'', srv_name srv, ''Critical Resource'')"
  shows "fst (sync_server pe fl srv st) = None \<and>
    open_alerts_of (snd (sync_server pe fl srv st)) k = open_alerts_of st k + 1"
proof -
  obtain m where m: "api_fail e = ApiError m" by (cases e) auto
  let ?srv = "finish_server pe (Some (ApiError m)) srv"
  let ?st2 = "st\<lparr>servers := put_row srv_name ?srv (servers st)\<rparr>"
  have inv: "alert_inv ?st2" and same: "open_alerts_of ?st2 k' = open_alerts_of st k'" for k'
    using assms(1) alert_inv_cong [of ?st2 st] open_alerts_cong [of ?st2 st] by simp_all
  have name: "srv_name ?srv = srv_name srv" by simp
  let ?st3 = "resource_transitions pe (get_thresholds st) False True (srv_status srv = ''Warning'') False ?srv ?st2"
  have r: "sync_server pe fl srv st = (None, offline_transition pe (srv_status srv) ?srv ?st3)"
    using assms(2-5) m by (simp add: sync_server_def pve_phase_def Let_def finish_server_status)
  have "open_alerts_of ?st3 k = open_alerts_of st k + 1"
    using inv same assms(6)
    by (simp add: resource_transitions_def Let_def handle_transition_other handle_transition_inv)
      (simp add: handle_transition_def open_laws)
  moreover have "open_alerts_of (offline_transition pe (srv_status srv) ?srv ?st3) k = open_alerts_of ?st3 k"
    using inv assms(6) by (simp add: offline_transition_def Let_def open_laws resource_transitions_inv alert_inv_resolve)
  ultimately show ?thesis unfolding r by simp
qed

lemma recovery_row:
  "\<exists>r \<in> set (alert_log (dispatch_recovery e ty d n m g s)).
     alert_type r = ty \<and> reference_name r = n \<and> resolved r \<and> alert_name r = next_alert s"
proof -
  obtain chs where "alert_log (dispatch_recovery e ty d n m g s) = alert_log s @
     [\<lparr>alert_name = next_alert s, alert_type = ty, reference_doctype = d, reference_name = n,
       alert_message = m, channels_sent = chs, sent_at = now_datetime e, resolved = True\<rparr>]"
    using dispatch_recovery_log(1) by blast
  then show ?thesis by simp
qed

lemma resolved_rows_stay:
  assumes "resolved r" and "r \<in> set (alert_log s)"
  shows "r \<in> set (alert_log (dispatch_alert e ty d n m g s))" "r \<in> set (alert_log (dispatch_recovery e ty d n m g s))"
    "r \<in> set (alert_log (resolve_alert d n ty s))"
proof -
  show "r \<in> set (alert_log (dispatch_alert e ty d n m g s))" "r \<in> set (alert_log (dispatch_recovery e ty d n m g s))"
    using dispatch_alert_log(1) [of e ty d n m g s] dispatch_recovery_log(1) [of e ty d n m g s] assms(2) by auto
  have same: "(if P then r\<lparr>resolved := True\<rparr> else r) = r" for P using assms(1) by (cases r) simp
  have "f r \<in> f ` set (alert_log s)" for f :: "alert_row \<Rightarrow> alert_row" using assms(2) by simp
  from this [of "\<lambda>r. if alert_name r \<in> set (map alert_name (filter (open_row d n ty) (alert_log s))) then r\<lparr>resolved := True\<rparr> else r"]
  show "r \<in> set (alert_log (resolve_alert d n ty s))"
    unfolding same resolve_alert_def fold_set_resolved Let_def by simp
qed

lemma resolved_rows_stay_transitions:
  assumes "resolved r" and "r \<in> set (alert_log s)"
  shows "r \<in> set (alert_log (handle_transition e was now d n ty m rec g s))"
    "r \<in> set (alert_log (offline_transition pe old srv s))"
  using assms by (auto simp: handle_transition_def offline_transition_def Let_def intro!: resolved_rows_stay)

text \<open>A known defect: the previous verdict is recomputed from the stored readings without the confirmation
  streak, so a single reading over the line that never raised an alert is followed by a
  recovery message as soon as the next poll is below it.\<close>

theorem single_spike_sends_recovery:
  assumes "old_resource_critical srv (get_thresholds st)" and "server_type srv \<noteq> ''PBS''"
    and "pve_phase pe (pve_of fl (srv_name srv)) (get_thresholds st) srv st = (None, srv1, st1)"
    and "\<not> is_critical srv1" and "open_alerts_of st1 (''Proxmox Server'', srv_name srv, ''Critical Resource'') = 0"
  shows "\<exists>r \<in> set (alert_log (snd (sync_server pe fl srv st))). alert_type r = ''Critical Resource'' \<and>
    reference_name r = srv_name srv \<and> resolved r \<and> alert_name r = next_alert st1"
proof -
  have name: "srv_name srv1 = srv_name srv" using pve_phase_effect [OF assms(3)] by simp
  let ?srv = "finish_server pe None srv1"
  let ?st2 = "st1\<lparr>servers := put_row srv_name ?srv (servers st1)\<rparr>"
  let ?m = "server_name ?srv @ '': CPU/RAM usage back below '' @ show_int (critical_percent (get_thresholds st)) @ ''%''"
  let ?rec = "dispatch_recovery (base_env pe) ''Critical Resource'' ''Proxmox Server'' (srv_name ?srv) ?m True
      (resolve_alert ''Proxmox Server'' (srv_name ?srv) ''Critical Resource'' ?st2)"
  obtain r where r: "r \<in> set (alert_log ?rec)" "alert_type r = ''Critical Resource''" "reference_name r = srv_name srv"
    "resolved r" "alert_name r = next_alert st1"
    using recovery_row [where s = "resolve_alert ''Proxmox Server'' (srv_name ?srv) ''Critical Resource'' ?st2"
      and n = "srv_name ?srv" and d = "''Proxmox Server''" and ty = "''Critical Resource''" and g = True
      and e = "base_env pe" and m = ?m] name
    by (auto simp del: append.simps)
  let ?st3 = "resource_transitions pe (get_thresholds st) True False (srv_status srv = ''Warning'') (srv_status ?srv = ''Warning'') ?srv ?st2"
  have "?st3 = handle_transition (base_env pe) (srv_status srv = ''Warning'') (srv_status ?srv = ''Warning'') ''Proxmox Server''
      (srv_name ?srv) ''Resource Warning''
      (server_name ?srv @ '': '' @ format_over_threshold (server_metrics ?srv) (warning_percent (get_thresholds st)) @ '' above '' @
       show_int (warning_percent (get_thresholds st)) @ ''% for '' @ show_int (confirmation_checks (get_thresholds st)) @ ''+ checks'')
      None True ?rec"
    by (simp add: resource_transitions_def Let_def handle_transition_def [of _ True False] truthy_def)
  then have "r \<in> set (alert_log ?st3)" using resolved_rows_stay_transitions(1) [OF r(4,1)] by simp
  then have "r \<in> set (alert_log (offline_transition pe (srv_status srv) ?srv ?st3))"
    by (rule resolved_rows_stay_transitions(2) [OF r(4)])
  moreover have "sync_server pe fl srv st = (None, offline_transition pe (srv_status srv) ?srv ?st3)"
    using assms(1-4) by (simp add: sync_server_def Let_def)
  ultimately show ?thesis using r by auto
qed


subsection \<open>Isolation between servers\<close>

lemma sync_server_servers:
  fixes st :: "'a proxmox_db_scheme"
  assumes "sync_server pe fl v st = (r, st')"
  shows "\<exists>v'. srv_name v' = srv_name v \<and> srv_last_synced v' = Some (clock pe) \<and> servers st' = put_row srv_name v' (servers st)"
proof -
  obtain err srv1 st1 st2 where eff: "srv_name srv1 = srv_name v" "phase_step (srv_name v) st st1"
      "st2 = st1\<lparr>servers := put_row srv_name (finish_server pe err srv1) (servers st1)\<rparr>"
      "st' = (case err of Some (Unexpected m) \<Rightarrow> st2 | _ \<Rightarrow>
       offline_transition pe (srv_status v) (finish_server pe err srv1)
         (resource_transitions pe (get_thresholds st) (old_resource_critical v (get_thresholds st)) (is_critical srv1)
            (srv_status v = ''Warning'') (srv_status (finish_server pe err srv1) = ''Warning'') (finish_server pe err srv1) st2))"
    using assms by (rule sync_server_effect)
  have "servers st' = servers st2" using eff(4) by (auto split: option.splits poll_error.splits)
  moreover have "servers st1 = servers st" using eff(2) by (simp add: phase_step_def)
  ultimately show ?thesis using eff(1,3) by (intro exI [of _ "finish_server pe err srv1"]) simp
qed

text \<open>The row of a server is there, and, once it has been synced, stamped, in the current and in the
  committed tables.\<close>

definition server_row :: "poll_env \<Rightarrow> string \<Rightarrow> bool \<Rightarrow> 'a proxmox_db_scheme \<Rightarrow> bool" where
  "server_row pe n synced st \<longleftrightarrow> (case find_row srv_name n (servers st) of
     None \<Rightarrow> False | Some v \<Rightarrow> synced \<longrightarrow> srv_last_synced v = Some (clock pe))"

lemma server_row_other:
  assumes "server_row pe n b st" and "servers st' = put_row srv_name v (servers st)" and "srv_name v \<noteq> n"
  shows "server_row pe n b st'"
  using assms by (simp add: server_row_def find_row_put_other)

lemma server_row_cong: "servers s = servers t \<Longrightarrow> server_row pe n b s = server_row pe n b t"
  by (simp add: server_row_def)

lemma rollback_servers [simp]: "servers (rollback c st) = servers c"
  by (simp add: rollback_def)

lemma sync_one_other:
  fixes p :: "'a proxmox_db_scheme \<times> 'a proxmox_db_scheme"
  assumes "m \<noteq> n" and "server_row pe n b (fst p)" and "server_row pe n b (snd p)"
  shows "server_row pe n b (fst (sync_one pe fl m p)) \<and> server_row pe n b (snd (sync_one pe fl m p))"
proof (cases "find_row srv_name m (servers (fst p))")
  case None
  then show ?thesis using assms(3) server_row_cong [of "log_error t (rollback (snd p) (fst p))" "snd p" for t]
    by (simp add: sync_one_def Let_def)
next
  case (Some v)
  have m: "srv_name v = m" using find_row_Some [OF Some] by simp
  obtain r s where r: "sync_server pe fl v (fst p) = (r, s)" by fastforce
  from sync_server_servers [OF r] m obtain v' where "srv_name v' = m" "servers s = put_row srv_name v' (servers (fst p))" by auto
  with server_row_other [OF assms(2)] assms(1) have "server_row pe n b s" by metis
  then show ?thesis using assms(3) r Some server_row_cong [of "log_error t (rollback (snd p) s)" "snd p" for t]
    by (cases r) (simp_all add: sync_one_def Let_def)
qed

lemma sync_one_self:
  fixes p :: "'a proxmox_db_scheme \<times> 'a proxmox_db_scheme"
  assumes "server_row pe n b (fst p)" and "\<And>v (s :: 'a proxmox_db_scheme). srv_name v = n \<Longrightarrow> fst (sync_server pe fl v s) = None"
  shows "server_row pe n True (fst (sync_one pe fl n p)) \<and> server_row pe n True (snd (sync_one pe fl n p))"
proof -
  obtain v where v: "find_row srv_name n (servers (fst p)) = Some v"
    using assms(1) by (auto simp: server_row_def split: option.splits)
  then have n: "srv_name v = n" using find_row_Some by fastforce
  obtain s where s: "sync_server pe fl v (fst p) = (None, s)" using assms(2) [OF n, of "fst p"] by (metis prod.collapse)
  from sync_server_servers [OF s] n have "server_row pe n True s"
    by (auto simp: server_row_def find_row_put)
  then show ?thesis using v s by (simp add: sync_one_def Let_def)
qed

lemma sync_all_fold:
  fixes p :: "'a proxmox_db_scheme \<times> 'a proxmox_db_scheme"
  assumes "\<And>v (s :: 'a proxmox_db_scheme). srv_name v = n \<Longrightarrow> fst (sync_server pe fl v s) = None"
  shows "server_row pe n b (fst p) \<Longrightarrow> server_row pe n b (snd p) \<Longrightarrow>
    server_row pe n (b \<or> n \<in> set ns) (fst (fold (sync_one pe fl) ns p)) \<and>
    server_row pe n (b \<or> n \<in> set ns) (snd (fold (sync_one pe fl) ns p))"
proof (induction ns arbitrary: b p)
  case (Cons m ns)
  show ?case
  proof (cases "m = n")
    case True
    with sync_one_self [OF Cons.prems(1) assms] Cons.IH [of True "sync_one pe fl m p"] show ?thesis by simp
  next
    case False
    with sync_one_other [OF False Cons.prems] Cons.IH [of b "sync_one pe fl m p"] show ?thesis by auto
  qed
qed simp

lemma resolve_disabled_servers [simp]: "servers (resolve_disabled_server_alerts st) = servers st"
  by (simp add: resolve_disabled_server_alerts_def Let_def)

text \<open>C15: one server's failure never blocks another's: a server whose own sync does not raise is stored as
  synced in this pass, in the current and in the committed tables, whatever the syncs of the
  servers before and after it do, and however often they are rolled back.\<close>

theorem sync_all_servers_isolates:
  fixes st :: "'a proxmox_db_scheme"
  assumes "srv \<in> set (servers st)" and "srv_enabled srv"
    and "\<And>v (s :: 'a proxmox_db_scheme). srv_name v = srv_name srv \<Longrightarrow> fst (sync_server pe fl v s) = None"
    and "(st', committed) = sync_all_servers pe fl (st, st)"
  shows "(\<exists>v. find_row srv_name (srv_name srv) (servers st') = Some v \<and> srv_last_synced v = Some (clock pe)) \<and>
    (\<exists>v. find_row srv_name (srv_name srv) (servers committed) = Some v \<and> srv_last_synced v = Some (clock pe))"
proof -
  let ?st0 = "resolve_disabled_server_alerts st"
  let ?ns = "map srv_name (filter srv_enabled (servers st))"
  have "server_row pe (srv_name srv) False st"
    using assms(1) find_row_None [of srv_name "srv_name srv" "servers st"] by (auto simp: server_row_def split: option.splits)
  then have "server_row pe (srv_name srv) (False \<or> srv_name srv \<in> set ?ns) (fst (fold (sync_one pe fl) ?ns (?st0, st))) \<and>
      server_row pe (srv_name srv) (False \<or> srv_name srv \<in> set ?ns) (snd (fold (sync_one pe fl) ?ns (?st0, st)))"
    using server_row_cong [of ?st0 st pe "srv_name srv" False] by (intro sync_all_fold assms(3)) simp_all
  moreover have "srv_name srv \<in> set ?ns" using assms(1,2) by auto
  moreover have "fold (sync_one pe fl) ?ns (?st0, st) = (st', committed)"
    using assms(4) by (simp add: sync_all_servers_def Let_def)
  ultimately show ?thesis by (auto simp: server_row_def split: option.splits)
qed

text \<open>An exception inside one server's sync undoes every change that sync made to the tables, its alerts
  included, and leaves an entry in the error log; only what was already sent, and the sampling gates
  in Redis, stay.\<close>

theorem failed_sync_rolls_back:
  assumes "find_row srv_name n (servers (fst p)) = Some srv" and "sync_server pe fl srv (fst p) = (Some err, st')"
  shows "snd (sync_one pe fl n p) = snd p \<and>
    fst (sync_one pe fl n p) = (snd p)\<lparr>outbox := outbox st', cache_expiry := cache_expiry st',
      error_log := error_log (snd p) @ [''Proxmox Monitor: sync failed for '' @ n]\<rparr>"
  using assms by (simp add: sync_one_def Let_def rollback_def log_error_def)

subsection \<open>Disabled servers\<close>

definition disabled_refs :: "'a proxmox_db_scheme \<Rightarrow> string set" where
  "disabled_refs st = (let off = {srv_name s | s. s \<in> set (servers st) \<and> \<not> srv_enabled s}
     in off \<union> {g_name g | g. g \<in> set (guests st) \<and> g_server g \<in> off} \<union> {ds_name d | d. d \<in> set (datastores st) \<and> ds_server d \<in> off})"

lemma filter_close:
  "length (filter (open_row d n ty)
       (map (\<lambda>r. if \<not> resolved r \<and> P (reference_doctype r) (reference_name r) then r\<lparr>resolved := True\<rparr> else r) rs)) =
     (if P d n then 0 else length (filter (open_row d n ty) rs))"
proof -
  let ?f = "\<lambda>r. if \<not> resolved r \<and> P (reference_doctype r) (reference_name r) then r\<lparr>resolved := True\<rparr> else r"
  have "open_row d n ty (?f r) \<longleftrightarrow> \<not> P d n \<and> open_row d n ty r" for r
    by (cases "resolved r") (auto simp: open_row_def)
  then have "length (filter (open_row d n ty) (map ?f rs)) = length (filter (\<lambda>r. \<not> P d n \<and> open_row d n ty r) rs)"
    by (simp add: filter_map comp_def)
  then show ?thesis by simp
qed

text \<open>No alert stays open for a disabled server, its guests or its datastores, and no other alert is touched.\<close>

theorem disabled_servers_have_no_open_alerts:
  "open_alerts_of (resolve_disabled_server_alerts st) (d, n, ty) =
     (if d \<in> {''Proxmox Server'', ''Proxmox Guest'', ''Proxmox Datastore''} \<and> n \<in> disabled_refs st then 0
      else open_alerts_of st (d, n, ty))"
proof (cases "filter (\<lambda>s. \<not> srv_enabled s) (servers st) = []")
  case True
  then have "disabled_refs st = {}" by (auto simp: disabled_refs_def filter_empty_conv)
  with True show ?thesis by (simp add: resolve_disabled_server_alerts_def)
next
  case False
  let ?dis = "map srv_name (filter (\<lambda>s. \<not> srv_enabled s) (servers st))"
  let ?refs = "?dis @ map g_name (filter (\<lambda>g. g_server g \<in> set ?dis) (guests st)) @
     map ds_name (filter (\<lambda>d. ds_server d \<in> set ?dis) (datastores st))"
  let ?hit = "\<lambda>r. \<not> resolved r \<and> reference_doctype r \<in> {''Proxmox Server'', ''Proxmox Guest'', ''Proxmox Datastore''} \<and>
     reference_name r \<in> set ?refs"
  have refs: "set ?refs = disabled_refs st" by (auto simp: disabled_refs_def)
  have log: "alert_log (resolve_disabled_server_alerts st) =
      map (\<lambda>r. if ?hit r then r\<lparr>resolved := True\<rparr> else r) (alert_log st)"
    using False by (simp add: resolve_disabled_server_alerts_def Let_def)
  have "length (filter (open_row d n ty) (map (\<lambda>r. if ?hit r then r\<lparr>resolved := True\<rparr> else r) (alert_log st))) =
     (if d \<in> {''Proxmox Server'', ''Proxmox Guest'', ''Proxmox Datastore''} \<and> n \<in> set ?refs then 0
      else length (filter (open_row d n ty) (alert_log st)))"
    by (rule filter_close [where P = "\<lambda>d n. d \<in> {''Proxmox Server'', ''Proxmox Guest'', ''Proxmox Datastore''} \<and> n \<in> set ?refs"])
  then show ?thesis unfolding open_alerts_of_def log refs [symmetric] prod.case .
qed


subsection \<open>Witnesses\<close>

text \<open>Two hosts: alpha cannot be reached, beta answers but one of its task logs has a size that is no number.\<close>

definition demo_beta :: server where
  "demo_beta = demo_server\<lparr>srv_name := ''beta'', server_name := ''beta'', srv_cpu_usage := Some 99\<rparr>"

definition demo_broken_pve :: pve_api where
  "demo_broken_pve = demo_backup_pve\<lparr>api_node_status := (\<lambda>n. Inr demo_status),
     api_task_log := (\<lambda>n u. Inr [''archive file size: .GB''])\<rparr>"

definition demo_fleet :: fleet where
  "demo_fleet = \<lparr>pve_of = (\<lambda>n. if n = ''beta'' then demo_broken_pve else demo_pve), pbs_of = (\<lambda>n. demo_pbs)\<rparr>"

definition demo_fleet_db :: proxmox_db where
  "demo_fleet_db = demo_proxmox_db\<lparr>servers := [demo_server, demo_beta]\<rparr>"

lemma demo_fleet_inv: "alert_inv demo_fleet_db"
  by code_simp

theorem sync_server_offline_alert_witness:
  "\<exists>st'. sync_server demo_poll_env demo_fleet demo_server demo_fleet_db = (None, st') \<and>
     map srv_status (servers st') = [''Offline'', ''Online''] \<and>
     open_alerts_of st' (''Proxmox Server'', ''alpha'', ''Server Offline'') = 1"
proof -
  let ?r = "sync_server demo_poll_env demo_fleet demo_server demo_fleet_db"
  have r: "fst ?r = None" "map srv_status (servers (snd ?r)) = [''Offline'', ''Online'']"
    "srv_status (the (find_row srv_name (srv_name demo_server) (servers (snd ?r)))) = ''Offline''" by code_simp+
  then have run: "?r = (None, snd ?r)" by (metis prod.collapse)
  have pre: "open_alerts_of demo_fleet_db (''Proxmox Server'', srv_name demo_server, ''Server Offline'') =
    (if srv_status demo_server = ''Offline'' then 1 else 0)" and name: "srv_name demo_server = ''alpha''" by code_simp+
  from sync_server_offline_alert [OF demo_fleet_inv refl pre run] r(2,3) run name show ?thesis by auto
qed

definition demo_overdue :: server where
  "demo_overdue = demo_server\<lparr>is_critical := True, backup_critical := True\<rparr>"

definition demo_dead_fleet :: fleet where
  "demo_dead_fleet = demo_fleet\<lparr>pve_of := (\<lambda>n. demo_pve\<lparr>api_nodes := Inl (ProxmoxAPIError ''timeout'')\<rparr>)\<rparr>"

theorem offline_host_raises_false_resource_alert_witness:
  "open_alerts_of (snd (sync_server demo_poll_env demo_dead_fleet demo_overdue demo_fleet_db))
     (''Proxmox Server'', ''alpha'', ''Critical Resource'') = 1"
proof -
  have h: "server_type demo_overdue \<noteq> ''PBS''"
    "discover_node_name (pve_of demo_dead_fleet (srv_name demo_overdue)) = Inl (ProxmoxAPIError ''timeout'')"
    "is_critical demo_overdue" "\<not> old_resource_critical demo_overdue (get_thresholds demo_fleet_db)"
    and n: "srv_name demo_overdue = ''alpha''"
    and z: "open_alerts_of demo_fleet_db (''Proxmox Server'', ''alpha'', ''Critical Resource'') = 0" by code_simp+
  from offline_host_raises_false_resource_alert [OF demo_fleet_inv h refl, of demo_poll_env] n z show ?thesis by simp
qed

lemma demo_alpha_never_raises:
  assumes "srv_name v = ''alpha''" shows "fst (sync_server demo_poll_env demo_fleet v s) = None"
  using assms by (simp add: sync_server_def Let_def pve_phase_def pbs_phase_def demo_fleet_def demo_pve_def demo_pbs_def discover_node_name_def)

theorem sync_all_servers_isolates_witness:
  "\<exists>st' committed v. sync_all_servers demo_poll_env demo_fleet (demo_fleet_db, demo_fleet_db) = (st', committed) \<and>
     find_row srv_name ''alpha'' (servers committed) = Some v \<and> srv_last_synced v = Some (clock demo_poll_env)"
proof -
  have n: "srv_name demo_server = ''alpha''" and mem: "demo_server \<in> set (servers demo_fleet_db)" and en: "srv_enabled demo_server"
    by (code_simp, simp add: demo_fleet_db_def, code_simp)
  obtain st' c where run: "(st', c) = sync_all_servers demo_poll_env demo_fleet (demo_fleet_db, demo_fleet_db)"
    by (metis prod.collapse)
  from sync_all_servers_isolates [OF mem en _ run] demo_alpha_never_raises n
  have "\<exists>v. find_row srv_name ''alpha'' (servers c) = Some v \<and> srv_last_synced v = Some (clock demo_poll_env)" by auto
  with run show ?thesis by (metis (no_types, lifting))
qed

end
