(* ===== verification/Poll_Loop.thy ===== *)
theory Poll_Loop
  imports Proxmox_Poller
begin

text \<open>
  The life of the poll loop in \<open>tasks/poller.py\<close>: the watchdog that runs once a minute with its stall
  check, and one bounded run of the loop. What happens outside the program during a run (the
  readings of the monotonic clock, whether a SIGTERM has arrived, the hosts' answers, whether the
  pass fails before its first server) is given cycle by cycle in a \<open>cycle_world\<close>.
\<close>

definition POLLER_JOB_ID :: string where "POLLER_JOB_ID = ''alfaedge_pulse_poller''"

definition HEARTBEAT_CACHE_KEY :: string where "HEARTBEAT_CACHE_KEY = ''alfaedge_pulse:poller_heartbeat''"

definition MAX_LOOP_SECONDS :: int where "MAX_LOOP_SECONDS = 300"

definition STALE_JOB_SECONDS :: int where "STALE_JOB_SECONDS = MAX_LOOP_SECONDS + 300"

definition POLLER_STALL_SECONDS :: int where "POLLER_STALL_SECONDS = 300"

definition POLLER_STALL_ALERT :: string where "POLLER_STALL_ALERT = ''Poller Stalled''"

definition POLLER_STALL_REFERENCE :: string where "POLLER_STALL_REFERENCE = ''Proxmox Monitor Settings''"

definition RUN_POLL_LOOP :: string where "RUN_POLL_LOOP = ''alfaedge_pulse.tasks.poller.run_poll_loop''"

definition poll_interval :: "'a alert_db_scheme \<Rightarrow> int" where
  "poll_interval st = or_int (poll_interval_seconds (monitor_settings st)) 20"

subsection \<open>The watchdog\<close>

text \<open>\<open>max(last_synced)\<close> over the enabled servers; rows that never synced do not count.\<close>

definition newest_sync :: "'a proxmox_db_scheme \<Rightarrow> datetime option" where
  "newest_sync st =
     (case List.map_filter srv_last_synced (filter srv_enabled (servers st)) of
        [] \<Rightarrow> None | ts \<Rightarrow> Some (Max (set ts)))"

definition stalled :: "poll_env \<Rightarrow> 'a proxmox_db_scheme \<Rightarrow> bool" where
  "stalled pe st \<longleftrightarrow>
     (let limit = max POLLER_STALL_SECONDS (poll_interval st * 5)
      in case newest_sync st of None \<Rightarrow> True | Some t \<Rightarrow> clock pe - t > limit * SECOND)"

definition check_poller_stall :: "poll_env \<Rightarrow> 'a proxmox_db_scheme \<Rightarrow> 'a proxmox_db_scheme" where
  "check_poller_stall pe st =
     (let is_open = has_open_alert POLLER_STALL_REFERENCE POLLER_STALL_REFERENCE POLLER_STALL_ALERT st
      in if filter srv_enabled (servers st) = [] then
           (if is_open then resolve_alert POLLER_STALL_REFERENCE POLLER_STALL_REFERENCE POLLER_STALL_ALERT st else st)
         else if stalled pe st \<and> \<not> is_open then
           dispatch_alert (base_env pe) POLLER_STALL_ALERT POLLER_STALL_REFERENCE POLLER_STALL_REFERENCE
             (''alfaEdge Pulse: Proxmox polling has stopped ('' @
              (case newest_sync st of
                 None \<Rightarrow> ''no server has ever synced''
               | Some t \<Rightarrow> ''last sync '' @ show_int ((clock pe - t) div MINUTE) @ '' min ago'') @
              ''). Dashboard data and backup checks are stale.'') True st
         else if \<not> stalled pe st \<and> is_open then
           dispatch_recovery (base_env pe) POLLER_STALL_ALERT POLLER_STALL_REFERENCE POLLER_STALL_REFERENCE
             ''alfaEdge Pulse: Proxmox polling has resumed.'' True
             (resolve_alert POLLER_STALL_REFERENCE POLLER_STALL_REFERENCE POLLER_STALL_ALERT st)
         else st)"

definition clear_stale_poller_job :: "job_env \<Rightarrow> 'a job_db_scheme \<Rightarrow> 'a job_db_scheme" where
  "clear_stale_poller_job je st = snd (clear_stale_job je POLLER_JOB_ID STALE_JOB_SECONDS ''poller'' st)"

definition ensure_poller_running :: "job_env \<Rightarrow> 'a job_db_scheme \<Rightarrow> 'a job_db_scheme" where
  "ensure_poller_running je st =
     snd (start_loop_if_needed je RUN_POLL_LOOP POLLER_JOB_ID HEARTBEAT_CACHE_KEY STALE_JOB_SECONDS ''poller''
       (check_poller_stall (job_poll_env je) st))"

subsection \<open>One run\<close>

record cycle_world =
  cw_env :: poll_env
  cw_fleet :: fleet
  cw_elapsed :: rat
  cw_stop :: bool
  cw_crash :: bool

definition poll_cycle :: "cycle_world \<Rightarrow> 'a proxmox_db_scheme \<times> 'a proxmox_db_scheme \<Rightarrow> 'a proxmox_db_scheme \<times> 'a proxmox_db_scheme" where
  "poll_cycle w p =
     (let st = cache_set (cw_env w) HEARTBEAT_CACHE_KEY (max (poll_interval (fst p) * 4) 60) (fst p)
      in if cw_crash w then (log_error ''Proxmox Monitor: poll cycle failed'' st, snd p)
         else sync_all_servers (cw_env w) (cw_fleet w) (st, snd p))"

definition keep_polling :: "cycle_world \<Rightarrow> bool" where
  "keep_polling w \<longleftrightarrow> \<not> cw_stop w \<and> cw_elapsed w < of_int MAX_LOOP_SECONDS"

text \<open>The \<open>while\<close> loop, with fuel; \<open>None\<close> when the fuel runs out. The result carries the number of the
  cycle before which the loop ended.\<close>

fun poll_loop :: "nat \<Rightarrow> (nat \<Rightarrow> cycle_world) \<Rightarrow> nat \<Rightarrow> 'a proxmox_db_scheme \<times> 'a proxmox_db_scheme
      \<Rightarrow> (nat \<times> ('a proxmox_db_scheme \<times> 'a proxmox_db_scheme)) option" where
  "poll_loop 0 w i p = None"
| "poll_loop (Suc fuel) w i p =
     (if keep_polling (w i) then poll_loop fuel w (Suc i) (poll_cycle (w i) p) else Some (i, p))"

definition run_poll_loop :: "nat \<Rightarrow> job_env \<Rightarrow> string option \<Rightarrow> (nat \<Rightarrow> cycle_world)
      \<Rightarrow> 'a job_db_scheme \<times> 'a job_db_scheme \<Rightarrow> (nat \<times> ('a job_db_scheme \<times> 'a job_db_scheme)) option" where
  "run_poll_loop fuel je current w p =
     map_option (\<lambda>(i, q). (i,
         if \<not> cw_stop (w i) \<and> cw_elapsed (w i) \<ge> of_int MAX_LOOP_SECONDS
         then (hand_off_loop je current RUN_POLL_LOOP POLLER_JOB_ID (fst q), snd q) else q))
       (poll_loop fuel w 0 p)"

subsection \<open>A run ends\<close>

text \<open>
  The contract of a bounded loop run, which the loops of both pollers satisfy: a cycle is taken while
  the clock and the stop flag allow it, and a cycle may itself end the loop.
\<close>

locale bounded_loop =
  fixes run :: "nat \<Rightarrow> nat \<Rightarrow> 'p \<Rightarrow> (nat \<times> 'p) option" and keep :: "nat \<Rightarrow> bool"
    and cycle :: "nat \<Rightarrow> 'p \<Rightarrow> 'p" and broke :: "'p \<Rightarrow> bool"
    and stop :: "nat \<Rightarrow> bool" and elapsed :: "nat \<Rightarrow> rat" and limit :: int
  assumes run_stop: "\<not> keep i \<Longrightarrow> run (Suc fuel) i p = Some (i, p)"
    and run_break: "keep i \<Longrightarrow> broke (cycle i p) \<Longrightarrow> run (Suc fuel) i p = Some (Suc i, cycle i p)"
    and run_next: "keep i \<Longrightarrow> \<not> broke (cycle i p) \<Longrightarrow> run (Suc fuel) i p = run fuel (Suc i) (cycle i p)"
    and keep_iff: "keep i \<longleftrightarrow> \<not> stop i \<and> elapsed i < of_int limit"
    and limit_pos: "0 < limit"
begin

lemma run_ends:
  assumes "\<exists>j < i + fuel. i \<le> j \<and> \<not> keep j"
  shows "\<exists>k q. run fuel i p = Some (k, q) \<and> (\<not> keep k \<or> broke q) \<and> k \<le> i + fuel"
  using assms
proof (induction fuel arbitrary: i p)
  case (Suc fuel)
  show ?case
  proof (cases "keep i")
    case True
    then have "\<exists>j < Suc i + fuel. Suc i \<le> j \<and> \<not> keep j"
      using Suc.prems by (metis Suc_leI add_Suc_shift le_neq_implies_less)
    from Suc.IH [OF this, of "cycle i p"] True show ?thesis
      by (cases "broke (cycle i p)") (auto simp: run_break run_next)
  qed (auto simp: run_stop)
qed auto

lemma elapsed_grows:
  assumes "0 \<le> elapsed 0" and "\<And>i. stop (Suc i) \<or> elapsed i + 1 \<le> elapsed (Suc i)"
  shows "(\<exists>j \<le> n. stop j) \<or> of_nat n \<le> elapsed n"
proof (induction n)
  case (Suc n)
  with assms(2) [of n] show ?case by (auto simp: le_Suc_eq)
qed (use assms(1) in simp)

text \<open>A run comes back when every cycle without a stop request takes a second of the clock.\<close>

lemma run_returns:
  assumes "0 \<le> elapsed 0" and "\<And>i. stop (Suc i) \<or> elapsed i + 1 \<le> elapsed (Suc i)"
  shows "\<exists>k q. run (Suc (nat limit)) 0 p = Some (k, q) \<and> k \<le> Suc (nat limit) \<and> (\<not> keep k \<or> broke q)"
proof -
  have "of_nat (nat limit) = (of_int limit :: rat)" using limit_pos by simp
  with elapsed_grows [of "nat limit", OF assms] have "\<exists>j \<le> nat limit. \<not> keep j" by (force simp: keep_iff)
  then have "\<exists>j < 0 + Suc (nat limit). 0 \<le> j \<and> \<not> keep j" by (auto simp: less_Suc_eq_le)
  from run_ends [OF this, of p] show ?thesis by auto
qed

end

interpretation proxmox_loop: bounded_loop
  "\<lambda>fuel. poll_loop fuel w" "\<lambda>i. keep_polling (w i)" "\<lambda>i. poll_cycle (w i)" "\<lambda>p. False"
  "\<lambda>i. cw_stop (w i)" "\<lambda>i. cw_elapsed (w i)" MAX_LOOP_SECONDS for w
  by unfold_locales (auto simp: keep_polling_def MAX_LOOP_SECONDS_def)

text \<open>C17: one run of the poll loop always comes back, after at most 301 cycles: each cycle sleeps at least one
  second unless a stop was requested, and the run is bounded to 300 seconds; it hands over to a
  successor exactly when it ended by reaching its bound.\<close>

theorem run_poll_loop_returns:
  assumes "0 \<le> cw_elapsed (w 0)"
    and "\<And>i. cw_stop (w (Suc i)) \<or> cw_elapsed (w i) + 1 \<le> cw_elapsed (w (Suc i))"
  shows "\<exists>k q. poll_loop 301 w 0 p = Some (k, q) \<and> k \<le> 301 \<and>
    run_poll_loop 301 je current w p =
      Some (k, if cw_stop (w k) then q else (hand_off_loop je current RUN_POLL_LOOP POLLER_JOB_ID (fst q), snd q))"
proof -
  have "\<exists>k q. poll_loop (Suc (nat MAX_LOOP_SECONDS)) w 0 p = Some (k, q) \<and> k \<le> Suc (nat MAX_LOOP_SECONDS) \<and> (\<not> keep_polling (w k) \<or> False)"
    by (rule proxmox_loop.run_returns) (rule assms)+
  then obtain k q where "poll_loop 301 w 0 p = Some (k, q)" "k \<le> 301" "\<not> keep_polling (w k)"
    by (auto simp: MAX_LOOP_SECONDS_def)
  then show ?thesis by (auto simp: run_poll_loop_def keep_polling_def)
qed

theorem run_poll_loop_returns_witness:
  "\<exists>k q. poll_loop 301 (\<lambda>i. \<lparr>cw_env = demo_poll_env, cw_fleet = demo_fleet, cw_elapsed = of_nat (20 * i), cw_stop = False, cw_crash = True\<rparr>)
     0 (demo_job_db, demo_job_db) = Some (k, q) \<and> k \<le> 301"
  using run_poll_loop_returns [where w = "\<lambda>i. \<lparr>cw_env = demo_poll_env, cw_fleet = demo_fleet, cw_elapsed = of_nat (20 * i),
      cw_stop = False, cw_crash = True\<rparr>" and p = "(demo_job_db, demo_job_db)" and je = demo_job_env and current = None]
  by fastforce

subsection \<open>The stall alert\<close>

lemma newest_sync_recent:
  "(case newest_sync st of None \<Rightarrow> True | Some t \<Rightarrow> t < c) \<longleftrightarrow>
     (\<forall>s \<in> set (servers st). srv_enabled s \<longrightarrow> (case srv_last_synced s of None \<Rightarrow> True | Some t \<Rightarrow> t < c))"
proof -
  let ?ts = "List.map_filter srv_last_synced (filter srv_enabled (servers st))"
  have mem: "set ?ts = {t. \<exists>s \<in> set (servers st). srv_enabled s \<and> srv_last_synced s = Some t}"
    by (auto simp: List.map_filter_def image_iff) force+
  have max: "(case newest_sync st of None \<Rightarrow> True | Some t \<Rightarrow> t < c) \<longleftrightarrow> (\<forall>t \<in> set ?ts. t < c)"
  proof (cases ?ts)
    case (Cons t ts)
    then have "newest_sync st = Some (Max (set ?ts))" by (simp add: newest_sync_def)
    moreover have "Max (set ?ts) < c \<longleftrightarrow> (\<forall>t \<in> set ?ts. t < c)" by (subst Max_less_iff) (simp_all add: Cons)
    ultimately show ?thesis by simp
  qed (simp add: newest_sync_def)
  show ?thesis unfolding max mem by (auto split: option.splits)
qed

text \<open>After the watchdog's check exactly one Poller Stalled alert is open when there are enabled servers and
  none of them has synced within the limit (five minutes or five poll intervals), and none
  otherwise; no other alert changes.\<close>

theorem check_poller_stall_exact:
  assumes "alert_inv st" and "k = (POLLER_STALL_REFERENCE, POLLER_STALL_REFERENCE, POLLER_STALL_ALERT)"
    and "open_alerts_of st k \<le> 1" and "c = clock pe - max 300 (poll_interval st * 5) * SECOND"
  shows "open_alerts_of (check_poller_stall pe st) k' =
    (if k' = k then
       (if (\<exists>s \<in> set (servers st). srv_enabled s) \<and>
           (\<forall>s \<in> set (servers st). srv_enabled s \<longrightarrow> (case srv_last_synced s of None \<Rightarrow> True | Some t \<Rightarrow> t < c)) then 1 else 0)
     else open_alerts_of st k')"
proof -
  have stall: "stalled pe st \<longleftrightarrow>
      (\<forall>s \<in> set (servers st). srv_enabled s \<longrightarrow> (case srv_last_synced s of None \<Rightarrow> True | Some t \<Rightarrow> t < c))"
    unfolding newest_sync_recent [symmetric] assms(4)
    by (auto simp: stalled_def Let_def POLLER_STALL_SECONDS_def split: option.splits)
  have none: "filter srv_enabled (servers st) = [] \<longleftrightarrow> \<not> (\<exists>s \<in> set (servers st). srv_enabled s)"
    by (auto simp: filter_empty_conv)
  show ?thesis unfolding stall [symmetric] using assms(1-3)
    by (cases "open_alerts_of st k") (auto simp: check_poller_stall_def Let_def open_laws none alert_inv_resolve)
qed

theorem check_poller_stall_exact_witness:
  "open_alerts_of (check_poller_stall demo_poll_env demo_fleet_db)
     (POLLER_STALL_REFERENCE, POLLER_STALL_REFERENCE, POLLER_STALL_ALERT) = 1"
proof -
  have z: "open_alerts_of demo_fleet_db (POLLER_STALL_REFERENCE, POLLER_STALL_REFERENCE, POLLER_STALL_ALERT) \<le> 1" by code_simp
  have s: "(\<exists>s \<in> set (servers demo_fleet_db). srv_enabled s) \<and>
    (\<forall>s \<in> set (servers demo_fleet_db). srv_enabled s \<longrightarrow> (case srv_last_synced s of None \<Rightarrow> True | Some t \<Rightarrow> t < c))" for c
    by (simp add: demo_fleet_db_def demo_server_def demo_beta_def)
  show ?thesis unfolding check_poller_stall_exact [OF demo_fleet_inv refl z refl, where pe = demo_poll_env] using s by simp
qed

end
