(* ===== verification/Maintenance.thy ===== *)
theory Maintenance
  imports Pulse_Prelude
begin

text \<open>
  \<open>uptime_monitor/maintenance.py\<close>: planned downtime windows of uptime sites. A window is One-time, Daily
  or Weekly; its occurrences are half-open intervals of date-times, expanded day by day from the day
  before the range asked for. Date-times and times of day are whole microseconds.
\<close>

record maintenance_window =
  w_name :: string
  w_site_name :: string
  w_enabled :: bool
  w_window_type :: string
  w_all_day :: bool
  w_start_time :: "timedelta option"
  w_end_time :: "timedelta option"
  w_start_datetime :: "datetime option"
  w_end_datetime :: "datetime option"
  w_note :: string
  w_days :: "bool list"

definition WEEKDAYS :: "string list" where
  "WEEKDAYS = [''monday'', ''tuesday'', ''wednesday'', ''thursday'', ''friday'', ''saturday'', ''sunday'']"

definition SEARCH_DAYS :: int where "SEARCH_DAYS = 8"

text \<open>\<open>windows_by_site\<close> with its optional restriction to some sites.\<close>

definition windows_by_site ::
    "string list option \<Rightarrow> maintenance_window list \<Rightarrow> (string \<times> maintenance_window list) list" where
  "windows_by_site site_names table =
     group_rows w_site_name (filter (\<lambda>w. w_enabled w \<and>
       (case site_names of None \<Rightarrow> True
        | Some ns \<Rightarrow> w_site_name w \<in> set (if ns = [] then [[]] else ns))) table)"

definition site_windows :: "(string \<times> maintenance_window list) list \<Rightarrow> string \<Rightarrow> maintenance_window list" where
  "site_windows grouped site = (case map_of grouped site of None \<Rightarrow> [] | Some ws \<Rightarrow> ws)"

subsection \<open>Occurrences\<close>

definition ticked_days :: "maintenance_window \<Rightarrow> int list" where
  "ticked_days w = map int (filter (\<lambda>i. i < length (w_days w) \<and> w_days w ! i) [0..<7])"

definition is_weekly :: "maintenance_window \<Rightarrow> bool" where
  "is_weekly w \<longleftrightarrow> w_window_type w = ''Weekly''"

definition window_all_day :: "maintenance_window \<Rightarrow> bool" where
  "window_all_day w \<longleftrightarrow> is_weekly w \<and> w_all_day w"

text \<open>The times of day a repeating window starts and ends, when it has both.\<close>

definition window_times :: "maintenance_window \<Rightarrow> (timedelta \<times> timedelta) option" where
  "window_times w =
     (if is_weekly w \<and> ticked_days w = [] then None
      else if window_all_day w then Some (0, 0)
      else case (w_start_time w, w_end_time w) of (Some s, Some e) \<Rightarrow> Some (s, e) | _ \<Rightarrow> None)"

definition on_day :: "maintenance_window \<Rightarrow> date \<Rightarrow> bool" where
  "on_day w day \<longleftrightarrow> \<not> is_weekly w \<or> weekday day \<in> set (ticked_days w)"

definition day_span :: "timedelta \<times> timedelta \<Rightarrow> date \<Rightarrow> datetime \<times> datetime" where
  "day_span t day =
     (midnight_of day + fst t,
      if snd t > fst t then midnight_of day + snd t else midnight_of day + DAY + snd t)"

definition overlaps :: "datetime \<times> datetime \<Rightarrow> datetime \<Rightarrow> datetime \<Rightarrow> bool" where
  "overlaps occ start end_at \<longleftrightarrow> fst occ < end_at \<and> snd occ > start"

text \<open>The \<open>while day <= end.date()\<close> loop.\<close>

function day_loop :: "maintenance_window \<Rightarrow> timedelta \<times> timedelta \<Rightarrow> datetime \<Rightarrow> datetime \<Rightarrow> date \<Rightarrow> (datetime \<times> datetime) list" where
  "day_loop w t start end_at day =
     (if day \<le> date_of end_at
      then (if on_day w day \<and> overlaps (day_span t day) start end_at then [day_span t day] else []) @
           day_loop w t start end_at (day + 1)
      else [])"
  by pat_completeness auto
termination by (relation "measure (\<lambda>(w, t, start, end_at, day). nat (date_of end_at + 1 - day))") auto

declare day_loop.simps [simp del]

definition occurrences :: "maintenance_window \<Rightarrow> datetime \<Rightarrow> datetime \<Rightarrow> (datetime \<times> datetime) list" where
  "occurrences w start end_at =
     (if w_window_type w = ''One-time'' then
        (case (w_start_datetime w, w_end_datetime w) of
           (Some s, Some e) \<Rightarrow> if overlaps (s, e) start end_at then [(s, e)] else []
         | _ \<Rightarrow> [])
      else case window_times w of
             None \<Rightarrow> []
           | Some t \<Rightarrow> day_loop w t start end_at (date_of start - 1))"

subsection \<open>Queries\<close>

fun active_window :: "maintenance_window list \<Rightarrow> datetime \<Rightarrow> maintenance_window option" where
  "active_window [] at_time = None"
| "active_window (w # ws) at_time =
     (if list_ex (\<lambda>(s, e). s \<le> at_time \<and> at_time < e) (occurrences w at_time (at_time + SECOND)) then Some w
      else active_window ws at_time)"

definition last_window_end :: "maintenance_window list \<Rightarrow> datetime \<Rightarrow> datetime option" where
  "last_window_end windows at_time =
     (let ends = concat (map (\<lambda>w. map snd (filter (\<lambda>(s, e). e \<le> at_time) (occurrences w (at_time - SEARCH_DAYS * DAY) at_time))) windows)
      in if ends = [] then None else Some (Max (set ends)))"

definition search_horizon :: "maintenance_window \<Rightarrow> datetime \<Rightarrow> datetime" where
  "search_horizon w at_time =
     (let horizon = at_time + SEARCH_DAYS * DAY
      in case w_start_datetime w of
           Some s \<Rightarrow> if w_window_type w = ''One-time'' then max horizon (s + SECOND) else horizon
         | None \<Rightarrow> horizon)"

text \<open>Pairs of date-times compare first by their start, as Python's tuples do.\<close>

definition occ_le :: "datetime \<times> datetime \<Rightarrow> datetime \<times> datetime \<Rightarrow> bool" where
  "occ_le a b \<longleftrightarrow> fst a < fst b \<or> (fst a = fst b \<and> snd a \<le> snd b)"

definition occ_min :: "datetime \<times> datetime \<Rightarrow> datetime \<times> datetime \<Rightarrow> datetime \<times> datetime" where
  "occ_min a b = (if occ_le a b then a else b)"

definition upcoming_windows :: "maintenance_window list \<Rightarrow> datetime \<Rightarrow> (datetime \<times> datetime) list" where
  "upcoming_windows windows at_time =
     concat (map (\<lambda>w. filter (\<lambda>(s, e). s > at_time) (occurrences w at_time (search_horizon w at_time))) windows)"

definition next_window :: "maintenance_window list \<Rightarrow> datetime \<Rightarrow> (datetime \<times> datetime) option" where
  "next_window windows at_time =
     (case upcoming_windows windows at_time of [] \<Rightarrow> None | o1 # os \<Rightarrow> Some (foldl occ_min o1 os))"

fun occ_insert :: "datetime \<times> datetime \<Rightarrow> (datetime \<times> datetime) list \<Rightarrow> (datetime \<times> datetime) list" where
  "occ_insert x [] = [x]"
| "occ_insert x (y # ys) = (if occ_le x y then x # y # ys else y # occ_insert x ys)"

definition intervals :: "maintenance_window list \<Rightarrow> datetime \<Rightarrow> datetime \<Rightarrow> (datetime \<times> datetime) list" where
  "intervals windows start end_at = foldr occ_insert (concat (map (\<lambda>w. occurrences w start end_at) windows)) []"

subsection \<open>Text\<close>

definition utf8_ndash :: string where "utf8_ndash = [CHR 0xE2, CHR 0x80, CHR 0x93]"
definition utf8_middot :: string where "utf8_middot = [CHR 0xC2, CHR 0xB7]"

definition hm :: "timedelta \<Rightarrow> string" where
  "hm t = (let minutes = t div SECOND div 60 in pad0 2 (minutes div 60) @ '':'' @ pad0 2 (minutes mod 60))"

definition MONTHS :: "string list" where
  "MONTHS = [''Jan'', ''Feb'', ''Mar'', ''Apr'', ''May'', ''Jun'', ''Jul'', ''Aug'', ''Sep'', ''Oct'', ''Nov'', ''Dec'']"

definition show_day_time :: "datetime \<Rightarrow> string" where
  "show_day_time t =
     (case civil_from_days (date_of t) of (y, m, d) \<Rightarrow>
        pad0 2 d @ '' '' @ MONTHS ! nat (m - 1) @ '' '' @ hm (t mod DAY))"

definition day_abbrev :: "nat \<Rightarrow> string" where
  "day_abbrev i = [''Mon'', ''Tue'', ''Wed'', ''Thu'', ''Fri'', ''Sat'', ''Sun''] ! i"

text \<open>\<open>None\<close> where a missing time of day makes the call raise; \<open>get_datetime(None)\<close> is the current time.\<close>

definition describe :: "datetime \<Rightarrow> maintenance_window \<Rightarrow> string option" where
  "describe now w =
     (if w_window_type w = ''One-time'' then
        Some (''One-time '' @ show_day_time (case w_start_datetime w of None \<Rightarrow> now | Some s \<Rightarrow> s) @ '' '' @ utf8_arrow @ '' '' @
          show_day_time (case w_end_datetime w of None \<Rightarrow> now | Some e \<Rightarrow> e))
      else
        let times = (if window_all_day w then Some ''all day''
                     else case (w_start_time w, w_end_time w) of
                            (Some s, Some e) \<Rightarrow> Some (hm s @ utf8_ndash @ hm e) | _ \<Rightarrow> None)
        in if w_window_type w = ''Daily'' then map_option (\<lambda>t. ''Daily '' @ t) times
           else map_option (\<lambda>t. ''Weekly '' @ utf8_middot @ '' '' @
                  py_join '', '' (map (\<lambda>i. day_abbrev (nat i)) (ticked_days w)) @ '' '' @ utf8_middot @ '' '' @ t) times)"

subsection \<open>The occurrences as a set\<close>

text \<open>The reference: every day a window falls on gives one span, over all days there are.\<close>

definition times_ok :: "maintenance_window \<Rightarrow> bool" where
  "times_ok w \<longleftrightarrow> (case window_times w of None \<Rightarrow> True | Some t \<Rightarrow> 0 \<le> fst t \<and> fst t < DAY \<and> 0 \<le> snd t \<and> snd t < DAY)"

definition all_occurrences :: "maintenance_window \<Rightarrow> (datetime \<times> datetime) set" where
  "all_occurrences w =
     (if w_window_type w = ''One-time''
      then {(s, e). w_start_datetime w = Some s \<and> w_end_datetime w = Some e}
      else case window_times w of None \<Rightarrow> {} | Some t \<Rightarrow> day_span t ` {day. on_day w day})"

lemma set_day_loop:
  "set (day_loop w t start end_at day) =
     {day_span t d | d. day \<le> d \<and> d \<le> date_of end_at \<and> on_day w d \<and> overlaps (day_span t d) start end_at}"
proof (induction w t start end_at day rule: day_loop.induct)
  case (1 w t start end_at day)
  show ?case
  proof (cases "day \<le> date_of end_at")
    case True
    have split: "day \<le> d \<longleftrightarrow> d = day \<or> day + 1 \<le> d" for d by auto
    have "set (day_loop w t start end_at day) =
        (if on_day w day \<and> overlaps (day_span t day) start end_at then {day_span t day} else {}) \<union>
        {day_span t d | d. day + 1 \<le> d \<and> d \<le> date_of end_at \<and> on_day w d \<and> overlaps (day_span t d) start end_at}"
      using 1 True by (subst day_loop.simps) auto
    also have "\<dots> = {day_span t d | d. day \<le> d \<and> d \<le> date_of end_at \<and> on_day w d \<and> overlaps (day_span t d) start end_at}"
      unfolding split using True by auto
    finally show ?thesis .
  qed (subst day_loop.simps, auto)
qed

text \<open>Starting a day early is enough: a span that reaches into the range started yesterday at the earliest.\<close>

lemma span_in_range:
  assumes "0 \<le> fst t" "fst t < DAY" "0 \<le> snd t" "snd t < DAY" and "overlaps (day_span t d) start end_at"
  shows "date_of start - 1 \<le> d" and "d \<le> date_of end_at"
proof -
  have "start < midnight_of (d + 2)"
    using assms by (auto simp: overlaps_def day_span_def midnight_of_def DAY_def split: if_splits)
  then have "date_of start < d + 2"
    using date_of_mono [of "midnight_of (d + 2)" start] midnight_le [of start]
    by (simp add: midnight_of_def date_of_def DAY_def)
  then show "date_of start - 1 \<le> d" by simp
  have "midnight_of d < end_at" using assms by (auto simp: overlaps_def day_span_def)
  then show "d \<le> date_of end_at" using date_of_mono [of "midnight_of d" end_at] by simp
qed

lemma occurrences_exact:
  assumes "times_ok w"
  shows "set (occurrences w start end_at) = {occ \<in> all_occurrences w. overlaps occ start end_at}"
proof (cases "w_window_type w = ''One-time''")
  case True
  then show ?thesis by (auto simp: occurrences_def all_occurrences_def split: option.splits)
next
  case False
  show ?thesis
  proof (cases "window_times w")
    case (Some t)
    then have "0 \<le> fst t" "fst t < DAY" "0 \<le> snd t" "snd t < DAY" using assms by (simp_all add: times_ok_def)
    note range = span_in_range [OF this]
    show ?thesis using False Some range
      by (auto simp: occurrences_def all_occurrences_def set_day_loop)
  qed (use False in \<open>simp add: occurrences_def all_occurrences_def\<close>)
qed

text \<open>C9: expanding a window day by day from the day before the range gives exactly its occurrences that
  overlap the range, among those of all days past and future, with overnight spans included.\<close>

theorem occurrences_complete:
  assumes "times_ok w"
  shows "occ \<in> set (occurrences w start end_at) \<longleftrightarrow> occ \<in> all_occurrences w \<and> fst occ < end_at \<and> start < snd occ"
  using occurrences_exact [OF assms] by (auto simp: overlaps_def)

definition demo_nightly :: maintenance_window where
  "demo_nightly = \<lparr>w_name = ''w1'', w_site_name = ''shop'', w_enabled = True, w_window_type = ''Daily'', w_all_day = False,
     w_start_time = Some (21 * HOUR), w_end_time = Some (7 * HOUR), w_start_datetime = None, w_end_datetime = None,
     w_note = [], w_days = []\<rparr>"

lemma demo_nightly_ok: "times_ok demo_nightly"
  by code_simp

theorem occurrences_complete_witness:
  "(midnight_of 0 + 21 * HOUR, midnight_of 1 + 7 * HOUR) \<in> set (occurrences demo_nightly (midnight_of 1) (midnight_of 1 + HOUR))"
proof -
  have "(midnight_of 0 + 21 * HOUR, midnight_of 1 + 7 * HOUR) = day_span (21 * HOUR, 7 * HOUR) 0"
    by (simp add: day_span_def midnight_of_def time_units)
  moreover have "window_times demo_nightly = Some (21 * HOUR, 7 * HOUR)" "on_day demo_nightly 0"
    "w_window_type demo_nightly \<noteq> ''One-time''" by code_simp+
  ultimately have "(midnight_of 0 + 21 * HOUR, midnight_of 1 + 7 * HOUR) \<in> all_occurrences demo_nightly"
    by (auto simp: all_occurrences_def)
  then show ?thesis
    unfolding occurrences_complete [OF demo_nightly_ok] by (simp add: midnight_of_def time_units)
qed

subsection \<open>The active window\<close>

definition covers_time :: "maintenance_window \<Rightarrow> datetime \<Rightarrow> bool" where
  "covers_time w x \<longleftrightarrow> (\<exists>(s, e) \<in> all_occurrences w. s \<le> x \<and> x < e)"

lemma active_iff:
  assumes "times_ok w"
  shows "list_ex (\<lambda>(s, e). s \<le> x \<and> x < e) (occurrences w x (x + SECOND)) \<longleftrightarrow> covers_time w x"
  unfolding list_ex_iff occurrences_exact [OF assms] covers_time_def
proof
  assume "\<exists>occ \<in> {occ \<in> all_occurrences w. overlaps occ x (x + SECOND)}. case occ of (s, e) \<Rightarrow> s \<le> x \<and> x < e"
  then show "\<exists>(s, e) \<in> all_occurrences w. s \<le> x \<and> x < e" by blast
next
  assume "\<exists>(s, e) \<in> all_occurrences w. s \<le> x \<and> x < e"
  then obtain s e where "(s, e) \<in> all_occurrences w" "s \<le> x" "x < e" by blast
  then show "\<exists>occ \<in> {occ \<in> all_occurrences w. overlaps occ x (x + SECOND)}. case occ of (s, e) \<Rightarrow> s \<le> x \<and> x < e"
    by (intro bexI [of _ "(s, e)"]) (auto simp: overlaps_def SECOND_def)
qed

text \<open>The window reported as active is the first of the list that has an occurrence covering the instant,
  and none is reported exactly when no occurrence of any window, over all days, covers it.\<close>

theorem active_window_exact:
  assumes "list_all times_ok windows"
  shows "active_window windows x = find (\<lambda>w. covers_time w x) windows"
  using assms by (induction windows) (auto simp: active_iff)

theorem active_window_exact_witness:
  "active_window [demo_nightly] (midnight_of 1 + HOUR) = find (\<lambda>w. covers_time w (midnight_of 1 + HOUR)) [demo_nightly] \<and>
   active_window [demo_nightly] (midnight_of 1 + HOUR) = Some demo_nightly"
proof
  show "active_window [demo_nightly] (midnight_of 1 + HOUR) = find (\<lambda>w. covers_time w (midnight_of 1 + HOUR)) [demo_nightly]"
    by (rule active_window_exact) (simp add: demo_nightly_ok)
  have "list_ex (\<lambda>(s, e). s \<le> midnight_of 1 + HOUR \<and> midnight_of 1 + HOUR < e)
      (occurrences demo_nightly (midnight_of 1 + HOUR) (midnight_of 1 + HOUR + SECOND))" by code_simp
  then show "active_window [demo_nightly] (midnight_of 1 + HOUR) = Some demo_nightly" by simp
qed

subsection \<open>The next window\<close>

lemma occ_le_trans: "occ_le a b \<Longrightarrow> occ_le b c \<Longrightarrow> occ_le a c"
  by (auto simp: occ_le_def)

lemma foldl_occ_min:
  "foldl occ_min x xs \<in> set (x # xs) \<and> (\<forall>y \<in> set (x # xs). occ_le (foldl occ_min x xs) y)"
proof (induction xs arbitrary: x)
  case (Cons y xs)
  have "occ_le (occ_min x y) x" "occ_le (occ_min x y) y" "occ_min x y \<in> {x, y}"
    by (auto simp: occ_min_def occ_le_def)
  then show ?case using Cons.IH [of "occ_min x y"] by (auto intro: occ_le_trans)
qed (simp add: occ_le_def)

lemma weekday_within:
  assumes "0 \<le> i" and "i < 7"
  obtains d where "day < d" and "d \<le> day + 7" and "weekday d = i"
proof
  let ?d = "day + 1 + (i - weekday (day + 1)) mod 7"
  have "0 \<le> (i - weekday (day + 1)) mod 7" "(i - weekday (day + 1)) mod 7 < 7" by simp_all
  then show "day < ?d" "?d \<le> day + 7" by simp_all
  have "weekday ?d = (day + 4 + (i - (day + 4) mod 7) mod 7) mod 7" unfolding weekday_def by (simp add: algebra_simps)
  also have "\<dots> = (day + 4 + (i - (day + 4))) mod 7" by (simp only: mod_add_right_eq mod_diff_right_eq)
  finally show "weekday ?d = i" using assms by simp
qed

text \<open>A repeating window starts again within the search horizon.\<close>

lemma recurs_within:
  assumes "times_ok w" and "window_times w = Some t" and "w_window_type w \<noteq> ''One-time''"
  obtains occ where "occ \<in> all_occurrences w" and "x < fst occ" and "fst occ < x + SEARCH_DAYS * DAY"
proof -
  have "\<exists>d. date_of x < d \<and> d \<le> date_of x + 7 \<and> on_day w d"
  proof (cases "is_weekly w")
    case True
    then have "ticked_days w \<noteq> []" using assms(2) by (auto simp: window_times_def split: if_splits)
    then obtain i where i: "i \<in> set (ticked_days w)" by (meson last_in_set)
    then have "0 \<le> i" "i < 7" by (auto simp: ticked_days_def)
    with weekday_within [of i "date_of x"] i show ?thesis by (metis on_day_def)
  next
    case False
    then show ?thesis by (intro exI [of _ "date_of x + 1"]) (simp add: on_day_def)
  qed
  then obtain d where d: "date_of x < d" "d \<le> date_of x + 7" "on_day w d" by blast
  have t: "0 \<le> fst t" "fst t < DAY" using assms(1,2) by (auto simp: times_ok_def)
  have "x < midnight_of d" using next_midnight_gt [of x] d(1) by (auto simp: midnight_of_def DAY_def)
  moreover have "midnight_of d \<le> x + 7 * DAY" using midnight_le [of x] d(2) by (simp add: midnight_of_def DAY_def)
  ultimately show thesis using t assms(2,3) d(3)
    by (intro that [of "day_span t d"]) (auto simp: all_occurrences_def day_span_def SEARCH_DAYS_def)
qed

lemma upcoming_iff:
  assumes "list_all times_ok windows"
  shows "occ \<in> set (upcoming_windows windows x) \<longleftrightarrow>
    (\<exists>w \<in> set windows. occ \<in> all_occurrences w \<and> x < fst occ \<and> fst occ < search_horizon w x \<and> x < snd occ)"
  using assms by (auto simp: upcoming_windows_def list_all_iff occurrences_exact overlaps_def) 


text \<open>The next window is the earliest occurrence, over all windows and all days, that starts after the
  instant: looking eight days ahead (or as far as a one-time window lies) is enough, and a repeating
  window with a usable time always has a next one.\<close>

theorem next_window_earliest:
  assumes "list_all times_ok windows"
    and "\<forall>w \<in> set windows. \<forall>occ \<in> all_occurrences w. fst occ < snd occ"
  shows "(case next_window windows x of
      None \<Rightarrow> \<forall>w \<in> set windows. \<forall>occ \<in> all_occurrences w. fst occ \<le> x
    | Some n \<Rightarrow> (\<exists>w \<in> set windows. n \<in> all_occurrences w) \<and> x < fst n \<and>
        (\<forall>w \<in> set windows. \<forall>occ \<in> all_occurrences w. x < fst occ \<longrightarrow> occ_le n occ))"
proof -
  let ?up = "set (upcoming_windows windows x)"
  have up: "occ \<in> ?up \<longleftrightarrow> (\<exists>w \<in> set windows. occ \<in> all_occurrences w \<and> x < fst occ \<and> fst occ < search_horizon w x)" for occ
    using upcoming_iff [OF assms(1), of occ x] assms(2) by (meson less_trans)
  have below: "\<exists>occ' \<in> ?up. occ_le occ' occ"
    if w: "w \<in> set windows" and occ: "occ \<in> all_occurrences w" "x < fst occ" for w occ
  proof (cases "fst occ < search_horizon w x")
    case True
    then show ?thesis using up w occ by (intro bexI [of _ occ]) (auto simp: occ_le_def)
  next
    case False
    have ok: "times_ok w" using assms(1) w by (simp add: list_all_iff)
    have rep: "w_window_type w \<noteq> ''One-time''"
    proof
      assume "w_window_type w = ''One-time''"
      then have "w_start_datetime w = Some (fst occ)" using occ(1) by (auto simp: all_occurrences_def)
      then show False using False \<open>w_window_type w = ''One-time''\<close>
        by (simp add: search_horizon_def Let_def SECOND_def)
    qed
    then obtain t where "window_times w = Some t" using occ(1) by (auto simp: all_occurrences_def split: option.splits)
    then obtain o' where o': "o' \<in> all_occurrences w" "x < fst o'" "fst o' < x + SEARCH_DAYS * DAY"
      using recurs_within [OF ok _ rep] by blast
    have "search_horizon w x = x + SEARCH_DAYS * DAY" using rep by (simp add: search_horizon_def Let_def split: option.splits)
    then have "o' \<in> ?up" "occ_le o' occ" using up w o' False by (auto simp: occ_le_def)
    then show ?thesis by blast
  qed
  show ?thesis
  proof (cases "upcoming_windows windows x")
    case Nil
    then show ?thesis using below by (force simp: next_window_def not_less)
  next
    case (Cons o1 os)
    note min = foldl_occ_min [of o1 os]
    have n: "next_window windows x = Some (foldl occ_min o1 os)" using Cons by (simp add: next_window_def)
    have mem: "foldl occ_min o1 os \<in> ?up" and least: "\<forall>occ \<in> ?up. occ_le (foldl occ_min o1 os) occ"
      using min Cons by simp_all
    show ?thesis unfolding n option.case using mem least below up by (meson occ_le_trans)
  qed
qed

lemma demo_nightly_spans: "\<forall>w \<in> set [demo_nightly]. \<forall>occ \<in> all_occurrences w. fst occ < snd occ"
  by (auto simp: all_occurrences_def demo_nightly_def window_times_def is_weekly_def window_all_day_def day_span_def time_units)

theorem next_window_earliest_witness:
  "next_window [demo_nightly] (midnight_of 1 + HOUR) = Some (midnight_of 1 + 21 * HOUR, midnight_of 2 + 7 * HOUR) \<and>
   (midnight_of 1 + 21 * HOUR, midnight_of 2 + 7 * HOUR) \<in> all_occurrences demo_nightly"
proof -
  have n: "next_window [demo_nightly] (midnight_of 1 + HOUR) = Some (midnight_of 1 + 21 * HOUR, midnight_of 2 + 7 * HOUR)"
    by code_simp
  have "list_all times_ok [demo_nightly]" by (simp add: demo_nightly_ok)
  from next_window_earliest [OF this demo_nightly_spans, of "midnight_of 1 + HOUR"] n show ?thesis by simp
qed

end
