(* ===== verification/Uptime_Store.thy ===== *)
theory Uptime_Store
  imports Poll_Loop Maintenance
begin

text \<open>
  The documents of the uptime monitor (\<open>uptime_monitor/doctype\<close>): sites, Kuma instances, check logs and
  the single settings document, with the maintenance windows, in tables that extend the state of the
  pollers. The Kuma servers are outside the program: a call to one either raises or returns a
  monitor id, as \<open>kuma_env\<close> says, and every call that is made is noted in \<open>kuma_calls\<close>.
\<close>

record uptime_site =
  us_name :: string
  us_instance :: string
  us_site_name :: string
  us_kuma_monitor_id :: int
  us_monitor_type :: string
  us_url :: "string option"
  us_hostname :: "string option"
  us_port :: "int option"
  us_check_interval_seconds :: int
  us_is_active :: bool
  us_current_status :: string
  us_is_critical :: bool
  us_last_checked :: "datetime option"

record kuma_instance =
  ki_name :: string
  ki_enabled :: bool
  ki_last_synced :: "datetime option"
  ki_last_error :: string
  ki_last_auto_import :: "datetime option"
  ki_last_auto_import_error :: string

record check_log =
  cl_site :: string
  cl_checked_at :: datetime
  cl_is_up :: bool
  cl_raw_status :: string
  cl_response_time_ms :: "rat option"
  cl_in_maintenance :: bool

record uptime_settings =
  up_poll_interval_seconds :: "int option"
  up_alert_window_checks :: "int option"
  up_heartbeat_interval_seconds :: "int option"
  up_auto_import_enabled :: bool
  up_auto_import_interval_minutes :: "int option"
  up_check_log_retention_days :: "int option"

record kuma_monitor =
  km_name :: string
  km_type :: string
  km_url :: "string option"
  km_hostname :: "string option"
  km_port :: "int option"
  km_interval :: "int option"
  km_active :: bool

record metric_reading =
  mr_status :: "rat option"
  mr_response_time_ms :: "rat option"

datatype kuma_op =
  AddMonitor uptime_site
| EditMonitor int uptime_site
| DeleteMonitor int
| PauseMonitor int
| ResumeMonitor int

record uptime_db = job_db +
  uptime_sites :: "uptime_site list"
  kuma_instances :: "kuma_instance list"
  check_logs :: "check_log list"
  maintenance_windows :: "maintenance_window list"
  uptime_settings :: uptime_settings
  kuma_calls :: "(string \<times> kuma_op) list"

text \<open>A Kuma client raises \<open>UptimeKumaAPIError\<close>; anything else that goes wrong is another exception.\<close>

datatype kuma_failure = UptimeKumaAPIError string | OtherError string

fun failure_text :: "kuma_failure \<Rightarrow> string" where
  "failure_text (UptimeKumaAPIError err) = err"
| "failure_text (OtherError err) = err"

text \<open>What the code only calls: the Kuma clients, the random document names, saves that may be refused.\<close>

record kuma_env =
  kuma_poll_env :: poll_env
  kuma_call :: "string \<Rightarrow> kuma_op \<Rightarrow> string + int"
  kuma_list :: "string \<Rightarrow> kuma_failure + (int \<times> kuma_monitor) list"
  kuma_metrics :: "string \<Rightarrow> kuma_failure + (string \<times> metric_reading) list"
  new_docname :: "string list \<Rightarrow> string"
  site_save_error :: "uptime_site \<Rightarrow> string option"
  check_save_ok :: "check_log \<Rightarrow> bool"

definition kuma_do :: "kuma_env \<Rightarrow> string \<Rightarrow> kuma_op \<Rightarrow> 'a uptime_db_scheme \<Rightarrow> (string + int) \<times> 'a uptime_db_scheme" where
  "kuma_do ke inst op st = (kuma_call ke inst op, st\<lparr>kuma_calls := kuma_calls st @ [(inst, op)]\<rparr>)"

definition enabled_instances :: "'a uptime_db_scheme \<Rightarrow> string list" where
  "enabled_instances st = map ki_name (filter ki_enabled (kuma_instances st))"

definition disabled_instances :: "'a uptime_db_scheme \<Rightarrow> string list" where
  "disabled_instances st = map ki_name (filter (\<lambda>i. \<not> ki_enabled i) (kuma_instances st))"

text \<open>A rollback brings the tables back; calls already made, messages sent and Redis keys stay.\<close>

definition uptime_rollback :: "'a uptime_db_scheme \<Rightarrow> 'a uptime_db_scheme \<Rightarrow> 'a uptime_db_scheme" where
  "uptime_rollback committed st =
     committed\<lparr>outbox := outbox st, cache_expiry := cache_expiry st, rq_jobs := rq_jobs st,
       logger_warnings := logger_warnings st, kuma_calls := kuma_calls st\<rparr>"

lemma uptime_log_error [frame_simps, simp]:
  "uptime_sites (log_error t st) = uptime_sites st" "kuma_instances (log_error t st) = kuma_instances st"
  "check_logs (log_error t st) = check_logs st" "maintenance_windows (log_error t st) = maintenance_windows st"
  "uptime_settings (log_error t st) = uptime_settings st" "kuma_calls (log_error t st) = kuma_calls st"
  by (simp_all add: log_error_def)

lemma uptime_fields_of_more:
  fixes s t :: "'a uptime_db_scheme"
  assumes "alert_db.more s = alert_db.more t"
  shows "uptime_sites s = uptime_sites t" "kuma_instances s = kuma_instances t" "check_logs s = check_logs t"
    "maintenance_windows s = maintenance_windows t" "uptime_settings s = uptime_settings t" "kuma_calls s = kuma_calls t"
  using assms by (cases s; cases t; simp)+

lemma uptime_transition_frame [frame_simps, simp]:
  fixes st :: "'a uptime_db_scheme"
  shows "uptime_sites (handle_transition e was now d n ty m rec g st) = uptime_sites st"
    "kuma_instances (handle_transition e was now d n ty m rec g st) = kuma_instances st"
    "check_logs (handle_transition e was now d n ty m rec g st) = check_logs st"
    "maintenance_windows (handle_transition e was now d n ty m rec g st) = maintenance_windows st"
  by (rule uptime_fields_of_more; simp)+

end
