(* ===== verification/Uptime_Sites.thy ===== *)
theory Uptime_Sites
  imports Uptime_Store
begin

text \<open>
  Managing uptime sites, from \<open>uptime_monitor/api.py\<close>: every write goes out to all instances that have a
  site of the same name. A failure on one instance is reported and does not stop the others; an
  instance that is disabled is never contacted. Deleting runs inside a savepoint, so that a monitor
  Kuma refuses to delete is kept locally as well.
\<close>

datatype api_failure = NotPermitted | Throw string

definition MONITOR_TYPE_FROM_KUMA :: "string \<Rightarrow> string option" where
  "MONITOR_TYPE_FROM_KUMA t = map_of [(''http'', ''HTTP(s)''), (''port'', ''TCP''), (''ping'', ''Ping'')] t"

definition new_site ::
    "string \<Rightarrow> string \<Rightarrow> string \<Rightarrow> string option \<Rightarrow> string option \<Rightarrow> int option \<Rightarrow> int \<Rightarrow> bool \<Rightarrow> uptime_site" where
  "new_site inst site_name monitor_type url host port interval active =
     \<lparr>us_name = [], us_instance = inst, us_site_name = site_name, us_kuma_monitor_id = 0, us_monitor_type = monitor_type,
      us_url = url, us_hostname = host, us_port = (if opt_int port \<noteq> 0 then port else None),
      us_check_interval_seconds = (if interval = 0 then 60 else interval), us_is_active = active,
      us_current_status = ''Pending'', us_is_critical = False, us_last_checked = None\<rparr>"

text \<open>Inserting a document: it gets a name; a refused save is an error.\<close>

definition insert_site :: "kuma_env \<Rightarrow> uptime_site \<Rightarrow> 'a uptime_db_scheme \<Rightarrow> (string + string) \<times> 'a uptime_db_scheme" where
  "insert_site ke site st =
     (case site_save_error ke site of
        Some err \<Rightarrow> (Inl err, st)
      | None \<Rightarrow>
          (let n = new_docname ke (map us_name (uptime_sites st))
           in (Inr n, st\<lparr>uptime_sites := uptime_sites st @ [site\<lparr>us_name := n\<rparr>]\<rparr>)))"

definition create_site_on_instance ::
    "kuma_env \<Rightarrow> uptime_site \<Rightarrow> 'a uptime_db_scheme \<Rightarrow> (string + string) \<times> 'a uptime_db_scheme" where
  "create_site_on_instance ke site st =
     (let inst = us_instance site; r1 = kuma_do ke inst (AddMonitor site) st
      in case fst r1 of
           Inl err \<Rightarrow> (Inl err, snd r1)
         | Inr monitor_id \<Rightarrow>
             (let r2 = insert_site ke (site\<lparr>us_kuma_monitor_id := monitor_id\<rparr>) (snd r1)
              in case fst r2 of
                   Inr n \<Rightarrow> (Inr n, snd r2)
                 | Inl err \<Rightarrow>
                     (let r3 = kuma_do ke inst (DeleteMonitor monitor_id) (snd r2)
                      in (Inl err,
                          case fst r3 of
                            Inr _ \<Rightarrow> snd r3
                          | Inl _ \<Rightarrow> log_error ''Uptime Monitor: orphaned Kuma monitor after local save failure'' (snd r3)))))"

text \<open>Creating sites one after the other, each failure logged and collected.\<close>

fun create_all ::
    "kuma_env \<Rightarrow> (uptime_site \<Rightarrow> string) \<Rightarrow> (uptime_site \<Rightarrow> string) \<Rightarrow> uptime_site list \<Rightarrow> 'a uptime_db_scheme
      \<Rightarrow> (string list \<times> string list) \<times> 'a uptime_db_scheme" where
  "create_all ke title prefix [] st = (([], []), st)"
| "create_all ke title prefix (s # ss) st =
     (let r = create_site_on_instance ke s st
      in case fst r of
           Inr n \<Rightarrow> (let q = create_all ke title prefix ss (snd r) in ((n # fst (fst q), snd (fst q)), snd q))
         | Inl err \<Rightarrow>
             (let q = create_all ke title prefix ss (log_error (title s) (snd r))
              in ((fst (fst q), (prefix s @ '': '' @ err) # snd (fst q)), snd q)))"

definition add_site ::
    "kuma_env \<Rightarrow> bool \<Rightarrow> string \<Rightarrow> string \<Rightarrow> string option \<Rightarrow> string option \<Rightarrow> int option \<Rightarrow> int \<Rightarrow> bool
      \<Rightarrow> 'a uptime_db_scheme \<Rightarrow> (api_failure + string list \<times> string list) \<times> 'a uptime_db_scheme" where
  "add_site ke writer site_name monitor_type url host port interval active st =
     (if \<not> writer then (Inl NotPermitted, st)
      else let insts = enabled_instances st
           in if insts = [] then (Inl (Throw ''No enabled Uptime Kuma Instance to add this site to.''), st)
              else
                let r = create_all ke (\<lambda>s. ''Uptime Monitor: failed to add site on '' @ us_instance s) us_instance
                          (map (\<lambda>i. new_site i site_name monitor_type url host port interval active) insts) st
                in if fst (fst r) = []
                   then (Inl (Throw (''Failed to add this site to any instance: '' @ py_join ''; '' (snd (fst r)))),
                         uptime_rollback st (snd r))
                   else (Inr (fst r), snd r))"

subsection \<open>Importing monitors\<close>

definition imported_site :: "string \<Rightarrow> int \<Rightarrow> string \<Rightarrow> kuma_monitor \<Rightarrow> uptime_site" where
  "imported_site inst kuma_id monitor_type m =
     (new_site inst (km_name m) monitor_type (km_url m) (km_hostname m) (km_port m) (opt_int (km_interval m)) (km_active m))
       \<lparr>us_kuma_monitor_id := kuma_id\<rparr>"

definition already_imported :: "string \<Rightarrow> int \<Rightarrow> 'a uptime_db_scheme \<Rightarrow> bool" where
  "already_imported inst kuma_id st \<longleftrightarrow>
     list_ex (\<lambda>s. us_instance s = inst \<and> us_kuma_monitor_id s = kuma_id) (uptime_sites st)"

definition list_importable_monitors ::
    "kuma_env \<Rightarrow> bool \<Rightarrow> string \<Rightarrow> 'a uptime_db_scheme \<Rightarrow> api_failure + uptime_site list" where
  "list_importable_monitors ke reader inst st =
     (if \<not> reader then Inl NotPermitted
      else case kuma_list ke inst of
             Inl err \<Rightarrow> Inl (Throw (failure_text err))
           | Inr ms \<Rightarrow>
               Inr (List.map_filter (\<lambda>(kuma_id, m).
                      if already_imported inst kuma_id st then None
                      else map_option (\<lambda>ty. (imported_site inst kuma_id ty m)\<lparr>us_port := km_port m\<rparr>) (MONITOR_TYPE_FROM_KUMA (km_type m))) ms))"

text \<open>A save that raises ends the import: the error leaves with the state reached.\<close>

fun import_monitors_from_map ::
    "kuma_env \<Rightarrow> string \<Rightarrow> (int \<times> kuma_monitor) list \<Rightarrow> int list \<Rightarrow> 'a uptime_db_scheme
      \<Rightarrow> (string + string list \<times> string list) \<times> 'a uptime_db_scheme" where
  "import_monitors_from_map ke inst monitors [] st = (Inr ([], []), st)"
| "import_monitors_from_map ke inst monitors (kuma_id # ids) st =
     (let skip = (\<lambda>reason. let q = import_monitors_from_map ke inst monitors ids st
                            in (map_sum id (\<lambda>(c, s). (c, reason # s)) (fst q), snd q))
      in case map_of monitors kuma_id of
           None \<Rightarrow> skip (''Monitor '' @ show_int kuma_id @ '': no longer exists on Kuma'')
         | Some m \<Rightarrow>
             (case MONITOR_TYPE_FROM_KUMA (km_type m) of
                None \<Rightarrow> skip (km_name m @ '': unsupported monitor type '' @ [CHR 0x27] @ km_type m @ [CHR 0x27])
              | Some ty \<Rightarrow>
                  if already_imported inst kuma_id st then skip (km_name m @ '': already imported'')
                  else let r = insert_site ke (imported_site inst kuma_id ty m) st
                       in case fst r of
                            Inl err \<Rightarrow> (Inl err, snd r)
                          | Inr n \<Rightarrow>
                              (let q = import_monitors_from_map ke inst monitors ids (snd r)
                               in (map_sum id (\<lambda>(c, s). (n # c, s)) (fst q), snd q))))"

definition import_monitors ::
    "kuma_env \<Rightarrow> bool \<Rightarrow> string \<Rightarrow> int list \<Rightarrow> 'a uptime_db_scheme
      \<Rightarrow> (api_failure + string list \<times> string list) \<times> 'a uptime_db_scheme" where
  "import_monitors ke writer inst kuma_monitor_ids st =
     (if \<not> writer then (Inl NotPermitted, st)
      else case kuma_list ke inst of
             Inl err \<Rightarrow> (Inl (Throw (failure_text err)), st)
           | Inr monitors \<Rightarrow>
               (let r = import_monitors_from_map ke inst monitors kuma_monitor_ids st in (map_sum Throw id (fst r), snd r)))"

definition auto_import_new_monitors ::
    "kuma_env \<Rightarrow> string \<Rightarrow> 'a uptime_db_scheme \<Rightarrow> (kuma_failure + string list \<times> string list) \<times> 'a uptime_db_scheme" where
  "auto_import_new_monitors ke inst st =
     (case kuma_list ke inst of
        Inl err \<Rightarrow> (Inl err, st)
      | Inr monitors \<Rightarrow>
          (let r = import_monitors_from_map ke inst monitors (map fst monitors) st in (map_sum OtherError id (fst r), snd r)))"

text \<open>The rows come in the order they were created, so the first of a name is the oldest.\<close>

definition site_templates :: "string \<Rightarrow> 'a uptime_db_scheme \<Rightarrow> uptime_site list" where
  "site_templates inst st =
     (let others = filter (\<lambda>n. n \<noteq> inst) (enabled_instances st);
          rows = filter (\<lambda>s. us_instance s \<in> set others) (uptime_sites st)
      in map (\<lambda>(n, g). hd g) (group_rows us_site_name rows))"

definition sync_missing_sites_to_instance ::
    "kuma_env \<Rightarrow> string \<Rightarrow> 'a uptime_db_scheme \<Rightarrow> (string list \<times> string list) \<times> 'a uptime_db_scheme" where
  "sync_missing_sites_to_instance ke inst st =
     (let existing_here = map us_site_name (filter (\<lambda>s. us_instance s = inst) (uptime_sites st))
      in if filter (\<lambda>n. n \<noteq> inst) (enabled_instances st) = [] then (([], []), st)
         else create_all ke (\<lambda>s. ''Uptime Monitor: failed to sync '' @ [CHR 0x27] @ us_site_name s @ [CHR 0x27] @ '' onto '' @ inst) us_site_name
                (map (\<lambda>s. new_site inst (us_site_name s) (us_monitor_type s) (us_url s) (us_hostname s) (us_port s)
                            (us_check_interval_seconds s) (us_is_active s))
                   (filter (\<lambda>s. us_site_name s \<notin> set existing_here) (site_templates inst st))) st)"


subsection \<open>Changes that go out to all siblings\<close>

record fan_result =
  fan_done :: "string list"
  fan_errors :: "string list"
  fan_notes :: "string list"

definition sibling_names :: "string \<Rightarrow> 'a uptime_db_scheme \<Rightarrow> string list" where
  "sibling_names site_name st = map us_name (filter (\<lambda>s. us_site_name s = site_name) (uptime_sites st))"

definition local_only_note :: "string \<Rightarrow> string" where
  "local_only_note inst = inst @ '' is disabled '' @ utf8_dash @ '' changed in Pulse only, not on Uptime Kuma''"

text \<open>
  The loop over the siblings. One step gives the error it raised, if any, and the notes it had added by
  then; a step that raises is logged under the action's name and collected.
\<close>

fun fan_out ::
    "string \<Rightarrow> (string \<Rightarrow> 'a uptime_db_scheme \<Rightarrow> (string option \<times> string list) \<times> 'a uptime_db_scheme) \<Rightarrow> string list
      \<Rightarrow> 'a uptime_db_scheme \<Rightarrow> fan_result \<times> 'a uptime_db_scheme" where
  "fan_out action f [] st = (\<lparr>fan_done = [], fan_errors = [], fan_notes = []\<rparr>, st)"
| "fan_out action f (n # ns) st =
     (let r = f n st; notes = snd (fst r)
      in case fst (fst r) of
           None \<Rightarrow>
             (let q = fan_out action f ns (snd r)
              in ((fst q)\<lparr>fan_done := n # fan_done (fst q), fan_notes := notes @ fan_notes (fst q)\<rparr>, snd q))
         | Some err \<Rightarrow>
             (let q = fan_out action f ns
                        (log_error (''Uptime Monitor: failed to '' @ action @ '' sibling '' @ n) (snd r))
              in ((fst q)\<lparr>fan_errors := (n @ '': '' @ err) # fan_errors (fst q), fan_notes := notes @ fan_notes (fst q)\<rparr>, snd q)))"

text \<open>Telling Kuma, unless the instance is disabled; the note says so.\<close>

definition tell_kuma ::
    "kuma_env \<Rightarrow> string list \<Rightarrow> string \<Rightarrow> kuma_op \<Rightarrow> 'a uptime_db_scheme
      \<Rightarrow> (string option \<times> string list) \<times> 'a uptime_db_scheme" where
  "tell_kuma ke disabled inst op st =
     (if inst \<in> set disabled then ((None, [local_only_note inst]), st)
      else let r = kuma_do ke inst op st in ((case fst r of Inl err \<Rightarrow> Some err | Inr _ \<Rightarrow> None, []), snd r))"

definition set_active :: "string \<Rightarrow> bool \<Rightarrow> 'a uptime_db_scheme \<Rightarrow> 'a uptime_db_scheme" where
  "set_active n b st =
     st\<lparr>uptime_sites := map (\<lambda>s. if us_name s = n then s\<lparr>us_is_active := b\<rparr> else s) (uptime_sites st)\<rparr>"

definition switch_sibling ::
    "kuma_env \<Rightarrow> string list \<Rightarrow> bool \<Rightarrow> string \<Rightarrow> 'a uptime_db_scheme \<Rightarrow> (string option \<times> string list) \<times> 'a uptime_db_scheme" where
  "switch_sibling ke disabled b n st =
     (case find_row us_name n (uptime_sites st) of
        None \<Rightarrow> ((Some (''Uptime Site '' @ n @ '' not found''), []), st)
      | Some sibling \<Rightarrow>
          (let r = tell_kuma ke disabled (us_instance sibling)
                     ((if b then ResumeMonitor else PauseMonitor) (us_kuma_monitor_id sibling)) st
           in if fst (fst r) = None then (fst r, set_active n b (snd r)) else r))"

definition site_name_of :: "string \<Rightarrow> 'a uptime_db_scheme \<Rightarrow> string" where
  "site_name_of n st = (case find_row us_name n (uptime_sites st) of None \<Rightarrow> [] | Some s \<Rightarrow> us_site_name s)"

definition pause_site ::
    "kuma_env \<Rightarrow> bool \<Rightarrow> string \<Rightarrow> 'a uptime_db_scheme \<Rightarrow> (api_failure + fan_result) \<times> 'a uptime_db_scheme" where
  "pause_site ke writer n st =
     (if \<not> writer then (Inl NotPermitted, st)
      else let r = fan_out ''pause'' (switch_sibling ke (disabled_instances st) False) (sibling_names (site_name_of n st) st) st
           in (Inr (fst r), snd r))"

definition resume_site ::
    "kuma_env \<Rightarrow> bool \<Rightarrow> string \<Rightarrow> 'a uptime_db_scheme \<Rightarrow> (api_failure + fan_result) \<times> 'a uptime_db_scheme" where
  "resume_site ke writer n st =
     (if \<not> writer then (Inl NotPermitted, st)
      else let r = fan_out ''resume'' (switch_sibling ke (disabled_instances st) True) (sibling_names (site_name_of n st) st) st
           in (Inr (fst r), snd r))"

definition remove_site :: "string \<Rightarrow> 'a uptime_db_scheme \<Rightarrow> 'a uptime_db_scheme" where
  "remove_site n st =
     st\<lparr>check_logs := filter (\<lambda>c. cl_site c \<noteq> n) (check_logs st),
        uptime_sites := filter (\<lambda>s. us_name s \<noteq> n) (uptime_sites st)\<rparr>"

definition delete_sibling ::
    "kuma_env \<Rightarrow> string list \<Rightarrow> string \<Rightarrow> 'a uptime_db_scheme \<Rightarrow> (string option \<times> string list) \<times> 'a uptime_db_scheme" where
  "delete_sibling ke disabled n st =
     (case find_row us_name n (uptime_sites st) of
        None \<Rightarrow> ((Some (''Uptime Site '' @ n @ '' not found''), []), st)
      | Some sibling \<Rightarrow>
          (let r = tell_kuma ke disabled (us_instance sibling) (DeleteMonitor (us_kuma_monitor_id sibling)) (remove_site n st)
           in if fst (fst r) = None then r else (fst r, uptime_rollback st (snd r))))"

definition delete_site ::
    "kuma_env \<Rightarrow> bool \<Rightarrow> string \<Rightarrow> 'a uptime_db_scheme \<Rightarrow> (api_failure + fan_result) \<times> 'a uptime_db_scheme" where
  "delete_site ke writer n st =
     (if \<not> writer then (Inl NotPermitted, st)
      else
        let site_name = site_name_of n st;
            r = fan_out ''delete'' (delete_sibling ke (disabled_instances st)) (sibling_names site_name st) st;
            st1 = snd r
        in (Inr (fst r),
            if sibling_names site_name st1 = []
            then st1\<lparr>maintenance_windows := filter (\<lambda>w. w_site_name w \<noteq> site_name) (maintenance_windows st1)\<rparr> else st1))"

text \<open>The fields an edit may set; one that is not given stays.\<close>

record site_edit =
  ed_site_name :: "string option"
  ed_url :: "string option"
  ed_hostname :: "string option"
  ed_port :: "int option"
  ed_check_interval_seconds :: "int option"
  ed_is_active :: "bool option"

definition or_keep :: "'v option \<Rightarrow> 'v \<Rightarrow> 'v" where
  "or_keep x d = (case x of None \<Rightarrow> d | Some v \<Rightarrow> v)"

definition apply_edit :: "site_edit \<Rightarrow> uptime_site \<Rightarrow> uptime_site" where
  "apply_edit ed s =
     s\<lparr>us_site_name := or_keep (ed_site_name ed) (us_site_name s),
       us_url := (case ed_url ed of None \<Rightarrow> us_url s | Some u \<Rightarrow> Some u),
       us_hostname := (case ed_hostname ed of None \<Rightarrow> us_hostname s | Some h \<Rightarrow> Some h),
       us_port := (case ed_port ed of None \<Rightarrow> us_port s | Some p \<Rightarrow> Some p),
       us_check_interval_seconds := or_keep (ed_check_interval_seconds ed) (us_check_interval_seconds s),
       us_is_active := or_keep (ed_is_active ed) (us_is_active s)\<rparr>"

definition edit_sibling ::
    "kuma_env \<Rightarrow> string list \<Rightarrow> string \<Rightarrow> site_edit \<Rightarrow> string \<Rightarrow> 'a uptime_db_scheme \<Rightarrow> (string option \<times> string list) \<times> 'a uptime_db_scheme" where
  "edit_sibling ke disabled original_name ed n st =
     (case find_row us_name n (uptime_sites st) of
        None \<Rightarrow> ((Some (''Uptime Site '' @ n @ '' not found''), []), st)
      | Some s \<Rightarrow>
          (let site = apply_edit ed s;
               r = tell_kuma ke disabled (us_instance site) (EditMonitor (us_kuma_monitor_id site) site) st
           in if fst (fst r) \<noteq> None then r
              else case site_save_error ke site of
                     Some err \<Rightarrow> ((Some err, snd (fst r)), snd r)
                   | None \<Rightarrow>
                       (let st1 = (snd r)\<lparr>uptime_sites := put_row us_name site (uptime_sites (snd r))\<rparr>
                        in (fst r,
                            if truthy (ed_site_name ed) \<and> opt_str (ed_site_name ed) \<noteq> original_name
                            then st1\<lparr>maintenance_windows := map (\<lambda>w. if w_site_name w = original_name
                                   then w\<lparr>w_site_name := opt_str (ed_site_name ed)\<rparr> else w) (maintenance_windows st1)\<rparr>
                            else st1))))"

definition edit_site ::
    "kuma_env \<Rightarrow> bool \<Rightarrow> string \<Rightarrow> site_edit \<Rightarrow> 'a uptime_db_scheme \<Rightarrow> (api_failure + fan_result) \<times> 'a uptime_db_scheme" where
  "edit_site ke writer n ed st =
     (if \<not> writer then (Inl NotPermitted, st)
      else case find_row us_name n (uptime_sites st) of
             None \<Rightarrow> (Inl (Throw (''Uptime Site '' @ n @ '' not found'')), st)
           | Some original \<Rightarrow>
               (let r = fan_out ''edit'' (edit_sibling ke (disabled_instances st) (us_site_name original) ed)
                          (sibling_names (us_site_name original) st) st
                in (Inr (fst r), snd r)))"

subsection \<open>The check interval\<close>

definition out_of_sync :: "int \<Rightarrow> 'a uptime_db_scheme \<Rightarrow> uptime_site list" where
  "out_of_sync target st = filter (\<lambda>s. us_check_interval_seconds s \<noteq> target) (uptime_sites st)"

fun sync_rows ::
    "kuma_env \<Rightarrow> int \<Rightarrow> string \<Rightarrow> uptime_site list \<Rightarrow> 'a uptime_db_scheme \<Rightarrow> (string list \<times> string list) \<times> 'a uptime_db_scheme" where
  "sync_rows ke target inst [] st = (([], []), st)"
| "sync_rows ke target inst (row # rows) st =
     (case find_row us_name (us_name row) (uptime_sites st) of
        None \<Rightarrow>
          (let q = sync_rows ke target inst rows
             (log_error (''Uptime Monitor: failed to sync check interval for '' @ [CHR 0x27] @ us_site_name row @ [CHR 0x27] @ '' on '' @ inst) st)
           in ((fst (fst q), us_name row # snd (fst q)), snd q))
      | Some site \<Rightarrow>
          (let site1 = site\<lparr>us_check_interval_seconds := target\<rparr>;
               r = kuma_do ke inst (EditMonitor (us_kuma_monitor_id site1) site1) st
           in case fst r of
                Inr _ \<Rightarrow>
                  (let q = sync_rows ke target inst rows
                     ((snd r)\<lparr>uptime_sites := map (\<lambda>s. if us_name s = us_name site1
                        then s\<lparr>us_check_interval_seconds := target\<rparr> else s) (uptime_sites (snd r))\<rparr>)
                   in ((us_name site1 # fst (fst q), snd (fst q)), snd q))
              | Inl _ \<Rightarrow>
                  (let q = sync_rows ke target inst rows
                     (log_error (''Uptime Monitor: failed to sync check interval for '' @ [CHR 0x27] @ us_site_name row @ [CHR 0x27] @ '' on '' @ inst) (snd r))
                   in ((fst (fst q), us_name row # snd (fst q)), snd q))))"

definition sync_check_interval_to_all_sites ::
    "kuma_env \<Rightarrow> (string \<Rightarrow> bool) \<Rightarrow> 'a uptime_db_scheme \<Rightarrow> (string list \<times> string list) \<times> 'a uptime_db_scheme" where
  "sync_check_interval_to_all_sites ke connects st =
     (let target = or_int (up_heartbeat_interval_seconds (uptime_settings st)) 60;
          by_instance = group_rows us_instance
            (filter (\<lambda>s. us_instance s \<notin> set (disabled_instances st)) (out_of_sync target st))
      in fold (\<lambda>(inst, rows) acc.
           if connects inst
           then (let q = sync_rows ke target inst rows (snd acc)
                 in ((fst (fst acc) @ fst (fst q), snd (fst acc) @ snd (fst q)), snd q))
           else ((fst (fst acc), snd (fst acc) @ map us_name rows),
                 log_error (''Uptime Monitor: failed to connect to '' @ inst @ '' for check interval sync'') (snd acc)))
         by_instance (([], []), st))"

subsection \<open>Status and uptime figures\<close>

definition group_status :: "uptime_site list \<Rightarrow> bool \<Rightarrow> string" where
  "group_status siblings in_window =
     (let active = filter us_is_active siblings
      in if in_window then ''Maintenance''
         else if active = [] then ''Paused''
         else if list_ex us_is_critical siblings then ''Down''
         else let down = filter (\<lambda>s. us_current_status s = ''Down'') active
              in if down = [] then ''Up''
                 else if length down = length active then ''Down'' else ''Partial'')"

record uptime_summary =
  sm_total_checks :: nat
  sm_uptime_percent :: "rat option"
  sm_avg_response_time_ms :: rat

definition avg_response :: "check_log list \<Rightarrow> rat" where
  "avg_response rows =
     (let ts = List.map_filter cl_response_time_ms rows
      in if ts = [] then 0 else py_round_nd 1 (sum_list ts / of_nat (length ts)))"

definition uptime_percent :: "check_log list \<Rightarrow> rat option" where
  "uptime_percent rows =
     (if rows = [] then None
      else Some (py_round_nd 2 (of_nat (length (filter cl_is_up rows)) / of_nat (length rows) * 100)))"

definition get_uptime_summary ::
    "poll_env \<Rightarrow> bool \<Rightarrow> string option \<Rightarrow> int \<Rightarrow> 'a uptime_db_scheme \<Rightarrow> api_failure + uptime_summary" where
  "get_uptime_summary pe reader site days st =
     (if \<not> reader then Inl NotPermitted
      else let start = clock pe - (if days = 0 then 7 else days) * DAY;
               rows = filter (\<lambda>c. cl_checked_at c \<ge> start \<and> \<not> cl_in_maintenance c \<and>
                        (truthy site \<longrightarrow> cl_site c = opt_str site)) (check_logs st)
           in Inr \<lparr>sm_total_checks = length rows, sm_uptime_percent = uptime_percent rows,
                   sm_avg_response_time_ms = avg_response rows\<rparr>)"

definition get_uptime_history ::
    "poll_env \<Rightarrow> bool \<Rightarrow> string \<Rightarrow> int \<Rightarrow> 'a uptime_db_scheme \<Rightarrow> api_failure + (date \<times> rat option \<times> rat) list" where
  "get_uptime_history pe reader site days st =
     (if \<not> reader then Inl NotPermitted
      else let start = clock pe - (if days = 0 then 7 else days) * DAY;
               rows = filter (\<lambda>c. cl_site c = site \<and> cl_checked_at c \<ge> start \<and> \<not> cl_in_maintenance c) (check_logs st)
           in Inr (map (\<lambda>(d, g). (d, uptime_percent g, avg_response g))
                (sort_key fst (group_rows (\<lambda>c. date_of (cl_checked_at c)) rows))))"

subsection \<open>Disabled instances are never contacted\<close>

definition calls_only :: "(string \<Rightarrow> bool) \<Rightarrow> 'a uptime_db_scheme \<Rightarrow> 'a uptime_db_scheme \<Rightarrow> bool" where
  "calls_only ok st st' \<longleftrightarrow> (\<exists>calls. kuma_calls st' = kuma_calls st @ calls \<and> list_all (\<lambda>(inst, op). ok inst) calls)"

lemma calls_only_refl: "kuma_calls st' = kuma_calls st \<Longrightarrow> calls_only ok st st'"
  by (simp add: calls_only_def)

lemma calls_only_trans: "calls_only ok s t \<Longrightarrow> calls_only ok t u \<Longrightarrow> calls_only ok s u"
  by (auto simp: calls_only_def)

lemma calls_only_same: "kuma_calls t' = kuma_calls t \<Longrightarrow> calls_only ok s t' = calls_only ok s t"
  by (simp add: calls_only_def)

lemma kuma_do_calls: "ok inst \<Longrightarrow> calls_only ok st (snd (kuma_do ke inst op st))"
  by (simp add: calls_only_def kuma_do_def)

lemma tell_kuma_calls: "calls_only (\<lambda>i. i \<notin> set D) st (snd (tell_kuma ke D inst op st))"
  by (auto simp: tell_kuma_def Let_def intro: calls_only_refl kuma_do_calls)

lemma fan_out_calls:
  assumes step: "\<And>n st. calls_only ok st (snd (f n st))"
  shows "calls_only ok st (snd (fan_out action f ns st))"
proof (induction ns arbitrary: st)
  case (Cons n ns)
  let ?s = "snd (f n st)" and ?e = "log_error (''Uptime Monitor: failed to '' @ action @ '' sibling '' @ n) (snd (f n st))"
  have "calls_only ok st ?e" using step [of st n] by (simp add: calls_only_def)
  then show ?case
    using Cons.IH [of ?s] Cons.IH [of ?e] step [of st n]
    by (auto simp: Let_def split: option.split intro: calls_only_trans)
qed (simp add: calls_only_def)

lemma set_active_calls [simp]: "kuma_calls (set_active n b st) = kuma_calls st"
  by (simp add: set_active_def)

lemma remove_site_calls [simp]: "kuma_calls (remove_site n st) = kuma_calls st"
  by (simp add: remove_site_def)

lemma uptime_rollback_calls [simp]: "kuma_calls (uptime_rollback c st) = kuma_calls st"
  by (simp add: uptime_rollback_def)

lemma switch_sibling_calls: "calls_only (\<lambda>i. i \<notin> set D) st (snd (switch_sibling ke D b n st))"
  by (auto simp: switch_sibling_def Let_def calls_only_refl tell_kuma_calls calls_only_same [OF set_active_calls]
      split: option.split)

lemma delete_sibling_calls: "calls_only (\<lambda>i. i \<notin> set D) st (snd (delete_sibling ke D n st))"
proof -
  have "calls_only (\<lambda>i. i \<notin> set D) st (snd (tell_kuma ke D inst op (remove_site n st)))" for inst op
    using tell_kuma_calls [of D "remove_site n st" ke inst op] by (simp add: calls_only_def)
  then show ?thesis
    by (auto simp: delete_sibling_def Let_def calls_only_refl calls_only_same [OF uptime_rollback_calls] split: option.split)
qed

lemma edit_sibling_calls: "calls_only (\<lambda>i. i \<notin> set D) st (snd (edit_sibling ke D old ed n st))"
proof -
  have "calls_only (\<lambda>i. i \<notin> set D) st (snd (tell_kuma ke D inst op st))" for inst op
    by (rule tell_kuma_calls)
  then show ?thesis
    by (auto simp: edit_sibling_def Let_def calls_only_def split: option.split)
qed

lemma sync_rows_calls: "ok inst \<Longrightarrow> calls_only ok st (snd (sync_rows ke target inst rows st))"
proof (induction rows arbitrary: st)
  case (Cons row rows)
  have IH: "calls_only ok st (snd (sync_rows ke target inst rows t))"
    if "kuma_calls t = kuma_calls st @ calls" "set calls \<subseteq> {inst} \<times> UNIV" for t calls
  proof -
    have "calls_only ok st t" using that Cons.prems by (auto simp: calls_only_def list_all_iff)
    from calls_only_trans [OF this Cons.IH [OF Cons.prems]] show ?thesis .
  qed
  note same = IH [where calls = "[]", simplified] and one = IH [where calls = "[(inst, op)]" for op, simplified]
  show ?case
  proof (cases "find_row us_name (us_name row) (uptime_sites st)")
    case None
    then show ?thesis by (simp add: Let_def same)
  next
    case (Some site)
    then show ?thesis by (auto simp: Let_def kuma_do_def split: sum.split intro!: one)
  qed
qed (simp add: calls_only_def)

lemma sync_check_interval_calls:
  fixes st :: "'a uptime_db_scheme"
  shows "calls_only (\<lambda>i. i \<notin> set (disabled_instances st)) st (snd (sync_check_interval_to_all_sites ke connects st))"
proof -
  define D where "D = set (disabled_instances st)"
  define target where "target = or_int (up_heartbeat_interval_seconds (uptime_settings st)) 60"
  have keys: "inst \<notin> D" if "(inst, rows) \<in> set (group_rows us_instance (filter (\<lambda>s. us_instance s \<notin> D) xs))" for inst rows xs
    using group_rows_mem [OF that] by (auto simp: filter_empty_conv)
  show ?thesis
    unfolding sync_check_interval_to_all_sites_def Let_def target_def [symmetric] D_def [symmetric]
  proof (rule fold_invariant [where I = "\<lambda>acc. calls_only (\<lambda>i. i \<notin> D) st (snd acc)"], goal_cases)
    case (1 g acc)
    obtain inst rows where [simp]: "g = (inst, rows)" by (cases g)
    have "calls_only (\<lambda>i. i \<notin> D) (snd acc) (snd (sync_rows ke target inst rows (snd acc)))"
      by (rule sync_rows_calls) (use 1(1) keys in simp)
    from calls_only_trans [OF 1(2) this] 1(2) show ?case by (auto simp: calls_only_def)
  qed (simp add: calls_only_def)
qed

text \<open>C11: A disabled Kuma instance is never contacted: pausing, resuming, editing and deleting a site and
  pushing the check interval only add calls to instances that are not disabled, whatever the
  tables hold and whatever the Kuma servers answer.\<close>

theorem disabled_instances_never_contacted:
  "calls_only (\<lambda>i. i \<notin> set (disabled_instances st)) st (snd (pause_site ke writer n st)) \<and>
   calls_only (\<lambda>i. i \<notin> set (disabled_instances st)) st (snd (resume_site ke writer n st)) \<and>
   calls_only (\<lambda>i. i \<notin> set (disabled_instances st)) st (snd (edit_site ke writer n ed st)) \<and>
   calls_only (\<lambda>i. i \<notin> set (disabled_instances st)) st (snd (delete_site ke writer n st)) \<and>
   calls_only (\<lambda>i. i \<notin> set (disabled_instances st)) st (snd (sync_check_interval_to_all_sites ke connects st))"
proof (intro conjI)
  show "calls_only (\<lambda>i. i \<notin> set (disabled_instances st)) st (snd (pause_site ke writer n st))"
    and "calls_only (\<lambda>i. i \<notin> set (disabled_instances st)) st (snd (resume_site ke writer n st))"
    by (auto simp: pause_site_def resume_site_def Let_def calls_only_refl intro!: fan_out_calls switch_sibling_calls)
  show "calls_only (\<lambda>i. i \<notin> set (disabled_instances st)) st (snd (edit_site ke writer n ed st))"
    by (auto simp: edit_site_def Let_def calls_only_refl split: option.split intro!: fan_out_calls edit_sibling_calls)
  show "calls_only (\<lambda>i. i \<notin> set (disabled_instances st)) st (snd (delete_site ke writer n st))"
    using fan_out_calls [OF delete_sibling_calls, of "disabled_instances st" st]
    by (auto simp: delete_site_def Let_def calls_only_def)
  show "calls_only (\<lambda>i. i \<notin> set (disabled_instances st)) st (snd (sync_check_interval_to_all_sites ke connects st))"
    by (rule sync_check_interval_calls)
qed


subsection \<open>Deleting keeps Pulse and Kuma in step\<close>

text \<open>What the deletion of one site comes to: a disabled instance is not asked, another one may refuse.\<close>

definition kuma_agrees :: "kuma_env \<Rightarrow> string list \<Rightarrow> uptime_site \<Rightarrow> bool" where
  "kuma_agrees ke D s \<longleftrightarrow> us_instance s \<in> set D \<or> \<not> isl (kuma_call ke (us_instance s) (DeleteMonitor (us_kuma_monitor_id s)))"

lemma eq_filter_conv: "xs = filter P xs \<longleftrightarrow> (\<forall>x\<in>set xs. P x)"
  by (metis filter_id_conv)

lemma delete_sibling_rows:
  assumes "distinct (map us_name (uptime_sites st))"
  shows "uptime_sites (snd (delete_sibling ke D n st)) = filter (\<lambda>s. \<not> (us_name s = n \<and> kuma_agrees ke D s)) (uptime_sites st)"
    and "check_logs (snd (delete_sibling ke D n st)) =
           filter (\<lambda>c. \<not> (cl_site c = n \<and> (\<exists>s\<in>set (uptime_sites st). us_name s = n \<and> kuma_agrees ke D s))) (check_logs st)"
    and "maintenance_windows (snd (delete_sibling ke D n st)) = maintenance_windows st"
    and "alert_log (snd (delete_sibling ke D n st)) = alert_log st"
proof -
  have one: "t = s" if "s \<in> set (uptime_sites st)" "t \<in> set (uptime_sites st)" "us_name s = us_name t" for s t
    using assms that by (auto simp: distinct_map inj_on_def)
  have "uptime_sites (snd (delete_sibling ke D n st)) = filter (\<lambda>s. \<not> (us_name s = n \<and> kuma_agrees ke D s)) (uptime_sites st) \<and>
    check_logs (snd (delete_sibling ke D n st)) =
      filter (\<lambda>c. \<not> (cl_site c = n \<and> (\<exists>s\<in>set (uptime_sites st). us_name s = n \<and> kuma_agrees ke D s))) (check_logs st) \<and>
    maintenance_windows (snd (delete_sibling ke D n st)) = maintenance_windows st \<and>
    alert_log (snd (delete_sibling ke D n st)) = alert_log st"
  proof (cases "find_row us_name n (uptime_sites st)")
    case None
    then have "us_name s \<noteq> n" if "s \<in> set (uptime_sites st)" for s using that by (auto simp: find_row_None)
    with None show ?thesis by (auto simp: delete_sibling_def filter_id_conv)
  next
    case (Some s)
    note fs = find_row_Some [OF this]
    then have eq: "us_name t = n \<and> kuma_agrees ke D t \<longleftrightarrow> us_name t = n \<and> kuma_agrees ke D s" if "t \<in> set (uptime_sites st)" for t
      using one that by auto
    from fs have "\<exists>t\<in>set (uptime_sites st). us_name t = n" by blast
    then show ?thesis
      using Some fs
      by (auto simp: delete_sibling_def tell_kuma_def kuma_do_def remove_site_def uptime_rollback_def Let_def kuma_agrees_def
          filter_id_conv eq_filter_conv split: sum.splits dest: one intro!: filter_cong)
  qed
  then show "uptime_sites (snd (delete_sibling ke D n st)) = filter (\<lambda>s. \<not> (us_name s = n \<and> kuma_agrees ke D s)) (uptime_sites st)"
    and "check_logs (snd (delete_sibling ke D n st)) =
           filter (\<lambda>c. \<not> (cl_site c = n \<and> (\<exists>s\<in>set (uptime_sites st). us_name s = n \<and> kuma_agrees ke D s))) (check_logs st)"
    and "maintenance_windows (snd (delete_sibling ke D n st)) = maintenance_windows st"
    and "alert_log (snd (delete_sibling ke D n st)) = alert_log st"
    by blast+
qed


lemma fan_out_delete_rows:
  assumes "distinct (map us_name (uptime_sites st))"
  shows "uptime_sites (snd (fan_out a (delete_sibling ke D) ns st)) =
           filter (\<lambda>s. \<not> (us_name s \<in> set ns \<and> kuma_agrees ke D s)) (uptime_sites st) \<and>
         check_logs (snd (fan_out a (delete_sibling ke D) ns st)) =
           filter (\<lambda>c. \<not> (\<exists>s\<in>set (uptime_sites st). us_name s = cl_site c \<and> us_name s \<in> set ns \<and> kuma_agrees ke D s)) (check_logs st) \<and>
         maintenance_windows (snd (fan_out a (delete_sibling ke D) ns st)) = maintenance_windows st \<and>
         alert_log (snd (fan_out a (delete_sibling ke D) ns st)) = alert_log st"
  using assms
proof (induction ns arbitrary: st)
  case (Cons n ns)
  note step = delete_sibling_rows [OF Cons.prems, of ke D n]
  define t where "t = (if fst (fst (delete_sibling ke D n st)) = None then snd (delete_sibling ke D n st)
    else log_error (''Uptime Monitor: failed to '' @ a @ '' sibling '' @ n) (snd (delete_sibling ke D n st)))"
  have t: "uptime_sites t = filter (\<lambda>s. \<not> (us_name s = n \<and> kuma_agrees ke D s)) (uptime_sites st)"
    "check_logs t = filter (\<lambda>c. \<not> (cl_site c = n \<and> (\<exists>s\<in>set (uptime_sites st). us_name s = n \<and> kuma_agrees ke D s))) (check_logs st)"
    "maintenance_windows t = maintenance_windows st" "alert_log t = alert_log st"
    using step by (simp_all add: t_def log_error_def)
  have run: "snd (fan_out a (delete_sibling ke D) (n # ns) st) = snd (fan_out a (delete_sibling ke D) ns t)"
    by (auto simp: t_def Let_def split: option.split)
  have "distinct (map us_name (uptime_sites t))" using Cons.prems t(1) by (simp add: distinct_map_filter)
  from Cons.IH [OF this] show ?case
    unfolding run t by (auto intro!: filter_cong)
qed (simp add: filter_True)

text \<open>C10: Deleting a site keeps Pulse and Kuma in step. Of the rows of that site name exactly those stay whose
  instance is enabled and refused the deletion; every other row stays as it was. The check history goes
  with the rows that go, the maintenance windows go only when no row of the name is left, and
  the alert log is not touched.\<close>

theorem delete_site_in_step:
  assumes "distinct (map us_name (uptime_sites st))"
  shows "let st' = snd (delete_site ke True n st); name = site_name_of n st;
             gone = (\<lambda>s. us_site_name s = name \<and> kuma_agrees ke (disabled_instances st) s)
         in uptime_sites st' = filter (\<lambda>s. \<not> gone s) (uptime_sites st) \<and>
            check_logs st' = filter (\<lambda>c. \<not> list_ex (\<lambda>s. us_name s = cl_site c \<and> gone s) (uptime_sites st)) (check_logs st) \<and>
            maintenance_windows st' =
              (if list_ex (\<lambda>s. us_site_name s = name \<and> \<not> gone s) (uptime_sites st) then maintenance_windows st
               else filter (\<lambda>w. w_site_name w \<noteq> name) (maintenance_windows st)) \<and>
            alert_log st' = alert_log st"
proof -
  define D where "D = disabled_instances st"
  define name where "name = site_name_of n st"
  let ?r = "fan_out ''delete'' (delete_sibling ke D) (sibling_names name st) st"
  have sib: "us_name s \<in> set (sibling_names name st) \<longleftrightarrow> us_site_name s = name" if "s \<in> set (uptime_sites st)" for s
    using that assms by (auto simp: sibling_names_def distinct_map inj_on_def)
  from fan_out_delete_rows [OF assms, of "''delete''" ke D "sibling_names name st"]
  have rows: "uptime_sites (snd ?r) = filter (\<lambda>s. \<not> (us_site_name s = name \<and> kuma_agrees ke D s)) (uptime_sites st)"
    and logs: "check_logs (snd ?r) =
      filter (\<lambda>c. \<not> list_ex (\<lambda>s. us_name s = cl_site c \<and> us_site_name s = name \<and> kuma_agrees ke D s) (uptime_sites st)) (check_logs st)"
    and rest: "maintenance_windows (snd ?r) = maintenance_windows st" "alert_log (snd ?r) = alert_log st"
    using sib by (auto simp: list_ex_iff intro!: filter_cong)
  have empty: "sibling_names name (snd ?r) = [] \<longleftrightarrow>
      \<not> list_ex (\<lambda>s. us_site_name s = name \<and> \<not> (us_site_name s = name \<and> kuma_agrees ke D s)) (uptime_sites st)"
    unfolding sibling_names_def [of name "snd ?r"] rows by (auto simp: filter_empty_conv list_ex_iff)
  have run: "snd (delete_site ke True n st) =
      (if sibling_names name (snd ?r) = []
       then (snd ?r)\<lparr>maintenance_windows := filter (\<lambda>w. w_site_name w \<noteq> name) (maintenance_windows (snd ?r))\<rparr> else snd ?r)"
    by (simp add: delete_site_def Let_def D_def name_def)
  show ?thesis
    unfolding run Let_def D_def [symmetric] name_def [symmetric] using rows logs rest empty by simp
qed

definition demo_site :: "string \<Rightarrow> string \<Rightarrow> int \<Rightarrow> uptime_site" where
  "demo_site n inst kuma_id =
     (new_site inst ''shop'' ''HTTP(s)'' (Some ''https://shop'') None None 60 True)\<lparr>us_name := n, us_kuma_monitor_id := kuma_id\<rparr>"

definition demo_instance :: "string \<Rightarrow> bool \<Rightarrow> kuma_instance" where
  "demo_instance n b = \<lparr>ki_name = n, ki_enabled = b, ki_last_synced = None, ki_last_error = [], ki_last_auto_import = None,
     ki_last_auto_import_error = []\<rparr>"

definition demo_uptime_settings :: uptime_settings where
  "demo_uptime_settings = \<lparr>up_poll_interval_seconds = Some 60, up_alert_window_checks = Some 3, up_heartbeat_interval_seconds = Some 60,
     up_auto_import_enabled = True, up_auto_import_interval_minutes = Some 15, up_check_log_retention_days = Some 90\<rparr>"

text \<open>One site watched from an instance that refuses every call, one that answers and one that is disabled.\<close>

definition demo_uptime_db :: uptime_db where
  "demo_uptime_db = job_db.extend demo_job_db
     \<lparr>uptime_sites = [demo_site ''s1'' ''eu'' 11, demo_site ''s2'' ''us'' 21, demo_site ''s3'' ''old'' 31],
      kuma_instances = [demo_instance ''eu'' True, demo_instance ''us'' True, demo_instance ''old'' False],
      check_logs = map (\<lambda>(n, t). \<lparr>cl_site = n, cl_checked_at = t, cl_is_up = True, cl_raw_status = ''1'',
        cl_response_time_ms = Some 12, cl_in_maintenance = False\<rparr>) [(''s1'', 1), (''s2'', 2)],
      maintenance_windows = [], uptime_settings = demo_uptime_settings, kuma_calls = []\<rparr>"

definition demo_kuma_monitor :: kuma_monitor where
  "demo_kuma_monitor = \<lparr>km_name = ''api'', km_type = ''http'', km_url = Some ''https://api'', km_hostname = None, km_port = None,
     km_interval = Some 60, km_active = True\<rparr>"

definition demo_kuma_env :: kuma_env where
  "demo_kuma_env = \<lparr>kuma_poll_env = demo_poll_env,
     kuma_call = (\<lambda>inst op. if inst = ''eu'' then Inl ''timeout'' else Inr 99),
     kuma_list = (\<lambda>inst. Inr [(41, demo_kuma_monitor), (42, demo_kuma_monitor\<lparr>km_type := ''dns''\<rparr>)]),
     kuma_metrics = (\<lambda>inst. Inr [(''shop'', \<lparr>mr_status = Some 1, mr_response_time_ms = Some 12\<rparr>)]),
     new_docname = (\<lambda>ns. CHR ''n'' # concat ns), site_save_error = (\<lambda>s. None), check_save_ok = (\<lambda>c. True)\<rparr>"

theorem delete_site_in_step_witness:
  "map us_name (uptime_sites (snd (delete_site demo_kuma_env True ''s2'' demo_uptime_db))) = [''s1''] \<and>
   map cl_site (check_logs (snd (delete_site demo_kuma_env True ''s2'' demo_uptime_db))) = [''s1'']"
proof -
  have d: "distinct (map us_name (uptime_sites demo_uptime_db))" by code_simp
  have gone: "map us_name (filter (\<lambda>s. \<not> (us_site_name s = site_name_of ''s2'' demo_uptime_db \<and>
        kuma_agrees demo_kuma_env (disabled_instances demo_uptime_db) s)) (uptime_sites demo_uptime_db)) = [''s1'']"
      "map cl_site (filter (\<lambda>c. \<not> list_ex (\<lambda>s. us_name s = cl_site c \<and> us_site_name s = site_name_of ''s2'' demo_uptime_db \<and>
        kuma_agrees demo_kuma_env (disabled_instances demo_uptime_db) s) (uptime_sites demo_uptime_db)) (check_logs demo_uptime_db)) = [''s1'']"
    by code_simp+
  from delete_site_in_step [OF d, of demo_kuma_env "''s2''"] gone show ?thesis by (simp add: Let_def)
qed

subsection \<open>Importing monitors\<close>

definition kuma_key :: "uptime_site \<Rightarrow> string \<times> int" where
  "kuma_key s = (us_instance s, us_kuma_monitor_id s)"

lemma already_imported_iff: "already_imported inst kuma_id st \<longleftrightarrow> (inst, kuma_id) \<in> kuma_key ` set (uptime_sites st)"
  by (auto simp: already_imported_def kuma_key_def list_ex_iff)

lemma kuma_key_imported [simp]: "kuma_key ((imported_site inst k ty m)\<lparr>us_name := n\<rparr>) = (inst, k)"
  by (simp add: kuma_key_def imported_site_def new_site_def)

text \<open>The row one id leads to, if any: the loop skips every other id.\<close>

definition to_import :: "string \<Rightarrow> (int \<times> kuma_monitor) list \<Rightarrow> int \<Rightarrow> 'a uptime_db_scheme \<Rightarrow> uptime_site option" where
  "to_import inst ms i st =
     (case map_of ms i of
        None \<Rightarrow> None
      | Some m \<Rightarrow> if already_imported inst i st then None
                   else map_option (\<lambda>ty. imported_site inst i ty m) (MONITOR_TYPE_FROM_KUMA (km_type m)))"

definition add_row :: "kuma_env \<Rightarrow> uptime_site \<Rightarrow> 'a uptime_db_scheme \<Rightarrow> 'a uptime_db_scheme" where
  "add_row ke s st = st\<lparr>uptime_sites := uptime_sites st @ [s\<lparr>us_name := new_docname ke (map us_name (uptime_sites st))\<rparr>]\<rparr>"

lemma to_import_key: "to_import inst ms i st = Some s \<Longrightarrow>
    kuma_key (s\<lparr>us_name := n\<rparr>) = (inst, i) \<and> \<not> already_imported inst i st"
  by (auto simp: to_import_def split: option.splits if_splits)

lemma import_skip:
  assumes "to_import inst ms i st = None"
  shows "\<exists>why. import_monitors_from_map ke inst ms (i # ids) st =
    (map_sum id (\<lambda>(c, s). (c, why # s)) (fst (import_monitors_from_map ke inst ms ids st)), snd (import_monitors_from_map ke inst ms ids st))"
  using assms by (auto simp: to_import_def Let_def split: option.splits if_splits)

lemma import_insert:
  assumes "to_import inst ms i st = Some s"
  shows "import_monitors_from_map ke inst ms (i # ids) st =
    (case site_save_error ke s of
       Some err \<Rightarrow> (Inl err, st)
     | None \<Rightarrow> (map_sum id (\<lambda>(c, sk). (new_docname ke (map us_name (uptime_sites st)) # c, sk))
                  (fst (import_monitors_from_map ke inst ms ids (add_row ke s st))),
                snd (import_monitors_from_map ke inst ms ids (add_row ke s st))))"
  using assms by (auto simp: to_import_def insert_site_def add_row_def Let_def split: option.splits if_splits)

text \<open>An import only appends rows of its own instance, one for each monitor that had none.\<close>

lemma import_appends:
  "\<exists>new. uptime_sites (snd (import_monitors_from_map ke inst ms ids st)) = uptime_sites st @ new \<and>
     kuma_key ` set new \<subseteq> {inst} \<times> set ids \<and> distinct (map kuma_key new) \<and>
     kuma_key ` set new \<inter> kuma_key ` set (uptime_sites st) = {}"
proof (induction ids arbitrary: st)
  case (Cons i ids)
  show ?case
  proof (cases "to_import inst ms i st")
    case None
    from import_skip [OF this, of ke ids]
    have "snd (import_monitors_from_map ke inst ms (i # ids) st) = snd (import_monitors_from_map ke inst ms ids st)" by auto
    with Cons.IH [of st] show ?thesis by (auto simp del: import_monitors_from_map.simps)
  next
    case (Some s)
    let ?s = "s\<lparr>us_name := new_docname ke (map us_name (uptime_sites st))\<rparr>"
    note key = to_import_key [OF Some]
    show ?thesis
    proof (cases "site_save_error ke s")
      case None
      from Cons.IH [of "add_row ke s st"] obtain new where
        "uptime_sites (snd (import_monitors_from_map ke inst ms ids (add_row ke s st))) = uptime_sites st @ ?s # new"
        "kuma_key ` set new \<subseteq> {inst} \<times> set ids" "distinct (map kuma_key new)"
        "kuma_key ` set new \<inter> insert (inst, i) (kuma_key ` set (uptime_sites st)) = {}"
        using key by (auto simp: add_row_def)
      then show ?thesis
        using key None unfolding import_insert [OF Some] already_imported_iff
        by (intro exI [of _ "?s # new"]) auto
    qed (simp del: import_monitors_from_map.simps add: import_insert [OF Some])
  qed
qed simp

lemma import_complete:
  assumes "fst (import_monitors_from_map ke inst ms ids st) = Inr cs" "i \<in> set ids"
  shows "to_import inst ms i (snd (import_monitors_from_map ke inst ms ids st)) = None"
  using assms
proof (induction ids arbitrary: st cs)
  case (Cons j ids)
  have mono: "to_import inst ms i (snd (import_monitors_from_map ke inst ms ids t)) = None" if "to_import inst ms i t = None" for t
    using that import_appends [of ke inst ms ids t]
    by (auto simp: to_import_def already_imported_iff split: option.splits if_splits)
  show ?case
  proof (cases "to_import inst ms j st")
    case None
    from import_skip [OF this, of ke ids] Cons.prems Cons.IH [of st] mono [of st] None show ?thesis
      by (auto simp del: import_monitors_from_map.simps simp: map_sum_def split: sum.splits)
  next
    case (Some s)
    have "to_import inst ms j (add_row ke s st) = None"
      using to_import_key [OF Some] by (auto simp: to_import_def already_imported_iff add_row_def split: option.split)
    with Cons.prems Cons.IH [of "add_row ke s st"] mono [of "add_row ke s st"] show ?thesis
      unfolding import_insert [OF Some]
      by (auto simp del: import_monitors_from_map.simps simp: map_sum_def split: sum.splits option.splits)
  qed
qed simp

lemma import_nothing:
  assumes "\<And>i. i \<in> set ids \<Longrightarrow> to_import inst ms i st = None"
  shows "\<exists>why. import_monitors_from_map ke inst ms ids st = (Inr ([], why), st)"
  using assms
proof (induction ids)
  case (Cons i ids)
  then obtain why where "import_monitors_from_map ke inst ms ids st = (Inr ([], why), st)" by auto
  with import_skip [OF Cons.prems [of i], of ke ids] show ?case
    by (auto simp del: import_monitors_from_map.simps)
qed simp

lemma import_calls: "kuma_calls (snd (import_monitors_from_map ke inst ms ids st)) = kuma_calls st"
proof (induction ids arbitrary: st)
  case (Cons i ids)
  show ?case
  proof (cases "to_import inst ms i st")
    case None
    from import_skip [OF this, of ke ids] Cons.IH [of st] show ?thesis by (auto simp del: import_monitors_from_map.simps)
  next
    case (Some s)
    with Cons.IH [of "add_row ke s st"] show ?thesis
      by (auto simp del: import_monitors_from_map.simps simp: import_insert add_row_def split: option.split)
  qed
qed simp

text \<open>C12: Importing mirrors the instance. A completed automatic import leaves one row for every monitor Kuma
  lists whose type Pulse knows, no two rows of one instance share a monitor, the rows that were there
  stay in place, Kuma is not called for a write, and a second run with the same list creates nothing.\<close>

theorem auto_import_mirrors_kuma:
  assumes "distinct (map kuma_key (uptime_sites st))" and "kuma_list ke inst = Inr ms"
    and "auto_import_new_monitors ke inst st = (Inr (created, skipped), st')"
  shows "distinct (map kuma_key (uptime_sites st')) \<and> take (length (uptime_sites st)) (uptime_sites st') = uptime_sites st \<and> kuma_calls st' = kuma_calls st \<and>
    list_all (\<lambda>(i, m). MONITOR_TYPE_FROM_KUMA (km_type m) \<noteq> None \<longrightarrow> map_of ms i = Some m \<longrightarrow> already_imported inst i st') ms \<and>
    kuma_key ` set (uptime_sites st') \<subseteq> kuma_key ` set (uptime_sites st) \<union> {inst} \<times> fst ` set ms \<and>
    (\<exists>why. auto_import_new_monitors ke inst st' = (Inr ([], why), st'))"
proof -
  have run: "import_monitors_from_map ke inst ms (map fst ms) st = (Inr (created, skipped), st')"
    using assms(2,3) by (auto simp: auto_import_new_monitors_def Let_def map_sum_def prod_eq_iff split: sum.splits)
  from import_appends [of ke inst ms "map fst ms" st] obtain new where
    new: "uptime_sites st' = uptime_sites st @ new" "kuma_key ` set new \<subseteq> {inst} \<times> fst ` set ms" "distinct (map kuma_key new)"
      "kuma_key ` set new \<inter> kuma_key ` set (uptime_sites st) = {}"
    by (auto simp: run)
  have none: "to_import inst ms i st' = None" if "i \<in> set (map fst ms)" for i
    using import_complete [of ke inst ms "map fst ms" st _ i] that by (simp add: run)
  have "already_imported inst i st'" if "(i, m) \<in> set ms" "MONITOR_TYPE_FROM_KUMA (km_type m) \<noteq> None" "map_of ms i = Some m" for i m
    using none [of i] that by (force simp: to_import_def split: if_splits)
  moreover obtain why where "import_monitors_from_map ke inst ms (map fst ms) st' = (Inr ([], why), st')"
    using import_nothing [of "map fst ms" inst ms st' ke] none by blast
  ultimately show ?thesis
    using new assms(1,2) import_calls [of ke inst ms "map fst ms" st] by (auto simp: list_all_iff auto_import_new_monitors_def run)
qed

theorem auto_import_mirrors_kuma_witness:
  "\<exists>why. auto_import_new_monitors demo_kuma_env ''eu'' (snd (auto_import_new_monitors demo_kuma_env ''eu'' demo_uptime_db)) =
     (Inr ([], why), snd (auto_import_new_monitors demo_kuma_env ''eu'' demo_uptime_db))"
proof -
  let ?ms = "[(41, demo_kuma_monitor), (42, demo_kuma_monitor\<lparr>km_type := ''dns''\<rparr>)]"
  let ?r = "auto_import_new_monitors demo_kuma_env ''eu'' demo_uptime_db"
  have d: "distinct (map kuma_key (uptime_sites demo_uptime_db))" by code_simp
  have l: "kuma_list demo_kuma_env ''eu'' = Inr ?ms" by (simp add: demo_kuma_env_def)
  have "\<not> isl (fst ?r)" by code_simp
  then obtain c s where "fst ?r = Inr (c, s)" by (cases "fst ?r") auto
  then have "?r = (Inr (c, s), snd ?r)" by (simp add: prod_eq_iff)
  from auto_import_mirrors_kuma [OF d l this] show ?thesis by blast
qed

subsection \<open>Catching an instance up with the fleet\<close>

lemma create_site_ok:
  assumes "create_site_on_instance ke s st = (Inr n, st')"
  shows "\<exists>k. uptime_sites st' = uptime_sites st @ [s\<lparr>us_kuma_monitor_id := k, us_name := n\<rparr>] \<and>
     kuma_call ke (us_instance s) (AddMonitor s) = Inr k"
  using assms
  by (auto simp: create_site_on_instance_def insert_site_def kuma_do_def Let_def split: sum.splits option.splits)

lemma create_site_fails:
  assumes "create_site_on_instance ke s st = (Inl err, st')"
  shows "uptime_sites st' = uptime_sites st"
  using assms
  by (auto simp: create_site_on_instance_def insert_site_def kuma_do_def Let_def split: sum.splits option.splits)

text \<open>The rows a batch of creations adds, in order: one for each site that did not fail.\<close>

lemma create_all_rows:
  "\<exists>new. uptime_sites (snd (create_all ke ti pre ss st)) = uptime_sites st @ new \<and>
     length new = length (fst (fst (create_all ke ti pre ss st))) \<and>
     length new + length (snd (fst (create_all ke ti pre ss st))) = length ss \<and>
     (\<forall>t\<in>set new. \<exists>s\<in>set ss. \<exists>k n. t = s\<lparr>us_kuma_monitor_id := k, us_name := n\<rparr>) \<and>
     (snd (fst (create_all ke ti pre ss st)) = [] \<longrightarrow> (\<forall>s\<in>set ss. \<exists>t\<in>set new. \<exists>k n. t = s\<lparr>us_kuma_monitor_id := k, us_name := n\<rparr>))"
proof (induction ss arbitrary: st)
  case (Cons s ss)
  let ?r = "create_site_on_instance ke s st"
  show ?case
  proof (cases "fst ?r")
    case (Inr n)
    then have "?r = (Inr n, snd ?r)" by (simp add: prod_eq_iff)
    from create_site_ok [OF this] obtain k where
      row: "uptime_sites (snd ?r) = uptime_sites st @ [s\<lparr>us_kuma_monitor_id := k, us_name := n\<rparr>]" by blast
    from Cons.IH [of "snd ?r"] obtain new where IH: "uptime_sites (snd (create_all ke ti pre ss (snd ?r))) = uptime_sites (snd ?r) @ new"
      "length new = length (fst (fst (create_all ke ti pre ss (snd ?r))))"
      "length new + length (snd (fst (create_all ke ti pre ss (snd ?r)))) = length ss"
      "\<forall>t\<in>set new. \<exists>s\<in>set ss. \<exists>k n. t = s\<lparr>us_kuma_monitor_id := k, us_name := n\<rparr>"
      "snd (fst (create_all ke ti pre ss (snd ?r))) = [] \<longrightarrow> (\<forall>s\<in>set ss. \<exists>t\<in>set new. \<exists>k n. t = s\<lparr>us_kuma_monitor_id := k, us_name := n\<rparr>)"
      by blast
    show ?thesis
      by (rule exI [of _ "s\<lparr>us_kuma_monitor_id := k, us_name := n\<rparr> # new"]) (use Inr IH row in \<open>auto simp: Let_def\<close>)
  next
    case (Inl err)
    then have "?r = (Inl err, snd ?r)" by (simp add: prod_eq_iff)
    from create_site_fails [OF this] have "uptime_sites (log_error (ti s) (snd ?r)) = uptime_sites st" by simp
    with Inl Cons.IH [of "log_error (ti s) (snd ?r)"] show ?thesis by (auto simp: Let_def)
  qed
qed simp

definition site_names_on :: "string \<Rightarrow> 'a uptime_db_scheme \<Rightarrow> string set" where
  "site_names_on inst st = us_site_name ` {s \<in> set (uptime_sites st). us_instance s = inst}"

definition oldest_of :: "string \<Rightarrow> string list \<Rightarrow> 'a uptime_db_scheme \<Rightarrow> uptime_site" where
  "oldest_of name insts st = hd (filter (\<lambda>s. us_site_name s = name \<and> us_instance s \<in> set insts) (uptime_sites st))"

lemma group_rows_hd:
  assumes "(k, g) \<in> set (group_rows key rows)"
  shows "key (hd g) = k" and "hd g = hd (filter (\<lambda>r. key r = k) rows)"
proof -
  note mem = group_rows_mem [OF assms]
  have "hd g \<in> set (filter (\<lambda>r. key r = k) rows)" using hd_in_set [OF mem(2)] mem(1) by metis
  then show "key (hd g) = k" by simp
  show "hd g = hd (filter (\<lambda>r. key r = k) rows)" using mem(1) by simp
qed

lemma site_templates_mem:
  assumes "t \<in> set (site_templates inst st)"
  shows "t = oldest_of (us_site_name t) (filter (\<lambda>n. n \<noteq> inst) (enabled_instances st)) st"
proof -
  let ?rows = "filter (\<lambda>s. us_instance s \<in> set (filter (\<lambda>n. n \<noteq> inst) (enabled_instances st))) (uptime_sites st)"
  from assms obtain n g where g: "(n, g) \<in> set (group_rows us_site_name ?rows)" "t = hd g"
    by (auto simp: site_templates_def Let_def)
  from group_rows_hd [OF g(1)] g(2) show ?thesis by (simp add: oldest_of_def conj_commute)
qed

lemma site_templates_names:
  "us_site_name ` set (site_templates inst st) =
     us_site_name ` {s \<in> set (uptime_sites st). us_instance s \<in> set (enabled_instances st) \<and> us_instance s \<noteq> inst}"
proof -
  let ?rows = "filter (\<lambda>s. us_instance s \<in> set (filter (\<lambda>n. n \<noteq> inst) (enabled_instances st))) (uptime_sites st)"
  have "us_site_name (hd g) = n" if "(n, g) \<in> set (group_rows us_site_name ?rows)" for n g
    using that by (rule group_rows_hd)
  then have "us_site_name ` set (site_templates inst st) = fst ` set (group_rows us_site_name ?rows)"
    by (force simp: site_templates_def Let_def image_iff)
  then show ?thesis by (simp only: group_rows_keys) auto
qed

text \<open>Catching up. When the push onto an instance reports no error, every site name that some enabled
  instance has is there as well; the rows before it stay, and each added row was missing there and
  has the type, target and interval of the oldest row of its name on the other enabled instances.\<close>

theorem sync_missing_catches_up:
  assumes "sync_missing_sites_to_instance ke inst st = ((created, []), st')"
  shows "(\<Union>i \<in> set (enabled_instances st). site_names_on i st) \<subseteq> site_names_on inst st' \<and>
    (\<exists>new. uptime_sites st' = uptime_sites st @ new \<and> length new = length created \<and>
      list_all (\<lambda>t. let o1 = oldest_of (us_site_name t) (filter (\<lambda>n. n \<noteq> inst) (enabled_instances st)) st
                     in us_instance t = inst \<and> us_site_name t \<notin> site_names_on inst st \<and>
                        us_monitor_type t = us_monitor_type o1 \<and> us_url t = us_url o1 \<and> us_hostname t = us_hostname o1 \<and>
                        us_is_active t = us_is_active o1) new)"
proof -
  define mk where "mk = (\<lambda>s :: uptime_site. new_site inst (us_site_name s) (us_monitor_type s) (us_url s) (us_hostname s) (us_port s)
    (us_check_interval_seconds s) (us_is_active s))"
  define missing where "missing = filter (\<lambda>s. us_site_name s \<notin> site_names_on inst st) (site_templates inst st)"
  have here: "(us_site_name s \<in> set (map us_site_name (filter (\<lambda>s. us_instance s = inst) (uptime_sites st)))) =
      (us_site_name s \<in> site_names_on inst st)" for s
    by (simp add: site_names_on_def)
  have mk: "us_instance (mk s) = inst" "us_site_name (mk s) = us_site_name s" "us_monitor_type (mk s) = us_monitor_type s"
    "us_url (mk s) = us_url s" "us_hostname (mk s) = us_hostname s" "us_is_active (mk s) = us_is_active s" for s
    by (simp_all add: mk_def new_site_def)
  show ?thesis
  proof (cases "filter (\<lambda>n. n \<noteq> inst) (enabled_instances st) = []")
    case True
    with assms have "st' = st" "created = []" by (simp_all add: sync_missing_sites_to_instance_def)
    with True show ?thesis by (auto simp: filter_empty_conv)
  next
    case False
    then obtain ti where run: "create_all ke ti us_site_name (map mk missing) st = ((created, []), st')"
      using assms unfolding sync_missing_sites_to_instance_def Let_def here mk_def [symmetric] missing_def [symmetric] by auto
    from create_all_rows [of ke ti us_site_name "map mk missing" st] obtain new where
      new: "uptime_sites st' = uptime_sites st @ new" "length new = length created"
      and origin: "\<forall>t\<in>set new. \<exists>s\<in>set missing. \<exists>k n. t = (mk s)\<lparr>us_kuma_monitor_id := k, us_name := n\<rparr>"
      and cover: "\<forall>s\<in>set missing. \<exists>t\<in>set new. \<exists>k n. t = (mk s)\<lparr>us_kuma_monitor_id := k, us_name := n\<rparr>"
      by (auto simp: run)
    have "us_site_name s \<in> site_names_on inst st'" if "s \<in> set (uptime_sites st)" "us_instance s \<in> set (enabled_instances st)" for s
    proof (cases "us_site_name s \<in> site_names_on inst st")
      case True
      then show ?thesis by (auto simp: site_names_on_def new)
    next
      case False
      then have "us_instance s \<noteq> inst" using that by (auto simp: site_names_on_def)
      with that have "us_site_name s \<in> us_site_name ` set (site_templates inst st)" by (auto simp: site_templates_names)
      then obtain u where u: "u \<in> set missing" "us_site_name u = us_site_name s" using False by (auto simp: missing_def)
      with cover obtain t k n where "t \<in> set new" "t = (mk u)\<lparr>us_kuma_monitor_id := k, us_name := n\<rparr>" by blast
      with u show ?thesis by (auto simp: site_names_on_def new mk intro!: image_eqI [of _ _ t])
    qed
    moreover have "list_all (\<lambda>t. let o1 = oldest_of (us_site_name t) (filter (\<lambda>n. n \<noteq> inst) (enabled_instances st)) st
                     in us_instance t = inst \<and> us_site_name t \<notin> site_names_on inst st \<and>
                        us_monitor_type t = us_monitor_type o1 \<and> us_url t = us_url o1 \<and> us_hostname t = us_hostname o1 \<and>
                        us_is_active t = us_is_active o1) new"
    proof (unfold list_all_iff, intro ballI)
      fix t assume "t \<in> set new"
      with origin obtain s k n where s: "s \<in> set missing" "t = (mk s)\<lparr>us_kuma_monitor_id := k, us_name := n\<rparr>" by blast
      then have "s = oldest_of (us_site_name s) (filter (\<lambda>n. n \<noteq> inst) (enabled_instances st)) st"
        by (intro site_templates_mem) (simp add: missing_def)
      then show "let o1 = oldest_of (us_site_name t) (filter (\<lambda>n. n \<noteq> inst) (enabled_instances st)) st
                 in us_instance t = inst \<and> us_site_name t \<notin> site_names_on inst st \<and>
                    us_monitor_type t = us_monitor_type o1 \<and> us_url t = us_url o1 \<and> us_hostname t = us_hostname o1 \<and>
                    us_is_active t = us_is_active o1"
        using s by (simp add: mk missing_def)
    qed
    ultimately show ?thesis using new by (auto simp: site_names_on_def)
  qed
qed

theorem sync_missing_catches_up_witness:
  "let st = demo_uptime_db\<lparr>uptime_sites := [demo_site ''s1'' ''eu'' 11]\<rparr>
   in ''shop'' \<in> site_names_on ''us'' (snd (sync_missing_sites_to_instance demo_kuma_env ''us'' st))"
proof -
  let ?st = "demo_uptime_db\<lparr>uptime_sites := [demo_site ''s1'' ''eu'' 11]\<rparr>"
  let ?r = "sync_missing_sites_to_instance demo_kuma_env ''us'' ?st"
  have "snd (fst ?r) = []" and "list_ex (\<lambda>s. us_site_name s = ''shop'' \<and> us_instance s \<in> set (enabled_instances ?st)) (uptime_sites ?st)"
    by code_simp+
  then have r: "?r = ((fst (fst ?r), []), snd ?r)" and "''shop'' \<in> (\<Union>i \<in> set (enabled_instances ?st). site_names_on i ?st)"
    by (auto simp: prod_eq_iff list_ex_iff site_names_on_def)
  with sync_missing_catches_up [OF r] show ?thesis by (auto simp: Let_def)
qed

end
