(* ===== verification/Uptime_Poller.thy ===== *)
theory Uptime_Poller
  imports Uptime_Sites
begin

text \<open>
  \<open>tasks/uptime_kuma_poller.py\<close>: reading every enabled Kuma instance, keeping the check history, and the
  vote of the instances on whether a site is down. States come in pairs, the current one and
  the last one committed, because a failure rolls the tables back.
\<close>

definition DEFAULT_POLL_INTERVAL_SECONDS :: int where "DEFAULT_POLL_INTERVAL_SECONDS = 60"
definition DEFAULT_ALERT_WINDOW_CHECKS :: int where "DEFAULT_ALERT_WINDOW_CHECKS = 3"
definition DEFAULT_AUTO_IMPORT_INTERVAL_MINUTES :: int where "DEFAULT_AUTO_IMPORT_INTERVAL_MINUTES = 15"
definition DEFAULT_CHECK_LOG_RETENTION_DAYS :: int where "DEFAULT_CHECK_LOG_RETENTION_DAYS = 90"
definition CHECK_PURGE_BATCH_SIZE :: nat where "CHECK_PURGE_BATCH_SIZE = 5000"
definition STATUS_UP :: int where "STATUS_UP = 1"
definition STATUS_DOWN :: int where "STATUS_DOWN = 0"
definition UPTIME_POLLER_JOB_ID :: string where "UPTIME_POLLER_JOB_ID = ''alfaedge_pulse_uptime_poller''"
definition UPTIME_HEARTBEAT_CACHE_KEY :: string where "UPTIME_HEARTBEAT_CACHE_KEY = ''alfaedge_pulse:uptime_poller_heartbeat''"
definition UPTIME_MAX_LOOP_SECONDS :: int where "UPTIME_MAX_LOOP_SECONDS = 300"
definition RUN_UPTIME_POLL_LOOP :: string where
  "RUN_UPTIME_POLL_LOOP = ''alfaedge_pulse.tasks.uptime_kuma_poller.run_uptime_poll_loop''"

definition STATUS_LABEL :: "int \<Rightarrow> string option" where
  "STATUS_LABEL i = map_of [(STATUS_UP, ''Up''), (STATUS_DOWN, ''Down''), (2, ''Pending''), (3, ''Maintenance'')] i"

text \<open>\<open>int(x)\<close> of a float drops the fraction.\<close>

definition py_int :: "rat \<Rightarrow> int" where
  "py_int x = (if x \<ge> 0 then \<lfloor>x\<rfloor> else \<lceil>x\<rceil>)"

abbreviation uptime_now :: "kuma_env \<Rightarrow> datetime" where
  "uptime_now ke \<equiv> clock (kuma_poll_env ke)"

subsection \<open>Recording checks\<close>

definition set_site :: "string \<Rightarrow> (uptime_site \<Rightarrow> uptime_site) \<Rightarrow> 'a uptime_db_scheme \<Rightarrow> 'a uptime_db_scheme" where
  "set_site n f st = st\<lparr>uptime_sites := map (\<lambda>s. if us_name s = n then f s else s) (uptime_sites st)\<rparr>"

definition set_instance :: "string \<Rightarrow> (kuma_instance \<Rightarrow> kuma_instance) \<Rightarrow> 'a uptime_db_scheme \<Rightarrow> 'a uptime_db_scheme" where
  "set_instance n f st = st\<lparr>kuma_instances := map (\<lambda>i. if ki_name i = n then f i else i) (kuma_instances st)\<rparr>"

definition check_row :: "kuma_env \<Rightarrow> string \<Rightarrow> int \<Rightarrow> rat option \<Rightarrow> bool \<Rightarrow> check_log" where
  "check_row ke site status ms in_maintenance =
     \<lparr>cl_site = site, cl_checked_at = uptime_now ke, cl_is_up = (status = STATUS_UP), cl_raw_status = show_int status,
      cl_response_time_ms = ms, cl_in_maintenance = in_maintenance\<rparr>"

text \<open>The flag says whether the call came back; a row that cannot be saved raises.\<close>

definition record_site_check ::
    "kuma_env \<Rightarrow> uptime_site \<Rightarrow> (string \<times> metric_reading) list \<Rightarrow> bool \<Rightarrow> 'a uptime_db_scheme \<Rightarrow> bool \<times> 'a uptime_db_scheme" where
  "record_site_check ke site metrics in_maintenance st =
     (case map_of metrics (us_site_name site) of
        None \<Rightarrow> (True, st)
      | Some reading \<Rightarrow>
          (case mr_status reading of
             None \<Rightarrow> (True, st)
           | Some value \<Rightarrow>
               (let status = py_int value; current = or_keep (STATUS_LABEL status) ''Pending'';
                    row = check_row ke (us_name site) status (mr_response_time_ms reading) in_maintenance;
                    counted = (status = STATUS_UP \<or> status = STATUS_DOWN);
                    st1 = (if counted then st\<lparr>check_logs := check_logs st @ [row]\<rparr> else st)
                in if counted \<and> \<not> check_save_ok ke row then (False, st)
                   else (True, set_site (us_name site) (\<lambda>s. s\<lparr>us_current_status := (if in_maintenance then ''Maintenance'' else current),
                                 us_last_checked := Some (uptime_now ke)\<rparr>) st1))))"

definition record_one ::
    "kuma_env \<Rightarrow> (string \<times> metric_reading) list \<Rightarrow> (string \<times> maintenance_window list) list \<Rightarrow> uptime_site
      \<Rightarrow> 'a uptime_db_scheme \<Rightarrow> 'a uptime_db_scheme" where
  "record_one ke metrics windows site st =
     (let in_window = active_window (site_windows windows (us_site_name site)) (uptime_now ke) \<noteq> None;
          r = record_site_check ke site metrics in_window st
      in if fst r then snd r else log_error (''Uptime Monitor: failed to process site '' @ us_site_name site) (snd r))"

definition poll_instance ::
    "kuma_env \<Rightarrow> int \<Rightarrow> string \<Rightarrow> 'a uptime_db_scheme \<times> 'a uptime_db_scheme
      \<Rightarrow> string option \<times> ('a uptime_db_scheme \<times> 'a uptime_db_scheme)" where
  "poll_instance ke interval_seconds inst p =
     (case find_row ki_name inst (kuma_instances (fst p)) of
        None \<Rightarrow> (Some (''Uptime Kuma Instance '' @ inst @ '' not found''), p)
      | Some doc \<Rightarrow>
          if (case ki_last_synced doc of None \<Rightarrow> False | Some t \<Rightarrow> uptime_now ke - t < interval_seconds * SECOND)
          then (None, p)
          else case kuma_metrics ke inst of
                 Inl (UptimeKumaAPIError e) \<Rightarrow>
                   (let st = set_instance inst (\<lambda>i. i\<lparr>ki_last_synced := Some (uptime_now ke), ki_last_error := e\<rparr>) (fst p)
                    in (None, (st, st)))
               | Inl (OtherError e) \<Rightarrow> (Some e, p)
               | Inr metrics \<Rightarrow>
                   (let st = set_instance inst (\<lambda>i. i\<lparr>ki_last_synced := Some (uptime_now ke), ki_last_error := []\<rparr>) (fst p);
                        sites = filter (\<lambda>s. us_instance s = inst) (uptime_sites st);
                        windows = windows_by_site None (maintenance_windows st);
                        st' = fold (record_one ke metrics windows) sites st
                    in (None, (st', st'))))"

definition maybe_auto_import ::
    "kuma_env \<Rightarrow> int \<Rightarrow> string \<Rightarrow> 'a uptime_db_scheme \<times> 'a uptime_db_scheme
      \<Rightarrow> string option \<times> ('a uptime_db_scheme \<times> 'a uptime_db_scheme)" where
  "maybe_auto_import ke interval_minutes inst p =
     (case find_row ki_name inst (kuma_instances (fst p)) of
        None \<Rightarrow> (Some (''Uptime Kuma Instance '' @ inst @ '' not found''), p)
      | Some doc \<Rightarrow>
          if (case ki_last_auto_import doc of None \<Rightarrow> False | Some t \<Rightarrow> uptime_now ke - t < interval_minutes * MINUTE)
          then (None, p)
          else
            let done = (\<lambda>err st. let st' = set_instance inst (\<lambda>i. i\<lparr>ki_last_auto_import := Some (uptime_now ke),
                                     ki_last_auto_import_error := err\<rparr>) st in (None, (st', st')));
                r = auto_import_new_monitors ke inst (fst p)
            in case fst r of
                 Inl (UptimeKumaAPIError e) \<Rightarrow> done e (snd r)
               | Inl (OtherError e) \<Rightarrow> (Some e, (snd r, snd p))
               | Inr _ \<Rightarrow> done [] (snd (sync_missing_sites_to_instance ke inst (snd r))))"

subsection \<open>The vote\<close>

definition counted_checks :: "string \<Rightarrow> datetime option \<Rightarrow> 'a uptime_db_scheme \<Rightarrow> check_log list" where
  "counted_checks site since st =
     filter (\<lambda>c. cl_site c = site \<and> \<not> cl_in_maintenance c \<and> (case since of None \<Rightarrow> True | Some t \<Rightarrow> cl_checked_at c > t)) (check_logs st)"

definition instance_verdict :: "string \<Rightarrow> int \<Rightarrow> datetime option \<Rightarrow> 'a uptime_db_scheme \<Rightarrow> bool option" where
  "instance_verdict site window since st =
     (let rows = take (nat window) (sort_key (\<lambda>c. - cl_checked_at c) (counted_checks site since st))
      in if int (length rows) < window then None
         else Some ((of_nat (length (filter (\<lambda>c. \<not> cl_is_up c) rows)) / of_nat (length rows) :: rat) > 1 / 2))"

definition votes :: "int \<Rightarrow> datetime option \<Rightarrow> uptime_site list \<Rightarrow> 'a uptime_db_scheme \<Rightarrow> bool list" where
  "votes window since siblings st =
     List.map_filter (\<lambda>s. if us_is_active s then instance_verdict (us_name s) window since st else None) siblings"

definition unanimous_down :: "bool list \<Rightarrow> bool" where
  "unanimous_down vs \<longleftrightarrow> length vs > 0 \<and> length (filter id vs) = length vs"

definition reconcile_group ::
    "kuma_env \<Rightarrow> int \<Rightarrow> (string \<times> maintenance_window list) list \<Rightarrow> string \<times> uptime_site list
      \<Rightarrow> 'a uptime_db_scheme \<times> 'a uptime_db_scheme \<Rightarrow> 'a uptime_db_scheme \<times> 'a uptime_db_scheme" where
  "reconcile_group ke window windows g p =
     (let site_name = fst g; siblings = snd g; ws = site_windows windows site_name; now = uptime_now ke
      in if active_window ws now \<noteq> None then p
         else
           let since = last_window_end ws now;
               was_critical = us_is_critical (hd siblings);
               is_crit = unanimous_down (votes window since siblings (fst p));
               q = (if is_crit \<noteq> was_critical
                    then let st = fold (\<lambda>s. set_site (us_name s) (\<lambda>r. r\<lparr>us_is_critical := is_crit\<rparr>)) siblings (fst p) in (st, st)
                    else p)
           in (handle_transition (base_env (kuma_poll_env ke)) was_critical is_crit ''Uptime Site'' (us_name (hd siblings)) ''Site Down''
                 (site_name @ '' is down (flagged Down by all of its monitoring instances).'')
                 (Some (site_name @ '' is back up.'')) True (fst q),
               snd q))"

definition reconcile_site_criticality ::
    "kuma_env \<Rightarrow> int \<Rightarrow> 'a uptime_db_scheme \<times> 'a uptime_db_scheme \<Rightarrow> 'a uptime_db_scheme \<times> 'a uptime_db_scheme" where
  "reconcile_site_criticality ke window p =
     (let groups = group_rows us_site_name (sort_key us_name (uptime_sites (fst p)));
          windows = windows_by_site None (maintenance_windows (fst p))
      in fold (reconcile_group ke window windows) groups p)"

subsection \<open>One cycle\<close>

definition isolate ::
    "string \<Rightarrow> ('a uptime_db_scheme \<times> 'a uptime_db_scheme \<Rightarrow> string option \<times> ('a uptime_db_scheme \<times> 'a uptime_db_scheme))
      \<Rightarrow> 'a uptime_db_scheme \<times> 'a uptime_db_scheme \<Rightarrow> 'a uptime_db_scheme \<times> 'a uptime_db_scheme" where
  "isolate title f p =
     (let r = f p
      in case fst r of
           None \<Rightarrow> snd r
         | Some _ \<Rightarrow> (log_error title (uptime_rollback (snd (snd r)) (fst (snd r))), snd (snd r)))"

definition poll_one ::
    "kuma_env \<Rightarrow> uptime_settings \<Rightarrow> string \<Rightarrow> 'a uptime_db_scheme \<times> 'a uptime_db_scheme \<Rightarrow> 'a uptime_db_scheme \<times> 'a uptime_db_scheme" where
  "poll_one ke settings inst p =
     (let interval_seconds = or_int (up_poll_interval_seconds settings) DEFAULT_POLL_INTERVAL_SECONDS;
          auto_import_interval = or_int (up_auto_import_interval_minutes settings) DEFAULT_AUTO_IMPORT_INTERVAL_MINUTES;
          q = (if up_auto_import_enabled settings
               then isolate (''Uptime Monitor: auto-import failed for '' @ inst) (maybe_auto_import ke auto_import_interval inst) p
               else p)
      in isolate (''Uptime Monitor: poll failed for '' @ inst) (poll_instance ke interval_seconds inst) q)"

definition poll_all_instances ::
    "kuma_env \<Rightarrow> 'a uptime_db_scheme \<times> 'a uptime_db_scheme \<Rightarrow> 'a uptime_db_scheme \<times> 'a uptime_db_scheme" where
  "poll_all_instances ke p =
     (let settings = uptime_settings (fst p);
          window = or_int (up_alert_window_checks settings) DEFAULT_ALERT_WINDOW_CHECKS
      in reconcile_site_criticality ke window (fold (poll_one ke settings) (enabled_instances (fst p)) p))"

subsection \<open>The loop\<close>

definition any_instance_enabled :: "'a uptime_db_scheme \<Rightarrow> bool" where
  "any_instance_enabled st \<longleftrightarrow> enabled_instances st \<noteq> []"

definition ensure_uptime_poller_running :: "job_env \<Rightarrow> 'a uptime_db_scheme \<Rightarrow> 'a uptime_db_scheme" where
  "ensure_uptime_poller_running je st =
     (if \<not> any_instance_enabled st then st
      else snd (start_loop_if_needed je RUN_UPTIME_POLL_LOOP UPTIME_POLLER_JOB_ID UPTIME_HEARTBEAT_CACHE_KEY
             (UPTIME_MAX_LOOP_SECONDS + 300) ''uptime poller'' st))"

record uptime_world =
  uw_env :: kuma_env
  uw_elapsed :: rat
  uw_stop :: bool
  uw_crash :: bool

definition uptime_poll_interval :: "'a uptime_db_scheme \<Rightarrow> int" where
  "uptime_poll_interval st =
     (let interval = opt_int (up_poll_interval_seconds (uptime_settings st))
      in if interval \<noteq> 0 then max interval 1 else DEFAULT_POLL_INTERVAL_SECONDS)"

definition uptime_cycle :: "uptime_world \<Rightarrow> 'a uptime_db_scheme \<times> 'a uptime_db_scheme \<Rightarrow> 'a uptime_db_scheme \<times> 'a uptime_db_scheme" where
  "uptime_cycle w p =
     (let st = cache_set (kuma_poll_env (uw_env w)) UPTIME_HEARTBEAT_CACHE_KEY (max (uptime_poll_interval (fst p) * 4) 60) (fst p)
      in if uw_crash w then (log_error ''Uptime Monitor: poll cycle failed'' st, snd p)
         else poll_all_instances (uw_env w) (st, snd p))"

definition keep_uptime_polling :: "uptime_world \<Rightarrow> bool" where
  "keep_uptime_polling w \<longleftrightarrow> \<not> uw_stop w \<and> uw_elapsed w < of_int UPTIME_MAX_LOOP_SECONDS"

fun uptime_loop :: "nat \<Rightarrow> (nat \<Rightarrow> uptime_world) \<Rightarrow> nat \<Rightarrow> 'a uptime_db_scheme \<times> 'a uptime_db_scheme
      \<Rightarrow> (nat \<times> ('a uptime_db_scheme \<times> 'a uptime_db_scheme)) option" where
  "uptime_loop 0 w i p = None"
| "uptime_loop (Suc fuel) w i p =
     (if keep_uptime_polling (w i)
      then let q = uptime_cycle (w i) p
           in if any_instance_enabled (fst q) then uptime_loop fuel w (Suc i) q else Some (Suc i, q)
      else Some (i, p))"

definition run_uptime_poll_loop :: "nat \<Rightarrow> job_env \<Rightarrow> string option \<Rightarrow> (nat \<Rightarrow> uptime_world)
      \<Rightarrow> 'a uptime_db_scheme \<times> 'a uptime_db_scheme \<Rightarrow> (nat \<times> ('a uptime_db_scheme \<times> 'a uptime_db_scheme)) option" where
  "run_uptime_poll_loop fuel je current w p =
     map_option (\<lambda>(i, q). (i,
         if \<not> uw_stop (w i) \<and> uw_elapsed (w i) \<ge> of_int UPTIME_MAX_LOOP_SECONDS
         then (hand_off_loop je current RUN_UPTIME_POLL_LOOP UPTIME_POLLER_JOB_ID (fst q), snd q) else q))
       (uptime_loop fuel w 0 p)"

definition purge_old_check_logs :: "kuma_env \<Rightarrow> 'a uptime_db_scheme \<Rightarrow> 'a uptime_db_scheme" where
  "purge_old_check_logs ke st =
     (let retention_days = or_int (up_check_log_retention_days (uptime_settings st)) DEFAULT_CHECK_LOG_RETENTION_DAYS;
          cutoff = uptime_now ke - retention_days * DAY
      in st\<lparr>check_logs := fst (purge_loop CHECK_PURGE_BATCH_SIZE (\<lambda>c. cl_checked_at c < cutoff) (check_logs st) 0)\<rparr>)"

subsection \<open>The vote is taken group by group\<close>

lemma set_site_frame [frame_simps, simp]:
  "check_logs (set_site n f st) = check_logs st" "maintenance_windows (set_site n f st) = maintenance_windows st"
  "alert_log (set_site n f st) = alert_log st" "next_alert (set_site n f st) = next_alert st"
  "outbox (set_site n f st) = outbox st" "monitor_settings (set_site n f st) = monitor_settings st"
  by (simp_all add: set_site_def)

definition flag_sites :: "bool \<Rightarrow> uptime_site list \<Rightarrow> 'a uptime_db_scheme \<Rightarrow> 'a uptime_db_scheme" where
  "flag_sites b siblings st = fold (\<lambda>s. set_site (us_name s) (\<lambda>r. r\<lparr>us_is_critical := b\<rparr>)) siblings st"

lemma flag_sites_rows:
  "uptime_sites (flag_sites b siblings st) =
     map (\<lambda>s. if us_name s \<in> us_name ` set siblings then s\<lparr>us_is_critical := b\<rparr> else s) (uptime_sites st)"
  by (induction siblings arbitrary: st) (auto simp: flag_sites_def set_site_def comp_def)

lemma flag_sites_frame [frame_simps, simp]:
  "check_logs (flag_sites b ss st) = check_logs st" "maintenance_windows (flag_sites b ss st) = maintenance_windows st"
  "alert_log (flag_sites b ss st) = alert_log st" "next_alert (flag_sites b ss st) = next_alert st"
  "outbox (flag_sites b ss st) = outbox st" "monitor_settings (flag_sites b ss st) = monitor_settings st"
  by (simp_all add: flag_sites_def fold_preserves)

lemma flag_sites_alerts [simp]:
  "alert_inv (flag_sites b ss st) = alert_inv st" "open_alerts_of (flag_sites b ss st) k = open_alerts_of st k"
  by (simp_all add: alert_inv_def open_alerts_of_def)

lemma transition_sync:
  assumes "alert_inv st" and "open_alerts_of st (d, n, ty) = (if was then 1 else 0)"
  shows "open_alerts_of (handle_transition e was v d n ty m rec g st) (d, n, ty) = (if v then 1 else 0)"
  using transitions_sync [OF assms, where vs = "[v]"] by simp

abbreviation site_down_key :: "uptime_site list \<Rightarrow> alert_key" where
  "site_down_key siblings \<equiv> (''Uptime Site'', us_name (hd siblings), ''Site Down'')"

definition site_rows :: "string set \<Rightarrow> 'a uptime_db_scheme \<Rightarrow> uptime_site list" where
  "site_rows N st = filter (\<lambda>s. us_name s \<in> N) (uptime_sites st)"

text \<open>What one group leaves alone: the history, the rows of other names and their alerts.\<close>

definition leaves_alone :: "string set \<Rightarrow> alert_key \<Rightarrow> 'a uptime_db_scheme \<Rightarrow> 'a uptime_db_scheme \<Rightarrow> bool" where
  "leaves_alone N k st st' \<longleftrightarrow> alert_inv st' \<and> check_logs st' = check_logs st \<and>
     site_rows N st' = site_rows N st \<and> open_alerts_of st' k = open_alerts_of st k"

lemma group_verdict:
  assumes "active_window (site_windows windows (fst g)) (uptime_now ke) = None"
    and "b = unanimous_down (votes window (last_window_end (site_windows windows (fst g)) (uptime_now ke)) (snd g) (fst p))"
  obtains m rec where "fst (reconcile_group ke window windows g p) =
     handle_transition (base_env (kuma_poll_env ke)) (us_is_critical (hd (snd g))) b ''Uptime Site'' (us_name (hd (snd g))) ''Site Down''
       m (Some rec) True (if b \<noteq> us_is_critical (hd (snd g)) then flag_sites b (snd g) (fst p) else fst p)"
    and "rec = fst g @ '' is back up.''"
  using assms by (cases "b = us_is_critical (hd (snd g))") (simp_all add: reconcile_group_def Let_def flag_sites_def)

lemma reconcile_group_other:
  assumes "alert_inv (fst p)" and "us_name ` set (snd g) \<inter> N = {}" and "snd g \<noteq> []" and "k \<noteq> site_down_key (snd g)"
  shows "leaves_alone N k (fst p) (fst (reconcile_group ke window windows g p))"
proof (cases "active_window (site_windows windows (fst g)) (uptime_now ke)")
  case None
  define b where "b = unanimous_down (votes window (last_window_end (site_windows windows (fst g)) (uptime_now ke)) (snd g) (fst p))"
  let ?st = "if b \<noteq> us_is_critical (hd (snd g)) then flag_sites b (snd g) (fst p) else fst p"
  have st: "alert_inv ?st" "check_logs ?st = check_logs (fst p)" "open_alerts_of ?st k = open_alerts_of (fst p) k"
    using assms(1) by auto
  have rows: "site_rows N ?st = site_rows N (fst p)"
    using assms(2) by (auto simp: site_rows_def flag_sites_rows split: if_splits intro!: filter_map_update_other)
  obtain m rec where run: "fst (reconcile_group ke window windows g p) =
     handle_transition (base_env (kuma_poll_env ke)) (us_is_critical (hd (snd g))) b ''Uptime Site'' (us_name (hd (snd g))) ''Site Down''
       m (Some rec) True ?st"
    using group_verdict [OF None b_def] by blast
  show ?thesis
    unfolding leaves_alone_def run
    using st rows handle_transition_inv [OF st(1)] handle_transition_other [OF st(1) assms(4)]
    by (simp add: site_rows_def)
qed (use assms in \<open>simp add: leaves_alone_def reconcile_group_def\<close>)

lemma votes_cong: "check_logs s = check_logs t \<Longrightarrow> votes window since siblings s = votes window since siblings t"
proof -
  assume "check_logs s = check_logs t"
  then have "instance_verdict n window since s = instance_verdict n window since t" for n
    by (simp add: instance_verdict_def counted_checks_def)
  then show ?thesis by (simp add: votes_def cong: if_cong)
qed

lemma reconcile_groups_other:
  fixes p :: "'a uptime_db_scheme \<times> 'a uptime_db_scheme"
  assumes "alert_inv (fst p)"
    and "\<And>g. g \<in> set gs \<Longrightarrow> us_name ` set (snd g) \<inter> N = {} \<and> snd g \<noteq> [] \<and> k \<noteq> site_down_key (snd g)"
  shows "leaves_alone N k (fst p) (fst (fold (reconcile_group ke window windows) gs p))"
proof (rule fold_invariant [where I = "\<lambda>q. leaves_alone N k (fst p) (fst q)"])
  fix g and q :: "'a uptime_db_scheme \<times> 'a uptime_db_scheme"
  assume "g \<in> set gs" "leaves_alone N k (fst p) (fst q)"
  with reconcile_group_other [of q g N k ke window windows] assms(2)
  show "leaves_alone N k (fst p) (fst (reconcile_group ke window windows g q))" by (simp add: leaves_alone_def)
qed (use assms in \<open>simp add: leaves_alone_def\<close>)

lemma reconcile_group_self:
  assumes "alert_inv (fst p)" and "active_window (site_windows windows (fst g)) (uptime_now ke) = None"
    and "b = unanimous_down (votes window (last_window_end (site_windows windows (fst g)) (uptime_now ke)) (snd g) (fst p))"
    and "N = us_name ` set (snd g)"
    and "open_alerts_of (fst p) (site_down_key (snd g)) = (if us_is_critical (hd (snd g)) then 1 else 0)"
  shows "alert_inv (fst (reconcile_group ke window windows g p)) \<and>
    site_rows N (fst (reconcile_group ke window windows g p)) =
      map (\<lambda>s. if b = us_is_critical (hd (snd g)) then s else s\<lparr>us_is_critical := b\<rparr>) (site_rows N (fst p)) \<and>
    open_alerts_of (fst (reconcile_group ke window windows g p)) (site_down_key (snd g)) = (if b then 1 else 0)"
proof -
  let ?was = "us_is_critical (hd (snd g))"
  let ?st = "if b \<noteq> ?was then flag_sites b (snd g) (fst p) else fst p"
  have st: "alert_inv ?st" "open_alerts_of ?st (site_down_key (snd g)) = (if ?was then 1 else 0)"
    using assms(1,5) by auto
  have rows: "site_rows N ?st = map (\<lambda>s. if b = ?was then s else s\<lparr>us_is_critical := b\<rparr>) (site_rows N (fst p))"
  proof (cases "b = ?was")
    case True
    then show ?thesis by simp
  next
    case False
    then show ?thesis
      unfolding assms(4) by (simp add: site_rows_def flag_sites_rows filter_map comp_def)
  qed
  obtain m rec where run: "fst (reconcile_group ke window windows g p) =
     handle_transition (base_env (kuma_poll_env ke)) ?was b ''Uptime Site'' (us_name (hd (snd g))) ''Site Down'' m (Some rec) True ?st"
    using group_verdict [OF assms(2,3)] by blast
  show ?thesis
    unfolding run using rows handle_transition_inv [OF st(1)] transition_sync [OF st] by (simp add: site_rows_def)
qed

lemma sorted_group:
  assumes "(n, g) \<in> set (group_rows us_site_name (sort_key us_name rows))"
  shows "set g = {s \<in> set rows. us_site_name s = n}" and "g \<noteq> []"
  using group_rows_mem [OF assms] by auto

text \<open>C5: The fleet votes. Let the Site Down alert of a site be in step with the flag of its first row. Outside
  every maintenance window of the site, the vote gives the verdict Down exactly when at least
  one active instance has an opinion and all that have one say Down. If that verdict differs from the
  first row's flag it is written to every row of the site's name, however they disagreed before,
  otherwise no row is touched; and afterwards one Site Down alert is open exactly for the verdict Down,
  in step with the first row again.\<close>

theorem reconcile_unanimous:
  assumes "distinct (map us_name (uptime_sites st))" and "alert_inv st"
    and "(n, g) \<in> set (group_rows us_site_name (sort_key us_name (uptime_sites st)))"
    and "ws = site_windows (windows_by_site None (maintenance_windows st)) n"
    and "active_window ws (uptime_now ke) = None"
    and "open_alerts_of st (site_down_key g) = (if us_is_critical (hd g) then 1 else 0)"
    and "down \<longleftrightarrow> vs \<noteq> [] \<and> list_all id vs" and "vs = votes window (last_window_end ws (uptime_now ke)) g st"
    and "st' = fst (reconcile_site_criticality ke window (st, committed))"
  shows "filter (\<lambda>s. us_name s \<in> us_name ` set g) (uptime_sites st') =
      map (\<lambda>s. if down = us_is_critical (hd g) then s else s\<lparr>us_is_critical := down\<rparr>)
        (filter (\<lambda>s. us_site_name s = n) (uptime_sites st)) \<and>
    open_alerts_of st' (site_down_key g) = (if down then 1 else 0)"
proof -
  let ?gs = "group_rows us_site_name (sort_key us_name (uptime_sites st))"
  let ?windows = "windows_by_site None (maintenance_windows st)"
  let ?rec = "reconcile_group ke window ?windows"
  define N where "N = us_name ` set g"
  have b: "down = unanimous_down vs"
    by (auto simp: assms(7) unanimous_down_def list_all_iff) (metis filter_id_conv id_apply length_filter_less less_irrefl)+
  have one: "s = t" if "s \<in> set (uptime_sites st)" "t \<in> set (uptime_sites st)" "us_name s = us_name t" for s t
    using assms(1) that by (auto simp: distinct_map inj_on_def)
  obtain pre post where split: "?gs = pre @ (n, g) # post" using split_list [OF assms(3)] by blast
  have other: "us_name ` set (snd x) \<inter> N = {} \<and> snd x \<noteq> [] \<and> site_down_key g \<noteq> site_down_key (snd x)"
    if "x \<in> set (pre @ post)" for x
  proof -
    obtain m h where x: "x = (m, h)" by (cases x)
    have mem: "(m, h) \<in> set ?gs" and "m \<noteq> n"
      using that split distinct_group_rows [of us_site_name "sort_key us_name (uptime_sites st)"] by (auto simp: x image_iff)
    note h = sorted_group [OF mem] and g = sorted_group [OF assms(3)]
    then have disj: "us_name ` set h \<inter> N = {}" using \<open>m \<noteq> n\<close> by (auto simp: N_def dest: one)
    moreover have "us_name (hd g) \<noteq> us_name (hd h)" using disj hd_in_set [OF g(2)] hd_in_set [OF h(2)] by (auto simp: N_def)
    ultimately show ?thesis using h(2) by (simp add: x)
  qed
  let ?p = "fold ?rec pre (st, committed)"
  have pre: "leaves_alone N (site_down_key g) st (fst ?p)"
    using reconcile_groups_other [of "(st, committed)" pre N "site_down_key g" ke window ?windows] assms(2) other by simp
  have rows: "site_rows N st = filter (\<lambda>s. us_site_name s = n) (uptime_sites st)"
    unfolding site_rows_def N_def sorted_group(1) [OF assms(3)] by (rule filter_cong) (auto dest: one)
  have b': "down = unanimous_down (votes window (last_window_end (site_windows ?windows (fst (n, g))) (uptime_now ke)) (snd (n, g)) (fst ?p))"
    using pre votes_cong [of "fst ?p" st] by (simp add: b assms(4,8) leaves_alone_def)
  have self: "alert_inv (fst (?rec (n, g) ?p)) \<and>
      site_rows N (fst (?rec (n, g) ?p)) = map (\<lambda>s. if down = us_is_critical (hd (snd (n, g))) then s else s\<lparr>us_is_critical := down\<rparr>)
          (site_rows N (fst ?p)) \<and>
      open_alerts_of (fst (?rec (n, g) ?p)) (site_down_key (snd (n, g))) = (if down then 1 else 0)"
    by (rule reconcile_group_self [OF _ _ b'])
      (use pre assms in \<open>auto simp: leaves_alone_def N_def\<close>)
  have post: "leaves_alone N (site_down_key g) (fst (?rec (n, g) ?p)) (fst (fold ?rec post (?rec (n, g) ?p)))"
    using self other by (intro reconcile_groups_other) auto
  have "st' = fst (fold ?rec post (?rec (n, g) ?p))"
    by (simp add: assms(9) reconcile_site_criticality_def Let_def split)
  with self post pre rows show ?thesis
    by (simp add: leaves_alone_def site_rows_def N_def)
qed

definition demo_checks :: "string list \<Rightarrow> datetime list \<Rightarrow> bool \<Rightarrow> check_log list" where
  "demo_checks sites ts up = concat (map (\<lambda>n. map (\<lambda>t. \<lparr>cl_site = n, cl_checked_at = t, cl_is_up = up, cl_raw_status = [],
     cl_response_time_ms = None, cl_in_maintenance = False\<rparr>) ts) sites)"

text \<open>Both enabled instances have seen the site down three times; the disabled one has no opinion.\<close>

definition demo_down_db :: uptime_db where
  "demo_down_db = demo_uptime_db\<lparr>check_logs := demo_checks [''s1'', ''s2''] [10, 20, 30] False\<rparr>"

theorem reconcile_unanimous_witness:
  "open_alerts_of (fst (reconcile_site_criticality demo_kuma_env 3 (demo_down_db, demo_down_db)))
     (''Uptime Site'', ''s1'', ''Site Down'') = 1"
proof -
  let ?st = demo_down_db
  let ?g = "snd (hd (group_rows us_site_name (sort_key us_name (uptime_sites ?st))))"
  let ?ws = "site_windows (windows_by_site None (maintenance_windows ?st)) ''shop''"
  have d: "distinct (map us_name (uptime_sites ?st))" and inv: "alert_inv ?st"
    and grp: "(''shop'', ?g) \<in> set (group_rows us_site_name (sort_key us_name (uptime_sites ?st)))"
    and win: "active_window ?ws (uptime_now demo_kuma_env) = None"
    and op: "open_alerts_of ?st (site_down_key ?g) = (if us_is_critical (hd ?g) then 1 else 0)"
    and vs: "votes 3 (last_window_end ?ws (uptime_now demo_kuma_env)) ?g ?st = [True, True]"
    and n: "us_name (hd ?g) = ''s1''"
    by code_simp+
  from reconcile_unanimous [OF d inv grp refl win op refl refl refl, of 3 demo_down_db] vs n
  show ?thesis by simp
qed

text \<open>C39: A known defect: a site without an opinion counts as recovered. When a critical site has fewer checks
  than the alert window since its last maintenance window ended (always the case right after
  the end), the next vote closes its open incident and reports that the site is back up,
  although nothing was checked in between; the comment says an open incident stays open.\<close>

theorem ended_window_sends_false_recovery:
  assumes "alert_inv (fst p)" and "ws = site_windows windows n" and "active_window ws (uptime_now ke) = None"
    and "us_is_critical (hd g)" and "0 < window"
    and "\<And>s. s \<in> set g \<Longrightarrow> int (length (counted_checks (us_name s) (last_window_end ws (uptime_now ke)) (fst p))) < window"
    and "st' = fst (reconcile_group ke window windows (n, g) p)"
  shows "open_alerts_of st' (site_down_key g) = 0 \<and>
    (\<exists>r \<in> set (alert_log st'). alert_name r = next_alert (fst p) \<and> alert_type r = ''Site Down'' \<and> reference_name r = us_name (hd g) \<and>
       alert_message r = n @ '' is back up.'' \<and> sent_at r = uptime_now ke)"
proof -
  have "instance_verdict (us_name s) window (last_window_end ws (uptime_now ke)) (fst p) = None" if "s \<in> set g" for s
    using assms(6) [OF that] by (auto simp: instance_verdict_def Let_def)
  then have none: "votes window (last_window_end ws (uptime_now ke)) g (fst p) = []"
    by (auto simp: votes_def List.map_filter_def filter_empty_conv)
  have quiet: "\<not> unanimous_down (votes window (last_window_end ws (uptime_now ke)) g (fst p))" by (simp add: none unanimous_down_def)
  let ?f = "flag_sites False g (fst p)"
  let ?r = "resolve_alert ''Uptime Site'' (us_name (hd g)) ''Site Down'' ?f"
  have run: "st' = dispatch_recovery (base_env (kuma_poll_env ke)) ''Site Down'' ''Uptime Site'' (us_name (hd g)) (n @ '' is back up.'') True ?r"
    using assms(2-4) quiet
    by (simp add: assms(7) reconcile_group_def Let_def flag_sites_def handle_transition_def truthy_def)
  have "alert_inv ?r" using assms(1) by (simp add: alert_inv_resolve)
  then have "open_alerts_of st' (site_down_key g) = 0"
    using assms(1) by (simp add: run open_laws)
  moreover have "next_alert ?r = next_alert (fst p)"
    by simp
  ultimately show ?thesis
    using dispatch_recovery_log(1) [where st = ?r and e = "base_env (kuma_poll_env ke)" and ty = "''Site Down''" and d = "''Uptime Site''"
        and n = "us_name (hd g)" and m = "n @ '' is back up.''" and g = True]
    by (auto simp: run clock_def)
qed

text \<open>The site went down, then into a planned shutdown that has just ended.\<close>

definition demo_shutdown :: maintenance_window where
  "demo_shutdown = demo_nightly\<lparr>w_window_type := ''One-time'', w_start_datetime := Some 100, w_end_datetime := Some 500\<rparr>"

theorem ended_window_sends_false_recovery_witness:
  "let g = map (\<lambda>s. s\<lparr>us_is_critical := True\<rparr>) (uptime_sites demo_down_db);
       st' = fst (reconcile_group demo_kuma_env 3 [(''shop'', [demo_shutdown])] (''shop'', g) (demo_down_db, demo_down_db))
   in \<exists>r \<in> set (alert_log st'). alert_message r = ''shop is back up.'' \<and> reference_name r = ''s1''"
proof -
  let ?g = "map (\<lambda>s. s\<lparr>us_is_critical := True\<rparr>) (uptime_sites demo_down_db)"
  let ?ws = "site_windows [(''shop'', [demo_shutdown])] ''shop''"
  have inv: "alert_inv (fst (demo_down_db, demo_down_db))" and win: "active_window ?ws (uptime_now demo_kuma_env) = None"
    and crit: "us_is_critical (hd ?g)" and n: "us_name (hd ?g) = ''s1''"
    and few: "list_all (\<lambda>s. int (length (counted_checks (us_name s) (last_window_end ?ws (uptime_now demo_kuma_env))
        (fst (demo_down_db, demo_down_db)))) < 3) ?g"
    by code_simp+
  from ended_window_sends_false_recovery [OF inv refl win crit _ _ refl, of 3] few n show ?thesis
    by (fastforce simp: Let_def list_all_iff)
qed

subsection \<open>The loop comes back\<close>

interpretation uptime_run: bounded_loop
  "\<lambda>fuel. uptime_loop fuel w" "\<lambda>i. keep_uptime_polling (w i)" "\<lambda>i. uptime_cycle (w i)" "\<lambda>p. \<not> any_instance_enabled (fst p)"
  "\<lambda>i. uw_stop (w i)" "\<lambda>i. uw_elapsed (w i)" UPTIME_MAX_LOOP_SECONDS for w
  by unfold_locales (auto simp: keep_uptime_polling_def UPTIME_MAX_LOOP_SECONDS_def Let_def)

text \<open>One run of the uptime loop comes back after at most 301 cycles, because a stop was requested, because
  its 300 seconds are over, or because no instance is enabled any more; only a run that reached its
  time limit hands over to a successor.\<close>

theorem run_uptime_poll_loop_returns:
  assumes "0 \<le> uw_elapsed (w 0)" and "\<And>i. uw_stop (w (Suc i)) \<or> uw_elapsed (w i) + 1 \<le> uw_elapsed (w (Suc i))"
  shows "\<exists>k q. uptime_loop 301 w 0 p = Some (k, q) \<and> k \<le> 301 \<and>
    (uw_stop (w k) \<or> 300 \<le> uw_elapsed (w k) \<or> \<not> any_instance_enabled (fst q)) \<and>
    run_uptime_poll_loop 301 je current w p =
      Some (k, if \<not> uw_stop (w k) \<and> 300 \<le> uw_elapsed (w k)
               then (hand_off_loop je current RUN_UPTIME_POLL_LOOP UPTIME_POLLER_JOB_ID (fst q), snd q) else q)"
proof -
  have "\<exists>k q. uptime_loop (Suc (nat UPTIME_MAX_LOOP_SECONDS)) w 0 p = Some (k, q) \<and> k \<le> Suc (nat UPTIME_MAX_LOOP_SECONDS) \<and>
      (\<not> keep_uptime_polling (w k) \<or> \<not> any_instance_enabled (fst q))"
    by (rule uptime_run.run_returns) (rule assms)+
  then obtain k q where "uptime_loop 301 w 0 p = Some (k, q)" "k \<le> 301" "\<not> keep_uptime_polling (w k) \<or> \<not> any_instance_enabled (fst q)"
    by (auto simp: UPTIME_MAX_LOOP_SECONDS_def)
  then show ?thesis
    by (auto simp: run_uptime_poll_loop_def keep_uptime_polling_def UPTIME_MAX_LOOP_SECONDS_def)
qed

definition demo_uptime_worlds :: "nat \<Rightarrow> uptime_world" where
  "demo_uptime_worlds i = \<lparr>uw_env = demo_kuma_env, uw_elapsed = of_nat (60 * i), uw_stop = False, uw_crash = True\<rparr>"

theorem run_uptime_poll_loop_returns_witness:
  "\<exists>k q. uptime_loop 301 demo_uptime_worlds 0 (demo_uptime_db, demo_uptime_db) = Some (k, q) \<and> k \<le> 301"
proof -
  have a: "0 \<le> uw_elapsed (demo_uptime_worlds 0)" and
    "uw_stop (demo_uptime_worlds (Suc i)) \<or> uw_elapsed (demo_uptime_worlds i) + 1 \<le> uw_elapsed (demo_uptime_worlds (Suc i))" for i
    by (simp_all add: demo_uptime_worlds_def)
  from run_uptime_poll_loop_returns [OF this, where p = "(demo_uptime_db, demo_uptime_db)" and je = demo_job_env and current = None]
  show ?thesis by blast
qed

subsection \<open>The check history\<close>

text \<open>Checks taken in planned downtime, or before the last one ended, have no influence on a verdict.\<close>

lemma verdict_ignores:
  fixes st st' :: "'a uptime_db_scheme"
  assumes "filter P (check_logs st) = filter P (check_logs st')"
    and "\<And>c. cl_site c = n \<Longrightarrow> \<not> cl_in_maintenance c \<Longrightarrow> (case since of None \<Rightarrow> True | Some t \<Rightarrow> cl_checked_at c > t) \<Longrightarrow> P c"
  shows "instance_verdict n window since st = instance_verdict n window since st'"
proof -
  have "counted_checks n since s = filter (\<lambda>c. cl_site c = n \<and> \<not> cl_in_maintenance c \<and>
      (case since of None \<Rightarrow> True | Some t \<Rightarrow> cl_checked_at c > t)) (filter P (check_logs s))" for s :: "'a uptime_db_scheme"
    using assms(2) by (auto simp: counted_checks_def intro!: filter_cong)
  then have "counted_checks n since st = counted_checks n since st'" by (simp only: assms(1))
  then show ?thesis by (simp add: instance_verdict_def)
qed

text \<open>The purge ends and removes exactly the checks older than the retention period, keeping the others in
  order; no verdict on a window that lies inside the retention period changes.\<close>

theorem purge_old_check_logs_exact:
  assumes "cutoff = uptime_now ke - or_int (up_check_log_retention_days (uptime_settings st)) 90 * DAY"
  shows "check_logs (purge_old_check_logs ke st) = filter (\<lambda>c. cutoff \<le> cl_checked_at c) (check_logs st) \<and>
    (cutoff \<le> since \<longrightarrow> instance_verdict n window (Some since) (purge_old_check_logs ke st) = instance_verdict n window (Some since) st)"
proof -
  have rows: "check_logs (purge_old_check_logs ke st) = filter (\<lambda>c. cutoff \<le> cl_checked_at c) (check_logs st)"
    by (simp add: purge_old_check_logs_def Let_def purge_loop_eq CHECK_PURGE_BATCH_SIZE_def DEFAULT_CHECK_LOG_RETENTION_DAYS_def
        assms not_less)
  moreover have "instance_verdict n window (Some since) (purge_old_check_logs ke st) = instance_verdict n window (Some since) st"
    if "cutoff \<le> since"
    by (rule verdict_ignores [where P = "\<lambda>c. cutoff \<le> cl_checked_at c"]) (use that rows in auto)
  ultimately show ?thesis by blast
qed

theorem purge_old_check_logs_exact_witness:
  "check_logs (purge_old_check_logs demo_kuma_env demo_down_db) = check_logs demo_down_db"
proof -
  have "list_all (\<lambda>c. uptime_now demo_kuma_env - or_int (up_check_log_retention_days (uptime_settings demo_down_db)) 90 * DAY \<le> cl_checked_at c)
    (check_logs demo_down_db)" by code_simp
  with purge_old_check_logs_exact [where ke = demo_kuma_env and st = demo_down_db, OF refl] show ?thesis
    by (auto simp: list_all_iff filter_id_conv)
qed

subsection \<open>A poll writes the checks it read\<close>

definition reading_status :: "(string \<times> metric_reading) list \<Rightarrow> uptime_site \<Rightarrow> int option" where
  "reading_status metrics s = (case map_of metrics (us_site_name s) of None \<Rightarrow> None | Some r \<Rightarrow> map_option py_int (mr_status r))"

definition reading_ms :: "(string \<times> metric_reading) list \<Rightarrow> uptime_site \<Rightarrow> rat option" where
  "reading_ms metrics s = (case map_of metrics (us_site_name s) of None \<Rightarrow> None | Some r \<Rightarrow> mr_response_time_ms r)"

lemma record_one_logs:
  assumes "\<And>c. check_save_ok ke c"
  shows "check_logs (record_one ke metrics windows s st) = check_logs st @
    (if reading_status metrics s \<in> {Some STATUS_UP, Some STATUS_DOWN}
     then [check_row ke (us_name s) (the (reading_status metrics s)) (reading_ms metrics s)
             (active_window (site_windows windows (us_site_name s)) (uptime_now ke) \<noteq> None)] else [])"
  using assms
  by (auto simp: record_one_def record_site_check_def reading_status_def reading_ms_def Let_def split: option.splits)

lemma record_one_frame [frame_simps, simp]:
  "alert_log (record_one ke metrics windows s st) = alert_log st" "outbox (record_one ke metrics windows s st) = outbox st"
  "kuma_calls (record_one ke metrics windows s st) = kuma_calls st"
  by (auto simp: record_one_def record_site_check_def Let_def set_site_def log_error_def split: option.splits)

lemma record_all_logs:
  assumes "\<And>c. check_save_ok ke c"
  shows "check_logs (fold (record_one ke metrics windows) ss st) = check_logs st @
    map (\<lambda>s. check_row ke (us_name s) (the (reading_status metrics s)) (reading_ms metrics s)
             (active_window (site_windows windows (us_site_name s)) (uptime_now ke) \<noteq> None))
      (filter (\<lambda>s. reading_status metrics s \<in> {Some STATUS_UP, Some STATUS_DOWN}) ss)"
  by (induction ss arbitrary: st) (simp_all add: record_one_logs [OF assms])

text \<open>A successful poll of a due instance appends one check for each of its sites that Kuma reports Up or Down,
  in the order of the sites, marked with whether the site was in planned downtime, and nothing
  for sites that are pending, in Kuma's own maintenance or unknown to it; it commits, raises no
  alert and calls no other part of Kuma.\<close>

theorem poll_instance_records_checks:
  assumes "find_row ki_name inst (kuma_instances st) = Some doc" and "kuma_metrics ke inst = Inr metrics"
    and "case ki_last_synced doc of None \<Rightarrow> True | Some t \<Rightarrow> interval * SECOND \<le> uptime_now ke - t"
    and "\<And>c. check_save_ok ke c"
    and "windows = windows_by_site None (maintenance_windows st)"
    and "poll_instance ke interval inst (st, committed) = (err, st', committed')"
  shows "err = None \<and> committed' = st' \<and> alert_log st' = alert_log st \<and> outbox st' = outbox st \<and> kuma_calls st' = kuma_calls st \<and>
    check_logs st' = check_logs st @
      map (\<lambda>s. check_row ke (us_name s) (the (reading_status metrics s)) (reading_ms metrics s)
             (active_window (site_windows windows (us_site_name s)) (uptime_now ke) \<noteq> None))
        (filter (\<lambda>s. us_instance s = inst \<and> reading_status metrics s \<in> {Some STATUS_UP, Some STATUS_DOWN}) (uptime_sites st))"
proof -
  let ?st = "set_instance inst (\<lambda>i. i\<lparr>ki_last_synced := Some (uptime_now ke), ki_last_error := []\<rparr>) st"
  let ?ss = "filter (\<lambda>s. us_instance s = inst) (uptime_sites st)"
  have run: "st' = fold (record_one ke metrics windows) ?ss ?st" "committed' = st'" "err = None"
    using assms(1-3,5,6) by (auto simp: poll_instance_def Let_def set_instance_def split: option.splits)
  have frame: "alert_log (fold (record_one ke metrics windows) ss s) = alert_log s"
    "outbox (fold (record_one ke metrics windows) ss s) = outbox s"
    "kuma_calls (fold (record_one ke metrics windows) ss s) = kuma_calls s" for ss s
    by (simp_all add: fold_preserves)
  have order: "(\<lambda>s. reading_status metrics s \<in> {Some STATUS_UP, Some STATUS_DOWN} \<and> us_instance s = inst) =
      (\<lambda>s. us_instance s = inst \<and> reading_status metrics s \<in> {Some STATUS_UP, Some STATUS_DOWN})" by auto
  show ?thesis
    by (simp only: run(1) run(2,3) frame record_all_logs [OF assms(4)] filter_filter order) (simp add: set_instance_def)
qed

end
