(* ===== verification/Uptime_Overview.thy ===== *)
theory Uptime_Overview
  imports Uptime_Poller
begin

text \<open>
  The read side of \<open>uptime_monitor/api.py\<close>: \<open>get_site_overview\<close>, which turns the check history into one row
  per site name with its figures, availability strip and windows, and the window endpoints.
\<close>

definition STRIP_BUCKETS :: nat where "STRIP_BUCKETS = 28"

definition overview_start :: "kuma_env \<Rightarrow> int \<Rightarrow> datetime" where
  "overview_start ke days = uptime_now ke - (if days = 0 then 7 else days) * DAY"

definition bucket_seconds :: "kuma_env \<Rightarrow> int \<Rightarrow> int" where
  "bucket_seconds ke days = max 1 ((uptime_now ke - overview_start ke days) div SECOND div int STRIP_BUCKETS)"

subsection \<open>Figures of one site row\<close>

definition recent_checks :: "datetime \<Rightarrow> string \<Rightarrow> 'a uptime_db_scheme \<Rightarrow> check_log list" where
  "recent_checks start n st = filter (\<lambda>c. cl_site c = n \<and> cl_checked_at c \<ge> start) (check_logs st)"

definition count_checks :: "datetime \<Rightarrow> string \<Rightarrow> 'a uptime_db_scheme \<Rightarrow> nat" where
  "count_checks start n st = length (filter (\<lambda>c. \<not> cl_in_maintenance c) (recent_checks start n st))"

definition count_up :: "datetime \<Rightarrow> string \<Rightarrow> 'a uptime_db_scheme \<Rightarrow> nat" where
  "count_up start n st = length (filter (\<lambda>c. \<not> cl_in_maintenance c \<and> cl_is_up c) (recent_checks start n st))"

text \<open>SQL's \<open>avg\<close> over the readings of counted Up checks; nothing when there is none.\<close>

definition avg_ms :: "datetime \<Rightarrow> string \<Rightarrow> 'a uptime_db_scheme \<Rightarrow> rat option" where
  "avg_ms start n st =
     (let ts = filter (\<lambda>t. t \<ge> 0) (List.map_filter cl_response_time_ms
                 (filter (\<lambda>c. \<not> cl_in_maintenance c \<and> cl_is_up c) (recent_checks start n st)))
      in if ts = [] then None else Some (sum_list ts / of_nat (length ts)))"

definition percent :: "nat \<Rightarrow> nat \<Rightarrow> rat option" where
  "percent up_checks checks = (if checks = 0 then None else Some (py_round_nd 2 (of_nat up_checks / of_nat checks * 100)))"

subsection \<open>The availability strip\<close>

record strip_cell =
  sc_up :: nat
  sc_down :: nat
  sc_maint :: nat

definition bucket_of :: "datetime \<Rightarrow> int \<Rightarrow> check_log \<Rightarrow> int" where
  "bucket_of start bsize c = (cl_checked_at c - start) div SECOND div bsize"

definition cell_of :: "check_log list \<Rightarrow> strip_cell" where
  "cell_of cs = \<lparr>sc_up = length (filter (\<lambda>c. \<not> cl_in_maintenance c \<and> cl_is_up c) cs),
     sc_down = length (filter (\<lambda>c. \<not> cl_in_maintenance c \<and> \<not> cl_is_up c) cs), sc_maint = length (filter cl_in_maintenance cs)\<rparr>"

text \<open>
  The rows of the grouped query, in the order of the group key, are stored under their bucket, numbers
  past the last bucket under the last one; a later row replaces an earlier one.
\<close>

definition site_cells :: "datetime \<Rightarrow> int \<Rightarrow> string \<Rightarrow> 'a uptime_db_scheme \<Rightarrow> int \<Rightarrow> strip_cell option" where
  "site_cells start bsize n st =
     fold (\<lambda>(b, cs) m. m(min b (int STRIP_BUCKETS - 1) \<mapsto> cell_of cs))
       (sort_key fst (group_rows (bucket_of start bsize) (recent_checks start n st))) Map.empty"

definition cell_sum :: "(strip_cell \<Rightarrow> nat) \<Rightarrow> datetime \<Rightarrow> int \<Rightarrow> uptime_site list \<Rightarrow> int \<Rightarrow> 'a uptime_db_scheme \<Rightarrow> nat" where
  "cell_sum f start bsize siblings b st =
     sum_list (map (\<lambda>s. case site_cells start bsize (us_name s) st b of None \<Rightarrow> 0 | Some c \<Rightarrow> f c) siblings)"

definition strip_state :: "datetime \<Rightarrow> int \<Rightarrow> uptime_site list \<Rightarrow> (datetime \<times> datetime) list \<Rightarrow> 'a uptime_db_scheme \<Rightarrow> int \<Rightarrow> string" where
  "strip_state start bsize siblings spans st b =
     (let ups = cell_sum sc_up start bsize siblings b st; downs = cell_sum sc_down start bsize siblings b st;
          maint = cell_sum sc_maint start bsize siblings b st;
          b_start = start + b * bsize * SECOND; b_end = b_start + bsize * SECOND
      in if ups \<noteq> 0 \<or> downs \<noteq> 0 then (if downs > ups then ''down'' else if downs \<noteq> 0 then ''degraded'' else ''up'')
         else if maint \<noteq> 0 \<or> list_ex (\<lambda>(ws, we). ws < b_end \<and> we > b_start) spans then ''maintenance''
         else ''none'')"

definition strip :: "datetime \<Rightarrow> int \<Rightarrow> uptime_site list \<Rightarrow> (datetime \<times> datetime) list \<Rightarrow> 'a uptime_db_scheme \<Rightarrow> string list" where
  "strip start bsize siblings spans st = map (\<lambda>b. strip_state start bsize siblings spans st (int b)) [0..<STRIP_BUCKETS]"

subsection \<open>Staleness of instances\<close>

definition latest_check :: "string \<Rightarrow> 'a uptime_db_scheme \<Rightarrow> datetime option" where
  "latest_check inst st =
     (case List.map_filter us_last_checked (filter (\<lambda>s. us_instance s = inst) (uptime_sites st)) of
        [] \<Rightarrow> None | ts \<Rightarrow> Some (Max (set ts)))"

definition stale_instance :: "kuma_env \<Rightarrow> string \<Rightarrow> 'a uptime_db_scheme \<Rightarrow> bool" where
  "stale_instance ke inst st \<longleftrightarrow>
     (let stale_after = max (or_int (up_poll_interval_seconds (uptime_settings st)) 60 * 5) 600
      in case latest_check inst st of None \<Rightarrow> True | Some t \<Rightarrow> uptime_now ke - t > stale_after * SECOND)"

subsection \<open>The overview\<close>

record instance_reading =
  ir_name :: string
  ir_instance :: string
  ir_status :: string
  ir_is_active :: bool
  ir_last_checked :: "datetime option"
  ir_avg_response_ms :: "rat option"
  ir_uptime_percent :: "rat option"
  ir_stale :: bool

record site_overview =
  ov_site_name :: string
  ov_name :: string
  ov_monitor_type :: string
  ov_target :: "string option"
  ov_status :: string
  ov_is_active :: bool
  ov_uptime_percent :: "rat option"
  ov_checks :: nat
  ov_failed_checks :: int
  ov_avg_response_ms :: "rat option"
  ov_instances :: "instance_reading list"
  ov_strip :: "string list"
  ov_in_maintenance :: bool
  ov_next_window :: "(datetime \<times> datetime) option"

definition site_target :: "uptime_site \<Rightarrow> string option" where
  "site_target s =
     (if truthy (us_url s) then us_url s
      else if opt_int (us_port s) \<noteq> 0
      then Some ((case us_hostname s of None \<Rightarrow> ''None'' | Some h \<Rightarrow> h) @ '':'' @ show_int (opt_int (us_port s)))
      else us_hostname s)"

definition instance_row :: "kuma_env \<Rightarrow> datetime \<Rightarrow> 'a uptime_db_scheme \<Rightarrow> uptime_site \<Rightarrow> instance_reading" where
  "instance_row ke start st s =
     \<lparr>ir_name = us_name s, ir_instance = us_instance s, ir_status = us_current_status s, ir_is_active = us_is_active s,
      ir_last_checked = us_last_checked s, ir_avg_response_ms = map_option (py_round_nd 1) (avg_ms start (us_name s) st),
      ir_uptime_percent = percent (count_up start (us_name s) st) (count_checks start (us_name s) st),
      ir_stale = stale_instance ke (us_instance s) st\<rparr>"

definition overview_row :: "kuma_env \<Rightarrow> int \<Rightarrow> 'a uptime_db_scheme \<Rightarrow> string \<times> uptime_site list \<Rightarrow> site_overview" where
  "overview_row ke days st g =
     (let start = overview_start ke days; now = uptime_now ke; siblings = snd g; first = hd siblings;
          ws = site_windows (windows_by_site None (maintenance_windows st)) (fst g);
          in_window = active_window ws now \<noteq> None;
          checks = sum_list (map (\<lambda>s. count_checks start (us_name s) st) siblings);
          up_checks = sum_list (map (\<lambda>s. count_up start (us_name s) st) siblings)
      in \<lparr>ov_site_name = fst g, ov_name = us_name first, ov_monitor_type = us_monitor_type first, ov_target = site_target first,
          ov_status = group_status siblings in_window, ov_is_active = list_ex us_is_active siblings,
          ov_uptime_percent = percent up_checks checks, ov_checks = checks, ov_failed_checks = int checks - int up_checks,
          ov_avg_response_ms = (if up_checks = 0 then None else Some (py_round_nd 1
             (sum_list (List.map_filter (\<lambda>s. map_option (\<lambda>a. a * of_nat (count_up start (us_name s) st)) (avg_ms start (us_name s) st)) siblings)
              / of_nat up_checks))),
          ov_instances = map (instance_row ke start st) siblings,
          ov_strip = strip start (bucket_seconds ke days) siblings (intervals ws start now) st,
          ov_in_maintenance = in_window, ov_next_window = next_window ws now\<rparr>)"

definition site_groups :: "'a uptime_db_scheme \<Rightarrow> (string \<times> uptime_site list) list" where
  "site_groups st = group_rows us_site_name (sort_key us_site_name (sort_key us_instance (uptime_sites st)))"

definition site_incidents :: "kuma_env \<Rightarrow> int \<Rightarrow> 'a uptime_db_scheme \<Rightarrow> (alert_row \<times> string) list" where
  "site_incidents ke days st =
     map (\<lambda>r. (r, case find_row us_name (reference_name r) (uptime_sites st) of None \<Rightarrow> reference_name r | Some s \<Rightarrow> us_site_name s))
       (take 200 (sort_key (\<lambda>r. - sent_at r) (filter (\<lambda>r. reference_doctype r = ''Uptime Site'' \<and> alert_type r = ''Site Down'' \<and>
          sent_at r \<ge> overview_start ke days) (alert_log st))))"

record instance_health =
  ih_name :: string
  ih_enabled :: bool
  ih_last_synced :: "datetime option"
  ih_last_error :: string
  ih_last_check :: "datetime option"
  ih_stale :: bool
  ih_site_count :: nat

definition instance_health_row :: "kuma_env \<Rightarrow> 'a uptime_db_scheme \<Rightarrow> kuma_instance \<Rightarrow> instance_health" where
  "instance_health_row ke st i =
     \<lparr>ih_name = ki_name i, ih_enabled = ki_enabled i, ih_last_synced = ki_last_synced i, ih_last_error = ki_last_error i,
      ih_last_check = latest_check (ki_name i) st, ih_stale = stale_instance ke (ki_name i) st,
      ih_site_count = length (filter (\<lambda>s. us_instance s = ki_name i) (uptime_sites st))\<rparr>"

definition get_site_overview ::
    "kuma_env \<Rightarrow> bool \<Rightarrow> int \<Rightarrow> 'a uptime_db_scheme \<Rightarrow> api_failure + (site_overview list \<times> instance_health list \<times> (alert_row \<times> string) list)" where
  "get_site_overview ke reader days st =
     (if \<not> reader then Inl NotPermitted
      else Inr (map (overview_row ke days st) (site_groups st), map (instance_health_row ke st) (kuma_instances st), site_incidents ke days st))"

subsection \<open>Window endpoints\<close>

definition window_active :: "maintenance_window \<Rightarrow> datetime \<Rightarrow> bool" where
  "window_active w now \<longleftrightarrow> w_enabled w \<and> active_window [w] now \<noteq> None"

definition get_maintenance_windows ::
    "kuma_env \<Rightarrow> bool \<Rightarrow> string \<Rightarrow> 'a uptime_db_scheme \<Rightarrow> api_failure + (maintenance_window \<times> string option \<times> bool) list" where
  "get_maintenance_windows ke reader site_name st =
     (if \<not> reader then Inl NotPermitted
      else Inr (map (\<lambda>w. (w, describe (uptime_now ke) w, window_active w (uptime_now ke)))
             (filter (\<lambda>w. w_site_name w = site_name) (maintenance_windows st))))"

definition delete_maintenance_window :: "bool \<Rightarrow> string \<Rightarrow> 'a uptime_db_scheme \<Rightarrow> (api_failure + string) \<times> 'a uptime_db_scheme" where
  "delete_maintenance_window writer n st =
     (if \<not> writer then (Inl NotPermitted, st)
      else (Inr n, st\<lparr>maintenance_windows := filter (\<lambda>w. w_name w \<noteq> n) (maintenance_windows st)\<rparr>))"

subsection \<open>The figures add up\<close>

lemma count_split:
  "count_checks start n st = count_up start n st +
     length (filter (\<lambda>c. \<not> cl_in_maintenance c \<and> \<not> cl_is_up c) (recent_checks start n st))"
proof -
  have "length (filter P xs) = length (filter (\<lambda>x. P x \<and> Q x) xs) + length (filter (\<lambda>x. P x \<and> \<not> Q x) xs)"
    for P Q and xs :: "check_log list"
    by (induction xs) auto
  then show ?thesis unfolding count_checks_def count_up_def .
qed

lemma percent_bounds:
  assumes "up \<le> checks" and "percent up checks = Some p"
  shows "0 \<le> p \<and> p \<le> 100 \<and> (up = checks \<longrightarrow> p = 100)"
proof -
  have c: "checks \<noteq> 0" and p: "p = py_round_nd 2 (of_nat up / of_nat checks * 100)"
    using assms(2) by (auto simp: percent_def split: if_splits)
  have q: "0 \<le> (of_nat up / of_nat checks * 100 :: rat)" "(of_nat up / of_nat checks * 100 :: rat) \<le> 100"
    using assms(1) c by (simp_all add: divide_le_eq)
  have r0: "py_round_nd 2 0 = 0" and r100: "py_round_nd 2 100 = 100"
    using py_round_nd_of_int [of 2 0] py_round_nd_of_int [of 2 100] by simp_all
  have "up = checks \<Longrightarrow> p = 100" using c r100 by (simp add: p)
  then show ?thesis
    using py_round_nd_mono [OF q(1), of 2] py_round_nd_mono [OF q(2), of 2] r0 r100 by (simp add: p)
qed

text \<open>The figures of the overview add up: the failed checks of a site are exactly its Down checks of the range
  outside planned downtime over all instances, the uptime is a percentage between 0 and 100, 100
  when nothing failed and absent exactly when nothing was checked; the strip has 28 cells.\<close>

theorem overview_figures_add_up:
  "let r = overview_row ke days st g; start = overview_start ke days;
       failed = sum_list (map (\<lambda>s. length (filter (\<lambda>c. \<not> cl_in_maintenance c \<and> \<not> cl_is_up c) (recent_checks start (us_name s) st))) (snd g))
   in ov_failed_checks r = int failed \<and> length (ov_strip r) = 28 \<and>
      (case ov_uptime_percent r of
         None \<Rightarrow> ov_checks r = 0
       | Some p \<Rightarrow> ov_checks r \<noteq> 0 \<and> 0 \<le> p \<and> p \<le> 100 \<and> (if failed = 0 then p = 100 else True))"
proof -
  let ?start = "overview_start ke days"
  let ?up = "sum_list (map (\<lambda>s. count_up ?start (us_name s) st) (snd g))"
  let ?checks = "sum_list (map (\<lambda>s. count_checks ?start (us_name s) st) (snd g))"
  define failed where
    "failed = sum_list (map (\<lambda>s. length (filter (\<lambda>c. \<not> cl_in_maintenance c \<and> \<not> cl_is_up c) (recent_checks ?start (us_name s) st))) (snd g))"
  have sum: "?checks = ?up + failed" by (simp add: failed_def count_split sum_list_addf)
  have "case percent ?up ?checks of None \<Rightarrow> ?checks = 0
      | Some p \<Rightarrow> ?checks \<noteq> 0 \<and> 0 \<le> p \<and> p \<le> 100 \<and> (if failed = 0 then p = 100 else True)"
  proof (cases "percent ?up ?checks")
    case (Some p)
    with percent_bounds [OF _ Some] sum show ?thesis by (auto simp: percent_def split: if_splits)
  qed (auto simp: percent_def split: if_splits)
  moreover have "ov_uptime_percent (overview_row ke days st g) = percent ?up ?checks" "ov_checks (overview_row ke days st g) = ?checks"
    "ov_failed_checks (overview_row ke days st g) = int ?checks - int ?up" "length (ov_strip (overview_row ke days st g)) = 28"
    by (simp_all add: overview_row_def Let_def strip_def STRIP_BUCKETS_def)
  ultimately show ?thesis
    using sum unfolding Let_def failed_def [symmetric] by (auto split: option.split)
qed

subsection \<open>The last cell of the strip\<close>

lemma sorted_last_max:
  fixes xs :: "(int \<times> 'b) list"
  assumes "xs \<noteq> []" and "x \<in> set xs"
  shows "fst x \<le> fst (last (sort_key fst xs))"
proof -
  have gen: "fst y \<le> fst (last ys)" if "sorted (map fst ys)" "y \<in> set ys" for y and ys :: "(int \<times> 'b) list"
    using that by (induction ys rule: rev_induct) (auto simp: sorted_append)
  show ?thesis by (rule gen) (use assms(2) in simp_all)
qed

text \<open>A known defect of the strip: when some checks of a site fall past the last of the 28 buckets (whenever
  the range is not a multiple of 28 seconds, the newest ones do), they replace the last cell
  instead of adding to it, so every other check of the last bucket disappears from the strip.\<close>

theorem newest_checks_replace_last_cell:
  assumes "c \<in> set (recent_checks start n st)" and "bucket_of start bsize c = newest" and "27 \<le> newest"
    and "\<And>x. x \<in> set (recent_checks start n st) \<Longrightarrow> bucket_of start bsize x \<le> newest"
  shows "site_cells start bsize n st 27 = Some (cell_of (filter (\<lambda>x. bucket_of start bsize x = newest) (recent_checks start n st)))"
proof -
  let ?gs = "group_rows (bucket_of start bsize) (recent_checks start n st)"
  let ?xs = "sort_key fst ?gs"
  have keys: "fst ` set ?gs = bucket_of start bsize ` set (recent_checks start n st)" by (rule group_rows_keys)
  then have "newest \<in> fst ` set ?gs" using assms(1,2) by auto
  then obtain cs0 where g0: "(newest, cs0) \<in> set ?gs" by auto
  then have ne: "?gs \<noteq> []" "?xs \<noteq> []" by (auto simp: set_empty [symmetric] simp del: set_empty)
  obtain b cs where l: "last ?xs = (b, cs)" by (cases "last ?xs")
  have mem: "(b, cs) \<in> set ?gs" using last_in_set [OF ne(2)] l by simp
  have "newest \<le> b" using sorted_last_max [OF ne(1) g0] l by simp
  moreover have "b \<in> bucket_of start bsize ` set (recent_checks start n st)" using mem keys by force
  ultimately have b: "b = newest" using assms(4) by fastforce
  have xs: "?xs = butlast ?xs @ [(b, cs)]" using append_butlast_last_id [OF ne(2)] l by simp
  have "site_cells start bsize n st 27 = Some (cell_of cs)"
    unfolding site_cells_def by (subst xs) (use b assms(3) in \<open>simp add: STRIP_BUCKETS_def\<close>)
  then show ?thesis using group_rows_mem(1) [OF mem] b by simp
qed

end
