(* ===== verification/Server_Deletion.thy ===== *)
theory Server_Deletion
  imports Loop_Jobs
begin

text \<open>
  \<open>proxmox_fleet_monitor/server_deletion.py\<close>: deleting a disabled server with everything linked to it, after
  writing an archive. The job touches some twenty tables, and copies their rows without looking into
  most fields; so a row here is its name, its creation time and its field values as text, and the database
  is a function from the document type to the rows.
\<close>

record doc_row =
  dr_name :: string
  dr_creation :: datetime
  dr_fields :: "(string \<times> string) list"

type_synonym doc_tables = "string \<Rightarrow> doc_row list"

text \<open>An entry of \<open>records\<close> in the attached file: full copies of the rows, each with its child rows, or
  names only. The entries of \<open>history_summary\<close> hold a count and the first and last date.\<close>

datatype archived =
  Rows "(doc_row \<times> (string \<times> doc_row list) list) list"
| Names "string list"

record archive_payload =
  pl_archive :: string
  pl_server :: string
  pl_server_doc :: string
  pl_hostname :: "string option"
  pl_requested_by :: string
  pl_requested_at :: datetime
  pl_archived_at :: datetime
  pl_records :: "(string \<times> archived) list"
  pl_history :: "(string \<times> nat \<times> datetime \<times> datetime) list"

record archive =
  ar_name :: string
  ar_server_doc :: string
  ar_server_name :: string
  ar_hostname :: "string option"
  ar_role :: "string option"
  ar_server_type :: "string option"
  ar_status :: string
  ar_requested_by :: string
  ar_requested_at :: datetime
  ar_completed_at :: "datetime option"
  ar_file :: "archive_payload option"
  ar_summary :: "(string \<times> nat) list option"
  ar_error :: "string option"

record deletion_db =
  doc_tables :: doc_tables
  auth_secrets :: "(string \<times> string) list"
  archives :: "archive list"
  deletion_jobs :: "rq_job list"
  deletion_errors :: "string list"

text \<open>What comes from outside the program: the clock, the user, the queue, the name of a new document,
  whether attaching the file fails, and whether a delete or update in a table fails, with the traceback.\<close>

record deletion_env =
  de_now :: datetime
  de_user :: string
  de_job_env :: job_env
  de_new_name :: string
  de_attach_error :: "string option"
  de_table_error :: "string \<Rightarrow> string option"

definition CHUNK :: nat where "CHUNK = 500"

definition HISTORY_TABLES :: "string list" where
  "HISTORY_TABLES = [''Proxmox Host Metric Log'', ''Proxmox Guest Metric Log'', ''Frappe Worker Health Log'',
     ''Frappe Failed Job Log'', ''Resource Metric Log'', ''Resource Disk Sample'']"

definition UNLINKED :: string where "UNLINKED = ''Recurring Error (unlinked)''"

definition HOST_TABLES :: "string list" where
  "HOST_TABLES = [''Service Status Log'', ''Frappe Worker Health Log'', ''Frappe Failed Job Log'', ''Frappe Active Job'',
     ''Resource Mount'', ''Resource Metric Log'', ''Resource Disk Sample'']"

definition CHILD_TABLES :: "string list" where
  "CHILD_TABLES = [''Expected Service'', ''Monitored Host Site'']"

definition LOG_ORDER :: "string list" where
  "LOG_ORDER = [''Proxmox Alert Log'', ''Service Status Log'', ''Frappe Worker Health Log'', ''Frappe Failed Job Log'', ''Frappe Active Job'',
     ''Resource Mount'', ''Resource Metric Log'', ''Resource Disk Sample'', ''Proxmox Host Metric Log'', ''Proxmox Guest Metric Log'',
     ''Proxmox Backup Log'', ''Instance Site'']"

definition OWNER_ORDER :: "string list" where
  "OWNER_ORDER = [''Monitored Host'', ''NPM Instance'', ''Proxmox Datastore'', ''Proxmox Guest'', ''Proxmox Server'']"

definition field_of :: "string \<Rightarrow> doc_row \<Rightarrow> string option" where
  "field_of f r = map_of (dr_fields r) f"

definition links_to :: "string \<Rightarrow> string list \<Rightarrow> doc_row \<Rightarrow> bool" where
  "links_to f vs r \<longleftrightarrow> (case field_of f r of None \<Rightarrow> False | Some v \<Rightarrow> v \<in> set vs)"

subsection \<open>The request\<close>

definition deletion_pending :: "string \<Rightarrow> deletion_db \<Rightarrow> bool" where
  "deletion_pending server st \<longleftrightarrow>
     list_ex (\<lambda>a. ar_server_doc a = server \<and> (ar_status a = ''Queued'' \<or> ar_status a = ''Running'')) (archives st)"

definition server_label :: "doc_row \<Rightarrow> string" where
  "server_label doc = opt_str (field_of ''server_name'' doc)"

definition request_server_deletion ::
    "deletion_env \<Rightarrow> bool \<Rightarrow> string \<Rightarrow> string option \<Rightarrow> deletion_db \<Rightarrow> (string + string) \<times> deletion_db" where
  "request_server_deletion de manager server confirm_name st =
     (if \<not> manager then (Inl ''Not permitted'', st)
      else case find_row dr_name server (doc_tables st ''Proxmox Server'') of
             None \<Rightarrow> (Inl (''Proxmox Server '' @ server @ '' not found''), st)
           | Some doc \<Rightarrow>
               if field_of ''enabled'' doc = Some ''1''
               then (Inl (''Disable '' @ server_label doc @ '' first '' @ utf8_dash @ '' only a disabled server can be deleted.''), st)
               else if py_strip (opt_str confirm_name) \<noteq> server_label doc
               then (Inl (''Type the server name exactly ('' @ server_label doc @ '') to confirm.''), st)
               else if deletion_pending server st then (Inl (server_label doc @ '' is already being deleted.''), st)
               else (Inr (de_new_name de),
                     st\<lparr>archives := archives st @ [\<lparr>ar_name = de_new_name de, ar_server_doc = dr_name doc, ar_server_name = server_label doc,
                            ar_hostname = field_of ''hostname'' doc, ar_role = field_of ''role'' doc, ar_server_type = field_of ''server_type'' doc,
                            ar_status = ''Queued'', ar_requested_by = de_user de, ar_requested_at = de_now de,
                            ar_completed_at = None, ar_file = None, ar_summary = None, ar_error = None\<rparr>],
                        deletion_jobs := rq_enqueue (de_job_env de)
                            ''alfaedge_pulse.proxmox_fleet_monitor.server_deletion.run_server_deletion'' ''long''
                            (''alfaedge_pulse_delete_server::'' @ server) (deletion_jobs st)\<rparr>))"

definition get_server_deletions :: "bool \<Rightarrow> deletion_db \<Rightarrow> (doc_row list \<times> archive list) option" where
  "get_server_deletions manager st =
     (if \<not> manager then None
      else Some (sort_key server_label (filter (\<lambda>s. field_of ''enabled'' s = Some ''0'') (doc_tables st ''Proxmox Server'')),
                 take 10 (sort_key (\<lambda>a. - ar_requested_at a) (archives st))))"

subsection \<open>The plan\<close>

definition names_where :: "doc_tables \<Rightarrow> string \<Rightarrow> (doc_row \<Rightarrow> bool) \<Rightarrow> string list" where
  "names_where tabs dt P = map dr_name (filter P (tabs dt))"

definition union_names :: "doc_tables \<Rightarrow> string \<Rightarrow> (doc_row \<Rightarrow> bool) list \<Rightarrow> string list" where
  "union_names tabs dt Ps = sort (remdups (concat (map (names_where tabs dt) Ps)))"

type_synonym plan = "(string \<times> string list) list"

definition collect :: "string \<Rightarrow> doc_tables \<Rightarrow> plan" where
  "collect server tabs =
     (let gs = names_where tabs ''Proxmox Guest'' (links_to ''server'' [server]);
          dss = names_where tabs ''Proxmox Datastore'' (links_to ''server'' [server]);
          hs = names_where tabs ''Monitored Host'' (links_to ''proxmox_guest'' gs);
          services = names_where tabs ''Service Status Log'' (links_to ''monitored_host'' hs)
      in [(''Proxmox Server'', [server]), (''Proxmox Guest'', gs), (''Proxmox Datastore'', dss),
          (''Proxmox Backup Log'', union_names tabs ''Proxmox Backup Log'' [links_to ''server'' [server], links_to ''guest'' gs]),
          (''Instance Site'', union_names tabs ''Instance Site'' [links_to ''proxmox_server'' [server], links_to ''proxmox_guest'' gs]),
          (''NPM Instance'', names_where tabs ''NPM Instance'' (links_to ''proxmox_server'' [server])),
          (''Proxmox Host Metric Log'', names_where tabs ''Proxmox Host Metric Log'' (links_to ''server'' [server])),
          (''Proxmox Guest Metric Log'', names_where tabs ''Proxmox Guest Metric Log'' (links_to ''server'' [server])),
          (''Monitored Host'', hs)] @
         map (\<lambda>dt. (dt, names_where tabs dt (links_to ''monitored_host'' hs))) HOST_TABLES @
         [(''Proxmox Alert Log'', names_where tabs ''Proxmox Alert Log''
             (links_to ''reference_name'' (server # gs @ dss @ hs @ services))),
          (UNLINKED, names_where tabs ''Recurring Error'' (links_to ''monitored_host'' hs))])"

definition planned :: "plan \<Rightarrow> string \<Rightarrow> string list" where
  "planned plan dt = (case map_of plan dt of None \<Rightarrow> [] | Some ns \<Rightarrow> ns)"

subsection \<open>The archive\<close>

function rows_of :: "doc_tables \<Rightarrow> string \<Rightarrow> string list \<Rightarrow> doc_row list" where
  "rows_of tabs dt ns = (if ns = [] then []
     else filter (\<lambda>r. dr_name r \<in> set (take CHUNK ns)) (tabs dt) @ rows_of tabs dt (drop CHUNK ns))"
  by pat_completeness auto
termination by (relation "measure (\<lambda>(tabs, dt, ns). length ns)") (auto simp: CHUNK_def)

declare rows_of.simps [simp del]

definition children_of :: "doc_tables \<Rightarrow> string \<Rightarrow> (string \<times> doc_row list) list" where
  "children_of tabs host = map (\<lambda>c. (c, filter (\<lambda>r. field_of ''parent'' r = Some host \<and> field_of ''parenttype'' r = Some ''Monitored Host'') (tabs c))) CHILD_TABLES"

definition build_archive :: "deletion_env \<Rightarrow> archive \<Rightarrow> plan \<Rightarrow> doc_tables \<Rightarrow> archive_payload \<times> (string \<times> nat) list" where
  "build_archive de a plan tabs =
     (let full = filter (\<lambda>(dt, ns). ns \<noteq> []) plan;
          dates = (\<lambda>dt ns. map dr_creation (filter (\<lambda>r. dr_name r \<in> set ns) (tabs dt)));
          records = map (\<lambda>(dt, ns). (dt,
                      if dt = UNLINKED then Names ns
                      else Rows (map (\<lambda>r. (r, if dt = ''Monitored Host'' then children_of tabs (dr_name r) else [])) (rows_of tabs dt ns))))
                    (filter (\<lambda>(dt, ns). dt \<notin> set HISTORY_TABLES) full);
          history = map (\<lambda>(dt, ns). (dt, length ns, Min (set (dates dt ns)), Max (set (dates dt ns))))
                    (filter (\<lambda>(dt, ns). dt \<in> set HISTORY_TABLES) full)
      in (\<lparr>pl_archive = ar_name a, pl_server = ar_server_name a, pl_server_doc = ar_server_doc a, pl_hostname = ar_hostname a,
            pl_requested_by = ar_requested_by a, pl_requested_at = ar_requested_at a, pl_archived_at = de_now de,
            pl_records = records, pl_history = history\<rparr>,
          map (\<lambda>(dt, ns). (dt, length ns)) plan))"

subsection \<open>Deleting\<close>

text \<open>A step of the deletion returns the traceback when the database refuses it, with the tables as they
  are then: the caller rolls back.\<close>

type_synonym delete_step = "deletion_db \<Rightarrow> string option \<times> deletion_db"

fun in_order :: "delete_step list \<Rightarrow> delete_step" where
  "in_order [] st = (None, st)"
| "in_order (f # fs) st = (case f st of (Some err, st') \<Rightarrow> (Some err, st') | (None, st') \<Rightarrow> in_order fs st')"

definition sql_delete :: "deletion_env \<Rightarrow> string \<Rightarrow> (doc_row \<Rightarrow> bool) \<Rightarrow> delete_step" where
  "sql_delete de dt P st =
     (case de_table_error de dt of
        Some err \<Rightarrow> (Some err, st)
      | None \<Rightarrow> (None, st\<lparr>doc_tables := (doc_tables st)(dt := filter (\<lambda>r. \<not> P r) (doc_tables st dt))\<rparr>))"

function bulk_delete :: "deletion_env \<Rightarrow> string \<Rightarrow> string list \<Rightarrow> delete_step" where
  "bulk_delete de dt ns st =
     (if ns = [] then (None, st)
      else case sql_delete de dt (\<lambda>r. dr_name r \<in> set (take CHUNK ns)) st of
             (Some err, st') \<Rightarrow> (Some err, st')
           | (None, st') \<Rightarrow> bulk_delete de dt (drop CHUNK ns) st')"
  by pat_completeness auto
termination by (relation "measure (\<lambda>(de, dt, ns, st). length ns)") (auto simp: CHUNK_def)

declare bulk_delete.simps [simp del]

definition unlink_errors :: "deletion_env \<Rightarrow> string list \<Rightarrow> delete_step" where
  "unlink_errors de ns st =
     (if ns = [] then (None, st)
      else case de_table_error de ''Recurring Error'' of
             Some err \<Rightarrow> (Some err, st)
           | None \<Rightarrow> (None, st\<lparr>doc_tables := (doc_tables st)(''Recurring Error'' :=
               map (\<lambda>r. if dr_name r \<in> set ns then r\<lparr>dr_fields := filter (\<lambda>p. fst p \<noteq> ''monitored_host'') (dr_fields r)\<rparr> else r)
                 (doc_tables st ''Recurring Error''))\<rparr>))"

definition delete_child :: "deletion_env \<Rightarrow> string list \<Rightarrow> string \<Rightarrow> delete_step" where
  "delete_child de hs c st =
     (if hs = [] then (None, st)
      else sql_delete de c (\<lambda>r. links_to ''parent'' hs r \<and> field_of ''parenttype'' r = Some ''Monitored Host'') st)"

definition delete_secrets :: "deletion_env \<Rightarrow> string \<Rightarrow> string list \<Rightarrow> delete_step" where
  "delete_secrets de dt ns st =
     (if ns = [] then (None, st)
      else case de_table_error de ''__Auth'' of
             Some err \<Rightarrow> (Some err, st)
           | None \<Rightarrow> (None, st\<lparr>auth_secrets := filter (\<lambda>s. \<not> (fst s = dt \<and> snd s \<in> set ns)) (auth_secrets st)\<rparr>))"

definition delete_owner :: "deletion_env \<Rightarrow> plan \<Rightarrow> string \<Rightarrow> delete_step" where
  "delete_owner de plan dt = in_order [bulk_delete de dt (planned plan dt), delete_secrets de dt (planned plan dt)]"

definition delete_planned :: "deletion_env \<Rightarrow> plan \<Rightarrow> delete_step" where
  "delete_planned de plan = in_order
     ([unlink_errors de (planned plan UNLINKED)] @
      map (\<lambda>dt. bulk_delete de dt (planned plan dt)) LOG_ORDER @
      map (delete_child de (planned plan ''Monitored Host'')) CHILD_TABLES @
      map (delete_owner de plan) OWNER_ORDER)"

subsection \<open>The job\<close>

definition set_archive :: "string \<Rightarrow> (archive \<Rightarrow> archive) \<Rightarrow> deletion_db \<Rightarrow> deletion_db" where
  "set_archive n f st = st\<lparr>archives := map (\<lambda>a. if ar_name a = n then f a else a) (archives st)\<rparr>"

definition attach_archive :: "deletion_env \<Rightarrow> string \<Rightarrow> archive_payload \<Rightarrow> delete_step" where
  "attach_archive de n payload st =
     (case de_attach_error de of
        Some err \<Rightarrow> (Some err, st)
      | None \<Rightarrow> (None, set_archive n (\<lambda>x. x\<lparr>ar_file := Some payload\<rparr>) st))"

definition deletion_rollback :: "deletion_db \<Rightarrow> deletion_db \<Rightarrow> deletion_db" where
  "deletion_rollback committed st =
     st\<lparr>doc_tables := doc_tables committed, auth_secrets := auth_secrets committed, archives := archives committed\<rparr>"

definition traceback_tail :: "string \<Rightarrow> string" where
  "traceback_tail err = drop (length err - 4000) err"

text \<open>A missing archive raises in \<open>get_doc\<close> before anything is written.\<close>

definition run_server_deletion :: "deletion_env \<Rightarrow> string \<Rightarrow> deletion_db \<Rightarrow> deletion_db" where
  "run_server_deletion de archive_name st =
     (case find_row ar_name archive_name (archives st) of
        None \<Rightarrow> st
      | Some a \<Rightarrow>
          (let st1 = set_archive archive_name (\<lambda>x. x\<lparr>ar_status := ''Running''\<rparr>) st;
               plan = collect (ar_server_doc a) (doc_tables st1);
               b = build_archive de a plan (doc_tables st1)
           in case in_order [attach_archive de archive_name (fst b), delete_planned de plan] st1 of
                (None, st2) \<Rightarrow>
                  set_archive archive_name (\<lambda>x. x\<lparr>ar_status := ''Completed'', ar_completed_at := Some (de_now de),
                    ar_summary := Some (snd b), ar_error := None\<rparr>) st2
              | (Some err, st2) \<Rightarrow>
                  (let st3 = set_archive archive_name (\<lambda>x. x\<lparr>ar_status := ''Failed'', ar_completed_at := Some (de_now de),
                               ar_error := Some (traceback_tail err)\<rparr>) (deletion_rollback st1 st2)
                   in st3\<lparr>deletion_errors := deletion_errors st3 @ [''alfaEdge Pulse: deleting server '' @ ar_server_name a @ '' failed'']\<rparr>)))"

subsection \<open>What the deletes leave\<close>

lemma in_order_append:
  "in_order (fs @ gs) st = (case in_order fs st of (Some err, st') \<Rightarrow> (Some err, st') | (None, st') \<Rightarrow> in_order gs st')"
  by (induction fs arbitrary: st) (auto split: prod.splits option.splits)

lemma in_order_Cons_None:
  "in_order (f # fs) st = (None, st') \<longleftrightarrow> (\<exists>st1. f st = (None, st1) \<and> in_order fs st1 = (None, st'))"
  by (auto split: prod.splits option.splits)

lemma in_order_append_None:
  "in_order (fs @ gs) st = (None, st') \<longleftrightarrow> (\<exists>st1. in_order fs st = (None, st1) \<and> in_order gs st1 = (None, st'))"
  by (auto simp: in_order_append split: prod.splits option.splits)

text \<open>A step that leaves a part of the state alone, whether it succeeds or not.\<close>

definition step_frame :: "(deletion_db \<Rightarrow> 'b) \<Rightarrow> delete_step \<Rightarrow> bool" where
  "step_frame g f \<longleftrightarrow> (\<forall>st. g (snd (f st)) = g st)"

lemma in_order_frame: "(\<And>f. f \<in> set fs \<Longrightarrow> step_frame g f) \<Longrightarrow> step_frame g (in_order fs)"
proof (induction fs)
  case (Cons f fs)
  then have "step_frame g f" "step_frame g (in_order fs)" by auto
  then show ?case by (auto simp: step_frame_def split: prod.splits option.splits) (metis snd_conv)+
qed (simp add: step_frame_def)

text \<open>A step that cannot fail when no table reports an error.\<close>

definition table_errors :: "deletion_env \<Rightarrow> bool" where
  "table_errors de \<longleftrightarrow> (\<exists>dt. de_table_error de dt \<noteq> None)"

definition step_succeeds :: "delete_step \<Rightarrow> bool" where
  "step_succeeds f \<longleftrightarrow> (\<forall>st. fst (f st) = None)"

lemma in_order_succeeds: "(\<And>f. f \<in> set fs \<Longrightarrow> step_succeeds f) \<Longrightarrow> step_succeeds (in_order fs)"
proof (induction fs)
  case (Cons f fs)
  then have "step_succeeds f" "step_succeeds (in_order fs)" by auto
  then show ?case by (auto simp: step_succeeds_def split: prod.splits option.splits) (metis fst_conv option.distinct(1))+
qed (simp add: step_succeeds_def)

lemma bulk_delete_ok:
  "bulk_delete de dt ns st = (None, st') \<Longrightarrow>
     st' = st\<lparr>doc_tables := (doc_tables st)(dt := filter (\<lambda>r. dr_name r \<notin> set ns) (doc_tables st dt))\<rparr>"
proof (induction de dt ns st arbitrary: st' rule: bulk_delete.induct)
  case (1 de dt ns st)
  show ?case
  proof (cases "ns = []")
    case False
    let ?s = "st\<lparr>doc_tables := (doc_tables st)(dt := filter (\<lambda>r. dr_name r \<notin> set (take CHUNK ns)) (doc_tables st dt))\<rparr>"
    have sql: "sql_delete de dt (\<lambda>r. dr_name r \<in> set (take CHUNK ns)) st = (None, ?s)"
      and rest: "bulk_delete de dt (drop CHUNK ns) ?s = (None, st')"
      using "1.prems" False by (auto simp: bulk_delete.simps [of de dt ns] sql_delete_def split: option.splits)
    have ns: "set ns = set (take CHUNK ns) \<union> set (drop CHUNK ns)" by (metis append_take_drop_id set_append)
    show ?thesis
      unfolding "1.IH" [OF False sql [symmetric] refl rest]
      by (simp add: ns fun_upd_def, rule arg_cong [where f = "\<lambda>t. st\<lparr>doc_tables := t\<rparr>"]) auto
  qed (use "1.prems" in \<open>simp add: bulk_delete.simps [of de dt "[]"]\<close>)
qed

lemma bulk_delete_frame:
  assumes "\<And>st t. g (st\<lparr>doc_tables := t\<rparr>) = g st"
  shows "step_frame g (bulk_delete de dt ns)"
proof -
  have "g (snd (bulk_delete de dt ns st)) = g st" for st
    by (induction de dt ns st rule: bulk_delete.induct)
       (subst bulk_delete.simps, auto simp: sql_delete_def assms split: option.splits)
  then show ?thesis by (simp add: step_frame_def)
qed

lemma bulk_delete_succeeds:
  assumes "\<not> table_errors de" shows "step_succeeds (bulk_delete de dt ns)"
proof -
  have "fst (bulk_delete de dt ns st) = None" for st using assms
    by (induction de dt ns st rule: bulk_delete.induct)
       (subst bulk_delete.simps, auto simp: sql_delete_def table_errors_def split: option.splits)
  then show ?thesis by (simp add: step_succeeds_def)
qed

lemma bulk_deletes_ok:
  "in_order (map (\<lambda>dt. bulk_delete de dt (planned plan dt)) dts) st = (None, st') \<Longrightarrow>
     auth_secrets st' = auth_secrets st \<and>
     doc_tables st' = (\<lambda>x. if x \<in> set dts then filter (\<lambda>r. dr_name r \<notin> set (planned plan x)) (doc_tables st x) else doc_tables st x)"
  by (induction dts arbitrary: st) (auto simp: in_order_Cons_None simp del: in_order.simps(2) dest!: bulk_delete_ok)

lemma delete_children_ok:
  "in_order (map (delete_child de hs) cs) st = (None, st') \<Longrightarrow>
     auth_secrets st' = auth_secrets st \<and>
     doc_tables st' = (\<lambda>x. if x \<in> set cs
       then filter (\<lambda>r. \<not> (links_to ''parent'' hs r \<and> field_of ''parenttype'' r = Some ''Monitored Host'')) (doc_tables st x) else doc_tables st x)"
proof (induction cs arbitrary: st)
  case (Cons c cs)
  have none: "\<not> links_to ''parent'' [] r" for r by (simp add: links_to_def split: option.splits)
  from Cons.prems obtain s where s: "delete_child de hs c st = (None, s)" "in_order (map (delete_child de hs) cs) s = (None, st')"
    by (auto simp: in_order_Cons_None simp del: in_order.simps(2))
  from s(1) have "auth_secrets s = auth_secrets st"
    "doc_tables s = (doc_tables st)(c := filter (\<lambda>r. \<not> (links_to ''parent'' hs r \<and> field_of ''parenttype'' r = Some ''Monitored Host'')) (doc_tables st c))"
    by (auto simp: delete_child_def sql_delete_def none split: if_splits option.splits)
  with Cons.IH [OF s(2)] show ?case by (auto intro!: ext)
qed simp

lemma delete_owners_ok:
  "in_order (map (delete_owner de plan) dts) st = (None, st') \<Longrightarrow>
     auth_secrets st' = filter (\<lambda>s. \<not> (fst s \<in> set dts \<and> snd s \<in> set (planned plan (fst s)))) (auth_secrets st) \<and>
     doc_tables st' = (\<lambda>x. if x \<in> set dts then filter (\<lambda>r. dr_name r \<notin> set (planned plan x)) (doc_tables st x) else doc_tables st x)"
proof (induction dts arbitrary: st)
  case (Cons dt dts)
  from Cons.prems obtain s1 s2 where s1: "bulk_delete de dt (planned plan dt) st = (None, s1)"
    and s2: "delete_secrets de dt (planned plan dt) s1 = (None, s2)" and rest: "in_order (map (delete_owner de plan) dts) s2 = (None, st')"
    by (auto simp: in_order_Cons_None delete_owner_def [of de plan dt] simp del: in_order.simps(2))
  from s2 have "doc_tables s2 = doc_tables s1"
    "auth_secrets s2 = filter (\<lambda>s. \<not> (fst s = dt \<and> snd s \<in> set (planned plan dt))) (auth_secrets s1)"
    by (auto simp: delete_secrets_def split: if_splits option.splits)
  with bulk_delete_ok [OF s1] Cons.IH [OF rest] show ?case by (auto intro!: ext filter_cong)
qed simp

definition DELETED_TABLES :: "string list" where
  "DELETED_TABLES = LOG_ORDER @ OWNER_ORDER"

lemmas order_defs = LOG_ORDER_def OWNER_ORDER_def CHILD_TABLES_def HOST_TABLES_def HISTORY_TABLES_def UNLINKED_def

lemma table_orders_disjoint:
  "set LOG_ORDER \<inter> set OWNER_ORDER = {}" "set CHILD_TABLES \<inter> set DELETED_TABLES = {}" "''Recurring Error'' \<notin> set DELETED_TABLES \<union> set CHILD_TABLES"
  by code_simp+

lemma delete_planned_ok:
  assumes "delete_planned de plan st = (None, st')"
  shows "x \<in> set DELETED_TABLES \<Longrightarrow> doc_tables st' x = filter (\<lambda>r. dr_name r \<notin> set (planned plan x)) (doc_tables st x)"
    and "x \<in> set CHILD_TABLES \<Longrightarrow> doc_tables st' x = filter (\<lambda>r. \<not> (links_to ''parent'' (planned plan ''Monitored Host'') r \<and>
       field_of ''parenttype'' r = Some ''Monitored Host'')) (doc_tables st x)"
    and "doc_tables st' ''Recurring Error'' = map (\<lambda>r. if dr_name r \<in> set (planned plan UNLINKED)
       then r\<lparr>dr_fields := filter (\<lambda>p. fst p \<noteq> ''monitored_host'') (dr_fields r)\<rparr> else r) (doc_tables st ''Recurring Error'')"
    and "x \<notin> set DELETED_TABLES \<union> set CHILD_TABLES \<union> {''Recurring Error''} \<Longrightarrow> doc_tables st' x = doc_tables st x"
    and "auth_secrets st' = filter (\<lambda>s. \<not> (fst s \<in> set OWNER_ORDER \<and> snd s \<in> set (planned plan (fst s)))) (auth_secrets st)"
proof -
  obtain s1 s2 s3 where s1: "unlink_errors de (planned plan UNLINKED) st = (None, s1)"
    and s2: "in_order (map (\<lambda>dt. bulk_delete de dt (planned plan dt)) LOG_ORDER) s1 = (None, s2)"
    and s3: "in_order (map (delete_child de (planned plan ''Monitored Host'')) CHILD_TABLES) s2 = (None, s3)"
    and s4: "in_order (map (delete_owner de plan) OWNER_ORDER) s3 = (None, st')"
    using assms by (auto simp: delete_planned_def in_order_append_None in_order_Cons_None simp del: in_order.simps(2))
  have un: "auth_secrets s1 = auth_secrets st" "doc_tables s1 = (doc_tables st)(''Recurring Error'' :=
      map (\<lambda>r. if dr_name r \<in> set (planned plan UNLINKED) then r\<lparr>dr_fields := filter (\<lambda>p. fst p \<noteq> ''monitored_host'') (dr_fields r)\<rparr> else r)
        (doc_tables st ''Recurring Error''))"
    using s1 by (auto simp: unlink_errors_def split: if_splits option.splits)
  note facts = bulk_deletes_ok [OF s2] delete_children_ok [OF s3] delete_owners_ok [OF s4] un
  note dj = table_orders_disjoint
  show "doc_tables st' x = filter (\<lambda>r. dr_name r \<notin> set (planned plan x)) (doc_tables st x)" if "x \<in> set DELETED_TABLES"
    using that dj by (auto simp: facts DELETED_TABLES_def)
  show "doc_tables st' x = filter (\<lambda>r. \<not> (links_to ''parent'' (planned plan ''Monitored Host'') r \<and>
       field_of ''parenttype'' r = Some ''Monitored Host'')) (doc_tables st x)" if "x \<in> set CHILD_TABLES"
    using that dj by (auto simp: facts DELETED_TABLES_def)
  show "doc_tables st' ''Recurring Error'' = map (\<lambda>r. if dr_name r \<in> set (planned plan UNLINKED)
       then r\<lparr>dr_fields := filter (\<lambda>p. fst p \<noteq> ''monitored_host'') (dr_fields r)\<rparr> else r) (doc_tables st ''Recurring Error'')"
    using dj by (auto simp: facts DELETED_TABLES_def)
  show "doc_tables st' x = doc_tables st x" if "x \<notin> set DELETED_TABLES \<union> set CHILD_TABLES \<union> {''Recurring Error''}"
    using that by (auto simp: facts DELETED_TABLES_def)
  show "auth_secrets st' = filter (\<lambda>s. \<not> (fst s \<in> set OWNER_ORDER \<and> snd s \<in> set (planned plan (fst s)))) (auth_secrets st)"
    by (simp add: facts)
qed

lemma delete_planned_frame:
  assumes "\<And>st t. g (st\<lparr>doc_tables := t\<rparr>) = g st" and "\<And>st t. g (st\<lparr>auth_secrets := t\<rparr>) = g st"
  shows "step_frame g (delete_planned de plan)"
proof -
  have "step_frame g (unlink_errors de ns)" "step_frame g (delete_child de hs c)" "step_frame g (delete_secrets de dt ns)" for ns hs c dt
    by (auto simp: step_frame_def unlink_errors_def delete_child_def delete_secrets_def sql_delete_def assms split: option.splits)
  moreover have "step_frame g (bulk_delete de dt ns)" for dt ns by (rule bulk_delete_frame) (rule assms(1))
  moreover from calculation have "step_frame g (delete_owner de plan dt)" for dt
    unfolding delete_owner_def by (intro in_order_frame) auto
  ultimately show ?thesis unfolding delete_planned_def by (intro in_order_frame) auto
qed

lemma delete_planned_succeeds:
  assumes "\<not> table_errors de" shows "step_succeeds (delete_planned de plan)"
proof -
  have "step_succeeds (unlink_errors de ns)" "step_succeeds (delete_child de hs c)" "step_succeeds (delete_secrets de dt ns)" for ns hs c dt
    using assms by (auto simp: step_succeeds_def unlink_errors_def delete_child_def delete_secrets_def sql_delete_def table_errors_def split: option.splits)
  moreover have "step_succeeds (bulk_delete de dt ns)" for dt ns using assms by (rule bulk_delete_succeeds)
  moreover from calculation have "step_succeeds (delete_owner de plan dt)" for dt
    unfolding delete_owner_def by (intro in_order_succeeds) auto
  ultimately show ?thesis unfolding delete_planned_def by (intro in_order_succeeds) auto
qed

subsection \<open>The plan, table by table\<close>

lemma planned_collect:
  fixes server tabs
  defines "gs \<equiv> names_where tabs ''Proxmox Guest'' (links_to ''server'' [server])"
    and "dss \<equiv> names_where tabs ''Proxmox Datastore'' (links_to ''server'' [server])"
  defines "hs \<equiv> names_where tabs ''Monitored Host'' (links_to ''proxmox_guest'' gs)"
  shows "planned (collect server tabs) ''Proxmox Server'' = [server]"
    and "planned (collect server tabs) ''Proxmox Guest'' = gs"
    and "planned (collect server tabs) ''Proxmox Datastore'' = dss"
    and "planned (collect server tabs) ''Monitored Host'' = hs"
    and "planned (collect server tabs) ''NPM Instance'' = names_where tabs ''NPM Instance'' (links_to ''proxmox_server'' [server])"
    and "set (planned (collect server tabs) ''Proxmox Backup Log'') =
      dr_name ` {r \<in> set (tabs ''Proxmox Backup Log''). links_to ''server'' [server] r \<or> links_to ''guest'' gs r}"
    and "set (planned (collect server tabs) ''Instance Site'') =
      dr_name ` {r \<in> set (tabs ''Instance Site''). links_to ''proxmox_server'' [server] r \<or> links_to ''proxmox_guest'' gs r}"
    and "dt \<in> {''Proxmox Host Metric Log'', ''Proxmox Guest Metric Log''} \<Longrightarrow>
      planned (collect server tabs) dt = names_where tabs dt (links_to ''server'' [server])"
    and "dt \<in> set HOST_TABLES \<Longrightarrow> planned (collect server tabs) dt = names_where tabs dt (links_to ''monitored_host'' hs)"
    and "planned (collect server tabs) ''Proxmox Alert Log'' = names_where tabs ''Proxmox Alert Log''
      (links_to ''reference_name'' (server # gs @ dss @ hs @ names_where tabs ''Service Status Log'' (links_to ''monitored_host'' hs)))"
    and "planned (collect server tabs) UNLINKED = names_where tabs ''Recurring Error'' (links_to ''monitored_host'' hs)"
proof -
  note look = planned_def collect_def Let_def order_defs gs_def [symmetric] dss_def [symmetric] hs_def [symmetric]
  show "planned (collect server tabs) ''Proxmox Server'' = [server]" "planned (collect server tabs) ''Proxmox Guest'' = gs"
    "planned (collect server tabs) ''Proxmox Datastore'' = dss" "planned (collect server tabs) ''Monitored Host'' = hs"
    "planned (collect server tabs) ''NPM Instance'' = names_where tabs ''NPM Instance'' (links_to ''proxmox_server'' [server])"
    "planned (collect server tabs) ''Proxmox Alert Log'' = names_where tabs ''Proxmox Alert Log''
      (links_to ''reference_name'' (server # gs @ dss @ hs @ names_where tabs ''Service Status Log'' (links_to ''monitored_host'' hs)))"
    "planned (collect server tabs) UNLINKED = names_where tabs ''Recurring Error'' (links_to ''monitored_host'' hs)"
    by (simp_all add: look)
  have un: "set (union_names tabs x [P, Q]) = dr_name ` {r \<in> set (tabs x). P r \<or> Q r}" for x P Q
    by (auto simp: union_names_def names_where_def)
  show "set (planned (collect server tabs) ''Proxmox Backup Log'') =
      dr_name ` {r \<in> set (tabs ''Proxmox Backup Log''). links_to ''server'' [server] r \<or> links_to ''guest'' gs r}"
    "set (planned (collect server tabs) ''Instance Site'') =
      dr_name ` {r \<in> set (tabs ''Instance Site''). links_to ''proxmox_server'' [server] r \<or> links_to ''proxmox_guest'' gs r}"
    by (simp_all add: look un)
  show "planned (collect server tabs) dt = names_where tabs dt (links_to ''server'' [server])"
    if "dt \<in> {''Proxmox Host Metric Log'', ''Proxmox Guest Metric Log''}"
    using that by (elim insertE emptyE) (simp_all add: look)
  show "planned (collect server tabs) dt = names_where tabs dt (links_to ''monitored_host'' hs)" if "dt \<in> set HOST_TABLES"
    using that unfolding HOST_TABLES_def list.set by (elim insertE emptyE) (simp_all add: look)
qed

subsection \<open>The job\<close>

text \<open>The two ends of a run: everything was deleted, or the rollback kept everything.\<close>

definition completed_archive :: "deletion_env \<Rightarrow> archive_payload \<times> (string \<times> nat) list \<Rightarrow> archive \<Rightarrow> archive" where
  "completed_archive de b x = x\<lparr>ar_status := ''Completed'', ar_completed_at := Some (de_now de), ar_file := Some (fst b),
     ar_summary := Some (snd b), ar_error := None\<rparr>"

lemma run_server_deletion_ends [consumes 3]:
  assumes a: "find_row ar_name n (archives st) = Some a" and st': "st' = run_server_deletion de n st"
    and p: "p = collect (ar_server_doc a) (doc_tables st)"
  obtains (completed) s s2 where "delete_planned de p s = (None, s2)" "doc_tables s = doc_tables st" "auth_secrets s = auth_secrets st"
      "doc_tables st' = doc_tables s2" "auth_secrets st' = auth_secrets s2"
      "find_row ar_name n (archives st') = Some (completed_archive de (build_archive de a p (doc_tables st)) a)"
  | (failed) err where "de_attach_error de \<noteq> None \<or> table_errors de" "doc_tables st' = doc_tables st" "auth_secrets st' = auth_secrets st"
      "find_row ar_name n (archives st') = Some (a\<lparr>ar_status := ''Failed'', ar_completed_at := Some (de_now de), ar_error := Some (traceback_tail err)\<rparr>)"
      "deletion_errors st' = deletion_errors st @ [''alfaEdge Pulse: deleting server '' @ ar_server_name a @ '' failed'']"
proof -
  let ?s1 = "set_archive n (\<lambda>x. x\<lparr>ar_status := ''Running''\<rparr>) st"
  let ?b = "build_archive de a p (doc_tables st)"
  have fr: "find_row ar_name n (archives (set_archive n f s)) = map_option f (find_row ar_name n (archives s))"
    if "\<And>x. ar_name (f x) = ar_name x" for f s using that by (simp add: set_archive_def find_row_map_name)
  have keep [simp]: "doc_tables (set_archive m f s) = doc_tables s" "auth_secrets (set_archive m f s) = auth_secrets s"
    "deletion_errors (set_archive m f s) = deletion_errors s" for m f s
    by (simp_all add: set_archive_def)
  have dp: "archives (snd (delete_planned de p s)) = archives s" "deletion_errors (snd (delete_planned de p s)) = deletion_errors s" for s
    using delete_planned_frame [of archives de p] delete_planned_frame [of deletion_errors de p] by (auto simp: step_frame_def)
  have dps: "\<not> table_errors de \<Longrightarrow> fst (delete_planned de p s) = None" for s
    using delete_planned_succeeds [of de p] by (auto simp: step_succeeds_def)
  have fail: thesis if "snd r = s2" "fst r = Some err" "r = in_order [attach_archive de n (fst ?b), delete_planned de p] ?s1"
    "de_attach_error de \<noteq> None \<or> table_errors de" "deletion_errors s2 = deletion_errors st" for r s2 err
    using that a by (intro failed [of err])
      (auto simp: st' run_server_deletion_def p [symmetric] Let_def fr deletion_rollback_def case_prod_beta simp del: in_order.simps)
  show thesis
  proof (cases "de_attach_error de")
    case (Some err)
    then show thesis by (intro fail [of _ ?s1 err]) (auto simp: attach_archive_def)
  next
    case None
    let ?s = "set_archive n (\<lambda>x. x\<lparr>ar_file := Some (fst ?b)\<rparr>) ?s1"
    obtain e s2 where d: "delete_planned de p ?s = (e, s2)" by (cases "delete_planned de p ?s")
    have io: "in_order [attach_archive de n (fst ?b), delete_planned de p] ?s1 = (e, s2)"
      using None d by (auto simp: attach_archive_def split: option.splits)
    show thesis
    proof (cases e)
      case None
      have "archives s2 = archives ?s" using dp(1) [of ?s] d by simp
      then show thesis using d None a io
        by (intro completed [of ?s s2])
           (auto simp: st' run_server_deletion_def p [symmetric] Let_def fr completed_archive_def simp del: in_order.simps)
    next
      case (Some err)
      then have "table_errors de" using dps [of ?s] d by auto
      with Some d io show thesis using dp(2) [of ?s] by (intro fail [of "(e, s2)" s2 err]) auto
    qed
  qed
qed

lemma child_tables_not_history: "set CHILD_TABLES \<inter> set HISTORY_TABLES = {}"
  by code_simp

lemma unlinked_not_deleted: "UNLINKED \<notin> set DELETED_TABLES"
  by code_simp

text \<open>The tables after a completed deletion, as a specification.\<close>

definition after_deletion :: "plan \<Rightarrow> doc_tables \<Rightarrow> doc_tables" where
  "after_deletion p tabs dt =
     (if dt \<in> set DELETED_TABLES then filter (\<lambda>r. dr_name r \<notin> set (planned p dt)) (tabs dt)
      else if dt \<in> set CHILD_TABLES
      then filter (\<lambda>r. \<not> (links_to ''parent'' (planned p ''Monitored Host'') r \<and> field_of ''parenttype'' r = Some ''Monitored Host'')) (tabs dt)
      else if dt = ''Recurring Error''
      then map (\<lambda>r. if dr_name r \<in> set (planned p UNLINKED) then r\<lparr>dr_fields := filter (\<lambda>f. fst f \<noteq> ''monitored_host'') (dr_fields r)\<rparr> else r) (tabs dt)
      else tabs dt)"

lemma delete_planned_after: "delete_planned de p s = (None, s2) \<Longrightarrow> doc_tables s2 = after_deletion p (doc_tables s)"
  by (rule ext, simp only: after_deletion_def split: if_split, intro conjI impI)
     (simp_all add: delete_planned_ok)

lemma completed_run:
  assumes "find_row ar_name n (archives st) = Some a" and "find_row ar_name n (archives (run_server_deletion de n st)) = Some a'"
    and "ar_status a' = ''Completed''"
  shows "doc_tables (run_server_deletion de n st) = after_deletion (collect (ar_server_doc a) (doc_tables st)) (doc_tables st)"
    and "a' = completed_archive de (build_archive de a (collect (ar_server_doc a) (doc_tables st)) (doc_tables st)) a"
  using assms by (atomize (full), cases rule: run_server_deletion_ends [OF assms(1) refl refl, of de]) (auto dest: delete_planned_after)

text \<open>C13: Deleting a server is all or nothing. The archive ends Completed, and then exactly the planned rows
  are gone from every table, the child rows and stored secrets of deleted records with them, recurring
  errors are only unlinked, every other table is as before and the file is attached; or it ends Failed with
  the error, and tables, secrets and attachment are those before the run. It fails only when the
  database or the file store does.\<close>

theorem deletion_all_or_nothing:
  assumes "find_row ar_name n (archives st) = Some a" and "st' = run_server_deletion de n st"
    and "p = collect (ar_server_doc a) (doc_tables st)"
  shows "\<exists>a'. find_row ar_name n (archives st') = Some a' \<and>
     ((ar_status a' = ''Completed'' \<and> ar_file a' = Some (fst (build_archive de a p (doc_tables st))) \<and>
       doc_tables st' = after_deletion p (doc_tables st) \<and>
       auth_secrets st' = filter (\<lambda>s. \<not> (fst s \<in> set OWNER_ORDER \<and> snd s \<in> set (planned p (fst s)))) (auth_secrets st)) \<or>
      (ar_status a' = ''Failed'' \<and> ar_error a' \<noteq> None \<and> ar_file a' = ar_file a \<and> (de_attach_error de \<noteq> None \<or> table_errors de) \<and>
       doc_tables st' = doc_tables st \<and> auth_secrets st' = auth_secrets st))"
  using assms
proof (cases rule: run_server_deletion_ends)
  case (completed s s2)
  then show ?thesis
    using delete_planned_after [OF completed(1)] delete_planned_ok(5) [OF completed(1)] by (simp add: completed_archive_def)
next
  case (failed err)
  then show ?thesis by simp
qed

lemma rows_of_set: "set (rows_of tabs dt ns) = {r \<in> set (tabs dt). dr_name r \<in> set ns}"
proof (induction tabs dt ns rule: rows_of.induct)
  case (1 tabs dt ns)
  show ?case
  proof (cases "ns = []")
    case False
    have "set ns = set (take CHUNK ns) \<union> set (drop CHUNK ns)" by (metis append_take_drop_id set_append)
    with 1 [OF False] False show ?thesis by (auto simp: rows_of.simps [of tabs dt ns])
  qed (simp add: rows_of.simps [of tabs dt "[]"])
qed

lemma planned_entry: "x \<in> set (planned p dt) \<Longrightarrow> (dt, planned p dt) \<in> set p \<and> planned p dt \<noteq> []"
  by (cases "map_of p dt") (auto simp: planned_def intro: map_of_SomeD)

lemma archived_record:
  assumes "dr_name r \<in> set (planned p dt)" and "r \<in> set (tabs dt)" and "dt \<notin> set HISTORY_TABLES" and "dt \<noteq> UNLINKED"
  shows "\<exists>rows. (dt, Rows rows) \<in> set (pl_records (fst (build_archive de a p tabs))) \<and>
    (r, if dt = ''Monitored Host'' then children_of tabs (dr_name r) else []) \<in> set rows"
  using planned_entry [OF assms(1)] assms
  by (auto simp: build_archive_def Let_def rows_of_set intro!: image_eqI [where x = "(dt, planned p dt)"])

lemma archived_history:
  assumes "dr_name r \<in> set (planned p dt)" and "r \<in> set (tabs dt)" and "dt \<in> set HISTORY_TABLES"
  shows "\<exists>c f l. (dt, c, f, l) \<in> set (pl_history (fst (build_archive de a p tabs))) \<and> f \<le> dr_creation r \<and> dr_creation r \<le> l"
  using planned_entry [OF assms(1)] assms
  by (auto simp: build_archive_def Let_def intro!: exI image_eqI [where x = "(dt, planned p dt)"])

text \<open>C14: No deleted record is lost. Whatever row a completed deletion took out of a table is in the attached
  file: the whole row, below its host for the rows of a child table; of a metric history its date lies in the
  recorded range.\<close>

theorem deletion_archives_what_it_removes:
  assumes "find_row ar_name n (archives st) = Some a" and "st' = run_server_deletion de n st"
    and "find_row ar_name n (archives st') = Some a'" and "ar_status a' = ''Completed''"
    and "r \<in> set (doc_tables st dt)" and "r \<notin> set (doc_tables st' dt)" and "dt \<noteq> ''Recurring Error''"
  shows "\<exists>file. ar_file a' = Some file \<and>
    (if dt \<in> set HISTORY_TABLES
     then \<exists>c f l. (dt, c, f, l) \<in> set (pl_history file) \<and> f \<le> dr_creation r \<and> dr_creation r \<le> l
     else if dt \<in> set CHILD_TABLES
     then \<exists>rows host cs rs. (''Monitored Host'', Rows rows) \<in> set (pl_records file) \<and> (host, cs) \<in> set rows \<and> (dt, rs) \<in> set cs \<and>
            field_of ''parent'' r = Some (dr_name host) \<and> r \<in> set rs
     else \<exists>rows cs. (dt, Rows rows) \<in> set (pl_records file) \<and> (r, cs) \<in> set rows)"
proof -
  let ?p = "collect (ar_server_doc a) (doc_tables st)"
  let ?f = "fst (build_archive de a ?p (doc_tables st))"
  note run = completed_run [OF assms(1) assms(3) [unfolded assms(2)] assms(4)]
  have att: "ar_file a' = Some ?f" by (simp add: run(2) completed_archive_def)
  have gone: "r \<notin> set (after_deletion ?p (doc_tables st) dt)" using assms(2,6) run(1) by simp
  show ?thesis
  proof (cases "dt \<in> set CHILD_TABLES")
    case True
    have hist: "dt \<notin> set HISTORY_TABLES" "dt \<notin> set DELETED_TABLES" using True table_orders_disjoint(2) child_tables_not_history by auto
    then obtain h where h: "field_of ''parent'' r = Some h" "h \<in> set (planned ?p ''Monitored Host'')" and ty: "field_of ''parenttype'' r = Some ''Monitored Host''"
      using gone assms(5) True by (auto simp: after_deletion_def links_to_def split: option.splits)
    from h(2) obtain host where host: "host \<in> set (doc_tables st ''Monitored Host'')" "dr_name host = h"
      by (auto simp: planned_collect(4) names_where_def)
    from archived_record [of host ?p "''Monitored Host''" "doc_tables st" de a] host h(2)
    obtain rows where "(''Monitored Host'', Rows rows) \<in> set (pl_records ?f)" "(host, children_of (doc_tables st) h) \<in> set rows"
      by (auto simp: order_defs)
    moreover have "(dt, filter (\<lambda>x. field_of ''parent'' x = Some h \<and> field_of ''parenttype'' x = Some ''Monitored Host'') (doc_tables st dt))
        \<in> set (children_of (doc_tables st) h)"
      using True by (simp add: children_of_def)
    ultimately show ?thesis using att hist True h(1) ty assms(5) host(2) by fastforce
  next
    case False
    then have del: "dt \<in> set DELETED_TABLES" "dr_name r \<in> set (planned ?p dt)"
      using gone assms(5,7) by (auto simp: after_deletion_def split: if_splits)
    then have "dt \<noteq> UNLINKED" using unlinked_not_deleted by auto
    then show ?thesis
      using att False archived_history [of r ?p dt "doc_tables st" de a] archived_record [of r ?p dt "doc_tables st" de a] del(2) assms(5) by auto
  qed
qed

subsection \<open>Links after a deletion\<close>

text \<open>The links the plan follows: table, field, and the type the field points to.\<close>

definition OWN_LINKS :: "(string \<times> string \<times> string) list" where
  "OWN_LINKS =
     [(''Proxmox Guest'', ''server'', ''Proxmox Server''), (''Proxmox Datastore'', ''server'', ''Proxmox Server''),
      (''Proxmox Backup Log'', ''server'', ''Proxmox Server''), (''Proxmox Backup Log'', ''guest'', ''Proxmox Guest''),
      (''Instance Site'', ''proxmox_server'', ''Proxmox Server''), (''Instance Site'', ''proxmox_guest'', ''Proxmox Guest''),
      (''NPM Instance'', ''proxmox_server'', ''Proxmox Server''), (''Proxmox Host Metric Log'', ''server'', ''Proxmox Server''),
      (''Proxmox Guest Metric Log'', ''server'', ''Proxmox Server''), (''Monitored Host'', ''proxmox_guest'', ''Proxmox Guest''),
      (''Proxmox Alert Log'', ''reference_name'', ''Proxmox Server''), (''Proxmox Alert Log'', ''reference_name'', ''Proxmox Guest''),
      (''Proxmox Alert Log'', ''reference_name'', ''Proxmox Datastore''), (''Proxmox Alert Log'', ''reference_name'', ''Monitored Host''),
      (''Proxmox Alert Log'', ''reference_name'', ''Service Status Log'')]"

definition PLANNED_LINKS :: "(string \<times> string \<times> string) list" where
  "PLANNED_LINKS = OWN_LINKS @ map (\<lambda>dt. (dt, ''monitored_host'', ''Monitored Host'')) HOST_TABLES"

lemma names_where_links: "r \<in> set (tabs dt) \<Longrightarrow> field_of f r = Some v \<Longrightarrow> v \<in> set vs \<Longrightarrow> dr_name r \<in> set (names_where tabs dt (links_to f vs))"
  by (auto simp: names_where_def links_to_def)

lemma links_toI: "field_of f r = Some v \<Longrightarrow> v \<in> set vs \<Longrightarrow> links_to f vs r"
  by (simp add: links_to_def)

lemma planned_links_followed:
  assumes "(dt, f, target) \<in> set PLANNED_LINKS" and "r \<in> set (tabs dt)" and "field_of f r = Some v"
    and "v \<in> set (planned (collect server tabs) target)"
  shows "dr_name r \<in> set (planned (collect server tabs) dt)"
proof -
  have ssl: "''Service Status Log'' \<in> set HOST_TABLES" by (simp add: HOST_TABLES_def)
  consider "dt \<in> set HOST_TABLES" "f = ''monitored_host''" "target = ''Monitored Host''"
    | "(dt, f, target) \<in> set OWN_LINKS"
    using assms(1) unfolding PLANNED_LINKS_def by fastforce
  then show ?thesis
  proof cases
    case 1
    with assms(2-4) show ?thesis by (simp add: planned_collect names_where_links)
  next
    case 2
    with assms(2-4) show ?thesis
      unfolding OWN_LINKS_def list.set
      by (elim insertE emptyE) (simp_all add: planned_collect ssl names_where_links links_toI)
  qed
qed

text \<open>After a completed deletion no remaining row points, through a link the plan follows, to a record
  that was deleted; recurring errors of deleted hosts are still there without the link.\<close>

theorem deletion_leaves_no_planned_link:
  assumes "find_row ar_name n (archives st) = Some a" and "st' = run_server_deletion de n st"
    and "find_row ar_name n (archives st') = Some a'" and "ar_status a' = ''Completed''"
    and "p = collect (ar_server_doc a) (doc_tables st)"
  shows "(\<forall>(dt, f, target) \<in> set PLANNED_LINKS. \<forall>r \<in> set (doc_tables st' dt). \<forall>v \<in> set (planned p target). field_of f r \<noteq> Some v) \<and>
    map dr_name (doc_tables st' ''Recurring Error'') = map dr_name (doc_tables st ''Recurring Error'') \<and>
    (\<forall>r \<in> set (doc_tables st' ''Recurring Error''). \<forall>v \<in> set (planned p ''Monitored Host''). field_of ''monitored_host'' r \<noteq> Some v)"
proof -
  have tabs: "doc_tables st' = after_deletion p (doc_tables st)"
    using completed_run(1) [OF assms(1) assms(3) [unfolded assms(2)] assms(4)] assms(2,5) by simp
  have links: "fst ` set PLANNED_LINKS \<subseteq> set DELETED_TABLES" by code_simp
  have err: "after_deletion p t ''Recurring Error'' = map (\<lambda>r. if dr_name r \<in> set (planned p UNLINKED)
      then r\<lparr>dr_fields := filter (\<lambda>f. fst f \<noteq> ''monitored_host'') (dr_fields r)\<rparr> else r) (t ''Recurring Error'')" for t
    using table_orders_disjoint(3) by (simp add: after_deletion_def)
  have cut: "field_of ''monitored_host'' (r\<lparr>dr_fields := filter (\<lambda>f. fst f \<noteq> ''monitored_host'') (dr_fields r)\<rparr>) = None" for r
    by (auto simp: field_of_def map_of_eq_None_iff)
  have "field_of f r \<noteq> Some v" if l: "(dt, f, target) \<in> set PLANNED_LINKS" and r: "r \<in> set (doc_tables st' dt)"
    and v: "v \<in> set (planned p target)" for dt f target r v
  proof
    assume "field_of f r = Some v"
    moreover have "dt \<in> set DELETED_TABLES" using l links by force
    then have "r \<in> set (doc_tables st dt)" "dr_name r \<notin> set (planned p dt)" using r by (auto simp: tabs after_deletion_def)
    ultimately show False using planned_links_followed [of dt f target r "doc_tables st" v "ar_server_doc a"] l v assms(5) by auto
  qed
  moreover have "map dr_name (doc_tables st' ''Recurring Error'') = map dr_name (doc_tables st ''Recurring Error'')"
    by (simp add: tabs err)
  moreover have "field_of ''monitored_host'' r \<noteq> Some v"
    if "r \<in> set (doc_tables st' ''Recurring Error'')" and "v \<in> set (planned p ''Monitored Host'')" for r v
  proof -
    have un: "planned p UNLINKED = names_where (doc_tables st) ''Recurring Error'' (links_to ''monitored_host'' (planned p ''Monitored Host''))"
      by (simp add: assms(5) planned_collect)
    from that(1) obtain r0 where r0: "r0 \<in> set (doc_tables st ''Recurring Error'')"
      and r: "r = (if dr_name r0 \<in> set (planned p UNLINKED)
        then r0\<lparr>dr_fields := filter (\<lambda>f. fst f \<noteq> ''monitored_host'') (dr_fields r0)\<rparr> else r0)"
      unfolding tabs err by auto
    show ?thesis
    proof (cases "dr_name r0 \<in> set (planned p UNLINKED)")
      case False
      then show ?thesis using r r0 that(2) names_where_links [of r0 "doc_tables st"] unfolding un by fastforce
    qed (simp add: r cut)
  qed
  ultimately show ?thesis by blast
qed

text \<open>The tables with a link to a host that came with the performance reports and are not in the plan.\<close>

definition UNPLANNED_TABLES :: "string list" where
  "UNPLANNED_TABLES = [''Memory Metric Log'', ''MariaDB Metric Log'', ''Redis Metric Log'', ''Disk IO Sample'', ''MariaDB Config Snapshot'']"

lemma unplanned_untouched: "set UNPLANNED_TABLES \<inter> (set DELETED_TABLES \<union> set CHILD_TABLES \<union> {''Recurring Error''}) = {}"
  by code_simp

text \<open>C38: A known defect. The deletion bypasses the link checks because everything that links to the deleted
  records is itself in the plan; but five tables of host metrics are not. Their rows stay, and point to a
  host that does not exist any more.\<close>

theorem deletion_leaves_dangling_metrics:
  assumes "find_row ar_name n (archives st) = Some a" and "st' = run_server_deletion de n st"
    and "find_row ar_name n (archives st') = Some a'" and "ar_status a' = ''Completed''"
    and "h \<in> set (planned (collect (ar_server_doc a) (doc_tables st)) ''Monitored Host'')"
    and "dt \<in> set UNPLANNED_TABLES" and "r \<in> set (doc_tables st dt)" and "field_of ''monitored_host'' r = Some h"
  shows "r \<in> set (doc_tables st' dt) \<and> h \<notin> dr_name ` set (doc_tables st' ''Monitored Host'')"
proof -
  have tabs: "doc_tables st' = after_deletion (collect (ar_server_doc a) (doc_tables st)) (doc_tables st)"
    using completed_run(1) [OF assms(1) assms(3) [unfolded assms(2)] assms(4)] assms(2) by simp
  have "''Monitored Host'' \<in> set DELETED_TABLES" by code_simp
  moreover have "dt \<notin> set DELETED_TABLES \<union> set CHILD_TABLES \<union> {''Recurring Error''}"
    using assms(6) unplanned_untouched by blast
  ultimately show ?thesis using assms(5,7) by (auto simp: tabs after_deletion_def)
qed

subsection \<open>A deletion on an example\<close>

definition demo_deletion_env :: deletion_env where
  "demo_deletion_env = \<lparr>de_now = 50, de_user = ''admin'', de_job_env = demo_job_env, de_new_name = ''A1'', de_attach_error = None, de_table_error = (\<lambda>_. None)\<rparr>"

definition demo_row :: "string \<Rightarrow> (string \<times> string) list \<Rightarrow> doc_row" where
  "demo_row n fs = \<lparr>dr_name = n, dr_creation = 7, dr_fields = fs\<rparr>"

definition demo_doc_tables :: doc_tables where
  "demo_doc_tables dt =
     (if dt = ''Proxmox Server'' then [demo_row ''S'' [(''server_name'', ''pve1''), (''enabled'', ''0'')]]
      else if dt = ''Proxmox Guest'' then [demo_row ''G'' [(''server'', ''S'')], demo_row ''G2'' [(''server'', ''S2'')]]
      else if dt = ''Monitored Host'' then [demo_row ''H'' [(''proxmox_guest'', ''G'')]]
      else if dt = ''Expected Service'' then [demo_row ''E'' [(''parent'', ''H''), (''parenttype'', ''Monitored Host'')]]
      else if dt = ''Memory Metric Log'' then [demo_row ''M'' [(''monitored_host'', ''H'')]]
      else [])"

definition demo_deletion_db :: deletion_db where
  "demo_deletion_db = \<lparr>doc_tables = demo_doc_tables, auth_secrets = [(''Proxmox Server'', ''S''), (''Proxmox Server'', ''S2'')],
     archives = [], deletion_jobs = [], deletion_errors = []\<rparr>"

definition demo_requested :: deletion_db where
  "demo_requested = snd (request_server_deletion demo_deletion_env True ''S'' (Some '' pve1 '') demo_deletion_db)"

definition demo_archive :: archive where
  "demo_archive = hd (archives demo_requested)"

definition demo_deleted :: deletion_db where
  "demo_deleted = run_server_deletion demo_deletion_env ''A1'' demo_requested"

lemma demo_requested_archive: "find_row ar_name ''A1'' (archives demo_requested) = Some demo_archive"
  by code_simp

lemma demo_deleted_completed:
  "find_row ar_name ''A1'' (archives demo_deleted) = Some (hd (archives demo_deleted)) \<and> ar_status (hd (archives demo_deleted)) = ''Completed''"
  by code_simp

theorem deletion_all_or_nothing_witness:
  "doc_tables demo_deleted = after_deletion (collect (ar_server_doc demo_archive) (doc_tables demo_requested)) (doc_tables demo_requested) \<and>
   ar_status (hd (archives demo_deleted)) = ''Completed''"
  using deletion_all_or_nothing [OF demo_requested_archive demo_deleted_def refl] demo_deleted_completed by auto

theorem deletion_archives_what_it_removes_witness:
  "\<exists>file rows host cs rs. ar_file (hd (archives demo_deleted)) = Some file \<and> (''Monitored Host'', Rows rows) \<in> set (pl_records file) \<and>
     (host, cs) \<in> set rows \<and> (''Expected Service'', rs) \<in> set cs \<and> dr_name host = ''H'' \<and>
     demo_row ''E'' [(''parent'', ''H''), (''parenttype'', ''Monitored Host'')] \<in> set rs"
proof -
  let ?r = "demo_row ''E'' [(''parent'', ''H''), (''parenttype'', ''Monitored Host'')]"
  have m: "?r \<in> set (doc_tables demo_requested ''Expected Service'')" "?r \<notin> set (doc_tables demo_deleted ''Expected Service'')"
    "''Expected Service'' \<noteq> ''Recurring Error''" "''Expected Service'' \<notin> set HISTORY_TABLES" "''Expected Service'' \<in> set CHILD_TABLES"
    "field_of ''parent'' ?r = Some ''H''" by code_simp+
  show ?thesis
    using deletion_archives_what_it_removes [OF demo_requested_archive demo_deleted_def
        conjunct1 [OF demo_deleted_completed] conjunct2 [OF demo_deleted_completed] m(1-3)] m(4-6)
    by simp metis
qed

theorem deletion_leaves_dangling_metrics_witness:
  "demo_row ''M'' [(''monitored_host'', ''H'')] \<in> set (doc_tables demo_deleted ''Memory Metric Log'') \<and>
   ''H'' \<notin> dr_name ` set (doc_tables demo_deleted ''Monitored Host'')"
proof -
  have m: "''H'' \<in> set (planned (collect (ar_server_doc demo_archive) (doc_tables demo_requested)) ''Monitored Host'')"
    "''Memory Metric Log'' \<in> set UNPLANNED_TABLES" "demo_row ''M'' [(''monitored_host'', ''H'')] \<in> set (doc_tables demo_requested ''Memory Metric Log'')"
    "field_of ''monitored_host'' (demo_row ''M'' [(''monitored_host'', ''H'')]) = Some ''H''" by code_simp+
  show ?thesis
    by (rule deletion_leaves_dangling_metrics [OF demo_requested_archive demo_deleted_def
        conjunct1 [OF demo_deleted_completed] conjunct2 [OF demo_deleted_completed] m])
qed

end
