(* ===== verification/Host_Store.thy ===== *)
theory Host_Store
  imports Poll_Loop
begin

text \<open>
  The documents of Host Health the watchdog, the SSH poller and the alert summaries work on
  (\<open>host_health/doctype\<close>): monitored hosts, the state of their services, the SSH and the monitoring
  settings, and the metric history the retention job cuts. They extend the state of the pollers.
\<close>

record hosted_site =
  hs_bench_name :: "string option"
  hs_site_name :: string
  hs_site_url :: "string option"

record expected_service =
  es_service_name :: string
  es_unit_name :: string

record monitored_host =
  mh_name :: string
  mh_proxmox_guest :: "string option"
  mh_hostname :: "string option"
  mh_enabled :: bool
  mh_last_seen :: "datetime option"
  mh_is_online :: bool
  mh_scheduler_last_run :: "datetime option"
  mh_scheduler_overdue :: bool
  mh_pinned_host_key :: string
  mh_last_poll_kind :: string
  mh_last_poll_error :: string
  mh_last_poll_duration_ms :: int
  mh_worker_health_critical :: bool
  mh_failed_job_critical :: bool
  mh_long_running_job_critical :: bool
  mh_load_average_critical :: bool
  mh_swap_critical :: bool
  mh_hosted_sites :: "hosted_site list"
  mh_ssh_target :: "string option"
  mh_ssh_port :: "int option"
  mh_ssh_user :: "string option"
  mh_bench_path :: "string option"
  mh_expected_services :: "expected_service list"

record service_status =
  ss_name :: string
  ss_monitored_host :: string
  ss_service_name :: string
  ss_unit_name :: string
  ss_current_state :: string
  ss_is_down :: bool
  ss_down_streak :: "int option"
  ss_last_checked :: datetime
  ss_last_state_change :: datetime

record ssh_settings =
  ssh_enabled :: bool
  ssh_server_host_key :: string
  ssh_poll_interval_seconds :: "int option"
  ssh_bastion_unreachable :: bool
  ssh_bastion_failure_streak :: int
  ssh_connection_mode :: "string option"
  ssh_target_naming :: "string option"
  ssh_server_host :: "string option"
  ssh_server_port :: "int option"
  ssh_warpgate_user :: "string option"
  ssh_default_user :: "string option"
  ssh_default_bench_path :: "string option"
  ssh_connect_timeout :: "int option"
  ssh_command_timeout :: "int option"

record host_monitor_settings =
  hm_heartbeat_timeout_seconds :: "int option"
  hm_confirmation_checks :: "int option"
  hm_scheduler_heartbeat_timeout_minutes :: "int option"
  hm_orphan_worker_critical_threshold :: "int option"
  hm_failed_job_critical_threshold :: "int option"
  hm_long_running_job_critical_threshold_seconds :: "int option"
  hm_default_expected_services :: "expected_service list"

text \<open>A row of a history table, as far as retention reads it.\<close>

record history_row =
  hr_time :: "datetime option"
  hr_resolved :: bool

record host_db = job_db +
  monitored_hosts :: "monitored_host list"
  service_statuses :: "service_status list"
  ssh_settings :: ssh_settings
  host_monitor_settings :: host_monitor_settings
  notify_global_recipients :: bool
  batch_last_run :: "datetime option"
  resource_retention_days :: "int option"
  history_tables :: "(string \<times> history_row list) list"

subsection \<open>Roles\<close>

text \<open>\<open>get_host_role\<close>: the role is read from the server of the host's guest, never stored with the host.\<close>

definition guest_role :: "string \<Rightarrow> 'a proxmox_db_scheme \<Rightarrow> string option" where
  "guest_role guest st =
     (case find_row g_name guest (guests st) of
        None \<Rightarrow> None
      | Some g \<Rightarrow> if g_server g = [] then None else map_option srv_role (find_row srv_name (g_server g) (servers st)))"

definition get_host_role :: "string \<Rightarrow> 'a host_db_scheme \<Rightarrow> string option" where
  "get_host_role host st =
     (case find_row mh_name host (monitored_hosts st) of
        None \<Rightarrow> None
      | Some h \<Rightarrow> if truthy (mh_proxmox_guest h) then guest_role (opt_str (mh_proxmox_guest h)) st else None)"

subsection \<open>What alerts leave alone\<close>

lemma host_fields_of_more:
  fixes s t :: "'a host_db_scheme"
  assumes "alert_db.more s = alert_db.more t"
  shows "monitored_hosts s = monitored_hosts t" "service_statuses s = service_statuses t" "ssh_settings s = ssh_settings t"
    "host_monitor_settings s = host_monitor_settings t" "history_tables s = history_tables t" "batch_last_run s = batch_last_run t"
  using assms by (cases s; cases t; simp)+

lemma host_transition_frame [frame_simps, simp]:
  fixes st :: "'a host_db_scheme"
  shows "monitored_hosts (handle_transition e was now d n ty m rec g st) = monitored_hosts st"
    "service_statuses (handle_transition e was now d n ty m rec g st) = service_statuses st"
    "ssh_settings (handle_transition e was now d n ty m rec g st) = ssh_settings st"
    "host_monitor_settings (handle_transition e was now d n ty m rec g st) = host_monitor_settings st"
  by (rule host_fields_of_more; simp)+

lemma host_log_error [frame_simps, simp]:
  "monitored_hosts (log_error t st) = monitored_hosts st" "service_statuses (log_error t st) = service_statuses st" "ssh_settings (log_error t st) = ssh_settings st"
  "host_monitor_settings (log_error t st) = host_monitor_settings st"
  by (simp_all add: log_error_def)

end
