(* ===== verification/Alert_Summaries.thy ===== *)
theory Alert_Summaries
  imports Host_Store
begin

text \<open>
  The two jobs that send collected alerts: \<open>alerts/resource_batch.py\<close>, every two minutes, for the batched
  alert types, and \<open>alerts/digest.py\<close>, three times a day, for the digest-only types. Both read the alert
  log, group its rows by alert type and reference in order of first occurrence, and send one
  message per channel to the global recipients.
\<close>

definition MAX_LOOKBACK_MINUTES :: int where "MAX_LOOKBACK_MINUTES = 10"
definition MIDDAY_HOUR :: int where "MIDDAY_HOUR = 13"
definition EVENING_HOUR :: int where "EVENING_HOUR = 20"

definition alert_key_of :: "alert_row \<Rightarrow> alert_key" where
  "alert_key_of r = (alert_type r, reference_doctype r, reference_name r)"

text \<open>\<open>sent_at between [start, end]\<close> includes both ends.\<close>

definition alerts_between :: "string list \<Rightarrow> datetime \<Rightarrow> datetime \<Rightarrow> 'a alert_db_scheme \<Rightarrow> alert_row list" where
  "alerts_between types window_start window_end st =
     sort_key sent_at (filter (\<lambda>r. alert_type r \<in> set types \<and> window_start \<le> sent_at r \<and> sent_at r \<le> window_end) (alert_log st))"

definition still_open :: "alert_key \<Rightarrow> 'a alert_db_scheme \<Rightarrow> bool" where
  "still_open k st = (case k of (ty, d, n) \<Rightarrow> has_open_alert d n ty st)"

definition collected_mail :: "env \<Rightarrow> string list \<Rightarrow> string \<Rightarrow> string \<Rightarrow> string \<Rightarrow> 'a alert_db_scheme \<Rightarrow> bool \<times> 'a alert_db_scheme" where
  "collected_mail e rcpts subject body title st =
     (if sendmail e rcpts subject body then (True, st\<lparr>outbox := outbox st @ [Email rcpts subject body]\<rparr>) else (False, log_error title st))"

subsection \<open>The two-minute batch\<close>

definition batch_section :: "'a alert_db_scheme \<Rightarrow> alert_key \<times> alert_row list \<Rightarrow> string" where
  "batch_section st g =
     (case fst g of (ty, d, n) \<Rightarrow>
        (let status_label = (if still_open (fst g) st then ''still open'' else ''resolved'');
             count_suffix = (if length (snd g) > 1 then '' ('' @ show_int (int (length (snd g))) @ ''x, '' @ status_label @ '')''
                             else '' ('' @ status_label @ '')'')
         in ty @ '' '' @ utf8_dash @ '' '' @ n @ count_suffix @ '': '' @ alert_message (last (snd g))))"

definition global_eligible :: "'a host_db_scheme \<Rightarrow> alert_key \<Rightarrow> bool" where
  "global_eligible st k =
     (case k of (ty, d, n) \<Rightarrow>
        d = ''Monitored Host'' \<and> get_host_role n st = Some ''Production'' \<or>
        d = ''Proxmox Guest'' \<and> guest_role n st = Some ''Production'' \<or>
        d = ''Recurring Error'' \<and> notify_global_recipients st)"

definition batch_window :: "poll_env \<Rightarrow> 'a host_db_scheme \<Rightarrow> datetime \<times> datetime" where
  "batch_window pe st =
     ((case batch_last_run st of Some t \<Rightarrow> t | None \<Rightarrow> clock pe - MAX_LOOKBACK_MINUTES * MINUTE), clock pe)"

definition batch_rows :: "poll_env \<Rightarrow> 'a host_db_scheme \<Rightarrow> alert_row list" where
  "batch_rows pe st = alerts_between BATCHED_RESOURCE_ALERT_TYPES (fst (batch_window pe st)) (snd (batch_window pe st)) st"

definition send_batch_channels ::
    "poll_env \<Rightarrow> (alert_key \<times> alert_row list) list \<Rightarrow> 'a host_db_scheme \<Rightarrow> string list \<times> 'a host_db_scheme" where
  "send_batch_channels pe sent st =
     (let e = base_env pe; cfg = monitor_settings st;
          emails = (if enable_email_alerts cfg then strip_list (email_recipients cfg) else []);
          numbers = (if enable_whatsapp_alerts cfg then strip_list (whatsapp_recipients cfg) else []);
          sections = py_join newline (map (batch_section st) sent);
          r1 = (if emails \<noteq> [] \<and> sent \<noteq> []
                then collected_mail e emails (''alfaEdge Pulse '' @ utf8_dash @ '' Alert Summary'')
                       (show_int (int (length sent)) @ '' alert(s) in the last few minutes:'' @ newline @ newline @ sections)
                       ''alfaEdge Pulse: resource alert batch email failed'' st
                else (False, st));
          template_name = template_of e (whatsapp_template cfg);
          r2 = (if truthy template_name \<and> numbers \<noteq> [] \<and> sent \<noteq> []
                then send_whatsapp e numbers (opt_str template_name) sections (snd r1) else (False, snd r1))
      in ((if fst r1 then [''Email''] else []) @ (if fst r2 then [''WhatsApp''] else []), snd r2))"

definition send_resource_alert_batch :: "poll_env \<Rightarrow> 'a host_db_scheme \<Rightarrow> 'a host_db_scheme" where
  "send_resource_alert_batch pe st =
     (let rows = batch_rows pe st; st0 = st\<lparr>batch_last_run := Some (clock pe)\<rparr>
      in if rows = [] then st0
         else
           let groups = group_rows alert_key_of rows;
               sent = filter (\<lambda>g. global_eligible st0 (fst g)) groups;
               r = send_batch_channels pe sent st0
           in if fst r = [] then snd r
              else (snd r)\<lparr>alert_log := map (\<lambda>a. if alert_name a \<in> set (map alert_name (filter (\<lambda>r. global_eligible st0 (alert_key_of r)) rows))
                     then a\<lparr>channels_sent := py_join '', '' (fst r)\<rparr> else a) (alert_log (snd r))\<rparr>)"

subsection \<open>The daily digests\<close>

definition day_start :: "datetime \<Rightarrow> datetime" where
  "day_start t = midnight_of (date_of t)"

definition resolve_host_label :: "string \<Rightarrow> string \<Rightarrow> 'a host_db_scheme \<Rightarrow> string" where
  "resolve_host_label doctype name st =
     (if doctype = ''Service Status Log''
      then case find_row ss_name name (service_statuses st) of
             None \<Rightarrow> name
           | Some s \<Rightarrow> ss_monitored_host s @ '' ('' @ ss_service_name s @ '')''
      else name)"

definition digest_section :: "'a host_db_scheme \<Rightarrow> alert_key \<times> alert_row list \<Rightarrow> string" where
  "digest_section st g =
     (case fst g of (ty, d, n) \<Rightarrow>
        ty @ '' '' @ utf8_dash @ '' '' @ resolve_host_label d n st @ '': '' @ show_int (int (length (snd g))) @ '' occurrence'' @
        (if length (snd g) \<noteq> 1 then ''s'' else []) @
        '' ('' @ (if still_open (fst g) st then ''still open'' else ''resolved'') @ '')'' @ newline @
        ''   latest: '' @ alert_message (last (snd g)))"

definition issue_count :: "(alert_key \<times> alert_row list) list \<Rightarrow> nat" where
  "issue_count groups = sum_list (map (\<lambda>g. length (snd g)) groups)"

definition host_count :: "(alert_key \<times> alert_row list) list \<Rightarrow> nat" where
  "host_count groups = length (remdups (map (\<lambda>g. snd (fst g)) groups))"

definition digest_rows :: "datetime \<Rightarrow> datetime \<Rightarrow> 'a alert_db_scheme \<Rightarrow> alert_row list" where
  "digest_rows window_start window_end st = alerts_between DIGEST_ONLY_ALERT_TYPES window_start window_end st"

definition send_health_digest :: "poll_env \<Rightarrow> datetime \<Rightarrow> datetime \<Rightarrow> string \<Rightarrow> 'a host_db_scheme \<Rightarrow> 'a host_db_scheme" where
  "send_health_digest pe window_start window_end label st =
     (let rows = digest_rows window_start window_end st
      in if rows = [] then st
         else
           let groups = group_rows alert_key_of rows; e = base_env pe; cfg = monitor_settings st;
               emails = (if enable_email_alerts cfg then strip_list (email_recipients cfg) else []);
               numbers = (if enable_whatsapp_alerts cfg then strip_list (whatsapp_recipients cfg) else []);
               counts = show_int (int (issue_count groups)) @ '' health issue(s) across '' @ show_int (int (host_count groups)) @ '' host(s)'';
               st1 = (if emails \<noteq> []
                      then snd (collected_mail e emails (''alfaEdge Pulse '' @ utf8_dash @ '' Host Health '' @ label)
                             (label @ newline @ counts @ '':'' @ newline @ newline @
                              py_join (newline @ newline) (map (digest_section st) groups))
                             ''alfaEdge Pulse: health digest email failed'' st)
                      else st);
               template_name = template_of e (whatsapp_health_digest_template cfg)
           in if truthy template_name \<and> numbers \<noteq> []
              then snd (send_whatsapp e numbers (opt_str template_name) (label @ '': '' @ counts @ ''.'') st1)
              else st1)"

definition send_health_digest_morning :: "poll_env \<Rightarrow> 'a host_db_scheme \<Rightarrow> 'a host_db_scheme" where
  "send_health_digest_morning pe st =
     (let today_start = day_start (clock pe)
      in send_health_digest pe (today_start - DAY) today_start ''Previous Day Summary'' st)"

definition send_health_digest_midday :: "poll_env \<Rightarrow> 'a host_db_scheme \<Rightarrow> 'a host_db_scheme" where
  "send_health_digest_midday pe st =
     (let today_start = day_start (clock pe)
      in send_health_digest pe today_start (today_start + MIDDAY_HOUR * HOUR) ''Midday Summary'' st)"

definition send_health_digest_evening :: "poll_env \<Rightarrow> 'a host_db_scheme \<Rightarrow> 'a host_db_scheme" where
  "send_health_digest_evening pe st =
     (let today_start = day_start (clock pe)
      in send_health_digest pe (today_start + MIDDAY_HOUR * HOUR) (today_start + EVENING_HOUR * HOUR) ''Evening Summary'' st)"

subsection \<open>Grouping counts every row once\<close>

lemma group_add_length: "sum_list (map (\<lambda>g. length (snd g)) (group_add k v gs)) = Suc (sum_list (map (\<lambda>g. length (snd g)) gs))"
  by (induction k v gs rule: group_add.induct) auto

lemma issue_count_exact: "issue_count (group_rows key rows) = length rows"
proof -
  have "sum_list (map (\<lambda>g. length (snd g)) (fold (\<lambda>r. group_add (key r) r) rows gs)) =
      sum_list (map (\<lambda>g. length (snd g)) gs) + length rows" for gs
    by (induction rows arbitrary: gs) (simp_all add: group_add_length)
  then show ?thesis by (simp add: issue_count_def group_rows_def)
qed

lemma alerts_between_mem:
  "r \<in> set (alerts_between types a b st) \<longleftrightarrow> r \<in> set (alert_log st) \<and> alert_type r \<in> set types \<and> a \<le> sent_at r \<and> sent_at r \<le> b"
  by (auto simp: alerts_between_def)

subsection \<open>What sending changes\<close>

lemma whatsapp_loop_log: "alert_log (snd (whatsapp_loop e t m ns st)) = alert_log st"
  by (induction ns arbitrary: st) simp_all

lemma send_whatsapp_log [simp]: "alert_log (snd (send_whatsapp e ns t m st)) = alert_log st"
  using whatsapp_loop_log [of e t m ns st]
  by (auto simp: send_whatsapp_def log_error_def split: prod.splits bool.splits)

lemma collected_mail_frame [simp]: "alert_log (snd (collected_mail e rs sub body t st)) = alert_log st"
  by (simp add: collected_mail_def log_error_def)

lemma whatsapp_loop_more: "alert_db.more (snd (whatsapp_loop e t m ns st)) = alert_db.more st"
  by (induction ns arbitrary: st) simp_all

lemma send_whatsapp_more [simp]: "alert_db.more (snd (send_whatsapp e ns t m st)) = alert_db.more st"
  using whatsapp_loop_more [of e t m ns st]
  by (auto simp: send_whatsapp_def log_error_def split: prod.splits bool.splits)

lemma collected_mail_more [simp]: "alert_db.more (snd (collected_mail e rs sub body t st)) = alert_db.more st"
  by (simp add: collected_mail_def log_error_def)

lemma send_batch_channels_frame [simp]:
  "alert_log (snd (send_batch_channels pe sent st)) = alert_log st"
  "alert_db.more (snd (send_batch_channels pe sent st)) = alert_db.more st"
  by (simp_all add: send_batch_channels_def Let_def)

lemma send_batch_channels_nothing: "send_batch_channels pe [] st = ([], st)"
  by (simp add: send_batch_channels_def Let_def)

lemma batch_sends_nothing:
  assumes "filter (\<lambda>g. global_eligible (st\<lparr>batch_last_run := Some (clock pe)\<rparr>) (fst g)) (group_rows alert_key_of (batch_rows pe st)) = []"
  shows "outbox (send_resource_alert_batch pe st) = outbox st"
  unfolding send_resource_alert_batch_def Let_def assms send_batch_channels_nothing by simp

lemma batch_last_run_after: "batch_last_run (send_resource_alert_batch pe st) = Some (clock pe)"
proof -
  let ?s = "snd (send_batch_channels pe (filter (\<lambda>g. global_eligible (st\<lparr>batch_last_run := Some (clock pe)\<rparr>) (fst g))
      (group_rows alert_key_of (batch_rows pe st))) (st\<lparr>batch_last_run := Some (clock pe)\<rparr>))"
  have "batch_last_run ?s = Some (clock pe)"
    using host_fields_of_more(6) [of ?s "st\<lparr>batch_last_run := Some (clock pe)\<rparr>"] by simp
  then show ?thesis by (simp add: send_resource_alert_batch_def Let_def)
qed

lemma eligible_marker [simp]: "global_eligible (st\<lparr>batch_last_run := t\<rparr>) k = global_eligible st k"
proof -
  have "guest_role n (st\<lparr>batch_last_run := t\<rparr>) = guest_role n st" for n
    by (simp add: guest_role_def split: option.split)
  then show ?thesis by (simp add: global_eligible_def get_host_role_def split: option.split)
qed

text \<open>The two-minute batch marks what it sent and nothing else. Of the batched alerts in its window, ends
  included, exactly those of a Production host or guest (or of recurring errors, when that is
  switched on) get the channels that took the message; every other row of the alert log, and
  every field but the channels, stays. Without such an alert nothing is sent.\<close>

theorem resource_batch_marks_what_it_sent:
  assumes "alert_inv st" and "st' = send_resource_alert_batch pe st"
    and "picked = (\<lambda>r. alert_type r \<in> set BATCHED_RESOURCE_ALERT_TYPES \<and> fst (batch_window pe st) \<le> sent_at r \<and> sent_at r \<le> clock pe \<and>
           global_eligible st (alert_key_of r))"
  shows "\<exists>chs. set chs \<subseteq> {''Email'', ''WhatsApp''} \<and>
    alert_log st' = map (\<lambda>r. if picked r \<and> chs \<noteq> [] then r\<lparr>channels_sent := py_join '', '' chs\<rparr> else r) (alert_log st) \<and>
    (list_ex picked (alert_log st) \<or> outbox st' = outbox st)"
proof -
  let ?st0 = "st\<lparr>batch_last_run := Some (clock pe)\<rparr>" and ?rows = "batch_rows pe st"
  let ?sent = "filter (\<lambda>g. global_eligible ?st0 (fst g)) (group_rows alert_key_of ?rows)"
  let ?r = "send_batch_channels pe ?sent ?st0"
  have rows: "r \<in> set ?rows \<and> global_eligible st (alert_key_of r) \<longleftrightarrow> picked r" if "r \<in> set (alert_log st)" for r
    using that by (auto simp: assms(3) batch_rows_def alerts_between_mem batch_window_def)
  have one: "r = s" if "r \<in> set (alert_log st)" "s \<in> set (alert_log st)" "alert_name r = alert_name s" for r s
    using assms(1) that by (auto simp: alert_inv_def Let_def distinct_map inj_on_def)
  have sub: "set ?rows \<subseteq> set (alert_log st)" by (auto simp: batch_rows_def alerts_between_mem)
  have named: "alert_name a \<in> set (map alert_name (filter (\<lambda>r. global_eligible ?st0 (alert_key_of r)) ?rows)) \<longleftrightarrow> picked a"
    if "a \<in> set (alert_log st)" for a
    using rows [OF that] sub one [OF that] by (auto simp: image_iff)
  have quiet: "outbox st' = outbox st" if "\<not> list_ex picked (alert_log st)"
  proof -
    have none: "\<not> global_eligible st (alert_key_of r)" if "r \<in> set ?rows" for r
      using \<open>\<not> list_ex picked (alert_log st)\<close> rows sub that by (auto simp: list_ex_iff)
    have "?sent = []"
      using group_rows_keys [of alert_key_of ?rows] none by (force simp: filter_empty_conv)
    then show ?thesis unfolding assms(2) by (rule batch_sends_nothing)
  qed
  have "set (fst ?r) \<subseteq> {''Email'', ''WhatsApp''}" by (auto simp: send_batch_channels_def Let_def)
  moreover have "alert_log st' =
      map (\<lambda>r. if picked r \<and> (if ?rows = [] then [] else fst ?r) \<noteq> [] then r\<lparr>channels_sent := py_join '', '' (fst ?r)\<rparr> else r) (alert_log st)"
  proof (cases "?rows = [] \<or> fst ?r = []")
    case True
    then show ?thesis by (auto simp: assms(2) send_resource_alert_batch_def Let_def)
  next
    case False
    then have "alert_log st' = map (\<lambda>a. if alert_name a \<in> set (map alert_name (filter (\<lambda>r. global_eligible ?st0 (alert_key_of r)) ?rows))
        then a\<lparr>channels_sent := py_join '', '' (fst ?r)\<rparr> else a) (alert_log st)"
      by (simp add: assms(2) send_resource_alert_batch_def Let_def)
    also have "\<dots> = map (\<lambda>r. if picked r \<and> (if ?rows = [] then [] else fst ?r) \<noteq> [] then r\<lparr>channels_sent := py_join '', '' (fst ?r)\<rparr> else r)
        (alert_log st)"
      using False by (intro map_cong [OF refl]) (simp only: named, simp)
    finally show ?thesis .
  qed
  ultimately show ?thesis using quiet by (intro exI [of _ "if ?rows = [] then [] else fst ?r"]) auto
qed


text \<open>Windows of successive runs join without a gap: a batched alert whose time lies between the start of one
  window and the end of the next is in one of the two. It is in both exactly when it was sent at
  the very instant of the first run, and one that was sent before that instant but became visible
  only after the run (its transaction committed later) is in no later batch.\<close>

theorem batch_windows_join:
  assumes "batch_last_run later = batch_last_run (send_resource_alert_batch pe st)"
    and "fst (batch_window pe st) \<le> clock pe" and "clock pe \<le> clock pe2"
    and "r \<in> set (alert_log later)" and "alert_type r \<in> set BATCHED_RESOURCE_ALERT_TYPES"
    and "first = (fst (batch_window pe st) \<le> sent_at r \<and> sent_at r \<le> clock pe)"
  shows "(fst (batch_window pe st) \<le> sent_at r \<and> sent_at r \<le> clock pe2 \<longleftrightarrow> first \<or> r \<in> set (batch_rows pe2 later)) \<and>
    (first \<and> r \<in> set (batch_rows pe2 later) \<longleftrightarrow> sent_at r = clock pe) \<and>
    (sent_at r < clock pe \<longrightarrow> r \<notin> set (batch_rows pe2 later))"
proof -
  have "r \<in> set (batch_rows pe2 later) \<longleftrightarrow> clock pe \<le> sent_at r \<and> sent_at r \<le> clock pe2"
    using assms(1,4,5) by (auto simp: batch_rows_def alerts_between_mem batch_window_def batch_last_run_after)
  then show ?thesis using assms(2,3,6) by auto
qed

text \<open>The morning digest is complete: it counts every digest alert of the previous calendar day exactly once,
  and those of the day sent up to 20:00 were also in that day's midday or evening digest. An alert sent
  at midnight sharp is counted by two mornings, since both ends of a window are included.\<close>

theorem digests_cover_the_day:
  assumes "r \<in> set (alert_log st)" and "alert_type r \<in> set DIGEST_ONLY_ALERT_TYPES" and "d = midnight_of (date_of (sent_at r))"
  shows "r \<in> set (digest_rows d (d + DAY) st) \<and>
    issue_count (group_rows alert_key_of (digest_rows d (d + DAY) st)) = length (digest_rows d (d + DAY) st) \<and>
    (sent_at r \<le> d + EVENING_HOUR * HOUR \<longrightarrow>
       r \<in> set (digest_rows d (d + MIDDAY_HOUR * HOUR) st) \<or> r \<in> set (digest_rows (d + MIDDAY_HOUR * HOUR) (d + EVENING_HOUR * HOUR) st)) \<and>
    (r \<in> set (digest_rows (d - DAY) d st) \<longleftrightarrow> sent_at r = d)"
proof -
  have "d \<le> sent_at r" "sent_at r < d + DAY"
    using midnight_le [of "sent_at r"] next_midnight_gt [of "sent_at r"] by (simp_all add: assms(3) midnight_of_def algebra_simps)
  then show ?thesis
    using assms(1,2) by (auto simp: digest_rows_def alerts_between_mem issue_count_exact time_units)
qed

definition demo_host :: monitored_host where
  "demo_host = \<lparr>mh_name = ''web1'', mh_proxmox_guest = Some ''g1'', mh_hostname = Some ''web1'', mh_enabled = True, mh_last_seen = None,
     mh_is_online = True, mh_scheduler_last_run = None, mh_scheduler_overdue = False, mh_pinned_host_key = [], mh_last_poll_kind = ''ok'',
     mh_last_poll_error = [], mh_last_poll_duration_ms = 0, mh_worker_health_critical = False, mh_failed_job_critical = False,
     mh_long_running_job_critical = False, mh_load_average_critical = False, mh_swap_critical = False, mh_hosted_sites = [],
     mh_ssh_target = None, mh_ssh_port = None, mh_ssh_user = None, mh_bench_path = None, mh_expected_services = []\<rparr>"

definition demo_alert :: "string \<Rightarrow> datetime \<Rightarrow> alert_row" where
  "demo_alert ty t = \<lparr>alert_name = 0, alert_type = ty, reference_doctype = ''Monitored Host'', reference_name = ''web1'',
     alert_message = ''web1: busy'', channels_sent = [], sent_at = t, resolved = False\<rparr>"

definition demo_host_db :: host_db where
  "demo_host_db = job_db.extend (demo_job_db\<lparr>alert_log := [demo_alert ''High Load Average'' 900], next_alert := 1,
        guests := [demo_guest\<lparr>g_name := ''g1'', g_server := ''alpha''\<rparr>], servers := [demo_server\<lparr>srv_role := ''Production''\<rparr>]\<rparr>)
     \<lparr>monitored_hosts = [demo_host], service_statuses = [],
      ssh_settings = \<lparr>ssh_enabled = True, ssh_server_host_key = [], ssh_poll_interval_seconds = None, ssh_bastion_unreachable = False,
        ssh_bastion_failure_streak = 0, ssh_connection_mode = None, ssh_target_naming = None, ssh_server_host = Some ''gate'',
        ssh_server_port = None, ssh_warpgate_user = Some ''pulse'', ssh_default_user = None, ssh_default_bench_path = None, ssh_connect_timeout = None,
        ssh_command_timeout = None\<rparr>,
      host_monitor_settings = \<lparr>hm_heartbeat_timeout_seconds = None, hm_confirmation_checks = None, hm_scheduler_heartbeat_timeout_minutes = None,
        hm_orphan_worker_critical_threshold = None, hm_failed_job_critical_threshold = None, hm_long_running_job_critical_threshold_seconds = None,
        hm_default_expected_services = []\<rparr>,
      notify_global_recipients = False, batch_last_run = Some 500, resource_retention_days = None, history_tables = []\<rparr>"

theorem batch_windows_join_witness:
  "demo_alert ''High Load Average'' 1000 \<in> set (batch_rows demo_poll_env
     ((send_resource_alert_batch demo_poll_env demo_host_db)\<lparr>alert_log := [demo_alert ''High Load Average'' 1000]\<rparr>))"
proof -
  let ?later = "(send_resource_alert_batch demo_poll_env demo_host_db)\<lparr>alert_log := [demo_alert ''High Load Average'' 1000]\<rparr>"
  have w: "fst (batch_window demo_poll_env demo_host_db) \<le> clock demo_poll_env" and t: "sent_at (demo_alert ''High Load Average'' 1000) = clock demo_poll_env"
    and ty: "alert_type (demo_alert ''High Load Average'' 1000) \<in> set BATCHED_RESOURCE_ALERT_TYPES" by code_simp+
  have l: "batch_last_run ?later = batch_last_run (send_resource_alert_batch demo_poll_env demo_host_db)" by simp
  from batch_windows_join [OF l w order_refl _ ty refl] t show ?thesis by simp
qed

theorem digests_cover_the_day_witness:
  "demo_alert ''Service Down'' 900 \<in> set (digest_rows 0 DAY (demo_host_db\<lparr>alert_log := [demo_alert ''Service Down'' 900]\<rparr>))"
proof -
  have ty: "alert_type (demo_alert ''Service Down'' 900) \<in> set DIGEST_ONLY_ALERT_TYPES"
    and d: "midnight_of (date_of (sent_at (demo_alert ''Service Down'' 900))) = 0" by code_simp+
  from digests_cover_the_day [OF _ ty d [symmetric], of "demo_host_db\<lparr>alert_log := [demo_alert ''Service Down'' 900]\<rparr>"]
  show ?thesis by simp
qed

end
