(* ===== verification/Host_Watch.thy ===== *)
theory Host_Watch
  imports Alert_Summaries
begin

text \<open>
  Watching the monitored hosts: the once-a-minute staleness check of \<open>tasks/host_health_watchdog.py\<close>, the
  part of \<open>tasks/host_poller.py\<close> that tells a dead bastion from dead hosts and records failed polls, and
  the retention job of \<open>tasks/resource_monitor.py\<close>.
\<close>

definition DEFAULT_CONFIRMATION_CHECKS :: int where "DEFAULT_CONFIRMATION_CHECKS = 3"
definition DEFAULT_HEARTBEAT_TIMEOUT_SECONDS :: int where "DEFAULT_HEARTBEAT_TIMEOUT_SECONDS = 90"
definition DEFAULT_SCHEDULER_HEARTBEAT_TIMEOUT_MINUTES :: int where "DEFAULT_SCHEDULER_HEARTBEAT_TIMEOUT_MINUTES = 15"

definition set_host :: "string \<Rightarrow> (monitored_host \<Rightarrow> monitored_host) \<Rightarrow> 'a host_db_scheme \<Rightarrow> 'a host_db_scheme" where
  "set_host n f st = st\<lparr>monitored_hosts := map (\<lambda>h. if mh_name h = n then f h else h) (monitored_hosts st)\<rparr>"

definition host_label :: "monitored_host \<Rightarrow> string" where
  "host_label h = (if truthy (mh_hostname h) then opt_str (mh_hostname h) else mh_name h)"

definition host_online :: "datetime \<Rightarrow> monitored_host \<Rightarrow> bool" where
  "host_online cutoff h \<longleftrightarrow> (case mh_last_seen h of None \<Rightarrow> False | Some t \<Rightarrow> t \<ge> cutoff)"

definition scheduler_stale :: "datetime \<Rightarrow> monitored_host \<Rightarrow> bool" where
  "scheduler_stale cutoff h \<longleftrightarrow> (case mh_scheduler_last_run h of None \<Rightarrow> False | Some t \<Rightarrow> t < cutoff)"

definition check_reachable :: "env \<Rightarrow> monitored_host \<Rightarrow> datetime \<Rightarrow> int \<Rightarrow> 'a host_db_scheme \<Rightarrow> 'a host_db_scheme" where
  "check_reachable e h heartbeat_cutoff heartbeat_timeout st =
     (let was_online = mh_is_online h; is_online = host_online heartbeat_cutoff h;
          st1 = (if is_online \<noteq> was_online then set_host (mh_name h) (\<lambda>x. x\<lparr>mh_is_online := is_online\<rparr>) st else st)
      in handle_transition e (\<not> was_online) (\<not> is_online) ''Monitored Host'' (mh_name h) ''Host Unreachable''
           (host_label h @ '': could not be reached over SSH for over '' @ show_int heartbeat_timeout @ ''s.'')
           (Some (host_label h @ '': answering SSH polls again.'')) True st1)"

definition check_scheduler :: "env \<Rightarrow> monitored_host \<Rightarrow> datetime \<Rightarrow> int \<Rightarrow> 'a host_db_scheme \<Rightarrow> 'a host_db_scheme" where
  "check_scheduler e h scheduler_cutoff scheduler_timeout_minutes st =
     (let was_overdue = mh_scheduler_overdue h; is_overdue = scheduler_stale scheduler_cutoff h;
          ran = mh_scheduler_last_run h \<noteq> None;
          st1 = (if ran \<and> is_overdue \<noteq> was_overdue
                 then set_host (mh_name h) (\<lambda>x. x\<lparr>mh_scheduler_overdue := is_overdue\<rparr>) st else st)
      in if ran
         then handle_transition e was_overdue is_overdue ''Monitored Host'' (mh_name h) ''Scheduler Stalled''
                (host_label h @ '': Frappe scheduler has not run in over '' @ show_int scheduler_timeout_minutes @ '' minute(s).'')
                (Some (host_label h @ '': scheduler resumed.'')) True st1
         else st1)"

definition check_one_host ::
    "env \<Rightarrow> datetime \<Rightarrow> datetime \<Rightarrow> int \<Rightarrow> int \<Rightarrow> monitored_host \<Rightarrow> 'a host_db_scheme \<Rightarrow> 'a host_db_scheme" where
  "check_one_host e heartbeat_cutoff scheduler_cutoff heartbeat_timeout scheduler_timeout_minutes h st =
     check_scheduler e h scheduler_cutoff scheduler_timeout_minutes (check_reachable e h heartbeat_cutoff heartbeat_timeout st)"

text \<open>Both switches: the opt-in in \<open>site_config.json\<close>, given from outside, and the one in SSH Settings.\<close>

definition polling_on :: "bool \<Rightarrow> 'a host_db_scheme \<Rightarrow> bool" where
  "polling_on polling_allowed st \<longleftrightarrow> polling_allowed \<and> ssh_enabled (ssh_settings st)"

definition check_host_heartbeats :: "poll_env \<Rightarrow> bool \<Rightarrow> 'a host_db_scheme \<Rightarrow> 'a host_db_scheme" where
  "check_host_heartbeats pe polling_allowed st =
     (if \<not> polling_on polling_allowed st then st
      else if ssh_bastion_unreachable (ssh_settings st) then st
      else
        let cfg = host_monitor_settings st;
            heartbeat_timeout = or_int (hm_heartbeat_timeout_seconds cfg) DEFAULT_HEARTBEAT_TIMEOUT_SECONDS;
            scheduler_timeout_minutes = or_int (hm_scheduler_heartbeat_timeout_minutes cfg) DEFAULT_SCHEDULER_HEARTBEAT_TIMEOUT_MINUTES;
            hosts = filter (\<lambda>h. mh_enabled h \<and> mh_last_poll_kind h \<noteq> ''config'') (monitored_hosts st)
        in fold (check_one_host (base_env pe) (clock pe - heartbeat_timeout * SECOND) (clock pe - scheduler_timeout_minutes * MINUTE)
                   heartbeat_timeout scheduler_timeout_minutes) hosts st)"

subsection \<open>The bastion\<close>

definition BASTION_ALERT :: string where "BASTION_ALERT = ''Warpgate Unreachable''"

definition BASTION_DOWN_MESSAGE :: string where
  "BASTION_DOWN_MESSAGE = ''alfaEdge Pulse: the Warpgate server cannot be reached, so no host can be polled. Per-host unreachable alerts are held back until it is back.''"

definition BASTION_UP_MESSAGE :: string where
  "BASTION_UP_MESSAGE = ''alfaEdge Pulse: Warpgate is reachable again; host polling has resumed.''"

definition update_bastion_state :: "env \<Rightarrow> int \<Rightarrow> int \<Rightarrow> int \<Rightarrow> 'a host_db_scheme \<Rightarrow> bool \<times> 'a host_db_scheme" where
  "update_bastion_state e attempted succeeded bastion_failed st =
     (let bastion_cycle = (attempted > 0 \<and> succeeded = 0 \<and> bastion_failed = attempted);
          cfg = ssh_settings st;
          was_down = ssh_bastion_unreachable cfg;
          streak = (if bastion_cycle then ssh_bastion_failure_streak cfg + 1 else 0);
          checks = or_int (hm_confirmation_checks (host_monitor_settings st)) DEFAULT_CONFIRMATION_CHECKS;
          is_down = (if bastion_cycle then streak \<ge> checks else False);
          st1 = (if streak \<noteq> ssh_bastion_failure_streak cfg \<or> is_down \<noteq> was_down
                 then st\<lparr>ssh_settings := cfg\<lparr>ssh_bastion_failure_streak := streak, ssh_bastion_unreachable := is_down\<rparr>\<rparr> else st)
      in (is_down,
          handle_transition e was_down is_down ''SSH Settings'' ''SSH Settings'' BASTION_ALERT
            BASTION_DOWN_MESSAGE (Some BASTION_UP_MESSAGE) True st1))"

definition record_failure :: "string \<Rightarrow> string \<Rightarrow> string \<Rightarrow> int \<Rightarrow> 'a host_db_scheme \<Rightarrow> 'a host_db_scheme" where
  "record_failure n kind message duration_ms st =
     (let err = take 500 message
      in case find_row mh_name n (monitored_hosts st) of
           None \<Rightarrow> st
         | Some h \<Rightarrow>
             if mh_last_poll_kind h = kind \<and> mh_last_poll_error h = err then st
             else set_host n (\<lambda>x. x\<lparr>mh_last_poll_kind := kind, mh_last_poll_error := err, mh_last_poll_duration_ms := duration_ms\<rparr>) st)"

definition pin_key :: "string \<Rightarrow> bool \<Rightarrow> string \<Rightarrow> 'a host_db_scheme \<Rightarrow> 'a host_db_scheme" where
  "pin_key n in_settings key st =
     (if in_settings then st\<lparr>ssh_settings := (ssh_settings st)\<lparr>ssh_server_host_key := key\<rparr>\<rparr>
      else set_host n (\<lambda>x. x\<lparr>mh_pinned_host_key := key\<rparr>) st)"

definition ensure_host_poller_running :: "job_env \<Rightarrow> bool \<Rightarrow> 'a host_db_scheme \<Rightarrow> 'a host_db_scheme" where
  "ensure_host_poller_running je polling_allowed st =
     (if \<not> polling_on polling_allowed st then st
      else snd (start_loop_if_needed je ''alfaedge_pulse.tasks.host_poller.run_host_poll_loop'' ''alfaedge_pulse_host_poller''
             ''alfaedge_pulse:host_poller_heartbeat'' (300 + 300) ''host poller'' st))"

subsection \<open>Retention\<close>

definition IO_SAMPLE_RETENTION_DAYS :: int where "IO_SAMPLE_RETENTION_DAYS = 7"
definition FAILED_JOB_RETENTION_DAYS :: int where "FAILED_JOB_RETENTION_DAYS = 90"
definition SNAPSHOT_RETENTION_DAYS :: int where "SNAPSHOT_RETENTION_DAYS = 180"

definition retention_of :: "int \<Rightarrow> string \<Rightarrow> int option" where
  "retention_of retention_days table =
     map_of [(''Disk IO Sample'', min retention_days IO_SAMPLE_RETENTION_DAYS),
             (''Memory Metric Log'', retention_days), (''MariaDB Metric Log'', retention_days), (''Redis Metric Log'', retention_days),
             (''MariaDB Config Snapshot'', SNAPSHOT_RETENTION_DAYS), (''Resource Disk Sample'', retention_days),
             (''Resource Metric Log'', retention_days), (''Frappe Worker Health Log'', retention_days),
             (''Frappe Failed Job Log'', FAILED_JOB_RETENTION_DAYS)] table"

text \<open>Failed jobs count from when they were resolved, and open ones never expire; a missing time is not older than anything.\<close>

definition expired_row :: "poll_env \<Rightarrow> int \<Rightarrow> string \<Rightarrow> history_row \<Rightarrow> bool" where
  "expired_row pe retention_days table r \<longleftrightarrow>
     (case (retention_of retention_days table, hr_time r) of
        (Some days, Some t) \<Rightarrow> t < clock pe - days * DAY \<and> (table = ''Frappe Failed Job Log'' \<longrightarrow> hr_resolved r)
      | _ \<Rightarrow> False)"

definition purge_old_resource_logs :: "poll_env \<Rightarrow> 'a host_db_scheme \<Rightarrow> 'a host_db_scheme" where
  "purge_old_resource_logs pe st =
     (let retention_days = or_int (resource_retention_days st) 30
      in st\<lparr>history_tables := map (\<lambda>(table, rows). (table, fst (purge_loop 5000 (expired_row pe retention_days table) rows 0))) (history_tables st)\<rparr>)"

subsection \<open>The staleness check\<close>

text \<open>A successful poll, as \<open>process_status\<close> in \<open>host_health/ingest.py\<close> records it before anything else.\<close>

definition mark_seen :: "string \<Rightarrow> datetime \<Rightarrow> 'a host_db_scheme \<Rightarrow> 'a host_db_scheme" where
  "mark_seen n now st = set_host n (\<lambda>h. h\<lparr>mh_last_seen := Some now, mh_is_online := True\<rparr>) st"

abbreviation unreachable_key :: "string \<Rightarrow> alert_key" where
  "unreachable_key n \<equiv> (''Monitored Host'', n, ''Host Unreachable'')"

abbreviation stalled_key :: "string \<Rightarrow> alert_key" where
  "stalled_key n \<equiv> (''Monitored Host'', n, ''Scheduler Stalled'')"

lemma set_host_alerts [simp]:
  "alert_inv (set_host n f st) = alert_inv st" "open_alerts_of (set_host n f st) k = open_alerts_of st k"
  by (simp_all add: set_host_def alert_inv_def open_alerts_of_def)

lemma check_reachable_effect:
  assumes "alert_inv st"
  shows "alert_inv (check_reachable e h c t st)"
    and "k \<noteq> unreachable_key (mh_name h) \<Longrightarrow> open_alerts_of (check_reachable e h c t st) k = open_alerts_of st k"
    and "open_alerts_of st (unreachable_key (mh_name h)) = (if mh_is_online h then 0 else 1) \<Longrightarrow>
      open_alerts_of (check_reachable e h c t st) (unreachable_key (mh_name h)) = (if host_online c h then 0 else 1)"
    and "mh_is_online h \<Longrightarrow> host_online c h \<Longrightarrow> check_reachable e h c t st = st"
    and "monitored_hosts (check_reachable e h c t st) =
      (if host_online c h = mh_is_online h then monitored_hosts st
       else monitored_hosts (set_host (mh_name h) (\<lambda>x. x\<lparr>mh_is_online := host_online c h\<rparr>) st))"
proof -
  let ?st = "if host_online c h \<noteq> mh_is_online h then set_host (mh_name h) (\<lambda>x. x\<lparr>mh_is_online := host_online c h\<rparr>) st else st"
  have inv: "alert_inv ?st" and same: "open_alerts_of ?st k' = open_alerts_of st k'" for k' using assms by auto
  show "alert_inv (check_reachable e h c t st)"
    by (simp add: check_reachable_def Let_def handle_transition_inv assms)
  show "open_alerts_of (check_reachable e h c t st) k = open_alerts_of st k" if "k \<noteq> unreachable_key (mh_name h)"
    using handle_transition_other [OF inv that] same by (simp add: check_reachable_def Let_def)
  show "open_alerts_of (check_reachable e h c t st) (unreachable_key (mh_name h)) = (if host_online c h then 0 else 1)"
    if "open_alerts_of st (unreachable_key (mh_name h)) = (if mh_is_online h then 0 else 1)"
    using transitions_sync [OF inv, where vs = "[\<not> host_online c h]" and was = "\<not> mh_is_online h"] that same
    by (simp add: check_reachable_def Let_def)
  show "check_reachable e h c t st = st" if "mh_is_online h" "host_online c h"
    using that by (simp add: check_reachable_def handle_transition_def)
  show "monitored_hosts (check_reachable e h c t st) =
      (if host_online c h = mh_is_online h then monitored_hosts st
       else monitored_hosts (set_host (mh_name h) (\<lambda>x. x\<lparr>mh_is_online := host_online c h\<rparr>) st))"
    by (simp add: check_reachable_def Let_def)
qed

lemma check_scheduler_effect:
  assumes "alert_inv st"
  shows "alert_inv (check_scheduler e h c t st)"
    and "k \<noteq> stalled_key (mh_name h) \<Longrightarrow> open_alerts_of (check_scheduler e h c t st) k = open_alerts_of st k"
proof -
  show "alert_inv (check_scheduler e h c t st)"
    by (simp add: check_scheduler_def Let_def handle_transition_inv assms)
  show "open_alerts_of (check_scheduler e h c t st) k = open_alerts_of st k" if "k \<noteq> stalled_key (mh_name h)"
    using that assms by (auto simp: check_scheduler_def Let_def handle_transition_other)
qed

text \<open>One host's check as seen by the Host Unreachable alert of some host.\<close>

lemma check_one_host_effect:
  assumes "alert_inv st"
  shows "alert_inv (check_one_host e c1 c2 t1 t2 h st)"
    and "mh_name h \<noteq> n \<Longrightarrow> open_alerts_of (check_one_host e c1 c2 t1 t2 h st) (unreachable_key n) = open_alerts_of st (unreachable_key n)"
    and "open_alerts_of (check_one_host e c1 c2 t1 t2 h st) (unreachable_key n) = open_alerts_of (check_reachable e h c1 t1 st) (unreachable_key n)"
proof -
  note r = check_reachable_effect [OF assms] and s = check_scheduler_effect [OF check_reachable_effect(1) [OF assms]]
  show "alert_inv (check_one_host e c1 c2 t1 t2 h st)" using s(1) by (simp add: check_one_host_def)
  show *: "open_alerts_of (check_one_host e c1 c2 t1 t2 h st) (unreachable_key n) = open_alerts_of (check_reachable e h c1 t1 st) (unreachable_key n)"
    by (simp add: check_one_host_def s(2))
  show "open_alerts_of (check_one_host e c1 c2 t1 t2 h st) (unreachable_key n) = open_alerts_of st (unreachable_key n)" if "mh_name h \<noteq> n"
    using that r(2) [of "unreachable_key n" h e c1 t1] by (simp add: *)
qed

lemma check_hosts_other:
  fixes st :: "'a host_db_scheme"
  assumes "alert_inv st" and "\<And>h. h \<in> set hs \<Longrightarrow> mh_name h \<noteq> n"
  shows "alert_inv (fold (check_one_host e c1 c2 t1 t2) hs st) \<and>
    open_alerts_of (fold (check_one_host e c1 c2 t1 t2) hs st) (unreachable_key n) = open_alerts_of st (unreachable_key n)"
proof (rule fold_invariant [where I = "\<lambda>s. alert_inv s \<and> open_alerts_of s (unreachable_key n) = open_alerts_of st (unreachable_key n)"])
  fix h and s :: "'a host_db_scheme"
  assume "h \<in> set hs" and "alert_inv s \<and> open_alerts_of s (unreachable_key n) = open_alerts_of st (unreachable_key n)"
  then show "alert_inv (check_one_host e c1 c2 t1 t2 h s) \<and>
      open_alerts_of (check_one_host e c1 c2 t1 t2 h s) (unreachable_key n) = open_alerts_of st (unreachable_key n)"
    using assms(2) check_one_host_effect(1,2) [of s] by simp
qed (simp add: assms)

text \<open>The alert of one host after the pass over all of them is the one its own check leaves.\<close>

lemma check_hosts_self:
  fixes st :: "'a host_db_scheme"
  assumes "alert_inv st" and "distinct (map mh_name hs)" and "h \<in> set hs"
  shows "\<exists>st1 :: 'a host_db_scheme. alert_inv st1 \<and> open_alerts_of st1 (unreachable_key (mh_name h)) = open_alerts_of st (unreachable_key (mh_name h)) \<and>
    open_alerts_of (fold (check_one_host e c1 c2 t1 t2) hs st) (unreachable_key (mh_name h)) =
      open_alerts_of (check_reachable e h c1 t1 st1) (unreachable_key (mh_name h))"
proof -
  obtain pre post where hs: "hs = pre @ h # post" using split_list [OF assms(3)] by blast
  let ?st1 = "fold (check_one_host e c1 c2 t1 t2) pre st"
  have ne: "mh_name x \<noteq> mh_name h" if "x \<in> set pre \<union> set post" for x
    using assms(2) that by (auto simp: hs image_iff)
  have pre: "alert_inv ?st1 \<and> open_alerts_of ?st1 (unreachable_key (mh_name h)) = open_alerts_of st (unreachable_key (mh_name h))"
    using assms(1) ne by (intro check_hosts_other) auto
  have "open_alerts_of (fold (check_one_host e c1 c2 t1 t2) post (check_one_host e c1 c2 t1 t2 h ?st1)) (unreachable_key (mh_name h)) =
      open_alerts_of (check_one_host e c1 c2 t1 t2 h ?st1) (unreachable_key (mh_name h))"
    using check_hosts_other [OF check_one_host_effect(1), of ?st1 post "mh_name h"] pre ne by simp
  then show ?thesis using pre check_one_host_effect(3) [of ?st1] by (intro exI [of _ ?st1]) (simp add: hs)
qed

text \<open>While polling is on and the bastion is up, the check keeps the Host Unreachable alert of every enabled host
  that is set up for polling in step: if one was open exactly when the host was marked offline,
  then afterwards one is open exactly when its last successful poll is older than the timeout.\<close>

theorem check_host_heartbeats_exact:
  fixes st :: "'a host_db_scheme"
  assumes "alert_inv st" and "distinct (map mh_name (monitored_hosts st))" and "polling_on polling_allowed st"
    and "\<not> ssh_bastion_unreachable (ssh_settings st)"
    and "h \<in> set (monitored_hosts st)" and "mh_enabled h" and "mh_last_poll_kind h \<noteq> ''config''"
    and "open_alerts_of st (unreachable_key (mh_name h)) = (if mh_is_online h then 0 else 1)"
    and "cutoff = clock pe - or_int (hm_heartbeat_timeout_seconds (host_monitor_settings st)) 90 * SECOND"
  shows "open_alerts_of (check_host_heartbeats pe polling_allowed st) (unreachable_key (mh_name h)) =
    (case mh_last_seen h of None \<Rightarrow> 1 | Some t \<Rightarrow> if t < cutoff then 1 else 0)"
proof -
  let ?hs = "filter (\<lambda>h. mh_enabled h \<and> mh_last_poll_kind h \<noteq> ''config'') (monitored_hosts st)"
  let ?t1 = "or_int (hm_heartbeat_timeout_seconds (host_monitor_settings st)) 90"
  let ?t2 = "or_int (hm_scheduler_heartbeat_timeout_minutes (host_monitor_settings st)) 15"
  have run: "check_host_heartbeats pe polling_allowed st =
      fold (check_one_host (base_env pe) cutoff (clock pe - ?t2 * MINUTE) ?t1 ?t2) ?hs st"
    using assms(3,4) by (simp add: check_host_heartbeats_def Let_def assms(9) DEFAULT_HEARTBEAT_TIMEOUT_SECONDS_def
        DEFAULT_SCHEDULER_HEARTBEAT_TIMEOUT_MINUTES_def)
  have "distinct (map mh_name ?hs)" and "h \<in> set ?hs" using assms(2,5-7) by (simp_all add: distinct_map_filter)
  from check_hosts_self [OF assms(1) this, of "base_env pe" cutoff "clock pe - ?t2 * MINUTE" ?t1 ?t2] obtain st1 :: "'a host_db_scheme" where
    st1: "alert_inv st1" "open_alerts_of st1 (unreachable_key (mh_name h)) = open_alerts_of st (unreachable_key (mh_name h))"
    "open_alerts_of (check_host_heartbeats pe polling_allowed st) (unreachable_key (mh_name h)) =
      open_alerts_of (check_reachable (base_env pe) h cutoff ?t1 st1) (unreachable_key (mh_name h))"
    unfolding run by blast
  then show ?thesis
    using check_reachable_effect(3) [OF st1(1)] assms(8) by (auto simp: host_online_def split: option.split)
qed

text \<open>C36: A known defect: an unreachable host that answers again keeps its alert. The poll that succeeds sets the
  online flag itself, so the check finds the host online before and after, sees no transition, and
  neither closes the open Host Unreachable alert nor reports the recovery; the flag and the
  alert disagree from then on.\<close>

theorem answering_host_stays_unreachable:
  fixes st :: "'a host_db_scheme"
  assumes "alert_inv st" and "distinct (map mh_name (monitored_hosts st))" and "h \<in> set (monitored_hosts st)"
    and "open_alerts_of st (unreachable_key (mh_name h)) = 1"
    and "st' = check_host_heartbeats pe polling_allowed (mark_seen (mh_name h) (clock pe) st)"
    and "0 \<le> or_int (hm_heartbeat_timeout_seconds (host_monitor_settings st)) 90"
  shows "open_alerts_of st' (unreachable_key (mh_name h)) = 1"
proof -
  let ?st = "mark_seen (mh_name h) (clock pe) st"
  let ?h = "h\<lparr>mh_last_seen := Some (clock pe), mh_is_online := True\<rparr>"
  have inv: "alert_inv ?st" and op: "open_alerts_of ?st (unreachable_key (mh_name h)) = 1"
    using assms(1,4) by (simp_all add: mark_seen_def)
  have names: "map mh_name (monitored_hosts ?st) = map mh_name (monitored_hosts st)"
    by (auto simp: mark_seen_def set_host_def)
  have rows: "x = ?h" if "x \<in> set (monitored_hosts ?st)" "mh_name x = mh_name h" for x
    using that assms(2,3) by (auto simp: mark_seen_def set_host_def distinct_map inj_on_def split: if_splits)
  let ?hs = "filter (\<lambda>h. mh_enabled h \<and> mh_last_poll_kind h \<noteq> ''config'') (monitored_hosts ?st)"
  let ?t1 = "or_int (hm_heartbeat_timeout_seconds (host_monitor_settings st)) 90"
  let ?t2 = "or_int (hm_scheduler_heartbeat_timeout_minutes (host_monitor_settings st)) 15"
  let ?c1 = "clock pe - ?t1 * SECOND" and ?c2 = "clock pe - ?t2 * MINUTE"
  have "distinct (map mh_name (monitored_hosts ?st))" unfolding names by (rule assms(2))
  then have d: "distinct (map mh_name ?hs)" by (rule distinct_map_filter)
  have on: "host_online ?c1 ?h" using assms(6) by (simp add: host_online_def SECOND_def)
  have run: "open_alerts_of (fold (check_one_host (base_env pe) ?c1 ?c2 ?t1 ?t2) ?hs ?st) (unreachable_key (mh_name h)) = 1"
  proof (cases "?h \<in> set ?hs")
    case True
    from check_hosts_self [OF inv d True, of "base_env pe" ?c1 ?c2 ?t1 ?t2] obtain st1 :: "'a host_db_scheme" where
      "alert_inv st1" "open_alerts_of st1 (unreachable_key (mh_name ?h)) = open_alerts_of ?st (unreachable_key (mh_name ?h))"
      "open_alerts_of (fold (check_one_host (base_env pe) ?c1 ?c2 ?t1 ?t2) ?hs ?st) (unreachable_key (mh_name ?h)) =
        open_alerts_of (check_reachable (base_env pe) ?h ?c1 ?t1 st1) (unreachable_key (mh_name ?h))" by blast
    then show ?thesis using check_reachable_effect(4) [of st1 ?h ?c1] on op by simp
  next
    case False
    then have "mh_name x \<noteq> mh_name h" if "x \<in> set ?hs" for x using that rows [of x] by fastforce
    with check_hosts_other [OF inv, of ?hs "mh_name h"] op show ?thesis by simp
  qed
  then show ?thesis
    using op by (simp add: assms(5) check_host_heartbeats_def Let_def DEFAULT_HEARTBEAT_TIMEOUT_SECONDS_def
        DEFAULT_SCHEDULER_HEARTBEAT_TIMEOUT_MINUTES_def mark_seen_def set_host_def)
qed

definition demo_down_host_db :: host_db where
  "demo_down_host_db = demo_host_db\<lparr>alert_log := [demo_alert ''Host Unreachable'' 900],
     monitored_hosts := [demo_host\<lparr>mh_is_online := False, mh_last_seen := Some 0\<rparr>]\<rparr>"

theorem answering_host_stays_unreachable_witness:
  "open_alerts_of (check_host_heartbeats demo_poll_env True (mark_seen ''web1'' (clock demo_poll_env) demo_down_host_db)) (unreachable_key ''web1'') = 1"
proof -
  let ?h = "demo_host\<lparr>mh_is_online := False, mh_last_seen := Some 0\<rparr>"
  have h: "alert_inv demo_down_host_db" "distinct (map mh_name (monitored_hosts demo_down_host_db))" by code_simp+
  have m: "?h \<in> set (monitored_hosts demo_down_host_db)" by (simp add: demo_down_host_db_def)
  have o: "open_alerts_of demo_down_host_db (unreachable_key (mh_name ?h)) = 1" and n: "mh_name ?h = ''web1''"
    and z: "0 \<le> or_int (hm_heartbeat_timeout_seconds (host_monitor_settings demo_down_host_db)) 90" by code_simp+
  from answering_host_stays_unreachable [OF h m o refl z, of demo_poll_env True] n show ?thesis by simp
qed

subsection \<open>The bastion is down after a run of failed cycles\<close>

type_synonym cycle_counts = "int \<times> int \<times> int"

definition bastion_cycle :: "cycle_counts \<Rightarrow> bool" where
  "bastion_cycle c = (case c of (attempted, succeeded, bastion_failed) \<Rightarrow> attempted > 0 \<and> succeeded = 0 \<and> bastion_failed = attempted)"

fun bastion_cycles :: "env \<Rightarrow> cycle_counts list \<Rightarrow> 'a host_db_scheme \<Rightarrow> 'a host_db_scheme" where
  "bastion_cycles e [] st = st"
| "bastion_cycles e ((a, s, b) # cs) st = bastion_cycles e cs (snd (update_bastion_state e a s b st))"

definition bastion_key :: alert_key where
  "bastion_key = (''SSH Settings'', ''SSH Settings'', BASTION_ALERT)"

text \<open>The state agrees with a count of failed cycles in a row.\<close>

definition bastion_at :: "nat \<Rightarrow> 'a host_db_scheme \<Rightarrow> bool" where
  "bastion_at n st \<longleftrightarrow> alert_inv st \<and> ssh_bastion_failure_streak (ssh_settings st) = int n \<and>
     (let down = (n > 0 \<and> int n \<ge> or_int (hm_confirmation_checks (host_monitor_settings st)) 3)
      in ssh_bastion_unreachable (ssh_settings st) = down \<and> open_alerts_of st bastion_key = (if down then 1 else 0))"

lemma update_bastion_step:
  assumes "bastion_at n st"
  shows "bastion_at (if bastion_cycle (a, s, b) then Suc n else 0) (snd (update_bastion_state e a s b st)) \<and>
    host_monitor_settings (snd (update_bastion_state e a s b st)) = host_monitor_settings st"
proof -
  let ?cfg = "ssh_settings st"
  have cyc: "(a > 0 \<and> s = 0 \<and> b = a) = bastion_cycle (a, s, b)" by (simp add: bastion_cycle_def)
  define streak where "streak = (if bastion_cycle (a, s, b) then ssh_bastion_failure_streak ?cfg + 1 else 0)"
  define down where "down = (if bastion_cycle (a, s, b) then streak \<ge> or_int (hm_confirmation_checks (host_monitor_settings st)) 3 else False)"
  let ?st = "if streak \<noteq> ssh_bastion_failure_streak ?cfg \<or> down \<noteq> ssh_bastion_unreachable ?cfg
    then st\<lparr>ssh_settings := ?cfg\<lparr>ssh_bastion_failure_streak := streak, ssh_bastion_unreachable := down\<rparr>\<rparr> else st"
  have run: "snd (update_bastion_state e a s b st) =
      handle_transition e (ssh_bastion_unreachable ?cfg) down ''SSH Settings'' ''SSH Settings'' BASTION_ALERT
        BASTION_DOWN_MESSAGE (Some BASTION_UP_MESSAGE) True ?st"
    unfolding update_bastion_state_def Let_def snd_conv cyc DEFAULT_CONFIRMATION_CHECKS_def streak_def [symmetric] down_def [symmetric] ..
  have inv: "alert_inv ?st" and op: "open_alerts_of ?st bastion_key = (if ssh_bastion_unreachable ?cfg then 1 else 0)"
    using assms by (auto simp: bastion_at_def Let_def alert_inv_def open_alerts_of_def)
  have "ssh_bastion_failure_streak (ssh_settings ?st) = streak" "ssh_bastion_unreachable (ssh_settings ?st) = down"
    "host_monitor_settings ?st = host_monitor_settings st" by auto
  moreover have "streak = int (if bastion_cycle (a, s, b) then Suc n else 0)" using assms by (simp add: streak_def bastion_at_def)
  moreover have "open_alerts_of (snd (update_bastion_state e a s b st)) bastion_key = (if down then 1 else 0)"
    using transitions_sync [OF inv op [unfolded bastion_key_def], where vs = "[down]"] by (simp add: run bastion_key_def)
  ultimately show ?thesis
    using handle_transition_inv [OF inv] by (auto simp: run bastion_at_def Let_def down_def)
qed

text \<open>C25: Warpgate counts as down exactly when the last cycles all failed to reach it and there were at least as many
  as the confirmation setting asks; any other cycle brings it back at once. One alert is open
  exactly while it is down, and while it is down the staleness check leaves every host alone.\<close>

theorem bastion_down_exact:
  assumes "bastion_at 0 st" and "n = length (takeWhile bastion_cycle (rev cycles))"
    and "st' = bastion_cycles e cycles st" and "checks = or_int (hm_confirmation_checks (host_monitor_settings st)) 3" and "0 < checks"
  shows "ssh_bastion_unreachable (ssh_settings st') = (int n \<ge> checks) \<and>
    open_alerts_of st' bastion_key = (if int n \<ge> checks then 1 else 0) \<and>
    (int n \<ge> checks \<longrightarrow> check_host_heartbeats pe polling_allowed st' = st')"
proof -
  have gen: "bastion_at (if list_all bastion_cycle cycles then m + length cycles else length (takeWhile bastion_cycle (rev cycles)))
      (bastion_cycles e cycles s) \<and> host_monitor_settings (bastion_cycles e cycles s) = host_monitor_settings s"
    if "bastion_at m s" for m and s :: "'a host_db_scheme"
    using that
  proof (induction cycles arbitrary: m s)
    case (Cons c cs)
    obtain x y z where [simp]: "c = (x, y, z)" by (cases c) auto
    note step = update_bastion_step [OF Cons.prems, of x y z e]
    have tw: "length (takeWhile bastion_cycle (rev cs @ [c])) =
        (if list_all bastion_cycle cs then length cs + (if bastion_cycle c then 1 else 0) else length (takeWhile bastion_cycle (rev cs)))"
      by (auto simp: list_all_iff takeWhile_append)
    from Cons.IH [OF conjunct1 [OF step]] step tw show ?case
      by (cases "list_all bastion_cycle cs"; cases "bastion_cycle c") simp_all
  qed simp
  have "n = (if list_all bastion_cycle cycles then length cycles else length (takeWhile bastion_cycle (rev cycles)))"
    by (auto simp: assms(2) list_all_iff takeWhile_eq_all_conv [THEN iffD2])
  with gen [OF assms(1)] have "bastion_at n st'" and "host_monitor_settings st' = host_monitor_settings st"
    by (auto simp: assms(3))
  with assms(4,5) show ?thesis by (auto simp: bastion_at_def Let_def check_host_heartbeats_def)
qed

theorem bastion_down_exact_witness:
  "ssh_bastion_unreachable (ssh_settings (bastion_cycles demo_env [(2, 1, 0), (2, 0, 2), (2, 0, 2), (2, 0, 2)] demo_host_db))"
proof -
  have a: "bastion_at 0 demo_host_db" and c: "0 < or_int (hm_confirmation_checks (host_monitor_settings demo_host_db)) 3"
    and n: "int (length (takeWhile bastion_cycle (rev [(2, 1, 0), (2, 0, 2), (2, 0, 2), (2, 0, 2)])))
      \<ge> or_int (hm_confirmation_checks (host_monitor_settings demo_host_db)) 3" by code_simp+
  from bastion_down_exact [OF a refl refl refl c, where cycles = "[(2, 1, 0), (2, 0, 2), (2, 0, 2), (2, 0, 2)]" and e = demo_env] n
  show ?thesis by blast
qed

subsection \<open>Retention\<close>

text \<open>The retention job ends and keeps exactly the rows that have not expired, in every table and in order.\<close>

lemma purge_old_resource_logs_exact:
  "history_tables (purge_old_resource_logs pe st) =
     map (\<lambda>(table, rows). (table, filter (\<lambda>r. \<not> expired_row pe (or_int (resource_retention_days st) 30) table r) rows)) (history_tables st)"
  by (simp add: purge_old_resource_logs_def Let_def purge_loop_eq)

end
