(* ===== verification/Ssh_Client.thy ===== *)
theory Ssh_Client
  imports Host_Watch
begin

text \<open>
  The SSH client (\<open>host_health/ssh_client.py\<close>): which hosts this server may reach, how a host's connection is derived from the
  settings, the pool of open connections with pinned host keys, and one poll of one host with its single retry. Paramiko and the
  collector's run are answers of the network, given per attempt.
\<close>

record ssh_error =
  se_kind :: string
  se_message :: string
  se_scope :: string

definition host_error :: "string \<Rightarrow> string \<Rightarrow> ssh_error" where
  "host_error kind message = \<lparr>se_kind = kind, se_message = message, se_scope = ''host''\<rparr>"

record target =
  tg_name :: string
  tg_hostname :: string
  tg_port :: int
  tg_username :: string
  tg_pinned_key :: "string option"
  tg_pin_scope :: string
  tg_bench_path :: string
  tg_services :: "expected_service list"
  tg_connect_timeout :: int
  tg_command_timeout :: int
  tg_slow :: bool

definition RECONNECT_AFTER_SECONDS :: rat where "RECONNECT_AFTER_SECONDS = 3600"
definition MAX_OUTPUT_BYTES :: int where "MAX_OUTPUT_BYTES = 4 * 1024 * 1024"

subsection \<open>Which hosts may be reached\<close>

text \<open>The value of \<open>pulse_ssh_roles\<close> in \<open>site_config.json\<close>.\<close>

datatype conf_roles = NoRoles | RoleText string | RoleList "string list"

definition allowed_roles :: "conf_roles \<Rightarrow> string list option" where
  "allowed_roles conf =
     (case conf of
        NoRoles \<Rightarrow> None
      | RoleText s \<Rightarrow> if s = [] then None else Some (filter (\<lambda>r. r \<noteq> []) (map py_strip (py_split (CHR '','') s)))
      | RoleList rs \<Rightarrow> if rs = [] then None else Some (filter (\<lambda>r. r \<noteq> []) rs))"

definition check_role_allowed :: "conf_roles \<Rightarrow> string \<Rightarrow> 'a host_db_scheme \<Rightarrow> ssh_error option" where
  "check_role_allowed conf host st =
     (case allowed_roles conf of
        None \<Rightarrow> None
      | Some [] \<Rightarrow> None
      | Some allowed \<Rightarrow>
          (let role = get_host_role host st
           in if (\<exists>r \<in> set allowed. role = Some r) then None
              else Some (host_error ''config'' (''This server only polls hosts of role '' @ py_join '', '' allowed @ ''; this host is '' @
                (if truthy role then opt_str role else ''unknown'') @ '' (pulse_ssh_roles in this server's site_config.json).''))))"

definition warpgate_target_name :: "monitored_host \<Rightarrow> ssh_settings \<Rightarrow> string" where
  "warpgate_target_name h cfg =
     (let custom = py_strip (opt_str (mh_ssh_target h))
      in if custom \<noteq> [] then custom
         else if (if truthy (ssh_target_naming cfg) then opt_str (ssh_target_naming cfg) else ''Hostname'') = ''Hostname'' then py_strip (opt_str (mh_hostname h))
         else [])"

definition warpgate_mode :: "ssh_settings \<Rightarrow> bool" where
  "warpgate_mode cfg \<longleftrightarrow> (if truthy (ssh_connection_mode cfg) then opt_str (ssh_connection_mode cfg) else ''Warpgate'') = ''Warpgate''"

definition guest_ip :: "monitored_host \<Rightarrow> 'a host_db_scheme \<Rightarrow> string" where
  "guest_ip h st =
     (if truthy (mh_proxmox_guest h)
      then (case find_row g_name (opt_str (mh_proxmox_guest h)) (guests st) of None \<Rightarrow> [] | Some g \<Rightarrow> py_strip (opt_str (g_ip_address g))) else [])"

text \<open>The name or address to log in to; the two ways of reaching a host.\<close>

definition target_address :: "monitored_host \<Rightarrow> 'a host_db_scheme \<Rightarrow> ssh_error + string" where
  "target_address h st =
     (let cfg = ssh_settings st
      in if warpgate_mode cfg then
           (let t = warpgate_target_name h cfg
            in if t = [] then Inl (host_error ''config'' ''No Warpgate target for this host: type one in its SSH Access section, or give it a hostname and use the Hostname naming in SSH Settings.'')
               else if list_ex py_space t \<or> CHR '':'' \<in> set t
               then Inl (host_error ''config'' (CHR 0x27 # t @ CHR 0x27 # '' cannot be a Warpgate target (no spaces or colons); set a different one on the host.''))
               else Inr t)
         else
           (let typed = py_strip (opt_str (mh_ssh_target h)); t = (if typed \<noteq> [] then typed else guest_ip h st)
            in if t = [] then Inl (host_error ''config'' ''No SSH target: set one on the host or wait for the guest IP to be learned.'') else Inr t))"

definition first_text :: "string option \<Rightarrow> string option \<Rightarrow> string" where
  "first_text a b = py_strip (if truthy a then opt_str a else opt_str b)"

definition pinned :: "string \<Rightarrow> string option" where
  "pinned k = (if k = [] then None else Some k)"

text \<open>\<open>Inl None\<close>: an exception of another kind, here a host that does not exist.\<close>

definition resolve_target :: "conf_roles \<Rightarrow> string \<Rightarrow> 'a host_db_scheme \<Rightarrow> ssh_error option + target" where
  "resolve_target conf host st =
     (case check_role_allowed conf host st of
        Some err \<Rightarrow> Inl (Some err)
      | None \<Rightarrow>
          (case find_row mh_name host (monitored_hosts st) of
             None \<Rightarrow> Inl None
           | Some h \<Rightarrow>
               (case target_address h st of
                  Inl err \<Rightarrow> Inl (Some err)
                | Inr t \<Rightarrow>
                    (let cfg = ssh_settings st;
                         services = (if mh_expected_services h = [] then hm_default_expected_services (host_monitor_settings st) else mh_expected_services h);
                         path = first_text (mh_bench_path h) (ssh_default_bench_path cfg);
                         connect = or_int (ssh_connect_timeout cfg) 20; command = or_int (ssh_command_timeout cfg) 60
                     in if warpgate_mode cfg then
                          (if \<not> (truthy (ssh_server_host cfg) \<and> truthy (ssh_warpgate_user cfg))
                           then Inl (Some (host_error ''config'' ''Warpgate host and user are not set in SSH Settings.''))
                           else Inr \<lparr>tg_name = host, tg_hostname = opt_str (ssh_server_host cfg), tg_port = or_int (ssh_server_port cfg) 2222,
                                     tg_username = opt_str (ssh_warpgate_user cfg) @ '':'' @ t, tg_pinned_key = pinned (ssh_server_host_key cfg), tg_pin_scope = ''settings'',
                                     tg_bench_path = path, tg_services = services, tg_connect_timeout = connect, tg_command_timeout = command, tg_slow = False\<rparr>)
                        else Inr \<lparr>tg_name = host, tg_hostname = t, tg_port = or_int (mh_ssh_port h) 22,
                                  tg_username = first_text (mh_ssh_user h) (ssh_default_user cfg), tg_pinned_key = pinned (mh_pinned_host_key h), tg_pin_scope = ''host'',
                                  tg_bench_path = path, tg_services = services, tg_connect_timeout = connect, tg_command_timeout = command, tg_slow = False\<rparr>))))"

subsection \<open>Connections\<close>

text \<open>What paramiko raises: a refused login, a time-out, another operating system or SSH error (with the name of its class), an end of
  file, and anything else.\<close>

datatype link_failure = AuthErr | TimeoutErr string | OsErr string | SshErr string | EofErr | OtherErr

text \<open>An attempt to connect: the server presents its key, after which the login may fail; or it fails before.\<close>

datatype connect_answer = HostKey string "link_failure option" | NoKey link_failure

text \<open>A run of the collector: its exit status, output and error text, or a failure of the session.\<close>

datatype exec_answer = Ran int string string | Broke link_failure

record ssh_net =
  nt_now :: rat
  nt_connect :: "nat \<Rightarrow> target \<Rightarrow> connect_answer"
  nt_active :: "nat \<Rightarrow> bool"
  nt_exec :: "nat \<Rightarrow> target \<Rightarrow> exec_answer"

text \<open>An open connection with the key its server presented and when it was made. \<open>contacts\<close> lists the connections tried and \<open>runs\<close> the
  collector runs, each with the key of the server it ran on, in order.\<close>

record client =
  cl_key :: string
  cl_born :: rat

record ssh_state =
  pool :: "string \<Rightarrow> client option"
  contacts :: "(string \<times> string \<times> string) list"
  runs :: "(string \<times> string) list"

datatype 'r outcome = Done 'r | Poll_Error ssh_error | Raised link_failure

definition connect_scope :: "target \<Rightarrow> string" where
  "connect_scope t = (if tg_pin_scope t = ''settings'' then ''bastion'' else ''host'')"

definition connect_error :: "target \<Rightarrow> link_failure \<Rightarrow> 'r outcome" where
  "connect_error t f =
     (case f of
        AuthErr \<Rightarrow> Poll_Error (host_error ''auth'' ''SSH authentication was refused.'')
      | TimeoutErr n \<Rightarrow> Poll_Error \<lparr>se_kind = ''timeout'', se_message = ''Could not connect to '' @ tg_hostname t @ '':'' @ show_int (tg_port t) @ '' ('' @ n @ '').'', se_scope = connect_scope t\<rparr>
      | OsErr n \<Rightarrow> Poll_Error \<lparr>se_kind = ''refused'', se_message = ''Could not connect to '' @ tg_hostname t @ '':'' @ show_int (tg_port t) @ '' ('' @ n @ '').'', se_scope = connect_scope t\<rparr>
      | SshErr n \<Rightarrow> Poll_Error \<lparr>se_kind = ''refused'', se_message = ''SSH negotiation failed ('' @ n @ '').'', se_scope = connect_scope t\<rparr>
      | _ \<Rightarrow> Raised f)"

definition connect :: "ssh_net \<Rightarrow> target \<Rightarrow> ssh_state \<Rightarrow> (client \<times> string option) outcome \<times> ssh_state" where
  "connect net t st =
     (let st1 = st\<lparr>contacts := contacts st @ [(tg_name t, tg_hostname t, tg_username t)]\<rparr>
      in case nt_connect net (length (contacts st)) t of
           NoKey f \<Rightarrow> (connect_error t f, st1)
         | HostKey k after \<Rightarrow>
             if tg_pinned_key t \<noteq> None \<and> tg_pinned_key t \<noteq> Some k
             then (Poll_Error \<lparr>se_kind = ''hostkey'', se_message = ''host key for '' @ tg_hostname t @ '' does not match the pinned key'', se_scope = connect_scope t\<rparr>, st1)
             else (case after of
                     Some f \<Rightarrow> (connect_error t f, st1)
                   | None \<Rightarrow> (Done (\<lparr>cl_key = k, cl_born = nt_now net\<rparr>, if tg_pinned_key t = None then Some k else None), st1)))"

definition usable_client :: "ssh_net \<Rightarrow> string \<Rightarrow> ssh_state \<Rightarrow> bool" where
  "usable_client net n st \<longleftrightarrow>
     (case pool st n of None \<Rightarrow> False | Some c \<Rightarrow> nt_active net (length (runs st)) \<and> nt_now net - cl_born c < RECONNECT_AFTER_SECONDS)"

definition get_client :: "ssh_net \<Rightarrow> target \<Rightarrow> ssh_state \<Rightarrow> (client \<times> string option) outcome \<times> ssh_state" where
  "get_client net t st =
     (if usable_client net (tg_name t) st then (Done (the (pool st (tg_name t)), None), st)
      else case connect net t st of
             (Done (c, k), st1) \<Rightarrow> (Done (c, k), st1\<lparr>pool := (pool st1)(tg_name t \<mapsto> c)\<rparr>)
           | (r, st1) \<Rightarrow> (r, st1))"

definition drop_connection :: "string \<Rightarrow> ssh_state \<Rightarrow> ssh_state" where
  "drop_connection n st = st\<lparr>pool := (pool st)(n := None)\<rparr>"

definition exec_collector :: "(string \<Rightarrow> 'r option) \<Rightarrow> ssh_net \<Rightarrow> client \<Rightarrow> target \<Rightarrow> ssh_state \<Rightarrow> 'r outcome \<times> ssh_state" where
  "exec_collector json net c t st =
     (let st1 = st\<lparr>runs := runs st @ [(tg_name t, cl_key c)]\<rparr>
      in case nt_exec net (length (runs st)) t of
           Broke f \<Rightarrow> (Raised f, st1)
         | Ran code raw err \<Rightarrow>
             (if int (length raw) > MAX_OUTPUT_BYTES then Poll_Error (host_error ''collector'' ''Collector output was larger than the allowed size.'')
              else if code \<noteq> 0 \<or> raw = []
              then Poll_Error (host_error ''collector'' (''Collector exited with status '' @ show_int code @ '': '' @ (if take 300 err = [] then ''no output'' else take 300 err)))
              else case json raw of
                     None \<Rightarrow> Poll_Error (host_error ''collector'' ''Collector returned output that is not valid JSON.'')
                   | Some r \<Rightarrow> Done r, st1))"

text \<open>Which failures of a run are taken for a stale connection. A time-out is an operating system error to Python.\<close>

definition stale_connection :: "link_failure \<Rightarrow> bool" where
  "stale_connection f \<longleftrightarrow> (case f of OtherErr \<Rightarrow> False | _ \<Rightarrow> True)"

definition try_once :: "(string \<Rightarrow> 'r option) \<Rightarrow> ssh_net \<Rightarrow> target \<Rightarrow> ssh_state \<Rightarrow> ('r \<times> string option) outcome \<times> ssh_state \<times> bool" where
  "try_once json net t st =
     (case get_client net t st of
        (Done (c, k), st1) \<Rightarrow>
          (case exec_collector json net c t st1 of
             (Done r, st2) \<Rightarrow> (Done (r, k), st2, False)
           | (Poll_Error e, st2) \<Rightarrow> (Poll_Error e, st2, False)
           | (Raised f, st2) \<Rightarrow> (Raised f, st2, stale_connection f))
      | (Poll_Error e, st1) \<Rightarrow> (Poll_Error e, st1, False)
      | (Raised f, st1) \<Rightarrow> (Raised f, st1, False))"

definition retried :: "(string \<Rightarrow> 'r option) \<Rightarrow> ssh_net \<Rightarrow> target \<Rightarrow> ssh_state \<Rightarrow> ('r \<times> string option) outcome \<times> ssh_state" where
  "retried json net t st =
     (case try_once json net t st of
        (r, st1, again) \<Rightarrow>
          if again then (case try_once json net t (drop_connection (tg_name t) st1) of (r2, st2, _) \<Rightarrow> (r2, st2)) else (r, st1))"

definition collect :: "(string \<Rightarrow> 'r option) \<Rightarrow> ssh_net \<Rightarrow> target \<Rightarrow> ssh_state \<Rightarrow> ('r \<times> string option) outcome \<times> ssh_state" where
  "collect json net t st =
     (case retried json net t st of
        (Raised f, st1) \<Rightarrow>
          (case f of
             TimeoutErr n \<Rightarrow> (Poll_Error (host_error ''timeout'' (''Timed out after '' @ show_int (tg_command_timeout t) @ ''s.'')), drop_connection (tg_name t) st1)
           | OsErr n \<Rightarrow> (Poll_Error (host_error ''refused'' (''SSH error ('' @ n @ '').'')), drop_connection (tg_name t) st1)
           | SshErr n \<Rightarrow> (Poll_Error (host_error ''refused'' (''SSH error ('' @ n @ '').'')), drop_connection (tg_name t) st1)
           | AuthErr \<Rightarrow> (Poll_Error (host_error ''refused'' ''SSH error (AuthenticationException).''), drop_connection (tg_name t) st1)
           | _ \<Rightarrow> (Raised f, st1))
      | (Poll_Error e, st1) \<Rightarrow> (Poll_Error e, drop_connection (tg_name t) st1)
      | (Done r, st1) \<Rightarrow> (Done r, st1))"

subsection \<open>One poll\<close>

text \<open>The pin of the target, as far as the pool goes: a pooled connection to it has the pinned key.\<close>

definition pool_pinned :: "target \<Rightarrow> ssh_state \<Rightarrow> bool" where
  "pool_pinned t st \<longleftrightarrow> (case (tg_pinned_key t, pool st (tg_name t)) of (Some p, Some c) \<Rightarrow> cl_key c = p | _ \<Rightarrow> True)"

lemma connect_effect:
  assumes "connect net t st = (r, st1)"
  shows "contacts st1 = contacts st @ [(tg_name t, tg_hostname t, tg_username t)] \<and> runs st1 = runs st \<and> pool st1 = pool st"
    and "r = Done (c, k) \<Longrightarrow> tg_pinned_key t = Some p \<Longrightarrow> cl_key c = p \<and> k = None"
    and "r = Done (c, k) \<Longrightarrow> tg_pinned_key t = None \<Longrightarrow> k = Some (cl_key c) \<and> cl_born c = nt_now net"
  using assms by (auto simp: connect_def connect_error_def Let_def split: connect_answer.splits option.splits link_failure.splits if_splits)

lemma exec_collector_effect:
  assumes "exec_collector json net c t st = (r, st1)"
  shows "runs st1 = runs st @ [(tg_name t, cl_key c)] \<and> contacts st1 = contacts st \<and> pool st1 = pool st"
  using assms by (auto simp: exec_collector_def Let_def split: exec_answer.splits option.splits if_splits)

text \<open>What a poll may do: at most \<open>i\<close> connections and \<open>j\<close> runs, all of them to this target, and under a pin all runs over the pinned key.\<close>

definition reached :: "target \<Rightarrow> nat \<Rightarrow> nat \<Rightarrow> ssh_state \<Rightarrow> ssh_state \<Rightarrow> bool" where
  "reached t i j st st1 \<longleftrightarrow>
     (\<exists>cs ks. contacts st1 = contacts st @ cs \<and> set cs \<subseteq> {(tg_name t, tg_hostname t, tg_username t)} \<and> length cs \<le> i \<and>
        runs st1 = runs st @ map (Pair (tg_name t)) ks \<and> length ks \<le> j \<and>
        (\<forall>p. tg_pinned_key t = Some p \<and> pool_pinned t st \<longrightarrow> set ks \<subseteq> {p})) \<and>
     (\<forall>n. n \<noteq> tg_name t \<longrightarrow> pool st1 n = pool st n) \<and> (pool_pinned t st \<longrightarrow> pool_pinned t st1)"

lemma reached_same: "reached t i j st st"
  by (auto simp: reached_def)

lemma reached_trans:
  assumes "reached t i j st st1" and "reached t i' j' st1 st2"
  shows "reached t (i + i') (j + j') st st2"
proof -
  from assms(1) obtain cs ks where 1: "contacts st1 = contacts st @ cs" "set cs \<subseteq> {(tg_name t, tg_hostname t, tg_username t)}" "length cs \<le> i"
    "runs st1 = runs st @ map (Pair (tg_name t)) ks" "length ks \<le> j" "\<And>p. tg_pinned_key t = Some p \<Longrightarrow> pool_pinned t st \<Longrightarrow> set ks \<subseteq> {p}"
    "pool_pinned t st \<Longrightarrow> pool_pinned t st1" "\<And>n. n \<noteq> tg_name t \<Longrightarrow> pool st1 n = pool st n" unfolding reached_def by blast
  from assms(2) obtain ds ls where 2: "contacts st2 = contacts st1 @ ds" "set ds \<subseteq> {(tg_name t, tg_hostname t, tg_username t)}" "length ds \<le> i'"
    "runs st2 = runs st1 @ map (Pair (tg_name t)) ls" "length ls \<le> j'" "\<And>p. tg_pinned_key t = Some p \<Longrightarrow> pool_pinned t st1 \<Longrightarrow> set ls \<subseteq> {p}"
    "pool_pinned t st1 \<Longrightarrow> pool_pinned t st2" "\<And>n. n \<noteq> tg_name t \<Longrightarrow> pool st2 n = pool st1 n" unfolding reached_def by blast
  have "contacts st2 = contacts st @ (cs @ ds)" "runs st2 = runs st @ map (Pair (tg_name t)) (ks @ ls)" using 1 2 by simp_all
  moreover have "set (cs @ ds) \<subseteq> {(tg_name t, tg_hostname t, tg_username t)}" "length (cs @ ds) \<le> i + i'" "length (ks @ ls) \<le> j + j'"
    "\<And>p. tg_pinned_key t = Some p \<Longrightarrow> pool_pinned t st \<Longrightarrow> set (ks @ ls) \<subseteq> {p}" using 1 2 by auto
  ultimately show ?thesis unfolding reached_def using 1(7,8) 2(7,8) by metis
qed

lemma reached_mono: "reached t i j st st1 \<Longrightarrow> i \<le> i' \<Longrightarrow> j \<le> j' \<Longrightarrow> reached t i' j' st st1"
  unfolding reached_def by (meson le_trans)

lemma reached_drop: "reached t 0 0 st (drop_connection (tg_name t) st)"
  by (auto simp: reached_def drop_connection_def pool_pinned_def split: option.splits)

lemma reached_connect: "connect net t st = (r, st1) \<Longrightarrow> reached t 1 0 st st1"
  using connect_effect(1) [of net t st r st1] by (auto simp: reached_def pool_pinned_def)

lemma reached_get_client:
  assumes "get_client net t st = (r, st1)"
  shows "reached t 1 0 st st1" and "r = Done (c, k) \<Longrightarrow> pool st1 (tg_name t) = Some c"
proof -
  have "reached t 1 0 st st1 \<and> (r = Done (c, k) \<longrightarrow> pool st1 (tg_name t) = Some c)"
  proof (cases "usable_client net (tg_name t) st")
    case True
    then show ?thesis using assms reached_same by (auto simp: get_client_def usable_client_def split: option.splits)
  next
    case False
    obtain q s where cn: "connect net t st = (q, s)" by (cases "connect net t st")
    note eff = connect_effect [OF cn]
    show ?thesis
    proof (cases q)
      case (Done x)
      then obtain c' k' where q: "q = Done (c', k')" by (cases x) auto
      have st1: "st1 = s\<lparr>pool := (pool s)(tg_name t \<mapsto> c')\<rparr>" "r = Done (c', k')" using assms False cn q by (simp_all add: get_client_def)
      have "pool_pinned t st1" using eff(2) [OF q] by (auto simp: pool_pinned_def st1 split: option.splits)
      then show ?thesis using eff(1) st1 by (auto simp: reached_def)
    qed (use assms False cn reached_connect in \<open>auto simp: get_client_def\<close>)
  qed
  then show "reached t 1 0 st st1" "r = Done (c, k) \<Longrightarrow> pool st1 (tg_name t) = Some c" by blast+
qed

lemma reached_exec:
  assumes "exec_collector json net c t st = (r, st1)" and "pool st (tg_name t) = Some c"
  shows "reached t 0 1 st st1"
  unfolding reached_def using exec_collector_effect [OF assms(1)] assms(2)
  by (auto simp: pool_pinned_def intro!: exI [of _ "[cl_key c]"])

lemma reached_try_once:
  assumes "try_once json net t st = (r, st2, again)"
  shows "reached t 1 1 st st2"
proof -
  obtain q st1 where g: "get_client net t st = (q, st1)" by (cases "get_client net t st")
  show ?thesis
  proof (cases q)
    case (Done x)
    then obtain c k where q: "q = Done (c, k)" by (cases x) auto
    obtain a s where e: "exec_collector json net c t st1 = (a, s)" by (cases "exec_collector json net c t st1")
    have "st2 = s" using assms g q e by (cases a) (auto simp: try_once_def)
    with reached_trans [OF reached_get_client(1) [OF g] reached_exec [OF e reached_get_client(2) [OF g q]]] show ?thesis by simp
  qed (use assms g reached_mono [OF reached_get_client(1) [OF g], of 1 1] in \<open>auto simp: try_once_def\<close>)
qed

lemma reached_retried:
  assumes "retried json net t st = (r, st2)"
  shows "reached t 2 2 st st2"
proof -
  obtain q st1 again where 1: "try_once json net t st = (q, st1, again)" by (cases "try_once json net t st") auto
  show ?thesis
  proof (cases again)
    case True
    obtain q2 s b where 2: "try_once json net t (drop_connection (tg_name t) st1) = (q2, s, b)"
      by (cases "try_once json net t (drop_connection (tg_name t) st1)") auto
    have "st2 = s" using assms 1 2 True by (simp add: retried_def)
    with reached_trans [OF reached_trans [OF reached_try_once [OF 1] reached_drop] reached_try_once [OF 2]] show ?thesis
      by (simp add: numeral_2_eq_2)
  qed (use assms 1 reached_mono [OF reached_try_once [OF 1], of 2 2] in \<open>simp add: retried_def\<close>)
qed

lemma reached_collect:
  assumes "collect json net t st = (r, st2)"
  shows "reached t 2 2 st st2"
proof -
  obtain q st1 where 1: "retried json net t st = (q, st1)" by (cases "retried json net t st")
  have "st2 = st1 \<or> st2 = drop_connection (tg_name t) st1"
    using assms 1 by (auto simp: collect_def split: outcome.splits link_failure.splits)
  then show ?thesis using reached_retried [OF 1] reached_trans [OF reached_retried [OF 1] reached_drop] by auto
qed

lemma try_once_done:
  assumes "try_once json net t st = (Done (r, k), st2, again)"
  shows "\<exists>c. pool st2 (tg_name t) = Some c \<and> (\<exists>rs. runs st2 = runs st @ rs @ [(tg_name t, cl_key c)]) \<and> (k = None \<or> tg_pinned_key t = None \<and> k = Some (cl_key c) \<and> cl_born c = nt_now net)"
proof -
  obtain c st1 where g: "get_client net t st = (Done (c, k), st1)" and e: "exec_collector json net c t st1 = (Done r, st2)"
    using assms by (auto simp: try_once_def split: prod.splits outcome.splits)
  have "k = None \<or> tg_pinned_key t = None \<and> k = Some (cl_key c) \<and> cl_born c = nt_now net"
  proof (cases "usable_client net (tg_name t) st")
    case False
    then obtain s where "connect net t st = (Done (c, k), s)" using g by (auto simp: get_client_def split: prod.splits outcome.splits)
    from connect_effect(2,3) [OF this] show ?thesis by (cases "tg_pinned_key t") auto
  qed (use g in \<open>auto simp: get_client_def\<close>)
  moreover have "runs st1 = runs st" using reached_get_client(1) [OF g] by (auto simp: reached_def)
  ultimately show ?thesis using exec_collector_effect [OF e] reached_get_client(2) [OF g] by auto
qed

lemma collect_done:
  assumes "collect json net t st = (Done (r, k), st2)"
  shows "\<exists>c. pool st2 (tg_name t) = Some c \<and> (\<exists>rs. runs st2 = runs st @ rs @ [(tg_name t, cl_key c)]) \<and> (k = None \<or> tg_pinned_key t = None \<and> k = Some (cl_key c) \<and> cl_born c = nt_now net)"
proof -
  have "retried json net t st = (Done (r, k), st2)" using assms by (auto simp: collect_def split: prod.splits outcome.splits link_failure.splits)
  then consider again where "try_once json net t st = (Done (r, k), st2, again)"
    | q st1 b again where "try_once json net t st = (q, st1, b)" "try_once json net t (drop_connection (tg_name t) st1) = (Done (r, k), st2, again)"
    by (auto simp: retried_def split: prod.splits if_splits)
  then show ?thesis
  proof cases
    case 2
    from reached_try_once [OF 2(1)] obtain rs where "runs st1 = runs st @ rs" by (auto simp: reached_def)
    with try_once_done [OF 2(2)] show ?thesis by (auto simp: drop_connection_def)
  qed (rule try_once_done)
qed

text \<open>C27: while a host key is pinned and the pooled connection to the host, if any, has that key, a poll runs the collector only on a
  server that presented the pinned key, connects at most twice and only to this target, touches no other host's connection, and
  keeps the pool as it was in this respect; a report comes with no new key to pin. Without a pin, the key handed back to be pinned is the
  key of the server that gave the report.\<close>

theorem poll_respects_pin:
  assumes c: "collect json net t st = (res, st')" and "pool_pinned t st"
  shows "pool_pinned t st' \<and> (\<forall>n. n \<noteq> tg_name t \<longrightarrow> pool st' n = pool st n) \<and>
    (\<exists>cs ks. contacts st' = contacts st @ cs \<and> set cs \<subseteq> {(tg_name t, tg_hostname t, tg_username t)} \<and> length cs \<le> 2 \<and>
       runs st' = runs st @ map (Pair (tg_name t)) ks \<and> length ks \<le> 2 \<and>
       (case tg_pinned_key t of
          Some p \<Rightarrow> set ks \<subseteq> {p} \<and> (\<forall>r k. res = Done (r, k) \<longrightarrow> k = None)
        | None \<Rightarrow> \<forall>r k. res = Done (r, Some k) \<longrightarrow> ks \<noteq> [] \<and> last ks = k))"
proof -
  from reached_collect [OF c] assms(2) obtain cs ks where 1: "contacts st' = contacts st @ cs" "set cs \<subseteq> {(tg_name t, tg_hostname t, tg_username t)}"
    "length cs \<le> 2" and ks: "runs st' = runs st @ map (Pair (tg_name t)) ks" "length ks \<le> 2"
    and pin: "\<And>p. tg_pinned_key t = Some p \<Longrightarrow> set ks \<subseteq> {p}" and 2: "pool_pinned t st'" "\<And>n. n \<noteq> tg_name t \<Longrightarrow> pool st' n = pool st n"
    unfolding reached_def by blast
  have "ks \<noteq> [] \<and> last ks = k" if r: "res = Done (r, Some k)" for r k
  proof -
    from collect_done [OF c [unfolded r]] obtain rs where "runs st' = runs st @ rs @ [(tg_name t, k)]" by auto
    then have "map (Pair (tg_name t)) ks = rs @ [(tg_name t, k)]" using ks(1) by simp
    then show ?thesis by (cases ks rule: rev_cases) auto
  qed
  moreover have "k = None" if "res = Done (r, k)" "tg_pinned_key t = Some p" for r k p
    using collect_done [OF c [unfolded that(1)]] that(2) by auto
  ultimately show ?thesis using 1 ks pin 2 by (intro conjI exI [of _ cs] exI [of _ ks]) (auto split: option.splits)
qed

definition blame_ok :: "target \<Rightarrow> ssh_error \<Rightarrow> bool" where
  "blame_ok t e \<longleftrightarrow> (se_scope e = ''bastion'' \<longrightarrow> tg_pin_scope t = ''settings'' \<and> se_kind e \<in> {''hostkey'', ''timeout'', ''refused''})"

lemma blame_host [simp]: "blame_ok t (host_error kind m)"
  by (simp add: blame_ok_def host_error_def)

lemma blame_connect: "connect net t st = (Poll_Error e, st1) \<Longrightarrow> blame_ok t e"
  by (auto simp: connect_def connect_error_def Let_def blame_ok_def host_error_def connect_scope_def
      split: connect_answer.splits option.splits link_failure.splits if_splits)

lemma blame_get_client: "get_client net t st = (Poll_Error e, st1) \<Longrightarrow> blame_ok t e"
  by (auto simp: get_client_def split: prod.splits outcome.splits if_splits dest: blame_connect)

lemma blame_exec: "exec_collector json net c t st = (Poll_Error e, st1) \<Longrightarrow> blame_ok t e"
  by (auto simp: exec_collector_def Let_def split: exec_answer.splits option.splits if_splits)

lemma blame_try_once: "try_once json net t st = (Poll_Error e, st1, again) \<Longrightarrow> blame_ok t e"
  by (auto simp: try_once_def split: prod.splits outcome.splits dest: blame_get_client blame_exec)

lemma blame_retried: "retried json net t st = (Poll_Error e, st1) \<Longrightarrow> blame_ok t e"
  by (auto simp: retried_def split: prod.splits if_splits dest: blame_try_once)

lemma collect_error:
  assumes "collect json net t st = (Poll_Error e, st1)"
  shows "pool st1 (tg_name t) = None \<and> blame_ok t e"
  using assms by (auto simp: collect_def drop_connection_def split: prod.splits outcome.splits link_failure.splits dest: blame_retried)

lemma changed_key_refused:
  assumes "\<not> usable_client net (tg_name t) st" and "tg_pinned_key t = Some p" and "nt_connect net (length (contacts st)) t = HostKey k a" and "k \<noteq> p"
  shows "\<exists>e st'. collect json net t st = (Poll_Error e, st') \<and> se_kind e = ''hostkey'' \<and> runs st' = runs st"
  using assms by (simp add: collect_def retried_def try_once_def get_client_def connect_def drop_connection_def Let_def)

text \<open>A poll that fails leaves no connection to the host in the pool; a server that presents another key than the pinned one is
  refused before anything runs on it; and a failure is blamed on the bastion only if the connection went there and the login was not what was refused.\<close>

theorem failed_poll_exact:
  assumes c: "collect json net t st = (res, st')"
  shows "(\<forall>e. res = Poll_Error e \<longrightarrow> pool st' (tg_name t) = None \<and>
        (se_scope e = ''bastion'' \<longrightarrow> tg_pin_scope t = ''settings'' \<and> se_kind e \<in> {''hostkey'', ''timeout'', ''refused''})) \<and>
    (\<not> usable_client net (tg_name t) st \<and> tg_pinned_key t = Some p \<and> nt_connect net (length (contacts st)) t = HostKey k a \<and> k \<noteq> p \<longrightarrow>
       (\<exists>e. res = Poll_Error e \<and> se_kind e = ''hostkey'') \<and> runs st' = runs st)"
proof -
  have "\<exists>e. res = Poll_Error e \<and> se_kind e = ''hostkey''" "runs st' = runs st"
    if "\<not> usable_client net (tg_name t) st" "tg_pinned_key t = Some p" "nt_connect net (length (contacts st)) t = HostKey k a" "k \<noteq> p"
    using changed_key_refused [OF that, of json] c by auto
  then show ?thesis using collect_error [of json net t st _ st'] c unfolding blame_ok_def by blast
qed

subsection \<open>Which host is reached how\<close>

lemma check_role_None: "check_role_allowed conf host st = None \<Longrightarrow> allowed_roles conf = Some rs \<Longrightarrow> rs \<noteq> [] \<Longrightarrow> \<exists>r \<in> set rs. get_host_role host st = Some r"
  by (auto simp: check_role_allowed_def Let_def split: list.splits if_splits)

lemma check_role_Some: "check_role_allowed conf host st = Some e \<Longrightarrow> se_kind e = ''config'' \<and> se_scope e = ''host''"
  by (auto simp: check_role_allowed_def Let_def host_error_def split: option.splits list.splits if_splits)

lemma target_address_Inl: "target_address h st = Inl e \<Longrightarrow> se_kind e = ''config'' \<and> se_scope e = ''host''"
  by (auto simp: target_address_def Let_def host_error_def split: if_splits)

lemma target_address_Inr:
  assumes "target_address h st = Inr a"
  shows "a \<noteq> []" and "warpgate_mode (ssh_settings st) \<Longrightarrow> list_all (\<lambda>c. \<not> py_space c \<and> c \<noteq> CHR '':'') a"
    and "warpgate_mode (ssh_settings st) \<Longrightarrow> a \<in> {py_strip (opt_str (mh_ssh_target h)), py_strip (opt_str (mh_hostname h))}"
    and "\<not> warpgate_mode (ssh_settings st) \<Longrightarrow> a \<in> {py_strip (opt_str (mh_ssh_target h)), guest_ip h st}"
  using assms unfolding target_address_def warpgate_target_name_def list_all_iff list_ex_iff by (auto simp: Let_def split: if_splits)

lemma opt_str_Some: "truthy s \<Longrightarrow> Some (opt_str s) = s"
  by (cases s) (simp_all add: truthy_def)

lemma resolve_target_parts:
  assumes "resolve_target conf host st = Inr t" and "find_row mh_name host (monitored_hosts st) = Some h"
  shows "check_role_allowed conf host st = None \<and> tg_name t = host \<and> (\<exists>a. target_address h st = Inr a \<and>
    (if warpgate_mode (ssh_settings st)
     then tg_pin_scope t = ''settings'' \<and> Some (tg_hostname t) = ssh_server_host (ssh_settings st) \<and> tg_username t = opt_str (ssh_warpgate_user (ssh_settings st)) @ '':'' @ a
     else tg_pin_scope t = ''host'' \<and> tg_hostname t = a))"
  using assms by (auto simp: resolve_target_def Let_def opt_str_Some split: option.splits sum.splits if_splits)

text \<open>A target is resolved only for a host whose role this server may poll, if it lists any role. Through Warpgate the name asked for is the one typed on the host or else
  its own hostname, never the address of its guest; it holds no space and no colon, so the login name has exactly the one colon that
  separates it from the Warpgate user. Otherwise it is the typed name or the guest's address. What cannot be resolved is a configuration error of the host.\<close>

theorem resolve_target_exact:
  fixes st :: "'a host_db_scheme"
  assumes h: "find_row mh_name host (monitored_hosts st) = Some h"
  shows "(\<forall>t. resolve_target conf host st = Inr t \<longrightarrow>
        tg_name t = host \<and>
        (\<forall>rs. allowed_roles conf = Some rs \<and> rs \<noteq> [] \<longrightarrow> (\<exists>r \<in> set rs. get_host_role host st = Some r)) \<and>
        (if warpgate_mode (ssh_settings st)
         then tg_pin_scope t = ''settings'' \<and> Some (tg_hostname t) = ssh_server_host (ssh_settings st) \<and>
           (\<exists>a. tg_username t = opt_str (ssh_warpgate_user (ssh_settings st)) @ '':'' @ a \<and> a \<noteq> [] \<and> list_all (\<lambda>c. \<not> py_space c \<and> c \<noteq> CHR '':'') a \<and>
              a \<in> {py_strip (opt_str (mh_ssh_target h)), py_strip (opt_str (mh_hostname h))})
         else tg_pin_scope t = ''host'' \<and> tg_hostname t \<noteq> [] \<and> tg_hostname t \<in> {py_strip (opt_str (mh_ssh_target h)), guest_ip h st})) \<and>
    (\<forall>err. resolve_target conf host st = Inl err \<longrightarrow> (\<exists>e. err = Some e \<and> se_kind e = ''config'' \<and> se_scope e = ''host''))"
proof (intro conjI allI impI)
  fix t assume t: "resolve_target conf host st = Inr t"
  from resolve_target_parts [OF t h] obtain a where a: "target_address h st = Inr a" and parts: "check_role_allowed conf host st = None" "tg_name t = host"
    "if warpgate_mode (ssh_settings st)
     then tg_pin_scope t = ''settings'' \<and> Some (tg_hostname t) = ssh_server_host (ssh_settings st) \<and> tg_username t = opt_str (ssh_warpgate_user (ssh_settings st)) @ '':'' @ a
     else tg_pin_scope t = ''host'' \<and> tg_hostname t = a" by blast
  show "tg_name t = host" by (rule parts(2))
  show "\<exists>r \<in> set rs. get_host_role host st = Some r" if "allowed_roles conf = Some rs \<and> rs \<noteq> []" for rs
    using check_role_None [OF parts(1)] that by blast
  show "if warpgate_mode (ssh_settings st)
     then tg_pin_scope t = ''settings'' \<and> Some (tg_hostname t) = ssh_server_host (ssh_settings st) \<and>
       (\<exists>a. tg_username t = opt_str (ssh_warpgate_user (ssh_settings st)) @ '':'' @ a \<and> a \<noteq> [] \<and> list_all (\<lambda>c. \<not> py_space c \<and> c \<noteq> CHR '':'') a \<and>
          a \<in> {py_strip (opt_str (mh_ssh_target h)), py_strip (opt_str (mh_hostname h))})
     else tg_pin_scope t = ''host'' \<and> tg_hostname t \<noteq> [] \<and> tg_hostname t \<in> {py_strip (opt_str (mh_ssh_target h)), guest_ip h st}"
  proof (cases "warpgate_mode (ssh_settings st)")
    case True
    then show ?thesis using parts(3) target_address_Inr [OF a] by (simp only: if_True) blast
  next
    case False
    then show ?thesis using parts(3) target_address_Inr [OF a] by simp
  qed
next
  fix err assume "resolve_target conf host st = Inl err"
  then show "\<exists>e. err = Some e \<and> se_kind e = ''config'' \<and> se_scope e = ''host''"
    using h check_role_Some [of conf host st] target_address_Inl [of h st]
    by (cases "check_role_allowed conf host st") (auto simp: resolve_target_def Let_def host_error_def split: sum.splits if_splits)
qed

subsection \<open>Demonstration\<close>

definition demo_target :: target where
  "demo_target = \<lparr>tg_name = ''web1'', tg_hostname = ''gate'', tg_port = 2222, tg_username = ''pulse:web1'', tg_pinned_key = Some ''K'', tg_pin_scope = ''settings'',
     tg_bench_path = [], tg_services = [], tg_connect_timeout = 20, tg_command_timeout = 60, tg_slow = False\<rparr>"

text \<open>The first run of the collector breaks off, the second succeeds.\<close>

definition demo_net :: "string \<Rightarrow> ssh_net" where
  "demo_net k = \<lparr>nt_now = 0, nt_connect = (\<lambda>i t. HostKey k None), nt_active = (\<lambda>i. True), nt_exec = (\<lambda>i t. if i = 0 then Broke EofErr else Ran 0 ''{}'' [])\<rparr>"

definition demo_ssh :: ssh_state where
  "demo_ssh = \<lparr>pool = (\<lambda>n. None), contacts = [], runs = []\<rparr>"

definition demo_json :: "string \<Rightarrow> nat option" where
  "demo_json raw = Some (length raw)"

lemma demo_collect:
  "collect demo_json (demo_net ''K'') demo_target demo_ssh = (Done (2, None), snd (collect demo_json (demo_net ''K'') demo_target demo_ssh))"
  "runs (snd (collect demo_json (demo_net ''K'') demo_target demo_ssh)) = [(''web1'', ''K''), (''web1'', ''K'')]"
proof -
  have "fst (collect demo_json (demo_net ''K'') demo_target demo_ssh) = Done (2, None)" by code_simp
  then show "collect demo_json (demo_net ''K'') demo_target demo_ssh = (Done (2, None), snd (collect demo_json (demo_net ''K'') demo_target demo_ssh))"
    by (metis prod.collapse)
  show "runs (snd (collect demo_json (demo_net ''K'') demo_target demo_ssh)) = [(''web1'', ''K''), (''web1'', ''K'')]" by code_simp
qed

theorem poll_respects_pin_witness:
  "\<exists>cs. contacts (snd (collect demo_json (demo_net ''K'') demo_target demo_ssh)) = contacts demo_ssh @ cs \<and> length cs \<le> 2 \<and>
     pool_pinned demo_target (snd (collect demo_json (demo_net ''K'') demo_target demo_ssh))"
proof -
  have "pool_pinned demo_target demo_ssh" by (simp add: pool_pinned_def demo_ssh_def split: option.splits)
  from poll_respects_pin [OF demo_collect(1) this] show ?thesis by blast
qed

theorem failed_poll_exact_witness:
  "\<exists>e. fst (collect demo_json (demo_net ''L'') demo_target demo_ssh) = Poll_Error e \<and> se_kind e = ''hostkey''"
proof -
  have "\<not> usable_client (demo_net ''L'') (tg_name demo_target) demo_ssh" "tg_pinned_key demo_target = Some ''K''"
    "nt_connect (demo_net ''L'') (length (contacts demo_ssh)) demo_target = HostKey ''L'' None" "''L'' \<noteq> ''K''"
    by (simp_all add: usable_client_def demo_ssh_def demo_target_def demo_net_def)
  then show ?thesis using failed_poll_exact [OF prod.collapse [symmetric], of demo_json "demo_net ''L''" demo_target demo_ssh "''K''" "''L''" None] by blast
qed

end
