(* ===== verification/Host_Status.thy ===== *)
theory Host_Status
  imports Host_Watch
begin

text \<open>
  The status half of \<open>host_health/ingest.py\<close>: what a poll of a host reports about its services, its benches
  with their workers and jobs, and its sites, turned into stored rows and alerts. A report is data from
  outside, so fields may be missing, an entry may not be a mapping (\<open>None\<close>), and a time may not parse;
  each of these raises at the place where the code reads it.
\<close>

record service_report =
  sv_unit_name :: "string option"
  sv_service_name :: "string option"
  sv_current_state :: "string option"

record failed_job_report =
  fj_rq_job_id :: "string option"
  fj_queue_name :: "string option"
  fj_job_name :: "string option"
  fj_failed_at :: "string option"
  fj_exc_info :: "string option"

record active_job_report =
  aj_rq_job_id :: "string option"
  aj_queue_name :: "string option"
  aj_job_name :: "string option"
  aj_worker_pid :: "string option"
  aj_started_at :: "string option"

record bench_report =
  bn_bench_name :: "string option"
  bn_registered_workers :: "int option"
  bn_live_worker_count :: "int option"
  bn_orphan_worker_count :: "int option"
  bn_live_worker_pids :: "int list"
  bn_queue_depths :: "(string \<times> int) list"
  bn_failed_job_count :: "int option"
  bn_failed_jobs :: "failed_job_report list"
  bn_active_jobs :: "active_job_report list"
  bn_scheduler_last_run :: "string option"

record site_report =
  sr_bench_name :: "string option"
  sr_site_name :: "string option"
  sr_site_url :: "string option"

record status_report =
  rp_reported_at :: string
  rp_services :: "service_report option list option"
  rp_benches :: "bench_report option list option"
  rp_sites :: "site_report list option"

text \<open>The tables a report is written to. Jobs are keyed by their queue id, which the table declares unique.\<close>

record worker_health =
  wh_monitored_host :: string
  wh_bench_name :: string
  wh_timestamp :: datetime
  wh_registered_workers :: int
  wh_live_worker_count :: int
  wh_orphan_worker_count :: int
  wh_orphan_critical_streak :: int
  wh_live_worker_pids :: "int list"
  wh_queue_depths :: "(string \<times> int) list"
  wh_failed_job_count :: int
  wh_failed_job_critical_streak :: int
  wh_active_job_count :: int
  wh_long_running_job_count :: int
  wh_long_running_job_critical_streak :: int

record failed_job_log =
  fl_rq_job_id :: string
  fl_monitored_host :: string
  fl_bench_name :: string
  fl_queue_name :: "string option"
  fl_job_name :: "string option"
  fl_failed_at :: "datetime option"
  fl_first_seen :: datetime
  fl_last_seen :: datetime
  fl_resolved :: bool
  fl_resolved_at :: "datetime option"
  fl_exc_info :: "string option"
  fl_exc_type :: string
  fl_failure_signature :: string

record active_job =
  ac_rq_job_id :: string
  ac_monitored_host :: string
  ac_bench_name :: string
  ac_queue_name :: "string option"
  ac_job_name :: "string option"
  ac_worker_pid :: "string option"
  ac_started_at :: "datetime option"
  ac_last_seen :: datetime
  ac_elapsed_seconds :: int
  ac_is_long_running :: bool

record status_db = host_db +
  worker_healths :: "worker_health list"
  failed_job_logs :: "failed_job_log list"
  active_jobs :: "active_job list"

text \<open>From outside: the clock and channels, Frappe's reading of a time stamp (the time and whether it carries a
  zone, or an exception), the conversion of a zoned time, the digest function, and the random name of a new row.\<close>

record report_env =
  re_poll_env :: poll_env
  re_get_datetime :: "string \<Rightarrow> (datetime \<times> bool) option"
  re_to_system_zone :: "datetime \<Rightarrow> datetime"
  re_sha256 :: "string \<Rightarrow> string"
  re_new_name :: "string list \<Rightarrow> string"

definition DEFAULT_ORPHAN_WORKER_CRITICAL_THRESHOLD :: int where "DEFAULT_ORPHAN_WORKER_CRITICAL_THRESHOLD = 3"
definition DEFAULT_FAILED_JOB_CRITICAL_THRESHOLD :: int where "DEFAULT_FAILED_JOB_CRITICAL_THRESHOLD = 20"
definition DEFAULT_LONG_RUNNING_JOB_CRITICAL_THRESHOLD_SECONDS :: int where
  "DEFAULT_LONG_RUNNING_JOB_CRITICAL_THRESHOLD_SECONDS = 1800"

text \<open>\<open>None\<close> when the text does not parse, which raises; an empty value is no time.\<close>

definition parse_remote_timestamp :: "report_env \<Rightarrow> string option \<Rightarrow> datetime option option" where
  "parse_remote_timestamp re v =
     (if \<not> truthy v then Some None
      else case re_get_datetime re (opt_str v) of
             None \<Rightarrow> None
           | Some (t, aware) \<Rightarrow> Some (Some (if aware then re_to_system_zone re t else t)))"

subsection \<open>Services\<close>

definition SERVICE_STATES :: "string list" where
  "SERVICE_STATES = [''active'', ''inactive'', ''failed'', ''activating'', ''deactivating'', ''unknown'']"

definition service_state :: "service_report \<Rightarrow> string" where
  "service_state row =
     (let s = (if truthy (sv_current_state row) then opt_str (sv_current_state row) else ''unknown'')
      in if s \<in> set SERVICE_STATES then s else ''unknown'')"

definition find_service :: "string \<Rightarrow> string \<Rightarrow> 'a host_db_scheme \<Rightarrow> service_status option" where
  "find_service host service st = find (\<lambda>s. ss_monitored_host s = host \<and> ss_service_name s = service) (service_statuses st)"

definition quoted :: "string \<Rightarrow> string" where
  "quoted s = [CHR 0x27] @ s @ [CHR 0x27]"

definition used_names :: "string list \<Rightarrow> 'a alert_db_scheme \<Rightarrow> string list" where
  "used_names ns st = ns @ map reference_name (alert_log st)"

definition service_of :: "service_report \<Rightarrow> string" where
  "service_of row = (if truthy (sv_service_name row) then opt_str (sv_service_name row) else opt_str (sv_unit_name row))"

text \<open>The row as it is stored: a new one under a new name, or the one of the service with its streak carried on.\<close>

definition service_doc :: "report_env \<Rightarrow> string \<Rightarrow> int \<Rightarrow> service_report \<Rightarrow> 'a host_db_scheme \<Rightarrow> service_status" where
  "service_doc re host checks row st =
     (let service = service_of row; state = service_state row; now = clock (re_poll_env re); existing = find_service host service st;
          prior = (case existing of None \<Rightarrow> 0 | Some s \<Rightarrow> opt_int (ss_down_streak s));
          streak = (if state \<noteq> ''active'' then prior + 1 else 0)
      in \<lparr>ss_name = (case existing of None \<Rightarrow> re_new_name re (used_names (map ss_name (service_statuses st)) st) | Some s \<Rightarrow> ss_name s),
          ss_monitored_host = host, ss_service_name = service, ss_unit_name = opt_str (sv_unit_name row), ss_current_state = state,
          ss_is_down = (streak \<ge> checks), ss_down_streak = Some streak, ss_last_checked = now,
          ss_last_state_change = (case existing of None \<Rightarrow> now | Some s \<Rightarrow> if ss_current_state s \<noteq> state then now else ss_last_state_change s)\<rparr>)"

definition service_was_down :: "string \<Rightarrow> service_report \<Rightarrow> 'a host_db_scheme \<Rightarrow> bool" where
  "service_was_down host row st = (case find_service host (service_of row) st of None \<Rightarrow> False | Some s \<Rightarrow> ss_is_down s)"

definition upsert_service :: "report_env \<Rightarrow> string \<Rightarrow> int \<Rightarrow> bool \<Rightarrow> service_report option \<Rightarrow> 'a host_db_scheme \<Rightarrow> bool \<times> 'a host_db_scheme" where
  "upsert_service re host checks notify_global entry st =
     (case entry of
        None \<Rightarrow> (False, st)
      | Some row \<Rightarrow>
          if \<not> truthy (sv_unit_name row) then (False, st)
          else
            (let doc = service_doc re host checks row st
             in (True, handle_transition (base_env (re_poll_env re)) (service_was_down host row st) (ss_is_down doc)
                   ''Service Status Log'' (ss_name doc) ''Service Down''
                   (host @ '': service '' @ quoted (ss_service_name doc) @ '' is down ('' @ ss_current_state doc @ '').'')
                   (Some (host @ '': service '' @ quoted (ss_service_name doc) @ '' is back up.'')) notify_global
                   (st\<lparr>service_statuses := put_row ss_name doc (service_statuses st)\<rparr>))))"

subsection \<open>Failed jobs\<close>

definition line_end :: "char \<Rightarrow> bool" where
  "line_end c \<longleftrightarrow> c \<in> {CHR 0x0A, CHR 0x0B, CHR 0x0C, CHR 0x0D, CHR 0x1C, CHR 0x1D, CHR 0x1E}"

fun split_on :: "(char \<Rightarrow> bool) \<Rightarrow> string \<Rightarrow> string list" where
  "split_on P [] = [[]]"
| "split_on P (c # cs) = (if P c then [] # split_on P cs else (c # hd (split_on P cs)) # tl (split_on P cs))"

definition parse_exc_type :: "string option \<Rightarrow> string" where
  "parse_exc_type exc_info =
     (case filter (\<lambda>l. l \<noteq> []) (map py_strip (rev (split_on line_end (opt_str exc_info)))) of
        [] \<Rightarrow> ''Unknown''
      | l # _ \<Rightarrow>
          let name = py_strip (takeWhile (\<lambda>c. c \<noteq> CHR '':'') l)
          in if name \<noteq> [] \<and> CHR '' '' \<notin> set name then name else ''Unknown'')"

definition failure_signature :: "report_env \<Rightarrow> string \<Rightarrow> string option \<Rightarrow> string" where
  "failure_signature re exc_type job_name =
     take 16 (re_sha256 re (exc_type @ ''::'' @ (if truthy job_name then opt_str job_name else ''unknown'')))"

definition failed_job_row :: "report_env \<Rightarrow> string \<Rightarrow> string \<Rightarrow> failed_job_report \<Rightarrow> datetime option \<Rightarrow> 'a status_db_scheme \<Rightarrow> failed_job_log" where
  "failed_job_row re host bench job failed_at st =
     (let i = opt_str (fj_rq_job_id job); now = clock (re_poll_env re); exc_type = parse_exc_type (fj_exc_info job)
      in \<lparr>fl_rq_job_id = i, fl_monitored_host = host, fl_bench_name = bench, fl_queue_name = fj_queue_name job,
          fl_job_name = fj_job_name job, fl_failed_at = failed_at,
          fl_first_seen = (case find_row fl_rq_job_id i (failed_job_logs st) of None \<Rightarrow> now | Some r \<Rightarrow> fl_first_seen r), fl_last_seen = now,
          fl_resolved = False, fl_resolved_at = None, fl_exc_info = fj_exc_info job, fl_exc_type = exc_type,
          fl_failure_signature = failure_signature re exc_type (fj_job_name job)\<rparr>)"

text \<open>The id of the job, or \<open>None\<close> inside when it has none; \<open>None\<close> outside when a time does not parse.\<close>

definition upsert_failed_job ::
    "report_env \<Rightarrow> string \<Rightarrow> string \<Rightarrow> failed_job_report \<Rightarrow> 'a status_db_scheme \<Rightarrow> string option option \<times> 'a status_db_scheme" where
  "upsert_failed_job re host bench job st =
     (if \<not> truthy (fj_rq_job_id job) then (Some None, st)
      else case parse_remote_timestamp re (fj_failed_at job) of
             None \<Rightarrow> (None, st)
           | Some failed_at \<Rightarrow>
               (Some (fj_rq_job_id job),
                st\<lparr>failed_job_logs := put_row fl_rq_job_id (failed_job_row re host bench job failed_at st) (failed_job_logs st)\<rparr>))"

definition resolve_missing_failed_jobs :: "report_env \<Rightarrow> string \<Rightarrow> string \<Rightarrow> string list \<Rightarrow> 'a status_db_scheme \<Rightarrow> 'a status_db_scheme" where
  "resolve_missing_failed_jobs re host bench seen st =
     st\<lparr>failed_job_logs := map (\<lambda>r. if fl_monitored_host r = host \<and> fl_bench_name r = bench \<and> \<not> fl_resolved r \<and> fl_rq_job_id r \<notin> set seen
        then r\<lparr>fl_resolved := True, fl_resolved_at := Some (clock (re_poll_env re))\<rparr> else r) (failed_job_logs st)\<rparr>"

subsection \<open>Active jobs\<close>

text \<open>Python's \<open>int\<close> of a number of seconds cuts towards zero.\<close>

definition whole_seconds :: "timedelta \<Rightarrow> int" where
  "whole_seconds d = (if d \<ge> 0 then d div SECOND else - ((- d) div SECOND))"

definition elapsed_seconds :: "report_env \<Rightarrow> datetime option \<Rightarrow> int" where
  "elapsed_seconds re started_at = (case started_at of None \<Rightarrow> 0 | Some t \<Rightarrow> whole_seconds (clock (re_poll_env re) - t))"

definition active_job_row :: "report_env \<Rightarrow> string \<Rightarrow> string \<Rightarrow> int \<Rightarrow> active_job_report \<Rightarrow> datetime option \<Rightarrow> active_job" where
  "active_job_row re host bench long_running_threshold job started_at =
     \<lparr>ac_rq_job_id = opt_str (aj_rq_job_id job), ac_monitored_host = host, ac_bench_name = bench, ac_queue_name = aj_queue_name job,
      ac_job_name = aj_job_name job, ac_worker_pid = aj_worker_pid job, ac_started_at = started_at, ac_last_seen = clock (re_poll_env re),
      ac_elapsed_seconds = elapsed_seconds re started_at, ac_is_long_running = (elapsed_seconds re started_at \<ge> long_running_threshold)\<rparr>"

definition upsert_active_job ::
    "report_env \<Rightarrow> string \<Rightarrow> string \<Rightarrow> int \<Rightarrow> active_job_report \<Rightarrow> 'a status_db_scheme \<Rightarrow> (string \<times> bool) option option \<times> 'a status_db_scheme" where
  "upsert_active_job re host bench long_running_threshold job st =
     (if \<not> truthy (aj_rq_job_id job) then (Some None, st)
      else case parse_remote_timestamp re (aj_started_at job) of
             None \<Rightarrow> (None, st)
           | Some started_at \<Rightarrow>
               (let r = active_job_row re host bench long_running_threshold job started_at
                in (Some (Some (ac_rq_job_id r, ac_is_long_running r)), st\<lparr>active_jobs := put_row ac_rq_job_id r (active_jobs st)\<rparr>)))"

definition delete_stale_active_jobs :: "string \<Rightarrow> string \<Rightarrow> string list \<Rightarrow> 'a status_db_scheme \<Rightarrow> 'a status_db_scheme" where
  "delete_stale_active_jobs host bench seen st =
     st\<lparr>active_jobs := filter (\<lambda>r. \<not> (ac_monitored_host r = host \<and> ac_bench_name r = bench \<and> ac_rq_job_id r \<notin> set seen)) (active_jobs st)\<rparr>"

text \<open>The loops over the jobs of a bench: an exception ends them with what was written so far.\<close>

fun gather :: "('j \<Rightarrow> 's \<Rightarrow> 'b option option \<times> 's) \<Rightarrow> 'j list \<Rightarrow> 's \<Rightarrow> 'b list option \<times> 's" where
  "gather f [] st = (Some [], st)"
| "gather f (j # js) st =
     (case f j st of
        (None, st1) \<Rightarrow> (None, st1)
      | (Some x, st1) \<Rightarrow>
          (case gather f js st1 of
             (None, st2) \<Rightarrow> (None, st2)
           | (Some xs, st2) \<Rightarrow> (Some ((case x of None \<Rightarrow> [] | Some b \<Rightarrow> [b]) @ xs), st2)))"

subsection \<open>Benches\<close>

fun newest_by :: "('r \<Rightarrow> int) \<Rightarrow> 'r option \<Rightarrow> 'r list \<Rightarrow> 'r option" where
  "newest_by key best [] = best"
| "newest_by key best (r # rs) =
     newest_by key (case best of None \<Rightarrow> Some r | Some b \<Rightarrow> if key b \<le> key r then Some r else Some b) rs"

definition prior_health :: "string \<Rightarrow> string \<Rightarrow> 'a status_db_scheme \<Rightarrow> worker_health option" where
  "prior_health host bench st =
     newest_by wh_timestamp None (filter (\<lambda>w. wh_monitored_host w = host \<and> wh_bench_name w = bench) (worker_healths st))"

record bench_result =
  br_orphan_streak :: int
  br_failed_job_streak :: int
  br_long_running_streak :: int
  br_scheduler_last_run :: "string option"

record bench_limits =
  bl_orphan :: int
  bl_failed :: int
  bl_long_running_seconds :: int

definition next_streak :: "int \<Rightarrow> bool \<Rightarrow> int" where
  "next_streak prior over = (if over then prior + 1 else 0)"

definition failed_count :: "bench_report \<Rightarrow> int" where
  "failed_count row = (case bn_failed_job_count row of Some n \<Rightarrow> n | None \<Rightarrow> int (length (bn_failed_jobs row)))"

definition process_bench ::
    "report_env \<Rightarrow> string \<Rightarrow> bench_limits \<Rightarrow> bench_report option \<Rightarrow> 'a status_db_scheme \<Rightarrow> bench_result option \<times> 'a status_db_scheme" where
  "process_bench re host lims entry st =
     (case entry of
        None \<Rightarrow> (None, st)
      | Some row \<Rightarrow>
          if \<not> truthy (bn_bench_name row) then (None, st)
          else
            (let bench = opt_str (bn_bench_name row); prior = prior_health host bench st;
                 orphan_streak = next_streak (case prior of None \<Rightarrow> 0 | Some w \<Rightarrow> wh_orphan_critical_streak w)
                                   (opt_int (bn_orphan_worker_count row) \<ge> bl_orphan lims);
                 failed_streak = next_streak (case prior of None \<Rightarrow> 0 | Some w \<Rightarrow> wh_failed_job_critical_streak w)
                                   (failed_count row \<ge> bl_failed lims)
             in case gather (upsert_active_job re host bench (bl_long_running_seconds lims)) (bn_active_jobs row) st of
                  (None, st1) \<Rightarrow> (None, st1)
                | (Some active, st1) \<Rightarrow>
                    (let st2 = delete_stale_active_jobs host bench (map fst active) st1;
                         long_count = int (length (filter snd active));
                         long_streak = next_streak (case prior of None \<Rightarrow> 0 | Some w \<Rightarrow> wh_long_running_job_critical_streak w) (long_count > 0);
                         st3 = st2\<lparr>worker_healths := worker_healths st2 @
                           [\<lparr>wh_monitored_host = host, wh_bench_name = bench, wh_timestamp = clock (re_poll_env re),
                             wh_registered_workers = opt_int (bn_registered_workers row), wh_live_worker_count = opt_int (bn_live_worker_count row),
                             wh_orphan_worker_count = opt_int (bn_orphan_worker_count row), wh_orphan_critical_streak = orphan_streak,
                             wh_live_worker_pids = bn_live_worker_pids row, wh_queue_depths = bn_queue_depths row,
                             wh_failed_job_count = failed_count row, wh_failed_job_critical_streak = failed_streak,
                             wh_active_job_count = int (length (bn_active_jobs row)), wh_long_running_job_count = long_count,
                             wh_long_running_job_critical_streak = long_streak\<rparr>]\<rparr>
                     in case gather (upsert_failed_job re host bench) (bn_failed_jobs row) st3 of
                          (None, st4) \<Rightarrow> (None, st4)
                        | (Some seen, st4) \<Rightarrow>
                            (Some \<lparr>br_orphan_streak = orphan_streak, br_failed_job_streak = failed_streak, br_long_running_streak = long_streak,
                                   br_scheduler_last_run = bn_scheduler_last_run row\<rparr>,
                             resolve_missing_failed_jobs re host bench seen st4))))"

subsection \<open>The report\<close>

text \<open>A loop that skips the rows that raise: the results, how many were skipped, and the state.\<close>

fun each_row :: "string \<Rightarrow> ('r \<Rightarrow> 'a alert_db_scheme \<Rightarrow> 'b option \<times> 'a alert_db_scheme) \<Rightarrow> 'r list \<Rightarrow> 'a alert_db_scheme \<Rightarrow> 'b list \<times> nat \<times> 'a alert_db_scheme" where
  "each_row title f [] st = ([], 0, st)"
| "each_row title f (r # rs) st =
     (case f r st of
        (Some b, st1) \<Rightarrow> (case each_row title f rs st1 of (bs, k, st2) \<Rightarrow> (b # bs, k, st2))
      | (None, st1) \<Rightarrow> (case each_row title f rs (log_error title st1) of (bs, k, st2) \<Rightarrow> (bs, Suc k, st2)))"

definition valid_site :: "site_report \<Rightarrow> hosted_site option" where
  "valid_site r = (if truthy (sr_site_name r)
     then Some \<lparr>hs_bench_name = sr_bench_name r, hs_site_name = opt_str (sr_site_name r),
                hs_site_url = (if truthy (sr_site_url r) then sr_site_url r else None)\<rparr> else None)"

definition replace_hosted_sites :: "string \<Rightarrow> site_report list \<Rightarrow> 'a host_db_scheme \<Rightarrow> nat \<times> 'a host_db_scheme" where
  "replace_hosted_sites host sites st =
     (let valid = List.map_filter valid_site sites
      in (length valid, set_host host (\<lambda>h. h\<lparr>mh_hosted_sites := valid\<rparr>) st))"

record status_result =
  sx_services_recorded :: nat
  sx_benches_recorded :: nat
  sx_sites_recorded :: nat
  sx_warnings :: "string list"

definition bench_limits_of :: "'a host_db_scheme \<Rightarrow> bench_limits" where
  "bench_limits_of st =
     (let cfg = host_monitor_settings st
      in \<lparr>bl_orphan = or_int (hm_orphan_worker_critical_threshold cfg) DEFAULT_ORPHAN_WORKER_CRITICAL_THRESHOLD,
          bl_failed = or_int (hm_failed_job_critical_threshold cfg) DEFAULT_FAILED_JOB_CRITICAL_THRESHOLD,
          bl_long_running_seconds = or_int (hm_long_running_job_critical_threshold_seconds cfg) DEFAULT_LONG_RUNNING_JOB_CRITICAL_THRESHOLD_SECONDS\<rparr>)"

definition status_checks :: "'a host_db_scheme \<Rightarrow> int" where
  "status_checks st = or_int (hm_confirmation_checks (host_monitor_settings st)) DEFAULT_CONFIRMATION_CHECKS"

text \<open>The three verdicts on the benches of a host and their alerts.\<close>

definition judge_benches :: "report_env \<Rightarrow> string \<Rightarrow> int \<Rightarrow> bool \<Rightarrow> bench_result list \<Rightarrow> monitored_host \<Rightarrow> 'a host_db_scheme \<Rightarrow> 'a host_db_scheme" where
  "judge_benches re host checks notify_global results was st =
     (let e = base_env (re_poll_env re);
          worker = list_ex (\<lambda>r. br_orphan_streak r \<ge> checks) results;
          failed = list_ex (\<lambda>r. br_failed_job_streak r \<ge> checks) results;
          running = list_ex (\<lambda>r. br_long_running_streak r \<ge> checks) results;
          st1 = set_host host (\<lambda>h. h\<lparr>mh_worker_health_critical := worker, mh_failed_job_critical := failed, mh_long_running_job_critical := running\<rparr>) st;
          st2 = handle_transition e (mh_worker_health_critical was) worker ''Monitored Host'' host ''Worker Degraded''
                  (host @ '': orphaned RQ worker count has stayed at/above the critical threshold.'')
                  (Some (host @ '': orphan worker count back to normal.'')) notify_global st1;
          st3 = handle_transition e (mh_failed_job_critical was) failed ''Monitored Host'' host ''Failed Job Threshold''
                  (host @ '': failed job count has stayed at/above the critical threshold.'')
                  (Some (host @ '': failed job count back under threshold.'')) notify_global st2
      in handle_transition e (mh_long_running_job_critical was) running ''Monitored Host'' host ''Long Running Job''
           (host @ '': a job has stayed running at/beyond the long-running threshold.'')
           (Some (host @ '': no more long-running jobs.'')) notify_global st3)"

text \<open>\<open>None\<close> when one of the times does not parse.\<close>

definition scheduler_runs :: "report_env \<Rightarrow> bench_result list \<Rightarrow> datetime list option" where
  "scheduler_runs re results =
     (let runs = map (\<lambda>r. parse_remote_timestamp re (br_scheduler_last_run r)) (filter (\<lambda>r. truthy (br_scheduler_last_run r)) results)
      in if None \<in> set runs then None else Some (List.map_filter (\<lambda>r. case r of Some (Some t) \<Rightarrow> Some t | _ \<Rightarrow> None) runs))"

definition process_benches ::
    "report_env \<Rightarrow> string \<Rightarrow> bool \<Rightarrow> bench_report option list \<Rightarrow> 'a status_db_scheme \<Rightarrow> (string + nat \<times> nat) \<times> 'a status_db_scheme" where
  "process_benches re host notify_global benches st =
     (case each_row (''Host Health: malformed bench row from '' @ host) (process_bench re host (bench_limits_of st)) benches st of
        (results, skipped, st1) \<Rightarrow>
          (case find_row mh_name host (monitored_hosts st1) of
             None \<Rightarrow> (Inl ''AttributeError'', st1)
           | Some was \<Rightarrow>
               (let st2 = judge_benches re host (status_checks st) notify_global results was st1
                in case scheduler_runs re results of
                     None \<Rightarrow> (Inl ''ParserError'', st2)
                   | Some runs \<Rightarrow>
                       (Inr (length results, skipped),
                        if runs = [] then st2 else set_host host (\<lambda>h. h\<lparr>mh_scheduler_last_run := Some (Max (set runs))\<rparr>) st2))))"

definition process_services :: "report_env \<Rightarrow> string \<Rightarrow> bool \<Rightarrow> service_report option list \<Rightarrow> 'a host_db_scheme \<Rightarrow> (nat \<times> nat) \<times> 'a host_db_scheme" where
  "process_services re host notify_global services st =
     (case each_row (''Host Health: malformed service row from '' @ host)
             (\<lambda>row s. case upsert_service re host (status_checks st) notify_global row s of (ok, s') \<Rightarrow> (if ok then Some () else None, s')) services st of
        (done_rows, skipped, st1) \<Rightarrow> ((length done_rows, skipped), st1))"

text \<open>The texts of the warnings end with the row as Python prints it, which is left out here.\<close>

definition process_status :: "report_env \<Rightarrow> string \<Rightarrow> status_report \<Rightarrow> 'a status_db_scheme \<Rightarrow> (string + status_result) \<times> 'a status_db_scheme" where
  "process_status re host rp st =
     (if re_get_datetime re (rp_reported_at rp) = None then (Inl ''reported_at is not a parseable timestamp'', st)
      else
        (let notify_global = (get_host_role host st = Some ''Production'');
             st1 = mark_seen host (clock (re_poll_env re)) st;
             sv = (case rp_services rp of None \<Rightarrow> ((0, 0), st1) | Some rows \<Rightarrow> process_services re host notify_global rows st1);
             bn = (case rp_benches rp of None \<Rightarrow> (Inr (0, 0), snd sv) | Some rows \<Rightarrow> process_benches re host notify_global rows (snd sv))
         in case fst bn of
              Inl err \<Rightarrow> (Inl err, snd bn)
            | Inr (benches_recorded, benches_skipped) \<Rightarrow>
                (let sites = (case rp_sites rp of None \<Rightarrow> (0, snd bn) | Some rows \<Rightarrow> replace_hosted_sites host rows (snd bn));
                     bad_sites = (case rp_sites rp of None \<Rightarrow> 0 | Some rows \<Rightarrow> length (filter (\<lambda>r. valid_site r = None) rows))
                 in (Inr \<lparr>sx_services_recorded = fst (fst sv), sx_benches_recorded = benches_recorded, sx_sites_recorded = fst sites,
                          sx_warnings = replicate (snd (fst sv)) ''skipped malformed service row'' @
                            replicate benches_skipped ''skipped malformed bench row'' @
                            replicate bad_sites ''skipped site row missing site_name''\<rparr>, snd sites))))"

subsection \<open>The newest row\<close>

lemma newest_by_snoc:
  "newest_by key best (rs @ [r]) = (case newest_by key best rs of None \<Rightarrow> Some r | Some b \<Rightarrow> if key b \<le> key r then Some r else Some b)"
  by (induction rs arbitrary: best) (auto split: option.splits)

lemma newest_by_mem: "newest_by key best rs = Some b \<Longrightarrow> b \<in> set rs \<or> best = Some b"
proof (induction rs arbitrary: best)
  case (Cons r rs)
  from Cons.IH [OF Cons.prems [unfolded newest_by.simps]] show ?case by (auto split: option.splits if_splits)
qed simp

lemma newest_by_last:
  assumes "\<And>r. r \<in> set rs \<Longrightarrow> key r \<le> key x"
  shows "newest_by key None (rs @ [x]) = Some x"
  using assms newest_by_mem [of key None rs] by (auto simp: newest_by_snoc split: option.splits)

subsection \<open>Alerts in step with a flag\<close>

lemma flag_transition:
  assumes "alert_inv st" and "open_alerts_of st (d, n, ty) = (if was then 1 else 0)"
  shows "open_alerts_of (handle_transition e was now d n ty m rec g st) (d, n, ty) = (if now then 1 else 0)"
  using transitions_sync [OF assms, of e "[now]" m rec g] by simp

lemma open_alerts_fresh:
  assumes "n \<notin> reference_name ` set (alert_log st)"
  shows "open_alerts_of st (d, n, ty) = 0"
  using assms by (auto simp: open_alerts_of_def open_row_def filter_empty_conv)

definition fresh_names :: "report_env \<Rightarrow> bool" where
  "fresh_names re \<longleftrightarrow> (\<forall>ns. re_new_name re ns \<notin> set ns)"

lemma fresh_used:
  assumes "fresh_names re"
  shows "re_new_name re (used_names ns st) \<notin> set ns"
    and "re_new_name re (used_names ns st) \<notin> reference_name ` set (alert_log st)"
  using assms unfolding fresh_names_def used_names_def
  by (metis Un_iff set_append, metis Un_iff set_append set_map)

subsection \<open>Services\<close>

lemma find_map_same_key:
  assumes "distinct (map key rs)" and "find P rs = Some r" and "key r' = key r" and "P r'"
  shows "find P (map (\<lambda>x. if key x = key r' then r' else x) rs) = Some r'"
  using assms
proof (induction rs)
  case (Cons x rs)
  have "r \<in> set (x # rs)" using find_mem [OF Cons.prems(2)] by simp
  with Cons show ?case by (auto split: if_splits)
qed simp

abbreviation service_key :: "string \<Rightarrow> alert_key" where
  "service_key n \<equiv> (''Service Status Log'', n, ''Service Down'')"

text \<open>A service whose last \<open>k\<close> reports were all bad, with its flag and alert in step.\<close>

definition service_at :: "string \<Rightarrow> string \<Rightarrow> int \<Rightarrow> nat \<Rightarrow> 'a host_db_scheme \<Rightarrow> bool" where
  "service_at host service checks k st \<longleftrightarrow>
     alert_inv st \<and> distinct (map ss_name (service_statuses st)) \<and>
     (case find_service host service st of
        None \<Rightarrow> k = 0
      | Some s \<Rightarrow> opt_int (ss_down_streak s) = int k \<and> ss_is_down s = (int k \<ge> checks) \<and>
          open_alerts_of st (service_key (ss_name s)) = (if ss_is_down s then 1 else 0))"

lemma service_update_alerts [simp]:
  "alert_inv (st\<lparr>service_statuses := x\<rparr>) = alert_inv st"
  "open_alerts_of (st\<lparr>service_statuses := x\<rparr>) key = open_alerts_of st key"
  "alert_log (st\<lparr>service_statuses := x\<rparr>) = alert_log st"
  by (simp_all add: alert_inv_def open_alerts_of_def)

lemma upsert_service_step:
  fixes st :: "'a host_db_scheme"
  assumes at: "service_at host service checks k st" and fresh: "fresh_names re" and pos: "0 < checks"
    and row: "truthy (sv_unit_name row)" "service_of row = service"
  shows "service_at host service checks (if service_state row = ''active'' then 0 else Suc k)
           (snd (upsert_service re host checks g (Some row) st)) \<and>
         find_service host service (snd (upsert_service re host checks g (Some row) st)) \<noteq> None"
proof -
  let ?k = "if service_state row = ''active'' then 0 else Suc k"
  let ?ex = "find_service host service st"
  let ?n = "case ?ex of None \<Rightarrow> re_new_name re (used_names (map ss_name (service_statuses st)) st) | Some s \<Rightarrow> ss_name s"
  let ?was = "case ?ex of None \<Rightarrow> False | Some s \<Rightarrow> ss_is_down s"
  have inv: "alert_inv st" and dist: "distinct (map ss_name (service_statuses st))" using at by (simp_all add: service_at_def)
  have prior: "(case ?ex of None \<Rightarrow> 0 | Some s \<Rightarrow> opt_int (ss_down_streak s)) = int k"
    using at by (auto simp: service_at_def split: option.splits)
  have sync: "open_alerts_of st (service_key ?n) = (if ?was then 1 else 0)"
    using at open_alerts_fresh [OF fresh_used(2) [OF fresh, of "map ss_name (service_statuses st)" st]]
    by (auto simp: service_at_def split: option.splits)
  define doc where "doc = service_doc re host checks row st"
  have doc: "ss_name doc = ?n" "ss_monitored_host doc = host" "ss_service_name doc = service"
      "ss_down_streak doc = Some (int ?k)" "ss_is_down doc = (int ?k \<ge> checks)"
    using row(2) prior by (auto simp: doc_def service_doc_def Let_def)
  let ?st1 = "st\<lparr>service_statuses := put_row ss_name doc (service_statuses st)\<rparr>"
  obtain m rc where res: "snd (upsert_service re host checks g (Some row) st) =
      handle_transition (base_env (re_poll_env re)) ?was (int ?k \<ge> checks) ''Service Status Log'' ?n ''Service Down'' m rc g ?st1"
  proof
    show "snd (upsert_service re host checks g (Some row) st) =
      handle_transition (base_env (re_poll_env re)) ?was (int ?k \<ge> checks) ''Service Status Log'' ?n ''Service Down''
        (host @ '': service '' @ quoted (ss_service_name doc) @ '' is down ('' @ ss_current_state doc @ '').'')
        (Some (host @ '': service '' @ quoted (ss_service_name doc) @ '' is back up.'')) g ?st1"
      using row by (simp add: upsert_service_def Let_def doc_def [symmetric] doc(1,5) service_was_down_def)
  qed
  have found: "find_service host service ?st1 = Some doc"
  proof (cases ?ex)
    case None
    have "?n \<notin> ss_name ` set (service_statuses st)" using fresh_used(1) [OF fresh, of "map ss_name (service_statuses st)" st] None by simp
    then have "put_row ss_name doc (service_statuses st) = service_statuses st @ [doc]"
      using doc(1) by (simp add: put_row_def find_row_None)
    with None doc show ?thesis by (simp add: find_service_def find_append)
  next
    case (Some s)
    then have s: "s \<in> set (service_statuses st)" by (auto simp: find_service_def find_Some_iff)
    then have "put_row ss_name doc (service_statuses st) = map (\<lambda>x. if ss_name x = ss_name doc then doc else x) (service_statuses st)"
      using Some doc(1) by (auto simp: put_row_def find_row_None)
    then show ?thesis using Some doc find_map_same_key [OF dist, of _ s doc] by (simp add: find_service_def)
  qed
  have "open_alerts_of (snd (upsert_service re host checks g (Some row) st)) (service_key ?n) = (if int ?k \<ge> checks then 1 else 0)"
    unfolding res by (rule flag_transition) (use inv sync in auto)
  moreover have "find_service host service (snd (upsert_service re host checks g (Some row) st)) = Some doc"
    using found by (simp add: res find_service_def)
  moreover have "alert_inv (snd (upsert_service re host checks g (Some row) st))"
    unfolding res by (rule handle_transition_inv) (use inv in simp)
  moreover have "distinct (map ss_name (service_statuses (snd (upsert_service re host checks g (Some row) st))))"
    by (simp add: res distinct_put_row dist)
  ultimately show ?thesis using doc unfolding service_at_def by auto
qed

text \<open>The reports on one service, poll after poll.\<close>

fun service_reports :: "string \<Rightarrow> int \<Rightarrow> bool \<Rightarrow> (report_env \<times> service_report) list \<Rightarrow> 'a host_db_scheme \<Rightarrow> 'a host_db_scheme" where
  "service_reports host checks g [] st = st"
| "service_reports host checks g ((re, row) # rs) st = service_reports host checks g rs (snd (upsert_service re host checks g (Some row) st))"

lemma service_reports_snoc:
  "service_reports host checks g (rs @ [(re, row)]) st = snd (upsert_service re host checks g (Some row) (service_reports host checks g rs st))"
  by (induction rs arbitrary: st) auto

definition bad_run :: "(report_env \<times> service_report) list \<Rightarrow> nat" where
  "bad_run rs = length (takeWhile (\<lambda>s. s \<noteq> ''active'') (rev (map (service_state \<circ> snd) rs)))"

lemma service_reports_at:
  fixes st :: "'a host_db_scheme"
  assumes "service_at host service checks 0 st" and "find_service host service st = None" and "0 < checks"
    and "list_all (\<lambda>(re, row). fresh_names re \<and> truthy (sv_unit_name row) \<and> service_of row = service) rs"
  shows "service_at host service checks (bad_run rs) (service_reports host checks g rs st) \<and>
    (rs \<noteq> [] \<longrightarrow> find_service host service (service_reports host checks g rs st) \<noteq> None)"
  using assms(4)
proof (induction rs rule: rev_induct)
  case Nil
  then show ?case using assms(1) by (simp add: bad_run_def)
next
  case (snoc x rs)
  obtain re row where x: "x = (re, row)" by (cases x)
  have "service_at host service checks (bad_run rs) (service_reports host checks g rs st)" using snoc by simp
  from upsert_service_step [OF this, of re row g] snoc.prems x assms(3)
  show ?case by (auto simp: service_reports_snoc bad_run_def)
qed

text \<open>C28: After any series of polls a service counts as down exactly when its last \<open>checks\<close> reports were all
  other than active, whatever the states before, and one Service Down alert is open for it exactly then.\<close>

theorem service_down_exact:
  fixes st :: "'a host_db_scheme"
  assumes "alert_inv st" and "distinct (map ss_name (service_statuses st))" and "find_service host service st = None"
    and "checks = int n" and "0 < n" and "rs \<noteq> []"
    and "list_all (\<lambda>(re, row). fresh_names re \<and> truthy (sv_unit_name row) \<and> service_of row = service) rs"
    and "states = map (service_state \<circ> snd) rs" and "st' = service_reports host checks g rs st"
  shows "\<exists>s. find_service host service st' = Some s \<and>
    (ss_is_down s \<longleftrightarrow> n \<le> length states \<and> list_all (\<lambda>x. x \<noteq> ''active'') (drop (length states - n) states)) \<and>
    open_alerts_of st' (service_key (ss_name s)) = (if ss_is_down s then 1 else 0)"
proof -
  have "service_at host service checks 0 st" using assms(1-3) by (simp add: service_at_def)
  from service_reports_at [OF this assms(3) _ assms(7), of g] assms(4-6,9)
  have at: "service_at host service checks (bad_run rs) st'" "find_service host service st' \<noteq> None" by auto
  have "n \<le> bad_run rs \<longleftrightarrow> n \<le> length states \<and> list_all (\<lambda>x. x \<noteq> ''active'') (drop (length states - n) states)"
    by (simp add: bad_run_def assms(8) [symmetric] le_takeWhile_iff take_rev list_all_iff)
  moreover obtain s where "find_service host service st' = Some s" using at(2) by auto
  ultimately show ?thesis using at(1) by (simp add: service_at_def assms(4))
qed

subsection \<open>Jobs\<close>

lemma put_row_key: "x \<in> set (put_row key r rs) \<Longrightarrow> key x = key r \<Longrightarrow> x = r"
proof -
  assume x: "x \<in> set (put_row key r rs)" "key x = key r"
  show "x = r"
  proof (cases "key r \<in> key ` set rs")
    case True
    then have "put_row key r rs = map (\<lambda>x. if key x = key r then r else x) rs" by (auto simp: put_row_def find_row_None)
    with x show ?thesis by (auto split: if_splits)
  next
    case False
    then have "put_row key r rs = rs @ [r]" by (simp add: put_row_def find_row_None)
    with x False show ?thesis by (auto simp: image_iff)
  qed
qed

lemma filter_put_row:
  assumes "\<not> P (key r)" shows "filter (\<lambda>x. P (key x)) (put_row key r rs) = filter (\<lambda>x. P (key x)) rs"
proof -
  have "filter (\<lambda>x. P (key x)) (map (\<lambda>x. if key x = key r then r else x) rs) = filter (\<lambda>x. P (key x)) rs"
    using assms by (induction rs) auto
  then show ?thesis using assms by (simp add: put_row_def)
qed

lemma gather_frame:
  assumes "\<And>j s. g (snd (f j s)) = g s"
  shows "g (snd (gather f js s)) = g s"
proof (induction js arbitrary: s)
  case (Cons j js)
  have "g (snd (f j s)) = g s" by (rule assms)
  then show ?case using Cons.IH [of "snd (f j s)"] by (auto split: prod.splits option.splits)
qed simp

text \<open>What the two loops over jobs share: each writes its row under the job's id, or skips a job without one.\<close>

locale job_upsert =
  fixes step :: "'j \<Rightarrow> 's \<Rightarrow> 'b option option \<times> 's" and rows :: "'s \<Rightarrow> 'r list" and key :: "'r \<Rightarrow> string"
    and id_of :: "'j \<Rightarrow> string option" and res_key :: "'b \<Rightarrow> string" and ours :: "'r \<Rightarrow> bool"
    and row_of :: "'j \<Rightarrow> 's \<Rightarrow> 'r"
  assumes raises: "step j s = (None, s') \<Longrightarrow> s' = s"
    and skips: "step j s = (Some None, s') \<Longrightarrow> s' = s \<and> \<not> truthy (id_of j)"
    and writes: "step j s = (Some (Some b), s') \<Longrightarrow>
      truthy (id_of j) \<and> res_key b = opt_str (id_of j) \<and> rows s' = put_row key (row_of j s) (rows s) \<and>
      key (row_of j s) = res_key b \<and> ours (row_of j s)"
begin

lemma gather_mirror:
  "gather step js s = (Some bs, s') \<Longrightarrow>
     res_key ` set bs = {opt_str (id_of j) |j. j \<in> set js \<and> truthy (id_of j)} \<and>
     res_key ` set bs \<subseteq> key ` set (rows s') \<and>
     (\<forall>r \<in> set (rows s'). key r \<in> res_key ` set bs \<longrightarrow> ours r) \<and>
     filter (\<lambda>r. key r \<notin> res_key ` set bs) (rows s') = filter (\<lambda>r. key r \<notin> res_key ` set bs) (rows s)"
proof (induction js arbitrary: s bs)
  case (Cons j js)
  obtain x s1 where 1: "step j s = (Some x, s1)" using Cons.prems by (auto split: prod.splits option.splits)
  obtain bs1 where 2: "gather step js s1 = (Some bs1, s')" and bs: "bs = (case x of None \<Rightarrow> [] | Some b \<Rightarrow> [b]) @ bs1"
    using Cons.prems 1 by (auto split: prod.splits option.splits)
  note IH = Cons.IH [OF 2]
  show ?case
  proof (cases x)
    case None
    then show ?thesis using IH skips [OF 1 [unfolded None]] bs by auto
  next
    case (Some b)
    from writes [OF 1 [unfolded Some]] obtain r where b: "truthy (id_of j)" "res_key b = opt_str (id_of j)"
      and r: "key r = res_key b" "ours r" "rows s1 = put_row key r (rows s)" by blast
    let ?S = "res_key ` set bs1"
    have set_bs: "res_key ` set bs = insert (res_key b) ?S" using bs Some by simp
    have F: "filter (\<lambda>r. key r \<notin> ?S) (rows s') = filter (\<lambda>r. key r \<notin> ?S) (rows s1)" using IH by blast
    then have Fs: "{r \<in> set (rows s'). key r \<notin> ?S} = {r \<in> set (rows s1). key r \<notin> ?S}" by (metis set_filter)
    have keep: "filter (\<lambda>r. key r \<notin> insert (res_key b) ?S) (rows s') = filter (\<lambda>r. key r \<notin> insert (res_key b) ?S) (rows s)"
    proof -
      have split: "filter (\<lambda>r. key r \<notin> insert (res_key b) ?S) xs = filter (\<lambda>r. key r \<noteq> res_key b) (filter (\<lambda>r. key r \<notin> ?S) xs)" for xs
        by (auto intro: filter_cong)
      from F have "filter (\<lambda>r. key r \<notin> insert (res_key b) ?S) (rows s') = filter (\<lambda>r. key r \<notin> insert (res_key b) ?S) (rows s1)"
        by (simp only: split)
      also have "\<dots> = filter (\<lambda>r. key r \<notin> insert (res_key b) ?S) (rows s)"
        using r filter_put_row [of "\<lambda>k. k \<notin> insert (res_key b) ?S" key r "rows s"] by simp
      finally show ?thesis .
    qed
    have own: "ours x" if "x \<in> set (rows s')" "key x \<in> insert (res_key b) ?S" for x
    proof (cases "key x \<in> ?S")
      case False
      with Fs that have "x \<in> set (rows s1)" by blast
      then show ?thesis using put_row_key [of x key r "rows s"] r that(2) False by auto
    qed (use IH that in blast)
    have bin: "res_key b \<in> key ` set (rows s')"
    proof (cases "res_key b \<in> ?S")
      case False
      have "r \<in> {r \<in> set (rows s1). key r \<notin> ?S}" using r False set_put_row(2) [of r key "rows s"] by simp
      then have "r \<in> set (rows s')" using Fs by blast
      then show ?thesis using r(1) by (metis imageI)
    qed (use IH in blast)
    have ids: "insert (res_key b) ?S = {opt_str (id_of i) |i. i \<in> set (j # js) \<and> truthy (id_of i)}" using IH b by auto
    have sub: "insert (res_key b) ?S \<subseteq> key ` set (rows s')" using IH bin by blast
    show ?thesis unfolding set_bs using ids sub keep own by blast
  qed
qed auto

lemma gather_keys:
  "key ` set (rows s) \<subseteq> key ` set (rows (snd (gather step js s)))"
  "distinct (map key (rows s)) \<Longrightarrow> distinct (map key (rows (snd (gather step js s))))"
proof -
  have one: "key ` set (rows s) \<subseteq> key ` set (rows (snd (step j s))) \<and>
      (distinct (map key (rows s)) \<longrightarrow> distinct (map key (rows (snd (step j s)))))" for j s
  proof -
    obtain x s1 where x: "step j s = (x, s1)" by (cases "step j s")
    consider "x = None" | "x = Some None" | b where "x = Some (Some b)" by (metis not_None_eq)
    then consider "s1 = s" | r where "rows s1 = put_row key r (rows s)"
      using x raises [of j s s1] skips [of j s s1] writes [of j s _ s1] by cases blast+
    then show ?thesis
      using x map_key_put_row [of key _ "rows s"] distinct_put_row [of key "rows s"]
      by cases (auto simp flip: set_map)
  qed
  have unfold: "snd (gather step (j # js) s) = (if fst (step j s) = None then snd (step j s) else snd (gather step js (snd (step j s))))" for j js s
    by (auto split: prod.splits option.splits)
  show "key ` set (rows s) \<subseteq> key ` set (rows (snd (gather step js s)))"
  proof (induction js arbitrary: s)
    case (Cons j js)
    have "key ` set (rows s) \<subseteq> key ` set (rows (snd (step j s)))" using one [of s j] by blast
    also have "\<dots> \<subseteq> key ` set (rows (snd (gather step js (snd (step j s)))))" by (rule Cons.IH)
    finally show ?case unfolding unfold using one [of s j] by simp
  qed simp
  show "distinct (map key (rows s)) \<Longrightarrow> distinct (map key (rows (snd (gather step js s))))"
  proof (induction js arbitrary: s)
    case (Cons j js)
    then show ?case unfolding unfold using one [of s j] by simp
  qed simp
qed

end

interpretation failed_jobs: job_upsert "upsert_failed_job re host bench" failed_job_logs fl_rq_job_id fj_rq_job_id id
    "\<lambda>r. fl_monitored_host r = host \<and> fl_bench_name r = bench \<and> \<not> fl_resolved r"
    "\<lambda>job. failed_job_row re host bench job (the (parse_remote_timestamp re (fj_failed_at job)))" for re host bench
proof (unfold_locales, goal_cases)
  case (3 j s b s')
  then show ?case by (cases "fj_rq_job_id j") (auto simp: upsert_failed_job_def failed_job_row_def Let_def split: if_splits option.splits)
qed (auto simp: upsert_failed_job_def truthy_def split: if_splits option.splits)

interpretation running_jobs: job_upsert "upsert_active_job re host bench long_limit" active_jobs ac_rq_job_id aj_rq_job_id fst
    "\<lambda>r. ac_monitored_host r = host \<and> ac_bench_name r = bench"
    "\<lambda>job _. active_job_row re host bench long_limit job (the (parse_remote_timestamp re (aj_started_at job)))" for re host bench long_limit
proof (unfold_locales, goal_cases)
  case (3 j s b s')
  then show ?case by (auto simp: upsert_active_job_def active_job_row_def Let_def split: if_splits option.splits)
qed (auto simp: upsert_active_job_def Let_def split: if_splits option.splits)

subsection \<open>Benches\<close>

lemma gather_jobs_frame:
  "active_jobs (snd (gather (upsert_failed_job re host bench) js st)) = active_jobs st"
  "failed_job_logs (snd (gather (upsert_active_job re host bench lm) js' st)) = failed_job_logs st"
  by (rule gather_frame; simp add: upsert_failed_job_def upsert_active_job_def Let_def split: option.split)+

lemma process_bench_ok:
  fixes st :: "'a status_db_scheme"
  assumes "process_bench re host lims (Some row) st = (Some res, st')" and "bench = opt_str (bn_bench_name row)"
  obtains active s1 s2 seen s3 where
    "gather (upsert_active_job re host bench (bl_long_running_seconds lims)) (bn_active_jobs row) st = (Some active, s1)"
    "active_jobs s2 = active_jobs (delete_stale_active_jobs host bench (map fst active) s1)" "failed_job_logs s2 = failed_job_logs st"
    "gather (upsert_failed_job re host bench) (bn_failed_jobs row) s2 = (Some seen, s3)" "active_jobs s3 = active_jobs s2"
    "st' = resolve_missing_failed_jobs re host bench seen s3"
proof -
  obtain active s1 where 1: "gather (upsert_active_job re host bench (bl_long_running_seconds lims)) (bn_active_jobs row) st = (Some active, s1)"
    using assms by (auto simp: process_bench_def Let_def split: if_splits prod.splits option.splits)
  obtain w seen s3 where 2: "gather (upsert_failed_job re host bench) (bn_failed_jobs row)
        (delete_stale_active_jobs host bench (map fst active) s1\<lparr>worker_healths := w\<rparr>) = (Some seen, s3)"
      "st' = resolve_missing_failed_jobs re host bench seen s3"
    using assms 1 by (auto simp: process_bench_def Let_def split: if_splits prod.splits option.splits)
  let ?s2 = "delete_stale_active_jobs host bench (map fst active) s1\<lparr>worker_healths := w\<rparr>"
  have "failed_job_logs s1 = failed_job_logs st"
    using gather_jobs_frame(2) [of re host bench "bl_long_running_seconds lims" "bn_active_jobs row" st] 1 by simp
  moreover have "active_jobs s3 = active_jobs ?s2"
    using gather_jobs_frame(1) [of re host bench "bn_failed_jobs row" ?s2] 2 by simp
  ultimately show thesis using 1 2 that [of active s1 ?s2 seen s3] by (simp add: delete_stale_active_jobs_def)
qed

definition reported_ids :: "('j \<Rightarrow> string option) \<Rightarrow> 'j list \<Rightarrow> string set" where
  "reported_ids f js = {opt_str (f j) |j. j \<in> set js \<and> truthy (f j)}"

lemma active_jobs_mirrored:
  fixes st :: "'a status_db_scheme"
  assumes 1: "gather (upsert_active_job re host bench lm) jobs st = (Some active, s1)"
    and act: "active_jobs st' = active_jobs (delete_stale_active_jobs host bench (map fst active) s1)"
  shows "ac_rq_job_id ` {r \<in> set (active_jobs st'). ac_monitored_host r = host \<and> ac_bench_name r = bench} = reported_ids aj_rq_job_id jobs"
    and "{r \<in> set (active_jobs st). (ac_monitored_host r, ac_bench_name r) \<noteq> (host, bench) \<and> ac_rq_job_id r \<notin> reported_ids aj_rq_job_id jobs}
      \<subseteq> set (active_jobs st')"
proof -
  let ?A = "reported_ids aj_rq_job_id jobs"
  note A = running_jobs.gather_mirror [OF 1, folded reported_ids_def]
  have fA: "fst ` set active = ?A" using A by (rule conjunct1)
  have A2: "?A \<subseteq> ac_rq_job_id ` set (active_jobs s1)"
    and A3: "\<And>r. r \<in> set (active_jobs s1) \<Longrightarrow> ac_rq_job_id r \<in> ?A \<Longrightarrow> ac_monitored_host r = host \<and> ac_bench_name r = bench"
    and A4: "filter (\<lambda>r. ac_rq_job_id r \<notin> ?A) (active_jobs s1) = filter (\<lambda>r. ac_rq_job_id r \<notin> ?A) (active_jobs st)"
    using A unfolding fA by blast+
  have act: "active_jobs st' = filter (\<lambda>r. \<not> (ac_monitored_host r = host \<and> ac_bench_name r = bench \<and> ac_rq_job_id r \<notin> ?A)) (active_jobs s1)"
    using fA by (simp add: act delete_stale_active_jobs_def)
  have "?A \<subseteq> ac_rq_job_id ` {r \<in> set (active_jobs st'). ac_monitored_host r = host \<and> ac_bench_name r = bench}"
  proof
    fix i assume "i \<in> ?A"
    moreover then obtain r where "r \<in> set (active_jobs s1)" "ac_rq_job_id r = i" using A2 by blast
    ultimately show "i \<in> ac_rq_job_id ` {r \<in> set (active_jobs st'). ac_monitored_host r = host \<and> ac_bench_name r = bench}"
      using A3 by (auto simp: act intro!: image_eqI [of _ _ r])
  qed
  then show "ac_rq_job_id ` {r \<in> set (active_jobs st'). ac_monitored_host r = host \<and> ac_bench_name r = bench} = ?A"
    by (auto simp: act)
  have "{r \<in> set (active_jobs s1). ac_rq_job_id r \<notin> ?A} = {r \<in> set (active_jobs st). ac_rq_job_id r \<notin> ?A}"
    using A4 by (metis set_filter)
  then show "{r \<in> set (active_jobs st). (ac_monitored_host r, ac_bench_name r) \<noteq> (host, bench) \<and> ac_rq_job_id r \<notin> ?A} \<subseteq> set (active_jobs st')"
    by (auto simp: act)
qed

lemma failed_jobs_mirrored:
  fixes s2 :: "'a status_db_scheme"
  assumes 3: "gather (upsert_failed_job re host bench) jobs s2 = (Some seen, s3)" and 4: "st' = resolve_missing_failed_jobs re host bench seen s3"
  shows "fl_rq_job_id ` {r \<in> set (failed_job_logs st'). fl_monitored_host r = host \<and> fl_bench_name r = bench \<and> \<not> fl_resolved r} = reported_ids fj_rq_job_id jobs"
    and "fl_rq_job_id ` set (failed_job_logs s2) \<subseteq> fl_rq_job_id ` set (failed_job_logs st')"
proof -
  let ?F = "reported_ids fj_rq_job_id jobs"
  let ?res = "\<lambda>r. if fl_monitored_host r = host \<and> fl_bench_name r = bench \<and> \<not> fl_resolved r \<and> fl_rq_job_id r \<notin> ?F
      then r\<lparr>fl_resolved := True, fl_resolved_at := Some (clock (re_poll_env re))\<rparr> else r"
  note F = failed_jobs.gather_mirror [OF 3, folded reported_ids_def]
  have sF: "set seen = ?F" using conjunct1 [OF F] by simp
  have F2: "?F \<subseteq> fl_rq_job_id ` set (failed_job_logs s3)"
    and F3: "\<And>r. r \<in> set (failed_job_logs s3) \<Longrightarrow> fl_rq_job_id r \<in> ?F \<Longrightarrow> fl_monitored_host r = host \<and> fl_bench_name r = bench \<and> \<not> fl_resolved r"
    using F unfolding sF image_id by blast+
  have fails: "set (failed_job_logs st') = ?res ` set (failed_job_logs s3)"
    by (simp add: 4 resolve_missing_failed_jobs_def sF)
  have "?F \<subseteq> fl_rq_job_id ` {r \<in> set (failed_job_logs st'). fl_monitored_host r = host \<and> fl_bench_name r = bench \<and> \<not> fl_resolved r}"
  proof
    fix i assume i: "i \<in> ?F"
    then obtain r where r: "r \<in> set (failed_job_logs s3)" "fl_rq_job_id r = i" using F2 by blast
    then have "r \<in> set (failed_job_logs st')" using i unfolding fails by (intro image_eqI [of _ _ r]) auto
    then show "i \<in> fl_rq_job_id ` {r \<in> set (failed_job_logs st'). fl_monitored_host r = host \<and> fl_bench_name r = bench \<and> \<not> fl_resolved r}"
      using F3 [of r] r i by blast
  qed
  moreover have "fl_rq_job_id x \<in> ?F" if x: "x \<in> set (failed_job_logs st')" "fl_monitored_host x = host" "fl_bench_name x = bench" "\<not> fl_resolved x" for x
  proof -
    from x(1) obtain r where "x = ?res r" unfolding fails by blast
    then show ?thesis using x(2-4) by (cases "fl_monitored_host r = host \<and> fl_bench_name r = bench \<and> \<not> fl_resolved r \<and> fl_rq_job_id r \<notin> ?F") auto
  qed
  ultimately show "fl_rq_job_id ` {r \<in> set (failed_job_logs st'). fl_monitored_host r = host \<and> fl_bench_name r = bench \<and> \<not> fl_resolved r} = ?F"
    by blast
  have "fl_rq_job_id ` set (failed_job_logs st') = fl_rq_job_id ` set (failed_job_logs s3)"
    unfolding fails image_image by (rule image_cong) auto
  then show "fl_rq_job_id ` set (failed_job_logs s2) \<subseteq> fl_rq_job_id ` set (failed_job_logs st')"
    using failed_jobs.gather_keys(1) [of s2 re host bench jobs] by (simp add: 3)
qed

text \<open>C29: After a bench report is stored, the open failed jobs of the bench are exactly the ones it reports, and its
  active jobs are exactly the ones it reports. No record of a failed job is ever removed, and the active jobs of other
  benches that are not in the report stay.\<close>

theorem bench_jobs_mirrored:
  fixes st :: "'a status_db_scheme"
  assumes "process_bench re host lims (Some row) st = (Some res, st')" and "bench = opt_str (bn_bench_name row)"
  shows "fl_rq_job_id ` {r \<in> set (failed_job_logs st'). fl_monitored_host r = host \<and> fl_bench_name r = bench \<and> \<not> fl_resolved r} =
      reported_ids fj_rq_job_id (bn_failed_jobs row) \<and>
    ac_rq_job_id ` {r \<in> set (active_jobs st'). ac_monitored_host r = host \<and> ac_bench_name r = bench} =
      reported_ids aj_rq_job_id (bn_active_jobs row) \<and>
    fl_rq_job_id ` set (failed_job_logs st) \<subseteq> fl_rq_job_id ` set (failed_job_logs st') \<and>
    {r \<in> set (active_jobs st). (ac_monitored_host r, ac_bench_name r) \<noteq> (host, bench) \<and> ac_rq_job_id r \<notin> reported_ids aj_rq_job_id (bn_active_jobs row)}
      \<subseteq> set (active_jobs st')"
proof -
  from process_bench_ok [OF assms] obtain active s1 s2 seen s3 where
    1: "gather (upsert_active_job re host bench (bl_long_running_seconds lims)) (bn_active_jobs row) st = (Some active, s1)"
    and 2: "active_jobs s2 = active_jobs (delete_stale_active_jobs host bench (map fst active) s1)" "failed_job_logs s2 = failed_job_logs st"
    and 3: "gather (upsert_failed_job re host bench) (bn_failed_jobs row) s2 = (Some seen, s3)" "active_jobs s3 = active_jobs s2"
    and 4: "st' = resolve_missing_failed_jobs re host bench seen s3" by blast
  have act: "active_jobs st' = active_jobs (delete_stale_active_jobs host bench (map fst active) s1)"
    by (simp add: 2 3(2) 4 resolve_missing_failed_jobs_def)
  show ?thesis using active_jobs_mirrored [OF 1 act] failed_jobs_mirrored [OF 3(1) 4] unfolding 2(2) by blast
qed

subsection \<open>Verdicts on benches\<close>

lemma each_row_frame:
  assumes "\<And>r s. g (snd (f r s)) = g s" and "\<And>s. g (log_error title s) = g s"
  shows "g (snd (snd (each_row title f rows st))) = g st"
proof (induction rows arbitrary: st)
  case (Cons r rows)
  have r: "g (snd (f r st)) = g st" by (rule assms(1))
  show ?case
    using Cons.IH [of "snd (f r st)"] Cons.IH [of "log_error title (snd (f r st))"] assms(2) [of "snd (f r st)"] r
    by (auto split: prod.splits option.splits)
qed simp

lemma process_bench_frame:
  fixes g :: "'a status_db_scheme \<Rightarrow> 'g"
  assumes "\<And>s t. g (s\<lparr>active_jobs := t\<rparr>) = g s" and "\<And>s t. g (s\<lparr>failed_job_logs := t\<rparr>) = g s" and "\<And>s t. g (s\<lparr>worker_healths := t\<rparr>) = g s"
  shows "g (snd (process_bench re host lims entry st)) = g st"
proof -
  have a: "g (snd (gather (upsert_active_job re host b l) js s)) = g s" for b l js and s :: "'a status_db_scheme"
    by (rule gather_frame) (auto simp: upsert_active_job_def assms Let_def split: option.split)
  have f: "g (snd (gather (upsert_failed_job re host b) js s)) = g s" for b js and s :: "'a status_db_scheme"
    by (rule gather_frame) (auto simp: upsert_failed_job_def assms Let_def split: option.split)
  have a': "g s' = g s" if "gather (upsert_active_job re host b l) js s = (x, s')" for b l js x and s s' :: "'a status_db_scheme"
    using a [of b l js s] that by simp
  have f': "g s' = g s" if "gather (upsert_failed_job re host b) js s = (x, s')" for b js x and s s' :: "'a status_db_scheme"
    using f [of b js s] that by simp
  show ?thesis
    by (auto simp: process_bench_def Let_def delete_stale_active_jobs_def resolve_missing_failed_jobs_def assms
        split: option.split prod.split dest!: a' f')
qed

abbreviation worker_key :: "string \<Rightarrow> alert_key" where "worker_key n \<equiv> (''Monitored Host'', n, ''Worker Degraded'')"
abbreviation failed_key :: "string \<Rightarrow> alert_key" where "failed_key n \<equiv> (''Monitored Host'', n, ''Failed Job Threshold'')"
abbreviation running_key :: "string \<Rightarrow> alert_key" where "running_key n \<equiv> (''Monitored Host'', n, ''Long Running Job'')"

text \<open>The three flags of a host and the alerts that go with them.\<close>

definition bench_alerts_in_step :: "monitored_host \<Rightarrow> 'a host_db_scheme \<Rightarrow> bool" where
  "bench_alerts_in_step h st \<longleftrightarrow>
     open_alerts_of st (worker_key (mh_name h)) = (if mh_worker_health_critical h then 1 else 0) \<and>
     open_alerts_of st (failed_key (mh_name h)) = (if mh_failed_job_critical h then 1 else 0) \<and>
     open_alerts_of st (running_key (mh_name h)) = (if mh_long_running_job_critical h then 1 else 0)"

lemma find_set_host:
  assumes "\<And>h. mh_name (f h) = mh_name h"
  shows "find_row mh_name n (monitored_hosts (set_host n f st)) = map_option f (find_row mh_name n (monitored_hosts st))"
  using find_row_map_name [of mh_name f n "monitored_hosts st"] assms by (simp add: set_host_def)

lemma judge_benches_in_step:
  fixes st :: "'a host_db_scheme"
  assumes inv: "alert_inv st" and h: "find_row mh_name host (monitored_hosts st) = Some h" and sync: "bench_alerts_in_step h st"
    and st': "st' = judge_benches re host checks g results h st"
  shows "alert_inv st' \<and>
    (\<exists>h'. find_row mh_name host (monitored_hosts st') = Some h' \<and> bench_alerts_in_step h' st' \<and>
       mh_worker_health_critical h' = list_ex (\<lambda>r. br_orphan_streak r \<ge> checks) results \<and>
       mh_failed_job_critical h' = list_ex (\<lambda>r. br_failed_job_streak r \<ge> checks) results \<and>
       mh_long_running_job_critical h' = list_ex (\<lambda>r. br_long_running_streak r \<ge> checks) results)"
proof -
  let ?w = "list_ex (\<lambda>r. br_orphan_streak r \<ge> checks) results" and ?f = "list_ex (\<lambda>r. br_failed_job_streak r \<ge> checks) results"
    and ?l = "list_ex (\<lambda>r. br_long_running_streak r \<ge> checks) results"
  let ?fl = "\<lambda>h. h\<lparr>mh_worker_health_critical := ?w, mh_failed_job_critical := ?f, mh_long_running_job_critical := ?l\<rparr>"
  let ?e = "base_env (re_poll_env re)"
  have n: "mh_name h = host" using find_row_Some [OF h] by simp
  obtain mw rw mf rf ml rl where st'': "st' = handle_transition ?e (mh_long_running_job_critical h) ?l ''Monitored Host'' host ''Long Running Job'' ml rl g
     (handle_transition ?e (mh_failed_job_critical h) ?f ''Monitored Host'' host ''Failed Job Threshold'' mf rf g
       (handle_transition ?e (mh_worker_health_critical h) ?w ''Monitored Host'' host ''Worker Degraded'' mw rw g (set_host host ?fl st)))"
    using st' unfolding judge_benches_def Let_def by metis
  let ?s1 = "set_host host ?fl st"
  let ?s2 = "handle_transition ?e (mh_worker_health_critical h) ?w ''Monitored Host'' host ''Worker Degraded'' mw rw g ?s1"
  let ?s3 = "handle_transition ?e (mh_failed_job_critical h) ?f ''Monitored Host'' host ''Failed Job Threshold'' mf rf g ?s2"
  have i1: "alert_inv ?s1" using inv by simp
  have i2: "alert_inv ?s2" using i1 by (rule handle_transition_inv)
  have i3: "alert_inv ?s3" using i2 by (rule handle_transition_inv)
  have i4: "alert_inv st'" unfolding st'' using i3 by (rule handle_transition_inv)
  note other = handle_transition_other [OF i1] handle_transition_other [OF i2] handle_transition_other [OF i3]
  have "open_alerts_of ?s2 (worker_key host) = (if ?w then 1 else 0)"
    using sync n by (intro flag_transition i1) (simp add: bench_alerts_in_step_def)
  then have "open_alerts_of st' (worker_key host) = (if ?w then 1 else 0)" by (simp add: st'' other)
  moreover have "open_alerts_of ?s3 (failed_key host) = (if ?f then 1 else 0)"
    using sync n by (intro flag_transition i2) (simp add: bench_alerts_in_step_def other)
  then have "open_alerts_of st' (failed_key host) = (if ?f then 1 else 0)" by (simp add: st'' other)
  moreover have "open_alerts_of st' (running_key host) = (if ?l then 1 else 0)"
    unfolding st'' using sync n by (intro flag_transition i3) (simp add: bench_alerts_in_step_def other)
  moreover have "find_row mh_name host (monitored_hosts st') = Some (?fl h)"
    by (simp add: st'' find_set_host h)
  ultimately show ?thesis using i4 n by (simp add: bench_alerts_in_step_def)
qed

lemma status_fields_of_more:
  fixes s t :: "'a status_db_scheme"
  assumes "alert_db.more s = alert_db.more t"
  shows "worker_healths s = worker_healths t" "failed_job_logs s = failed_job_logs t" "active_jobs s = active_jobs t"
  using assms by (cases s; cases t; simp)+

lemma worker_transition [simp]:
  fixes st :: "'a status_db_scheme"
  shows "worker_healths (handle_transition e was now d n ty m rec g st) = worker_healths st"
  by (rule status_fields_of_more) simp

lemma alert_parts: "alert_log s = alert_log t \<Longrightarrow> next_alert s = next_alert t \<Longrightarrow> alert_inv s = alert_inv t \<and> open_alerts_of s k = open_alerts_of t k"
  by (simp add: alert_inv_def open_alerts_of_def)

lemma each_bench_frame:
  fixes st :: "'a status_db_scheme"
  assumes "each_row title (process_bench re host lims) rows st = (results, skipped, st1)"
  shows "alert_log st1 = alert_log st" "next_alert st1 = next_alert st" "monitored_hosts st1 = monitored_hosts st"
proof -
  define g where "g = (\<lambda>s :: 'a status_db_scheme. (alert_log s, next_alert s, monitored_hosts s))"
  have step: "g (snd (process_bench re host lims r s)) = g s" for r s
    unfolding g_def by (rule process_bench_frame) simp_all
  have "g (snd (snd (each_row title (process_bench re host lims) rows st))) = g st"
    by (rule each_row_frame, rule step) (simp add: g_def log_error_def)
  then show "alert_log st1 = alert_log st" "next_alert st1 = next_alert st" "monitored_hosts st1 = monitored_hosts st"
    using assms by (simp_all add: g_def)
qed

lemma process_benches_in_step:
  fixes st :: "'a status_db_scheme"
  assumes "alert_inv st" and "find_row mh_name host (monitored_hosts st) = Some h" and "bench_alerts_in_step h st"
    and "results = fst (each_row (''Host Health: malformed bench row from '' @ host) (process_bench re host (bench_limits_of st)) benches st)"
    and "process_benches re host g benches st = (r, st')"
  shows "\<exists>h'. find_row mh_name host (monitored_hosts st') = Some h' \<and> bench_alerts_in_step h' st' \<and>
       mh_worker_health_critical h' = list_ex (\<lambda>r. br_orphan_streak r \<ge> status_checks st) results \<and>
       mh_failed_job_critical h' = list_ex (\<lambda>r. br_failed_job_streak r \<ge> status_checks st) results \<and>
       mh_long_running_job_critical h' = list_ex (\<lambda>r. br_long_running_streak r \<ge> status_checks st) results"
proof -
  obtain skipped st1 where e: "each_row (''Host Health: malformed bench row from '' @ host) (process_bench re host (bench_limits_of st)) benches st = (results, skipped, st1)"
    using assms(4) by (metis prod.collapse)
  note fr = each_bench_frame [OF e]
  let ?st2 = "judge_benches re host (status_checks st) g results h st1"
  have sync: "bench_alerts_in_step h st1" "alert_inv st1"
    using assms(1,3) alert_parts [OF fr(1,2)] by (auto simp: bench_alerts_in_step_def)
  from judge_benches_in_step [OF sync(2) _ sync(1) refl, of host re "status_checks st" g results] assms(2)
  obtain h' where h': "find_row mh_name host (monitored_hosts ?st2) = Some h'" "bench_alerts_in_step h' ?st2"
      "mh_worker_health_critical h' = list_ex (\<lambda>r. br_orphan_streak r \<ge> status_checks st) results"
      "mh_failed_job_critical h' = list_ex (\<lambda>r. br_failed_job_streak r \<ge> status_checks st) results"
      "mh_long_running_job_critical h' = list_ex (\<lambda>r. br_long_running_streak r \<ge> status_checks st) results"
    by (auto simp: fr(3))
  have st': "st' = ?st2 \<or> (\<exists>t. st' = set_host host (\<lambda>h. h\<lparr>mh_scheduler_last_run := t\<rparr>) ?st2)"
    using assms(2,5) e by (auto simp: process_benches_def fr(3) Let_def split: option.splits if_splits)
  then show ?thesis
  proof
    assume "\<exists>t. st' = set_host host (\<lambda>h. h\<lparr>mh_scheduler_last_run := t\<rparr>) ?st2"
    then obtain t where t: "st' = set_host host (\<lambda>h. h\<lparr>mh_scheduler_last_run := t\<rparr>) ?st2" ..
    show ?thesis
      using h' by (intro exI [of _ "h'\<lparr>mh_scheduler_last_run := t\<rparr>"]) (simp add: t find_set_host bench_alerts_in_step_def)
  qed (use h' in blast)
qed

text \<open>After the benches of a report are processed, each of the three flags of the host says whether the streak of some
  reported bench has reached the number of confirmations, and exactly one alert of its kind is open when it is set and
  none when it is not.\<close>

theorem bench_verdicts_in_step:
  fixes st :: "'a status_db_scheme"
  assumes "alert_inv st" and "find_row mh_name host (monitored_hosts st) = Some h" and "bench_alerts_in_step h st"
    and "results = fst (each_row (''Host Health: malformed bench row from '' @ host) (process_bench re host (bench_limits_of st)) benches st)"
    and "process_benches re host g benches st = (r, st')"
  shows "\<exists>h'. find_row mh_name host (monitored_hosts st') = Some h' \<and> bench_alerts_in_step h' st' \<and>
       mh_worker_health_critical h' = list_ex (\<lambda>r. br_orphan_streak r \<ge> status_checks st) results \<and>
       mh_failed_job_critical h' = list_ex (\<lambda>r. br_failed_job_streak r \<ge> status_checks st) results \<and>
       mh_long_running_job_critical h' = list_ex (\<lambda>r. br_long_running_streak r \<ge> status_checks st) results"
  using assms by (rule process_benches_in_step)

definition malformed_bench :: "bench_report option \<Rightarrow> bool" where
  "malformed_bench entry \<longleftrightarrow> (case entry of None \<Rightarrow> True | Some row \<Rightarrow> \<not> truthy (bn_bench_name row))"

lemma each_row_malformed:
  "list_all malformed_bench benches \<Longrightarrow> fst (each_row title (process_bench re host lims) benches st) = [] \<and>
     worker_healths (snd (snd (each_row title (process_bench re host lims) benches st))) = worker_healths st"
proof (induction benches arbitrary: st)
  case (Cons b bs)
  have "process_bench re host lims b st = (None, st)"
    using Cons.prems by (auto simp: process_bench_def malformed_bench_def split: option.splits)
  with Cons.IH [of "log_error title st"] Cons.prems show ?case by (auto simp: log_error_def split: prod.splits)
qed simp

text \<open>A known defect. A report whose bench rows cannot be used stores no reading of any bench, and still counts as a
  good one: the host's Worker Degraded alert is closed and its flag cleared, though the last stored readings are unchanged
  and as bad as they were.\<close>

theorem unusable_benches_clear_alert:
  fixes st :: "'a status_db_scheme"
  assumes "alert_inv st" and "find_row mh_name host (monitored_hosts st) = Some h" and "bench_alerts_in_step h st"
    and "mh_worker_health_critical h" and "list_all malformed_bench benches" and "process_benches re host g benches st = (r, st')"
  shows "open_alerts_of st (worker_key host) = 1 \<and> open_alerts_of st' (worker_key host) = 0 \<and> worker_healths st' = worker_healths st"
proof -
  let ?t = "''Host Health: malformed bench row from '' @ host"
  note em = each_row_malformed [OF assms(5), of ?t re host "bench_limits_of st" st]
  have n: "mh_name h = host" using find_row_Some [OF assms(2)] by simp
  obtain skipped st1 where e: "each_row ?t (process_bench re host (bench_limits_of st)) benches st = ([], skipped, st1)"
    using em by (metis prod.collapse)
  obtain h' where "find_row mh_name host (monitored_hosts st') = Some h'" "bench_alerts_in_step h' st'" "\<not> mh_worker_health_critical h'"
    using process_benches_in_step [OF assms(1-3) refl assms(6)] em by auto
  then have "open_alerts_of st' (worker_key host) = 0"
    using find_row_Some [of mh_name host "monitored_hosts st'" h'] by (simp add: bench_alerts_in_step_def)
  moreover have "worker_healths st1 = worker_healths st" using em e by simp
  then have "worker_healths st' = worker_healths st"
    using assms(2,6) e each_bench_frame(3) [OF e]
    by (auto simp: process_benches_def judge_benches_def Let_def scheduler_runs_def worker_transition set_host_def map_filter_def split: if_splits)
  ultimately show ?thesis using assms(3,4) n by (simp add: bench_alerts_in_step_def)
qed

subsection \<open>Exception names\<close>

lemma split_on_nonempty [simp]: "split_on P s \<noteq> []"
  by (cases s) auto

lemma split_on_append: "P c \<Longrightarrow> split_on P (a @ c # b) = split_on P a @ split_on P b"
  by (induction a) auto

lemma split_on_none: "list_all (\<lambda>c. \<not> P c) a \<Longrightarrow> split_on P a = [a]"
  by (induction a) auto

lemma split_on_ends: "list_all P t \<Longrightarrow> split_on P t = replicate (Suc (length t)) []"
  by (induction t) auto

lemma py_strip_keeps_prefix:
  assumes "name \<noteq> []" and "\<not> py_space (hd name)" and "\<not> py_space c"
  shows "\<exists>m'. py_strip (name @ c # m) = name @ c # m'"
proof -
  have "dropWhile py_space (name @ c # m) = name @ c # m" using assms(1,2) by (cases name) auto
  moreover have "\<exists>x. dropWhile py_space (rev m @ c # rev name) = x @ c # rev name"
    using assms(3) by (induction m rule: rev_induct) auto
  ultimately show ?thesis by (auto simp: py_strip_def)
qed

lemma py_strip_no_space: "list_all (\<lambda>c. \<not> py_space c) s \<Longrightarrow> py_strip s = s"
proof -
  assume a: "list_all (\<lambda>c. \<not> py_space c) s"
  have d: "list_all (\<lambda>c. \<not> py_space c) t \<Longrightarrow> dropWhile py_space t = t" for t by (cases t) auto
  show ?thesis using a d [of s] d [of "rev s"] by (simp add: py_strip_def)
qed

text \<open>From a traceback as Python prints it, any lines followed by a last line with the name of the exception, a colon
  and its message, the code takes exactly the name; and whatever the text, the result is a single non-empty word.\<close>

theorem parse_exc_type_exact:
  assumes "name \<noteq> []" and "list_all (\<lambda>c. \<not> py_space c \<and> c \<noteq> CHR '':'') name" and "list_all (\<lambda>c. \<not> line_end c) message"
    and "list_all line_end tail"
  shows "parse_exc_type (Some (body @ CHR 0x0A # name @ CHR '':'' # message @ tail)) = name \<and>
    parse_exc_type any_text \<noteq> [] \<and> CHR '' '' \<notin> set (parse_exc_type any_text)"
proof -
  have sp: "line_end c \<Longrightarrow> py_space c" for c by (auto simp: line_end_def py_space_def)
  let ?l = "name @ CHR '':'' # message"
  have lf: "line_end (CHR 0x0A)" by (simp add: line_end_def)
  have colon_end: "\<not> line_end (CHR '':'')" by (simp add: line_end_def)
  have nl: "list_all (\<lambda>c. \<not> line_end c) ?l" using assms(2,3) sp colon_end by (auto simp: list_all_iff)
  have last_lines: "split_on line_end (?l @ tail) = ?l # replicate (length tail) []"
  proof (cases tail)
    case Nil
    then show ?thesis using nl by (simp add: split_on_none del: append_assoc)
  next
    case (Cons t ts)
    then have "split_on line_end (?l @ t # ts) = split_on line_end ?l @ split_on line_end ts" using assms(4) by (intro split_on_append) simp
    then show ?thesis using Cons assms(4) nl by (simp add: split_on_none split_on_ends)
  qed
  obtain m' where m': "py_strip ?l = name @ CHR '':'' # m'"
    using py_strip_keeps_prefix [of name "CHR '':''" message] assms(1,2) by (cases name) (auto simp: py_space_def)
  have colon: "takeWhile (\<lambda>c. c \<noteq> CHR '':'') (name @ CHR '':'' # m') = name"
    using assms(2) by (auto simp: list_all_iff takeWhile_append2)
  have strip_nil: "py_strip [] = []" by (simp add: py_strip_def)
  have empties: "filter (\<lambda>l. l \<noteq> []) (map py_strip (replicate k [])) = []" for k by (simp add: strip_nil)
  have "py_space (CHR '' '')" by (simp add: py_space_def)
  then have nospace: "CHR '' '' \<notin> set name" using assms(2) unfolding list_all_iff by blast
  have "split_on line_end (body @ CHR 0x0A # ?l @ tail) = split_on line_end body @ ?l # replicate (length tail) []"
    using split_on_append [of line_end "CHR 0x0A" body "?l @ tail"] lf last_lines by simp
  then have "filter (\<lambda>l. l \<noteq> []) (map py_strip (rev (split_on line_end (body @ CHR 0x0A # ?l @ tail)))) =
      (name @ CHR '':'' # m') # filter (\<lambda>l. l \<noteq> []) (map py_strip (rev (split_on line_end body)))"
    using empties [of "length tail"] by (simp add: m' del: map_replicate)
  then have "parse_exc_type (Some (body @ CHR 0x0A # ?l @ tail)) = name"
    using colon nospace assms(1) py_strip_no_space [of name] assms(2) by (auto simp: parse_exc_type_def list_all_iff)
  moreover have "parse_exc_type any_text \<noteq> [] \<and> CHR '' '' \<notin> set (parse_exc_type any_text)"
    by (auto simp: parse_exc_type_def Let_def split: list.splits if_splits)
  ultimately show ?thesis by simp
qed

subsection \<open>Examples\<close>

definition demo_report_env :: report_env where
  "demo_report_env = \<lparr>re_poll_env = demo_poll_env, re_get_datetime = (\<lambda>s. if s = ''bad'' then None else Some (0, False)),
     re_to_system_zone = id, re_sha256 = id, re_new_name = (\<lambda>ns. CHR ''x'' # concat ns)\<rparr>"

lemma demo_fresh: "fresh_names demo_report_env"
proof -
  have "n \<in> set ns \<Longrightarrow> length n \<le> length (concat ns)" for n and ns :: "string list" by (induction ns) auto
  then have "CHR ''x'' # concat ns \<notin> set ns" for ns :: "string list" by fastforce
  then show ?thesis by (simp add: fresh_names_def demo_report_env_def)
qed

definition demo_status_db :: status_db where
  "demo_status_db = host_db.extend (demo_host_db\<lparr>monitored_hosts := [demo_host\<lparr>mh_worker_health_critical := True\<rparr>],
       alert_log := [demo_alert ''Worker Degraded'' 900]\<rparr>)
     \<lparr>worker_healths = [], failed_job_logs = [], active_jobs = []\<rparr>"

definition demo_service :: "string \<Rightarrow> service_report" where
  "demo_service state = \<lparr>sv_unit_name = Some ''nginx.service'', sv_service_name = Some ''nginx'', sv_current_state = Some state\<rparr>"

definition demo_service_reports :: "(report_env \<times> service_report) list" where
  "demo_service_reports = map (\<lambda>s. (demo_report_env, demo_service s)) [''active'', ''failed'', ''failed'']"

theorem service_down_exact_witness:
  "\<exists>s. find_service ''web1'' ''nginx'' (service_reports ''web1'' 2 True demo_service_reports demo_status_db) = Some s \<and> ss_is_down s \<and>
    open_alerts_of (service_reports ''web1'' 2 True demo_service_reports demo_status_db) (service_key (ss_name s)) = 1"
proof -
  have a: "alert_inv demo_status_db" "distinct (map ss_name (service_statuses demo_status_db))" "find_service ''web1'' ''nginx'' demo_status_db = None"
    by code_simp+
  have l: "list_all (\<lambda>(re, row). fresh_names re \<and> truthy (sv_unit_name row) \<and> service_of row = ''nginx'') demo_service_reports"
    using demo_fresh by (simp add: demo_service_reports_def demo_service_def service_of_def truthy_def)
  have d: "2 \<le> length (map (service_state \<circ> snd) demo_service_reports)"
    "list_all (\<lambda>x. x \<noteq> ''active'') (drop (length (map (service_state \<circ> snd) demo_service_reports) - 2) (map (service_state \<circ> snd) demo_service_reports))"
    by code_simp+
  have ne: "demo_service_reports \<noteq> []" by (simp add: demo_service_reports_def)
  from service_down_exact [OF a _ _ ne l refl refl, of 2 2 True] d show ?thesis by auto
qed

definition demo_bench :: bench_report where
  "demo_bench = \<lparr>bn_bench_name = Some ''b1'', bn_registered_workers = Some 2, bn_live_worker_count = Some 2, bn_orphan_worker_count = Some 5,
     bn_live_worker_pids = [], bn_queue_depths = [], bn_failed_job_count = None,
     bn_failed_jobs = [\<lparr>fj_rq_job_id = Some ''j1'', fj_queue_name = None, fj_job_name = None, fj_failed_at = None, fj_exc_info = None\<rparr>],
     bn_active_jobs = [\<lparr>aj_rq_job_id = Some ''j2'', aj_queue_name = None, aj_job_name = None, aj_worker_pid = None, aj_started_at = None\<rparr>],
     bn_scheduler_last_run = None\<rparr>"

theorem bench_jobs_mirrored_witness:
  "fl_rq_job_id ` {r \<in> set (failed_job_logs (snd (process_bench demo_report_env ''web1'' (bench_limits_of demo_status_db) (Some demo_bench) demo_status_db))).
      fl_monitored_host r = ''web1'' \<and> fl_bench_name r = ''b1'' \<and> \<not> fl_resolved r} = {''j1''}"
proof -
  let ?p = "process_bench demo_report_env ''web1'' (bench_limits_of demo_status_db) (Some demo_bench) demo_status_db"
  have "fst ?p \<noteq> None" by code_simp
  then obtain res where r: "?p = (Some res, snd ?p)" by (metis not_None_eq prod.collapse)
  have b: "''b1'' = opt_str (bn_bench_name demo_bench)" and ids: "reported_ids fj_rq_job_id (bn_failed_jobs demo_bench) = {''j1''}"
    by (auto simp: demo_bench_def reported_ids_def truthy_def)
  from conjunct1 [OF bench_jobs_mirrored [OF r b]] show ?thesis unfolding ids .
qed

lemma demo_status_in_step:
  "alert_inv demo_status_db" "find_row mh_name ''web1'' (monitored_hosts demo_status_db) = Some (demo_host\<lparr>mh_worker_health_critical := True\<rparr>)"
  "bench_alerts_in_step (demo_host\<lparr>mh_worker_health_critical := True\<rparr>) demo_status_db"
  by code_simp+

theorem unusable_benches_clear_alert_witness:
  "open_alerts_of demo_status_db (worker_key ''web1'') = 1 \<and>
   open_alerts_of (snd (process_benches demo_report_env ''web1'' True [None] demo_status_db)) (worker_key ''web1'') = 0"
proof -
  let ?p = "process_benches demo_report_env ''web1'' True [None] demo_status_db"
  have p: "?p = (fst ?p, snd ?p)" by simp
  have m: "mh_worker_health_critical (demo_host\<lparr>mh_worker_health_critical := True\<rparr>)" "list_all malformed_bench [None]"
    by (simp_all add: malformed_bench_def)
  from unusable_benches_clear_alert [OF demo_status_in_step m p] show ?thesis by blast
qed

theorem parse_exc_type_exact_witness:
  "parse_exc_type (Some (''Traceback'' @ CHR 0x0A # ''ValueError'' @ CHR '':'' # '' bad'' @ [CHR 0x0A])) = ''ValueError''"
proof -
  have "''ValueError'' \<noteq> []" "list_all (\<lambda>c. \<not> py_space c \<and> c \<noteq> CHR '':'') ''ValueError''" "list_all (\<lambda>c. \<not> line_end c) '' bad''" "list_all line_end [CHR 0x0A]"
    by code_simp+
  from conjunct1 [OF parse_exc_type_exact [OF this]] show ?thesis .
qed

end
