(* ===== verification/Host_Resources.thy ===== *)
theory Host_Resources
  imports Host_Status
begin

text \<open>
  The resource half of \<open>host_health/ingest.py\<close>: load and swap as a metric row with its streaks and two flags of the
  host, and the mounted file systems as live rows with their alerts and a history sample each.
\<close>

record load_report =
  ld_cpu_core_count :: "int option"
  ld_load_avg_1min :: "rat option"
  ld_load_avg_5min :: "rat option"
  ld_load_avg_15min :: "rat option"

record swap_report =
  sw_total_gb :: "rat option"
  sw_used_gb :: "rat option"

record disk_report =
  dk_mount_point :: "string option"
  dk_fstype :: "string option"
  dk_used_bytes :: "rat option"
  dk_total_bytes :: "rat option"
  dk_inodes_used :: "int option"
  dk_inodes_total :: "int option"

text \<open>Load and swap are present or absent; one that is present but not a mapping is \<open>Some None\<close>.\<close>

record resource_report =
  rr_reported_at :: string
  rr_load :: "load_report option option"
  rr_swap :: "swap_report option option"
  rr_disks :: "disk_report option list option"

record resource_metric =
  rm_monitored_host :: string
  rm_collected_at :: datetime
  rm_cpu_core_count :: int
  rm_load_avg_1min :: rat
  rm_load_avg_5min :: rat
  rm_load_avg_15min :: rat
  rm_load_normalized_percent :: rat
  rm_load_warning_streak :: int
  rm_load_critical_streak :: int
  rm_swap_used_gb :: "rat option"
  rm_swap_total_gb :: "rat option"
  rm_swap_usage_percent :: "rat option"
  rm_swap_warning_streak :: int
  rm_swap_critical_streak :: int

record resource_mount = monitored_doc +
  rt_name :: string
  rt_monitored_host :: string
  rt_mount_point :: string
  rt_is_warning :: bool
  rt_fstype :: "string option"
  rt_used_gb :: rat
  rt_total_gb :: rat
  rt_usage_percent :: rat
  rt_inodes_used :: "int option"
  rt_inodes_total :: "int option"
  rt_inode_usage_percent :: "rat option"
  rt_last_synced :: "datetime option"

record disk_sample =
  ds_resource_mount :: string
  ds_monitored_host :: string
  ds_mount_point :: string
  ds_collected_at :: datetime
  ds_used_bytes :: rat
  ds_total_bytes :: rat
  ds_usage_percent :: rat
  ds_inodes_used :: "int option"
  ds_inodes_total :: "int option"
  ds_inode_usage_percent :: "rat option"

record resource_monitor_settings =
  rs_confirmation_checks :: "int option"
  rs_load_warning_percent :: "int option"
  rs_load_critical_percent :: "int option"
  rs_swap_warning_percent :: "int option"
  rs_swap_critical_percent :: "int option"
  rs_disk_warning_percent :: "int option"
  rs_disk_critical_percent :: "int option"

record resource_db = status_db +
  resource_metrics :: "resource_metric list"
  resource_mounts :: "resource_mount list"
  disk_samples :: "disk_sample list"
  resource_monitor_settings :: resource_monitor_settings

definition DEFAULT_LOAD_WARNING_PERCENT :: int where "DEFAULT_LOAD_WARNING_PERCENT = 100"
definition DEFAULT_LOAD_CRITICAL_PERCENT :: int where "DEFAULT_LOAD_CRITICAL_PERCENT = 200"
definition DEFAULT_SWAP_WARNING_PERCENT :: int where "DEFAULT_SWAP_WARNING_PERCENT = 50"
definition DEFAULT_SWAP_CRITICAL_PERCENT :: int where "DEFAULT_SWAP_CRITICAL_PERCENT = 90"
definition DEFAULT_DISK_WARNING_PERCENT :: int where "DEFAULT_DISK_WARNING_PERCENT = 80"
definition DEFAULT_DISK_CRITICAL_PERCENT :: int where "DEFAULT_DISK_CRITICAL_PERCENT = 90"

definition resource_checks :: "resource_monitor_settings \<Rightarrow> int" where
  "resource_checks cfg = or_int (rs_confirmation_checks cfg) DEFAULT_CONFIRMATION_CHECKS"

definition load_thresholds :: "resource_monitor_settings \<Rightarrow> thresholds" where
  "load_thresholds cfg = \<lparr>warning_percent = or_int (rs_load_warning_percent cfg) DEFAULT_LOAD_WARNING_PERCENT,
     critical_percent = or_int (rs_load_critical_percent cfg) DEFAULT_LOAD_CRITICAL_PERCENT, confirmation_checks = resource_checks cfg\<rparr>"

definition swap_thresholds :: "resource_monitor_settings \<Rightarrow> thresholds" where
  "swap_thresholds cfg = \<lparr>warning_percent = or_int (rs_swap_warning_percent cfg) DEFAULT_SWAP_WARNING_PERCENT,
     critical_percent = or_int (rs_swap_critical_percent cfg) DEFAULT_SWAP_CRITICAL_PERCENT, confirmation_checks = resource_checks cfg\<rparr>"

definition disk_thresholds :: "resource_monitor_settings \<Rightarrow> thresholds" where
  "disk_thresholds cfg = \<lparr>warning_percent = or_int (rs_disk_warning_percent cfg) DEFAULT_DISK_WARNING_PERCENT,
     critical_percent = or_int (rs_disk_critical_percent cfg) DEFAULT_DISK_CRITICAL_PERCENT, confirmation_checks = resource_checks cfg\<rparr>"

subsection \<open>Load and swap\<close>

definition streak_holder :: "(resource_metric \<Rightarrow> int) \<Rightarrow> (resource_metric \<Rightarrow> int) \<Rightarrow> resource_metric option \<Rightarrow> monitored_doc" where
  "streak_holder w c prior =
     \<lparr>warning_streak = Some (case prior of None \<Rightarrow> 0 | Some m \<Rightarrow> w m), critical_streak = Some (case prior of None \<Rightarrow> 0 | Some m \<Rightarrow> c m), is_critical = False\<rparr>"

definition prior_metric :: "string \<Rightarrow> 'a resource_db_scheme \<Rightarrow> resource_metric option" where
  "prior_metric host st = newest_by rm_collected_at None (filter (\<lambda>m. rm_monitored_host m = host) (resource_metrics st))"

definition swap_percent :: "swap_report \<Rightarrow> rat option" where
  "swap_percent swap =
     (case sw_total_gb swap of
        None \<Rightarrow> None
      | Some total_gb \<Rightarrow> if total_gb = 0 then None else Some (py_round_nd 1 (opt_rat (sw_used_gb swap) / total_gb * 100)))"

text \<open>Without swap the streaks stay as they were and the verdict is not critical.\<close>

definition judge_swap :: "monitored_doc \<Rightarrow> swap_report \<Rightarrow> thresholds \<Rightarrow> bool \<times> monitored_doc" where
  "judge_swap holder swap th =
     (case swap_percent swap of
        None \<Rightarrow> (False, holder)
      | Some p \<Rightarrow> let r = track_severity holder p th in (fst (fst r), snd r))"

definition load_percent :: "load_report \<Rightarrow> rat" where
  "load_percent load = py_round_nd 1 (opt_rat (ld_load_avg_1min load) / of_int (or_int (ld_cpu_core_count load) 1) * 100)"

definition load_verdict :: "string \<Rightarrow> load_report \<Rightarrow> 'a resource_db_scheme \<Rightarrow> (bool \<times> bool) \<times> monitored_doc" where
  "load_verdict host load st =
     track_severity (streak_holder rm_load_warning_streak rm_load_critical_streak (prior_metric host st)) (load_percent load)
       (load_thresholds (resource_monitor_settings st))"

definition swap_verdict :: "string \<Rightarrow> swap_report \<Rightarrow> 'a resource_db_scheme \<Rightarrow> bool \<times> monitored_doc" where
  "swap_verdict host swap st =
     judge_swap (streak_holder rm_swap_warning_streak rm_swap_critical_streak (prior_metric host st)) swap (swap_thresholds (resource_monitor_settings st))"

definition metric_row :: "poll_env \<Rightarrow> string \<Rightarrow> load_report \<Rightarrow> swap_report \<Rightarrow> 'a resource_db_scheme \<Rightarrow> resource_metric" where
  "metric_row pe host load swap st =
     (let l = snd (load_verdict host load st); s = snd (swap_verdict host swap st);
          has_swap = (sw_total_gb swap \<noteq> None \<and> sw_total_gb swap \<noteq> Some 0)
      in \<lparr>rm_monitored_host = host, rm_collected_at = clock pe, rm_cpu_core_count = or_int (ld_cpu_core_count load) 1,
          rm_load_avg_1min = opt_rat (ld_load_avg_1min load), rm_load_avg_5min = opt_rat (ld_load_avg_5min load),
          rm_load_avg_15min = opt_rat (ld_load_avg_15min load), rm_load_normalized_percent = load_percent load,
          rm_load_warning_streak = opt_int (warning_streak l), rm_load_critical_streak = opt_int (critical_streak l),
          rm_swap_used_gb = (if has_swap then Some (opt_rat (sw_used_gb swap)) else None), rm_swap_total_gb = sw_total_gb swap,
          rm_swap_usage_percent = swap_percent swap,
          rm_swap_warning_streak = opt_int (warning_streak s), rm_swap_critical_streak = opt_int (critical_streak s)\<rparr>)"

definition upsert_resource_metrics ::
    "poll_env \<Rightarrow> string \<Rightarrow> load_report \<Rightarrow> swap_report \<Rightarrow> 'a resource_db_scheme \<Rightarrow> (bool \<times> bool) \<times> 'a resource_db_scheme" where
  "upsert_resource_metrics pe host load swap st =
     ((fst (fst (load_verdict host load st)), fst (swap_verdict host swap st)),
      st\<lparr>resource_metrics := resource_metrics st @ [metric_row pe host load swap st]\<rparr>)"

text \<open>The body of the \<open>try\<close>: whether the payload could be used, and the state.\<close>

definition store_load_swap ::
    "poll_env \<Rightarrow> string \<Rightarrow> bool \<Rightarrow> load_report option \<Rightarrow> swap_report option \<Rightarrow> 'a resource_db_scheme \<Rightarrow> bool \<times> 'a resource_db_scheme" where
  "store_load_swap pe host notify_global load swap st =
     (case (load, swap) of
        (Some ld, Some sw) \<Rightarrow>
          (let was = find_row mh_name host (monitored_hosts st); r = upsert_resource_metrics pe host ld sw st;
               load_crit = fst (fst r); swap_crit = snd (fst r); e = base_env pe;
               st1 = set_host host (\<lambda>h. h\<lparr>mh_load_average_critical := load_crit, mh_swap_critical := swap_crit\<rparr>) (snd r)
           in case was of
                None \<Rightarrow> (False, st1)
              | Some h \<Rightarrow>
                  (True,
                   handle_transition e (mh_swap_critical h) swap_crit ''Monitored Host'' host ''High Swap Usage''
                     (host @ '': swap usage has stayed at/above the critical threshold.'')
                     (Some (host @ '': swap usage back to normal.'')) notify_global
                     (handle_transition e (mh_load_average_critical h) load_crit ''Monitored Host'' host ''High Load Average''
                        (host @ '': load average has stayed at/above the critical threshold.'')
                        (Some (host @ '': load average back to normal.'')) notify_global st1)))
      | _ \<Rightarrow> (False, st))"

subsection \<open>Mounts\<close>

definition new_mount :: "report_env \<Rightarrow> string \<Rightarrow> string \<Rightarrow> 'a resource_db_scheme \<Rightarrow> resource_mount" where
  "new_mount re host mount_point st =
     \<lparr>warning_streak = None, critical_streak = None, is_critical = False,
      rt_name = re_new_name re (used_names (map rt_name (resource_mounts st)) st), rt_monitored_host = host, rt_mount_point = mount_point,
      rt_is_warning = False, rt_fstype = None, rt_used_gb = 0, rt_total_gb = 0, rt_usage_percent = 0, rt_inodes_used = None, rt_inodes_total = None,
      rt_inode_usage_percent = None, rt_last_synced = None\<rparr>"

definition mount_doc :: "report_env \<Rightarrow> string \<Rightarrow> string \<Rightarrow> 'a resource_db_scheme \<Rightarrow> resource_mount" where
  "mount_doc re host mount_point st =
     (case find (\<lambda>m. rt_monitored_host m = host \<and> rt_mount_point m = mount_point) (resource_mounts st) of
        None \<Rightarrow> new_mount re host mount_point st
      | Some m \<Rightarrow> m)"

definition disk_percent :: "disk_report \<Rightarrow> rat" where
  "disk_percent row = (if opt_rat (dk_total_bytes row) = 0 then 0
     else py_round_nd 1 (opt_rat (dk_used_bytes row) / opt_rat (dk_total_bytes row) * 100))"

definition inode_percent :: "disk_report \<Rightarrow> rat option" where
  "inode_percent row = (if opt_int (dk_inodes_total row) = 0 then None
     else Some (py_round_nd 1 (of_int (opt_int (dk_inodes_used row)) / of_int (opt_int (dk_inodes_total row)) * 100)))"

text \<open>One threshold pair for space and inodes, through the higher of the two.\<close>

definition mount_reading :: "disk_report \<Rightarrow> rat" where
  "mount_reading row = (case inode_percent row of None \<Rightarrow> disk_percent row | Some p \<Rightarrow> max (disk_percent row) p)"

definition judged_mount :: "report_env \<Rightarrow> string \<Rightarrow> disk_report \<Rightarrow> 'a resource_db_scheme \<Rightarrow> resource_mount" where
  "judged_mount re host row st =
     (let r = track_severity (mount_doc re host (opt_str (dk_mount_point row)) st) (mount_reading row) (disk_thresholds (resource_monitor_settings st))
      in (snd r)\<lparr>is_critical := fst (fst r), rt_is_warning := snd (fst r), rt_fstype := dk_fstype row,
           rt_used_gb := py_round_nd 2 (opt_rat (dk_used_bytes row) / 1000000000), rt_total_gb := py_round_nd 2 (opt_rat (dk_total_bytes row) / 1000000000),
           rt_usage_percent := disk_percent row, rt_inodes_used := dk_inodes_used row, rt_inodes_total := dk_inodes_total row,
           rt_inode_usage_percent := inode_percent row, rt_last_synced := Some (clock (re_poll_env re))\<rparr>)"

definition disk_sample_row :: "report_env \<Rightarrow> disk_report \<Rightarrow> resource_mount \<Rightarrow> disk_sample" where
  "disk_sample_row re row m =
     \<lparr>ds_resource_mount = rt_name m, ds_monitored_host = rt_monitored_host m, ds_mount_point = rt_mount_point m, ds_collected_at = clock (re_poll_env re),
      ds_used_bytes = opt_rat (dk_used_bytes row), ds_total_bytes = opt_rat (dk_total_bytes row), ds_usage_percent = disk_percent row,
      ds_inodes_used = dk_inodes_used row, ds_inodes_total = dk_inodes_total row, ds_inode_usage_percent = inode_percent row\<rparr>"

definition upsert_resource_mount ::
    "report_env \<Rightarrow> string \<Rightarrow> bool \<Rightarrow> disk_report option \<Rightarrow> 'a resource_db_scheme \<Rightarrow> string option \<times> 'a resource_db_scheme" where
  "upsert_resource_mount re host notify_global entry st =
     (case entry of
        None \<Rightarrow> (None, st)
      | Some row \<Rightarrow>
          if \<not> truthy (dk_mount_point row) then (None, st)
          else
            (let mount_point = opt_str (dk_mount_point row); th = disk_thresholds (resource_monitor_settings st); e = base_env (re_poll_env re);
                 old = mount_doc re host mount_point st; doc = judged_mount re host row st;
                 full = host @ '': '' @ mount_point @ '' '' @ show_int (py_round (disk_percent row)) @ ''% full '';
                 st1 = st\<lparr>resource_mounts := put_row rt_name doc (resource_mounts st), disk_samples := disk_samples st @ [disk_sample_row re row doc]\<rparr>;
                 st2 = handle_transition e (is_critical old) (is_critical doc) ''Resource Mount'' (rt_name doc) ''Critical Resource''
                   (full @ ''(above '' @ show_int (critical_percent th) @ ''%)'')
                   (Some (host @ '': '' @ mount_point @ '' back below '' @ show_int (critical_percent th) @ ''% full (now '' @
                      show_int (py_round (disk_percent row)) @ ''%)'')) notify_global st1
             in (Some mount_point,
                 handle_transition e (rt_is_warning old) (rt_is_warning doc) ''Resource Mount'' (rt_name doc) ''Resource Warning''
                   (full @ ''(above '' @ show_int (warning_percent th) @ ''% for '' @ show_int (confirmation_checks th) @ ''+ checks)'')
                   None notify_global st2)))"

definition delete_stale_resource_mounts :: "string \<Rightarrow> string list \<Rightarrow> 'a resource_db_scheme \<Rightarrow> 'a resource_db_scheme" where
  "delete_stale_resource_mounts host seen st =
     st\<lparr>resource_mounts := filter (\<lambda>m. \<not> (rt_monitored_host m = host \<and> rt_mount_point m \<notin> set seen)) (resource_mounts st)\<rparr>"

definition process_disks :: "report_env \<Rightarrow> string \<Rightarrow> bool \<Rightarrow> disk_report option list \<Rightarrow> 'a resource_db_scheme \<Rightarrow> (nat \<times> nat) \<times> 'a resource_db_scheme" where
  "process_disks re host notify_global rows st =
     (case each_row (''Host Health: malformed disk row from '' @ host) (upsert_resource_mount re host notify_global) rows st of
        (seen, skipped, st1) \<Rightarrow>
          ((length seen, skipped), if seen = [] then st1 else delete_stale_resource_mounts host seen st1))"

record resource_result =
  rx_metrics_recorded :: nat
  rx_disks_recorded :: nat
  rx_warnings :: "string list"

definition process_resources :: "report_env \<Rightarrow> string \<Rightarrow> resource_report \<Rightarrow> 'a resource_db_scheme \<Rightarrow> (string + resource_result) \<times> 'a resource_db_scheme" where
  "process_resources re host rp st =
     (if re_get_datetime re (rr_reported_at rp) = None then (Inl ''reported_at is not a parseable timestamp'', st)
      else
        (let notify_global = (get_host_role host st = Some ''Production'');
             ls = (case (rr_load rp, rr_swap rp) of
                     (Some ld, Some sw) \<Rightarrow>
                       (case store_load_swap (re_poll_env re) host notify_global ld sw st of
                          (True, st1) \<Rightarrow> (1, [], st1)
                        | (False, st1) \<Rightarrow> (0, [''skipped malformed load/swap payload''],
                                          log_error (''Host Health: malformed load/swap payload from '' @ host) st1))
                   | _ \<Rightarrow> (0, [], st));
             dk = (case rr_disks rp of None \<Rightarrow> ((0, 0), snd (snd ls)) | Some rows \<Rightarrow> process_disks re host notify_global rows (snd (snd ls)))
         in (Inr \<lparr>rx_metrics_recorded = fst ls, rx_disks_recorded = fst (fst dk),
                  rx_warnings = fst (snd ls) @ replicate (snd (fst dk)) ''skipped malformed disk row''\<rparr>, snd dk)))"

subsection \<open>Mounts in step with their alerts\<close>

abbreviation mount_critical_key :: "string \<Rightarrow> alert_key" where "mount_critical_key n \<equiv> (''Resource Mount'', n, ''Critical Resource'')"
abbreviation mount_warning_key :: "string \<Rightarrow> alert_key" where "mount_warning_key n \<equiv> (''Resource Mount'', n, ''Resource Warning'')"

lemma resource_fields_of_more:
  fixes s t :: "'a resource_db_scheme"
  assumes "alert_db.more s = alert_db.more t"
  shows "resource_mounts s = resource_mounts t" "disk_samples s = disk_samples t" "resource_metrics s = resource_metrics t"
    "resource_monitor_settings s = resource_monitor_settings t"
  using assms by (cases s; cases t; simp)+

lemma resource_transition [simp]:
  fixes st :: "'a resource_db_scheme"
  shows "resource_mounts (handle_transition e was now d n ty m rec g st) = resource_mounts st"
    "disk_samples (handle_transition e was now d n ty m rec g st) = disk_samples st"
    "resource_metrics (handle_transition e was now d n ty m rec g st) = resource_metrics st"
    "resource_monitor_settings (handle_transition e was now d n ty m rec g st) = resource_monitor_settings st"
  by (rule resource_fields_of_more; simp)+

definition mount_in_step :: "'a alert_db_scheme \<Rightarrow> resource_mount \<Rightarrow> bool" where
  "mount_in_step st m \<longleftrightarrow> open_alerts_of st (mount_critical_key (rt_name m)) = (if is_critical m then 1 else 0) \<and>
     open_alerts_of st (mount_warning_key (rt_name m)) = (if rt_is_warning m then 1 else 0)"

text \<open>Names are unique, a host has one row per mount point, and every row is in step with its alerts.\<close>

definition mounts_inv :: "'a resource_db_scheme \<Rightarrow> bool" where
  "mounts_inv st \<longleftrightarrow> alert_inv st \<and> distinct (map rt_name (resource_mounts st)) \<and>
     distinct (map (\<lambda>m. (rt_monitored_host m, rt_mount_point m)) (resource_mounts st)) \<and> list_all (mount_in_step st) (resource_mounts st)"

lemma mount_doc_fields:
  "rt_monitored_host (mount_doc re host mp st) = host" "rt_mount_point (mount_doc re host mp st) = mp"
  by (auto simp: mount_doc_def new_mount_def split: option.splits dest: find_mem)

lemma judged_mount_fields:
  "rt_name (judged_mount re host row st) = rt_name (mount_doc re host (opt_str (dk_mount_point row)) st)"
  "rt_monitored_host (judged_mount re host row st) = host" "rt_mount_point (judged_mount re host row st) = opt_str (dk_mount_point row)"
  by (simp_all add: judged_mount_def track_severity_def Let_def mount_doc_fields)

lemma mount_doc_in_step:
  fixes st :: "'a resource_db_scheme"
  assumes "mounts_inv st" and "fresh_names re"
  shows "mount_in_step st (mount_doc re host mp st)"
proof (cases "find (\<lambda>m. rt_monitored_host m = host \<and> rt_mount_point m = mp) (resource_mounts st)")
  case None
  then show ?thesis
    using open_alerts_fresh [OF fresh_used(2) [OF assms(2), of "map rt_name (resource_mounts st)" st]]
    by (simp add: mount_doc_def mount_in_step_def new_mount_def)
next
  case (Some m)
  then show ?thesis using find_mem [OF Some] assms(1) by (simp add: mount_doc_def mounts_inv_def list_all_iff)
qed

text \<open>The rows after one disk row: the new row for its mount point, all other rows as before.\<close>

lemma put_mount:
  fixes st :: "'a resource_db_scheme"
  assumes inv: "mounts_inv st" and fresh: "fresh_names re"
    and doc: "rt_name doc = rt_name (mount_doc re host mp st)" "rt_monitored_host doc = host" "rt_mount_point doc = mp"
  shows "set (put_row rt_name doc (resource_mounts st)) =
      insert doc {m \<in> set (resource_mounts st). rt_monitored_host m \<noteq> host \<or> rt_mount_point m \<noteq> mp}"
    and "distinct (map (\<lambda>m. (rt_monitored_host m, rt_mount_point m)) (put_row rt_name doc (resource_mounts st)))"
    and "m \<in> set (resource_mounts st) \<Longrightarrow> rt_monitored_host m \<noteq> host \<or> rt_mount_point m \<noteq> mp \<Longrightarrow> rt_name m \<noteq> rt_name doc"
proof -
  let ?P = "\<lambda>m. rt_monitored_host m = host \<and> rt_mount_point m = mp"
  have dn: "distinct (map rt_name (resource_mounts st))" and dk: "distinct (map (\<lambda>m. (rt_monitored_host m, rt_mount_point m)) (resource_mounts st))"
    using inv by (simp_all add: mounts_inv_def)
  have "set (put_row rt_name doc (resource_mounts st)) = insert doc {m \<in> set (resource_mounts st). \<not> ?P m} \<and>
    distinct (map (\<lambda>m. (rt_monitored_host m, rt_mount_point m)) (put_row rt_name doc (resource_mounts st))) \<and>
    (\<forall>m \<in> set (resource_mounts st). \<not> ?P m \<longrightarrow> rt_name m \<noteq> rt_name doc)"
  proof (cases "find ?P (resource_mounts st)")
    case None
    then have none: "\<forall>m \<in> set (resource_mounts st). \<not> ?P m" by (auto simp: find_None_iff)
    have n: "rt_name doc \<notin> rt_name ` set (resource_mounts st)"
      using None doc(1) fresh_used(1) [OF fresh, of "map rt_name (resource_mounts st)" st] by (simp add: mount_doc_def new_mount_def)
    then have "put_row rt_name doc (resource_mounts st) = resource_mounts st @ [doc]" by (simp add: put_row_def find_row_None)
    then show ?thesis using none n dk doc(2,3) by (auto simp: image_iff)
  next
    case (Some m0)
    then have m0: "m0 \<in> set (resource_mounts st)" "?P m0" "rt_name doc = rt_name m0" using find_mem [OF Some] doc(1) by (auto simp: mount_doc_def)
    have same: "rt_name m = rt_name m0 \<longleftrightarrow> ?P m" if "m \<in> set (resource_mounts st)" for m
    proof -
      have "inj_on rt_name (set (resource_mounts st))" "inj_on (\<lambda>m. (rt_monitored_host m, rt_mount_point m)) (set (resource_mounts st))"
        using dn dk by (simp_all add: distinct_map)
      then show ?thesis using that m0 by (auto dest: inj_onD)
    qed
    have put: "put_row rt_name doc (resource_mounts st) = map (\<lambda>x. if rt_name x = rt_name doc then doc else x) (resource_mounts st)"
      using m0 by (auto simp: put_row_def find_row_None)
    have keys: "map (\<lambda>m. (rt_monitored_host m, rt_mount_point m)) (put_row rt_name doc (resource_mounts st)) = map (\<lambda>m. (rt_monitored_host m, rt_mount_point m)) (resource_mounts st)"
      unfolding put using same m0(3) doc by auto
    have "set (put_row rt_name doc (resource_mounts st)) = insert doc {m \<in> set (resource_mounts st). \<not> ?P m}"
      unfolding put using same m0 by auto
    moreover have "distinct (map (\<lambda>m. (rt_monitored_host m, rt_mount_point m)) (put_row rt_name doc (resource_mounts st)))"
      unfolding keys by (rule dk)
    ultimately show ?thesis using same m0(3) by auto
  qed
  then show "set (put_row rt_name doc (resource_mounts st)) = insert doc {m \<in> set (resource_mounts st). rt_monitored_host m \<noteq> host \<or> rt_mount_point m \<noteq> mp}"
    "distinct (map (\<lambda>m. (rt_monitored_host m, rt_mount_point m)) (put_row rt_name doc (resource_mounts st)))"
    "m \<in> set (resource_mounts st) \<Longrightarrow> rt_monitored_host m \<noteq> host \<or> rt_mount_point m \<noteq> mp \<Longrightarrow> rt_name m \<noteq> rt_name doc"
    by auto
qed

lemma mount_update_alerts [simp]:
  "alert_inv (st\<lparr>resource_mounts := x, disk_samples := y\<rparr>) = alert_inv st"
  "open_alerts_of (st\<lparr>resource_mounts := x, disk_samples := y\<rparr>) k = open_alerts_of st k"
  "alert_inv (st\<lparr>resource_mounts := x\<rparr>) = alert_inv st"
  "open_alerts_of (st\<lparr>resource_mounts := x\<rparr>) k = open_alerts_of st k"
  by (simp_all add: alert_inv_def open_alerts_of_def)

lemma upsert_resource_mount_effect:
  fixes st :: "'a resource_db_scheme"
  assumes inv: "mounts_inv st" and fresh: "fresh_names re" and row: "truthy (dk_mount_point row)"
    and doc: "doc = judged_mount re host row st" and mp: "mp = opt_str (dk_mount_point row)"
    and st': "st' = snd (upsert_resource_mount re host g (Some row) st)"
  shows "fst (upsert_resource_mount re host g (Some row) st) = Some mp"
    and "mounts_inv st'"
    and "set (resource_mounts st') = insert doc {m \<in> set (resource_mounts st). rt_monitored_host m \<noteq> host \<or> rt_mount_point m \<noteq> mp}"
    and "resource_monitor_settings st' = resource_monitor_settings st"
proof -
  let ?e = "base_env (re_poll_env re)" and ?old = "mount_doc re host mp st"
  let ?s1 = "st\<lparr>resource_mounts := put_row rt_name doc (resource_mounts st), disk_samples := disk_samples st @ [disk_sample_row re row doc]\<rparr>"
  note fields = judged_mount_fields [of re host row st, folded doc mp]
  note put = put_mount [OF inv fresh fields]
  obtain mc rc mw where s: "st' = handle_transition ?e (rt_is_warning ?old) (rt_is_warning doc) ''Resource Mount'' (rt_name doc) ''Resource Warning'' mw None g
      (handle_transition ?e (is_critical ?old) (is_critical doc) ''Resource Mount'' (rt_name doc) ''Critical Resource'' mc rc g ?s1)"
    using st' row unfolding upsert_resource_mount_def Let_def doc mp by simp
  let ?s2 = "handle_transition ?e (is_critical ?old) (is_critical doc) ''Resource Mount'' (rt_name doc) ''Critical Resource'' mc rc g ?s1"
  show "fst (upsert_resource_mount re host g (Some row) st) = Some mp" using row mp by (simp add: upsert_resource_mount_def Let_def)
  show set: "set (resource_mounts st') = insert doc {m \<in> set (resource_mounts st). rt_monitored_host m \<noteq> host \<or> rt_mount_point m \<noteq> mp}"
    using put(1) by (simp add: s)
  show "resource_monitor_settings st' = resource_monitor_settings st" by (simp add: s)
  have i1: "alert_inv ?s1" using inv by (simp add: mounts_inv_def)
  have i2: "alert_inv ?s2" using i1 by (rule handle_transition_inv)
  have i3: "alert_inv st'" unfolding s using i2 by (rule handle_transition_inv)
  have old: "mount_in_step st ?old" by (rule mount_doc_in_step [OF inv fresh])
  have own: "mount_in_step st' doc"
  proof -
    have "open_alerts_of ?s2 (mount_critical_key (rt_name doc)) = (if is_critical doc then 1 else 0)"
      using old fields by (intro flag_transition i1) (simp add: mount_in_step_def)
    then have "open_alerts_of st' (mount_critical_key (rt_name doc)) = (if is_critical doc then 1 else 0)"
      unfolding s by (subst handle_transition_other [OF i2]) simp_all
    moreover have "open_alerts_of st' (mount_warning_key (rt_name doc)) = (if rt_is_warning doc then 1 else 0)"
      unfolding s using old fields by (intro flag_transition i2) (simp add: mount_in_step_def handle_transition_other [OF i1])
    ultimately show ?thesis by (simp add: mount_in_step_def)
  qed
  have others: "mount_in_step st' m" if "m \<in> set (resource_mounts st)" "rt_monitored_host m \<noteq> host \<or> rt_mount_point m \<noteq> mp" for m
  proof -
    have "mount_in_step st m" using inv that by (simp add: mounts_inv_def list_all_iff)
    then show ?thesis using put(3) [OF that] unfolding s mount_in_step_def
      by (simp add: handle_transition_other [OF i1] handle_transition_other [OF i2])
  qed
  have "list_all (mount_in_step st') (resource_mounts st')" unfolding list_all_iff set using own others by blast
  moreover have "distinct (map rt_name (resource_mounts st'))" using inv by (simp add: s mounts_inv_def distinct_put_row)
  moreover have "distinct (map (\<lambda>m. (rt_monitored_host m, rt_mount_point m)) (resource_mounts st'))" using put(2) by (simp add: s)
  ultimately show "mounts_inv st'" using i3 by (simp add: mounts_inv_def)
qed

definition reported_mounts :: "disk_report option list \<Rightarrow> string set" where
  "reported_mounts rows = {opt_str (dk_mount_point row) |row. Some row \<in> set rows \<and> truthy (dk_mount_point row)}"

lemma mounts_log_error [simp]: "mounts_inv (log_error t st) = mounts_inv st" "resource_mounts (log_error t st) = resource_mounts st"
proof -
  have "mount_in_step (log_error t st) m = mount_in_step st m" for m by (simp add: mount_in_step_def open_alerts_of_def log_error_def)
  then show "mounts_inv (log_error t st) = mounts_inv st" "resource_mounts (log_error t st) = resource_mounts st"
    by (simp_all add: mounts_inv_def alert_inv_def log_error_def list_all_iff)
qed

lemma replaced_points:
  assumes "h d = host" and "p d = mp"
  shows "{p m |m. m \<in> insert d {m \<in> S. h m \<noteq> host \<or> p m \<noteq> mp} \<and> h m = host} = insert mp {p m |m. m \<in> S \<and> h m = host}"
  using assms by blast

text \<open>The loop over the disk rows.\<close>

lemma each_mount_effect:
  fixes st :: "'a resource_db_scheme"
  assumes "mounts_inv st" and "fresh_names re"
    and "each_row title (upsert_resource_mount re host g) rows st = (seen, skipped, st1)"
  shows "mounts_inv st1 \<and> set seen = reported_mounts rows \<and>
    {rt_mount_point m |m. m \<in> set (resource_mounts st1) \<and> rt_monitored_host m = host} =
      {rt_mount_point m |m. m \<in> set (resource_mounts st) \<and> rt_monitored_host m = host} \<union> set seen \<and>
    {m \<in> set (resource_mounts st1). rt_monitored_host m \<noteq> host} = {m \<in> set (resource_mounts st). rt_monitored_host m \<noteq> host}"
  using assms(1,3)
proof (induction rows arbitrary: st seen skipped)
  case Nil
  then show ?case by (simp add: reported_mounts_def)
next
  case (Cons entry rows)
  show ?case
  proof (cases "\<exists>row. entry = Some row \<and> truthy (dk_mount_point row)")
    case True
    then obtain row where row: "entry = Some row" "truthy (dk_mount_point row)" by blast
    let ?mp = "opt_str (dk_mount_point row)" and ?st' = "snd (upsert_resource_mount re host g (Some row) st)"
    note eff = upsert_resource_mount_effect [OF Cons.prems(1) assms(2) row(2) refl refl refl, of host g]
    obtain seen' where rest: "each_row title (upsert_resource_mount re host g) rows ?st' = (seen', skipped, st1)" and seen: "seen = ?mp # seen'"
      using Cons.prems(2) row eff(1) by (auto split: prod.splits option.splits)
    from Cons.IH [OF eff(2) rest] have IH: "mounts_inv st1" "set seen' = reported_mounts rows"
      "{rt_mount_point m |m. m \<in> set (resource_mounts st1) \<and> rt_monitored_host m = host} =
         {rt_mount_point m |m. m \<in> set (resource_mounts ?st') \<and> rt_monitored_host m = host} \<union> set seen'"
      "{m \<in> set (resource_mounts st1). rt_monitored_host m \<noteq> host} = {m \<in> set (resource_mounts ?st'). rt_monitored_host m \<noteq> host}" by blast+
    have "set seen = reported_mounts (entry # rows)" using IH(2) row by (auto simp: seen reported_mounts_def)
    moreover have "{rt_mount_point m |m. m \<in> set (resource_mounts ?st') \<and> rt_monitored_host m = host} =
        insert ?mp {rt_mount_point m |m. m \<in> set (resource_mounts st) \<and> rt_monitored_host m = host}"
      unfolding eff(3) by (rule replaced_points) (simp_all add: judged_mount_fields)
    moreover have "{m \<in> set (resource_mounts ?st'). rt_monitored_host m \<noteq> host} = {m \<in> set (resource_mounts st). rt_monitored_host m \<noteq> host}"
      unfolding eff(3) using judged_mount_fields(2) [of re host row st] by auto
    ultimately show ?thesis using IH seen by auto
  next
    case False
    then have "upsert_resource_mount re host g entry st = (None, st)" by (auto simp: upsert_resource_mount_def split: option.splits)
    then obtain k where rest: "each_row title (upsert_resource_mount re host g) rows (log_error title st) = (seen, k, st1)"
      using Cons.prems(2) by (auto split: prod.splits)
    have "reported_mounts (entry # rows) = reported_mounts rows" using False by (auto simp: reported_mounts_def)
    then show ?thesis using Cons.IH [OF _ rest] Cons.prems(1) by simp
  qed
qed

lemma delete_stale_inv: "mounts_inv st \<Longrightarrow> mounts_inv (delete_stale_resource_mounts host seen st)"
  by (auto simp: mounts_inv_def delete_stale_resource_mounts_def list_all_iff distinct_map_filter mount_in_step_def)

text \<open>C30: After the disks of a report are processed every mount is in step with its alerts, and the mounts of the host are
  exactly the reported ones; when no row of the report can be used nothing is removed. Other hosts keep their mounts.\<close>

theorem mounts_mirror_report:
  fixes st :: "'a resource_db_scheme"
  assumes "mounts_inv st" and "fresh_names re" and "st' = snd (process_disks re host g rows st)"
  shows "mounts_inv st' \<and>
    {rt_mount_point m |m. m \<in> set (resource_mounts st') \<and> rt_monitored_host m = host} =
      (if reported_mounts rows = {} then {rt_mount_point m |m. m \<in> set (resource_mounts st) \<and> rt_monitored_host m = host} else reported_mounts rows) \<and>
    {m \<in> set (resource_mounts st'). rt_monitored_host m \<noteq> host} = {m \<in> set (resource_mounts st). rt_monitored_host m \<noteq> host}"
proof -
  obtain seen skipped st1 where e: "each_row (''Host Health: malformed disk row from '' @ host) (upsert_resource_mount re host g) rows st = (seen, skipped, st1)"
    by (metis prod.collapse)
  from each_mount_effect [OF assms(1,2) e] have eff: "mounts_inv st1" "set seen = reported_mounts rows"
    "{rt_mount_point m |m. m \<in> set (resource_mounts st1) \<and> rt_monitored_host m = host} =
      {rt_mount_point m |m. m \<in> set (resource_mounts st) \<and> rt_monitored_host m = host} \<union> set seen"
    "{m \<in> set (resource_mounts st1). rt_monitored_host m \<noteq> host} = {m \<in> set (resource_mounts st). rt_monitored_host m \<noteq> host}" by blast+
  have st': "st' = (if seen = [] then st1 else delete_stale_resource_mounts host seen st1)" using e by (simp add: assms(3) process_disks_def)
  show ?thesis
  proof (cases "seen = []")
    case True
    then have "reported_mounts rows = {}" using eff(2) by simp
    then show ?thesis using eff True by (simp add: st')
  next
    case False
    let ?A = "{rt_mount_point m |m. m \<in> set (resource_mounts st1) \<and> rt_monitored_host m = host}"
    have ne: "reported_mounts rows \<noteq> {}" using False eff(2) by (metis set_empty)
    have ms: "set (resource_mounts st') = {m \<in> set (resource_mounts st1). rt_monitored_host m \<noteq> host \<or> rt_mount_point m \<in> set seen}"
      using False by (auto simp: st' delete_stale_resource_mounts_def)
    have "{rt_mount_point m |m. m \<in> set (resource_mounts st') \<and> rt_monitored_host m = host} = ?A \<inter> set seen" unfolding ms by blast
    also have "\<dots> = set seen" unfolding eff(3) by blast
    finally have "{rt_mount_point m |m. m \<in> set (resource_mounts st') \<and> rt_monitored_host m = host} = reported_mounts rows" unfolding eff(2) .
    moreover have "{m \<in> set (resource_mounts st'). rt_monitored_host m \<noteq> host} = {m \<in> set (resource_mounts st). rt_monitored_host m \<noteq> host}"
      unfolding ms eff(4) [symmetric] by blast
    moreover have "mounts_inv st'" using False eff(1) by (simp add: st' delete_stale_inv)
    ultimately show ?thesis using ne by simp
  qed
qed

text \<open>A disk row of another mount point leaves a mount alone.\<close>

lemma upsert_other_mount:
  fixes st :: "'a resource_db_scheme"
  assumes "mounts_inv st" and "fresh_names re" and "m \<in> set (resource_mounts st)"
    and "rt_monitored_host m = host" and "rt_mount_point m \<notin> reported_mounts [entry]"
  shows "m \<in> set (resource_mounts (snd (upsert_resource_mount re host g entry st)))"
  using assms
proof (cases "\<exists>row. entry = Some row \<and> truthy (dk_mount_point row)")
  case True
  then obtain row where row: "entry = Some row" "truthy (dk_mount_point row)" by blast
  note eff = upsert_resource_mount_effect [OF assms(1,2) row(2) refl refl refl, of host g]
  have "rt_mount_point m \<noteq> opt_str (dk_mount_point row)" using assms(5) row by (auto simp: reported_mounts_def)
  then show ?thesis using eff(3) assms(3) row(1) by simp
qed (auto simp: upsert_resource_mount_def split: option.splits)

lemma upsert_mounts_inv:
  fixes st :: "'a resource_db_scheme"
  assumes "mounts_inv st" and "fresh_names re"
  shows "mounts_inv (snd (upsert_resource_mount re host g entry st))"
proof (cases "\<exists>row. entry = Some row \<and> truthy (dk_mount_point row)")
  case True
  then obtain row where row: "entry = Some row" "truthy (dk_mount_point row)" by blast
  show ?thesis using upsert_resource_mount_effect(2) [OF assms row(2) refl refl refl, of host g] row(1) by simp
next
  case False
  then have "upsert_resource_mount re host g entry st = (None, st)" by (auto simp: upsert_resource_mount_def split: option.splits)
  then show ?thesis using assms(1) by simp
qed

lemma each_mount_kept:
  fixes st :: "'a resource_db_scheme"
  assumes "mounts_inv st" and "fresh_names re" and "m \<in> set (resource_mounts st)" and "rt_monitored_host m = host"
    and "rt_mount_point m \<notin> reported_mounts rows"
    and "each_row title (upsert_resource_mount re host g) rows st = (seen, skipped, st1)"
  shows "m \<in> set (resource_mounts st1)"
  using assms(1,3,5,6)
proof (induction rows arbitrary: st seen skipped)
  case (Cons entry rows)
  have rep: "rt_mount_point m \<notin> reported_mounts [entry]" "rt_mount_point m \<notin> reported_mounts rows"
    using Cons.prems(3) by (auto simp: reported_mounts_def)
  let ?st' = "snd (upsert_resource_mount re host g entry st)"
  have kept: "m \<in> set (resource_mounts ?st')" by (rule upsert_other_mount [OF Cons.prems(1) assms(2) Cons.prems(2) assms(4) rep(1)])
  have inv: "mounts_inv ?st'"
    by (rule upsert_mounts_inv [OF Cons.prems(1) assms(2)])
  show ?case
  proof (cases "fst (upsert_resource_mount re host g entry st)")
    case None
    then obtain k where "each_row title (upsert_resource_mount re host g) rows (log_error title ?st') = (seen, k, st1)"
      using Cons.prems(4) by (auto split: prod.splits)
    then show ?thesis using Cons.IH [OF _ _ rep(2)] inv kept by (metis mounts_log_error)
  next
    case (Some b)
    then obtain seen' where "each_row title (upsert_resource_mount re host g) rows ?st' = (seen', skipped, st1)"
      using Cons.prems(4) by (auto split: prod.splits)
    then show ?thesis using Cons.IH [OF inv kept rep(2)] by blast
  qed
qed simp

text \<open>A known defect. A mount that is critical when it disappears from the report is deleted, and its Critical Resource
  alert stays open: nothing resolves it, and no later report has a row for it.\<close>

theorem unmounted_disk_keeps_alert:
  fixes st :: "'a resource_db_scheme"
  assumes "mounts_inv st" and "fresh_names re" and "st' = snd (process_disks re host g rows st)"
    and "m \<in> set (resource_mounts st)" and "rt_monitored_host m = host" and "is_critical m"
    and "rt_mount_point m \<notin> reported_mounts rows" and "reported_mounts rows \<noteq> {}"
  shows "m \<notin> set (resource_mounts st') \<and> open_alerts_of st' (mount_critical_key (rt_name m)) = 1"
proof -
  obtain seen skipped st1 where e: "each_row (''Host Health: malformed disk row from '' @ host) (upsert_resource_mount re host g) rows st = (seen, skipped, st1)"
    by (metis prod.collapse)
  from each_mount_effect [OF assms(1,2) e] have eff: "mounts_inv st1" "set seen = reported_mounts rows" by blast+
  have ne: "seen \<noteq> []" using assms(8) eff(2) by auto
  have st': "st' = delete_stale_resource_mounts host seen st1" using e ne by (simp add: assms(3) process_disks_def)
  have "m \<in> set (resource_mounts st1)" by (rule each_mount_kept [OF assms(1,2,4,5,7) e])
  then have "mount_in_step st1 m" using eff(1) by (simp add: mounts_inv_def list_all_iff)
  moreover have "open_alerts_of st' k = open_alerts_of st1 k" for k by (simp add: st' delete_stale_resource_mounts_def)
  moreover have "m \<notin> set (resource_mounts st')" using assms(5,7) eff(2) by (auto simp: st' delete_stale_resource_mounts_def)
  ultimately show ?thesis using assms(6) by (simp add: mount_in_step_def)
qed

subsection \<open>Load\<close>

abbreviation load_key :: "string \<Rightarrow> alert_key" where "load_key n \<equiv> (''Monitored Host'', n, ''High Load Average'')"

text \<open>A host whose last \<open>k\<close> load readings reached the critical line, stored up to time \<open>t\<close>, with flag and alert in step.\<close>

definition load_at :: "string \<Rightarrow> resource_monitor_settings \<Rightarrow> nat \<Rightarrow> datetime \<Rightarrow> 'a resource_db_scheme \<Rightarrow> bool" where
  "load_at host cfg k t st \<longleftrightarrow>
     alert_inv st \<and> resource_monitor_settings st = cfg \<and>
     (case find_row mh_name host (monitored_hosts st) of
        None \<Rightarrow> False
      | Some h \<Rightarrow> mh_load_average_critical h = (int k \<ge> resource_checks cfg) \<and>
          open_alerts_of st (load_key host) = (if mh_load_average_critical h then 1 else 0)) \<and>
     (case prior_metric host st of None \<Rightarrow> k = 0 | Some m \<Rightarrow> rm_load_critical_streak m = int k) \<and>
     list_all (\<lambda>m. rm_monitored_host m = host \<longrightarrow> rm_collected_at m \<le> t) (resource_metrics st)"

lemma metrics_update_alerts [simp]:
  "alert_inv (st\<lparr>resource_metrics := x\<rparr>) = alert_inv st" "open_alerts_of (st\<lparr>resource_metrics := x\<rparr>) k = open_alerts_of st k"
  by (simp_all add: alert_inv_def open_alerts_of_def)

lemma store_load_step:
  fixes st :: "'a resource_db_scheme"
  assumes at: "load_at host cfg k t st" and later: "t \<le> clock pe"
  shows "load_at host cfg (if of_int (critical_percent (load_thresholds cfg)) \<le> load_percent ld then Suc k else 0) (clock pe)
    (snd (store_load_swap pe host g (Some ld) (Some sw) st))"
proof -
  let ?k = "if of_int (critical_percent (load_thresholds cfg)) \<le> load_percent ld then Suc k else 0"
  obtain h where h: "find_row mh_name host (monitored_hosts st) = Some h" "mh_load_average_critical h = (int k \<ge> resource_checks cfg)"
    "open_alerts_of st (load_key host) = (if mh_load_average_critical h then 1 else 0)"
    using at by (auto simp: load_at_def split: option.splits)
  have inv: "alert_inv st" and cfg: "resource_monitor_settings st = cfg" using at by (auto simp: load_at_def)
  define row c s where "row = metric_row pe host ld sw st" and "c = fst (fst (load_verdict host ld st))" and "s = fst (swap_verdict host sw st)"
  have up: "upsert_resource_metrics pe host ld sw st = ((c, s), st\<lparr>resource_metrics := resource_metrics st @ [row]\<rparr>)"
    by (simp add: upsert_resource_metrics_def row_def c_def s_def)
  have "opt_int (critical_streak (streak_holder rm_load_warning_streak rm_load_critical_streak (prior_metric host st))) = int k"
    using at by (auto simp: load_at_def streak_holder_def split: option.splits)
  then have verdict: "opt_int (critical_streak (snd (load_verdict host ld st))) = int ?k" "c = (int ?k \<ge> confirmation_checks (load_thresholds cfg))"
    by (auto simp: c_def load_verdict_def track_severity_def Let_def cfg)
  have c: "c = (int ?k \<ge> resource_checks cfg)" using verdict(2) by (simp add: load_thresholds_def)
  have row: "rm_monitored_host row = host" "rm_collected_at row = clock pe" "rm_load_critical_streak row = int ?k"
    using verdict(1) by (simp_all add: row_def metric_row_def Let_def)
  let ?s1 = "set_host host (\<lambda>h. h\<lparr>mh_load_average_critical := c, mh_swap_critical := s\<rparr>) (st\<lparr>resource_metrics := resource_metrics st @ [row]\<rparr>)"
  obtain ml rl ms rs where st': "snd (store_load_swap pe host g (Some ld) (Some sw) st) =
      handle_transition (base_env pe) (mh_swap_critical h) s ''Monitored Host'' host ''High Swap Usage'' ms rs g
        (handle_transition (base_env pe) (mh_load_average_critical h) c ''Monitored Host'' host ''High Load Average'' ml rl g ?s1)"
    by (simp add: store_load_swap_def Let_def h(1) up)
  let ?s2 = "handle_transition (base_env pe) (mh_load_average_critical h) c ''Monitored Host'' host ''High Load Average'' ml rl g ?s1"
  let ?st' = "snd (store_load_swap pe host g (Some ld) (Some sw) st)"
  have i1: "alert_inv ?s1" using inv by simp
  have i2: "alert_inv ?s2" using i1 by (rule handle_transition_inv)
  have "open_alerts_of ?s2 (load_key host) = (if c then 1 else 0)" using h(3) by (intro flag_transition i1) simp
  then have "open_alerts_of ?st' (load_key host) = (if c then 1 else 0)" unfolding st' by (subst handle_transition_other [OF i2]) simp_all
  moreover have "alert_inv ?st'" unfolding st' using i2 by (rule handle_transition_inv)
  moreover have "find_row mh_name host (monitored_hosts ?st') = Some (h\<lparr>mh_load_average_critical := c, mh_swap_critical := s\<rparr>)"
    by (simp add: st' find_set_host h(1))
  moreover have m: "resource_metrics ?st' = resource_metrics st @ [row]" "resource_monitor_settings ?st' = cfg"
    by (simp_all add: st' set_host_def cfg)
  moreover have "prior_metric host ?st' = Some row"
  proof -
    have "newest_by rm_collected_at None (filter (\<lambda>m. rm_monitored_host m = host) (resource_metrics st)) = Some b \<Longrightarrow> rm_collected_at b \<le> clock pe" for b
      using newest_by_mem [of rm_collected_at None _ b] at later by (fastforce simp: load_at_def list_all_iff)
    then show ?thesis by (auto simp: prior_metric_def m row newest_by_snoc split: option.splits)
  qed
  moreover have "list_all (\<lambda>x. rm_monitored_host x = host \<longrightarrow> rm_collected_at x \<le> clock pe) (resource_metrics ?st')"
    using at later row by (auto simp: m load_at_def list_all_iff)
  ultimately show ?thesis using c row(3) by (simp add: load_at_def)
qed

fun load_reports :: "string \<Rightarrow> bool \<Rightarrow> (poll_env \<times> load_report \<times> swap_report) list \<Rightarrow> 'a resource_db_scheme \<Rightarrow> 'a resource_db_scheme" where
  "load_reports host g [] st = st"
| "load_reports host g ((pe, ld, sw) # rs) st = load_reports host g rs (snd (store_load_swap pe host g (Some ld) (Some sw) st))"

fun in_time_order :: "datetime \<Rightarrow> (poll_env \<times> 'x) list \<Rightarrow> bool" where
  "in_time_order t [] \<longleftrightarrow> True"
| "in_time_order t ((pe, x) # rs) \<longleftrightarrow> t \<le> clock pe \<and> in_time_order (clock pe) rs"

lemma load_reports_at:
  fixes st :: "'a resource_db_scheme"
  assumes "load_at host cfg (run_length limit vs) t st" and "in_time_order t rs" and "limit = critical_percent (load_thresholds cfg)"
  shows "\<exists>t'. load_at host cfg (run_length limit (vs @ map (\<lambda>(pe, ld, sw). load_percent ld) rs)) t' (load_reports host g rs st)"
  using assms(1,2)
proof (induction rs arbitrary: st vs t)
  case (Cons x rs)
  obtain pe ld sw where x: "x = (pe, ld, sw)" by (cases x)
  from store_load_step [OF Cons.prems(1), of pe ld g sw] Cons.prems(2) x assms(3)
  have "load_at host cfg (run_length limit (vs @ [load_percent ld])) (clock pe) (snd (store_load_swap pe host g (Some ld) (Some sw) st))" by (simp split: if_splits)
  from Cons.IH [OF this] Cons.prems(2) x show ?case by simp
qed auto

text \<open>Over any series of polls in time order, a host that starts without readings has its High Load Average flag set, and exactly
  one such alert open, exactly when its last \<open>confirmation_checks\<close> load readings per core all reached the critical line.\<close>

theorem load_alert_exact:
  fixes st :: "'a resource_db_scheme"
  assumes "alert_inv st" and "find_row mh_name host (monitored_hosts st) = Some h" and "\<not> mh_load_average_critical h"
    and "open_alerts_of st (load_key host) = 0" and "list_all (\<lambda>m. rm_monitored_host m \<noteq> host) (resource_metrics st)"
    and "cfg = resource_monitor_settings st" and "resource_checks cfg = int n" and "0 < n" and "in_time_order t rs"
    and "readings = map (\<lambda>(pe, ld, sw). load_percent ld) rs" and "st' = load_reports host g rs st"
  shows "\<exists>h'. find_row mh_name host (monitored_hosts st') = Some h' \<and>
    mh_load_average_critical h' = sustained n (critical_percent (load_thresholds cfg)) readings \<and>
    open_alerts_of st' (load_key host) = (if mh_load_average_critical h' then 1 else 0)"
proof -
  have "filter (\<lambda>m. rm_monitored_host m = host) (resource_metrics st) = []" using assms(5) by (auto simp: filter_empty_conv list_all_iff)
  then have "load_at host cfg (run_length (critical_percent (load_thresholds cfg)) []) t st"
    using assms(1-8) by (auto simp: load_at_def prior_metric_def list_all_iff)
  from load_reports_at [OF this assms(9) refl, of g]
  obtain t' where "load_at host cfg (run_length (critical_percent (load_thresholds cfg)) readings) t' st'" by (auto simp: assms(10,11))
  then show ?thesis by (auto simp: load_at_def sustained_iff_run_length assms(7) split: option.splits)
qed

subsection \<open>A host with a full disk\<close>

definition demo_mount :: resource_mount where
  "demo_mount = \<lparr>warning_streak = Some 3, critical_streak = Some 3, is_critical = True, rt_name = ''m1'', rt_monitored_host = ''web1'', rt_mount_point = ''/data'',
     rt_is_warning = False, rt_fstype = None, rt_used_gb = 95, rt_total_gb = 100, rt_usage_percent = 95, rt_inodes_used = None, rt_inodes_total = None,
     rt_inode_usage_percent = None, rt_last_synced = None\<rparr>"

definition demo_resource_db :: resource_db where
  "demo_resource_db = status_db.extend (demo_status_db\<lparr>monitored_hosts := [demo_host],
       alert_log := [(demo_alert ''Critical Resource'' 900)\<lparr>reference_doctype := ''Resource Mount'', reference_name := ''m1''\<rparr>]\<rparr>)
     \<lparr>resource_metrics = [], resource_mounts = [demo_mount], disk_samples = [],
      resource_monitor_settings = \<lparr>rs_confirmation_checks = Some 2, rs_load_warning_percent = None, rs_load_critical_percent = None, rs_swap_warning_percent = None,
        rs_swap_critical_percent = None, rs_disk_warning_percent = None, rs_disk_critical_percent = None\<rparr>\<rparr>"

definition demo_disk :: disk_report where
  "demo_disk = \<lparr>dk_mount_point = Some ''/'', dk_fstype = Some ''ext4'', dk_used_bytes = Some 10, dk_total_bytes = Some 100, dk_inodes_used = None, dk_inodes_total = None\<rparr>"

lemma demo_mounts_inv: "mounts_inv demo_resource_db"
  by code_simp

lemma demo_reported: "reported_mounts [Some demo_disk] = {''/''}"
  by (auto simp: reported_mounts_def demo_disk_def truthy_def)

theorem mounts_mirror_report_witness:
  "{rt_mount_point m |m. m \<in> set (resource_mounts (snd (process_disks demo_report_env ''web1'' True [Some demo_disk] demo_resource_db))) \<and>
      rt_monitored_host m = ''web1''} = {''/''}"
  using mounts_mirror_report [OF demo_mounts_inv demo_fresh refl, of "''web1''" True "[Some demo_disk]"] by (simp add: demo_reported)

theorem unmounted_disk_keeps_alert_witness:
  "open_alerts_of (snd (process_disks demo_report_env ''web1'' True [Some demo_disk] demo_resource_db)) (mount_critical_key ''m1'') = 1"
proof -
  have m: "demo_mount \<in> set (resource_mounts demo_resource_db)" by (simp add: demo_resource_db_def status_db.defs)
  have f: "rt_monitored_host demo_mount = ''web1''" "is_critical demo_mount" "rt_mount_point demo_mount \<notin> reported_mounts [Some demo_disk]"
    "reported_mounts [Some demo_disk] \<noteq> {}" "rt_name demo_mount = ''m1''" by (simp_all add: demo_reported) (simp_all add: demo_mount_def)
  from unmounted_disk_keeps_alert [OF demo_mounts_inv demo_fresh refl m f(1-4), of True] f(5) show ?thesis by simp
qed

end
