(* ===== verification/Host_Performance.thy ===== *)
theory Host_Performance
  imports Host_Status
begin

text \<open>
  The performance part of \<open>host_health/ingest.py\<close>: memory, disk I/O, MariaDB and Redis. Counters arrive as running totals and
  are turned into rates against the sample stored before; a reset, a restart or a gap in polling gives no rate at all. A report is
  a dictionary of numbers and texts; subtracting a text raises, which drops that part of the report.
\<close>

datatype json_val = Num rat | Txt string | Null

type_synonym dict = "(string \<times> json_val) list"

text \<open>From outside: the clock, Frappe's reading of a text as a number, what a column gives back for the value stored in it, and the
  digest of the settings.\<close>

record perf_env =
  pf_now :: datetime
  pf_flt :: "string \<Rightarrow> rat"
  pf_column :: "json_val option \<Rightarrow> json_val option"
  pf_digest :: "dict \<Rightarrow> string"

fun flt_val :: "perf_env \<Rightarrow> json_val option \<Rightarrow> rat" where
  "flt_val pf None = 0"
| "flt_val pf (Some (Num r)) = r"
| "flt_val pf (Some (Txt s)) = pf_flt pf s"
| "flt_val pf (Some Null) = 0"

definition cint_val :: "perf_env \<Rightarrow> json_val option \<Rightarrow> rat" where
  "cint_val pf v = (let r = flt_val pf v in of_int (if r \<ge> 0 then \<lfloor>r\<rfloor> else \<lceil>r\<rceil>))"

definition get :: "dict \<Rightarrow> string \<Rightarrow> json_val option" where
  "get d k = (case map_of d k of Some Null \<Rightarrow> None | v \<Rightarrow> v)"

definition num_of :: "perf_env \<Rightarrow> dict \<Rightarrow> string \<Rightarrow> rat option" where
  "num_of pf d k = (case get d k of None \<Rightarrow> None | Some (Txt []) \<Rightarrow> None | v \<Rightarrow> Some (flt_val pf v))"

subsection \<open>Counters into rates\<close>

definition MAX_RATE_GAP_SECONDS :: rat where "MAX_RATE_GAP_SECONDS = 900"
definition MIN_RATE_GAP_SECONDS :: rat where "MIN_RATE_GAP_SECONDS = 5"
definition MAX_IO_DEVICES_STORED :: nat where "MAX_IO_DEVICES_STORED = 6"
definition IO_HISTORY_LOOKBACK_MINUTES :: int where "IO_HISTORY_LOOKBACK_MINUTES = 15"
definition SECTOR_BYTES :: rat where "SECTOR_BYTES = 512"
definition MB :: rat where "MB = 1048576"

fun counter_delta :: "json_val option \<Rightarrow> json_val option \<Rightarrow> rat option" where
  "counter_delta (Some (Num c)) (Some (Num p)) = (if c - p \<ge> 0 then Some (c - p) else None)"
| "counter_delta _ _ = None"

text \<open>Where the subtraction raises instead: both values are there and one is a text.\<close>

definition is_text :: "json_val option \<Rightarrow> bool" where
  "is_text v \<longleftrightarrow> (case v of Some (Txt s) \<Rightarrow> True | _ \<Rightarrow> False)"

definition is_missing :: "json_val option \<Rightarrow> bool" where
  "is_missing v \<longleftrightarrow> (case v of None \<Rightarrow> True | Some Null \<Rightarrow> True | _ \<Rightarrow> False)"

definition delta_raises :: "json_val option \<Rightarrow> json_val option \<Rightarrow> bool" where
  "delta_raises current previous \<longleftrightarrow> \<not> is_missing current \<and> \<not> is_missing previous \<and> (is_text current \<or> is_text previous)"

definition per_second :: "rat option \<Rightarrow> rat option \<Rightarrow> rat option" where
  "per_second delta seconds =
     (case (delta, seconds) of (Some d, Some s) \<Rightarrow> if s = 0 then None else Some (py_round_nd 2 (d / s)) | _ \<Rightarrow> None)"

definition gap_seconds :: "datetime option \<Rightarrow> datetime \<Rightarrow> rat option" where
  "gap_seconds previous_at now =
     (case previous_at of
        None \<Rightarrow> None
      | Some t \<Rightarrow> let s = of_int (now - t) / of_int SECOND
                 in if MIN_RATE_GAP_SECONDS \<le> s \<and> s \<le> MAX_RATE_GAP_SECONDS then Some s else None)"

definition ratio_percent :: "rat \<Rightarrow> rat option \<Rightarrow> rat option" where
  "ratio_percent part whole = (case whole of None \<Rightarrow> None | Some w \<Rightarrow> if w = 0 then None else Some (py_round_nd 2 (part / w * 100)))"

subsection \<open>Memory\<close>

record memory_metric =
  mm_monitored_host :: string
  mm_collected_at :: datetime
  mm_mem_used_percent :: "rat option"
  mm_swap_in_per_s :: "rat option"
  mm_swap_out_per_s :: "rat option"
  mm_oom_kills_since_last :: rat
  mm_cgroup_oom_kills_since_last :: rat
  mm_cpu_throttled_percent :: "rat option"
  mm_rates_valid :: bool
  mm_pswpin_total :: "json_val option"
  mm_pswpout_total :: "json_val option"
  mm_oom_kill_total :: "json_val option"
  mm_cgroup_oom_kill_total :: "json_val option"
  mm_throttled_usec_total :: "json_val option"
  mm_readings :: "(string \<times> json_val option) list"
  mm_top_processes :: "string list option"

record memory_report =
  mp_memory :: dict
  mp_pressure :: dict
  mp_cgroup :: dict
  mp_counters :: dict
  mp_top_processes :: "string list"

text \<open>The readings stored as they come: column, and where it is read from.\<close>

definition raw_readings :: "perf_env \<Rightarrow> memory_report \<Rightarrow> (string \<times> json_val option) list" where
  "raw_readings pf r =
     [(''mem_total_mb'', Some (Num (flt_val pf (get (mp_memory r) ''total_mb'')))), (''mem_available_mb'', Some (Num (flt_val pf (get (mp_memory r) ''available_mb''))))] @
     map (\<lambda>k. (k, get (mp_memory r) k)) [''cached_mb'', ''buffers_mb'', ''slab_mb'', ''dirty_mb'', ''writeback_mb'', ''swap_total_mb'', ''swap_used_mb''] @
     [(''cgroup_mem_limit_mb'', get (mp_cgroup r) ''mem_limit_mb''), (''cgroup_mem_current_mb'', get (mp_cgroup r) ''mem_current_mb''),
      (''cpu_limit_cores'', get (mp_cgroup r) ''cpu_limit_cores''), (''nr_throttled_total'', get (mp_cgroup r) ''nr_throttled_total''),
      (''psi_cpu_some'', get (mp_pressure r) ''cpu_some_avg10''), (''psi_memory_some'', get (mp_pressure r) ''memory_some_avg10''),
      (''psi_memory_full'', get (mp_pressure r) ''memory_full_avg10''), (''psi_io_some'', get (mp_pressure r) ''io_some_avg10''),
      (''psi_io_full'', get (mp_pressure r) ''io_full_avg10'')]"

definition or_zero :: "rat option \<Rightarrow> rat" where
  "or_zero v = (case v of None \<Rightarrow> 0 | Some r \<Rightarrow> r)"

definition memory_row :: "perf_env \<Rightarrow> string \<Rightarrow> memory_report \<Rightarrow> memory_metric option \<Rightarrow> memory_metric" where
  "memory_row pf host r previous =
     (let gap = gap_seconds (map_option mm_collected_at previous) (pf_now pf);
          prev = (\<lambda>f. if gap = None then None else case previous of None \<Rightarrow> None | Some p \<Rightarrow> f p);
          pswpin = get (mp_counters r) ''pswpin''; pswpout = get (mp_counters r) ''pswpout''; oom = get (mp_counters r) ''oom_kill'';
          cgroup_oom = get (mp_cgroup r) ''oom_kill_total''; throttled_total = get (mp_cgroup r) ''throttled_usec_total'';
          swap_in = counter_delta pswpin (prev mm_pswpin_total); swap_out = counter_delta pswpout (prev mm_pswpout_total);
          throttled = counter_delta throttled_total (prev mm_throttled_usec_total);
          mem = flt_val pf (get (mp_memory r) ''total_mb''); available = flt_val pf (get (mp_memory r) ''available_mb'')
      in \<lparr>mm_monitored_host = host, mm_collected_at = pf_now pf,
          mm_mem_used_percent = (if mem = 0 then None else Some (py_round_nd 1 ((mem - available) / mem * 100))),
          mm_swap_in_per_s = per_second swap_in gap, mm_swap_out_per_s = per_second swap_out gap,
          mm_oom_kills_since_last = or_zero (counter_delta oom (prev mm_oom_kill_total)),
          mm_cgroup_oom_kills_since_last = or_zero (counter_delta cgroup_oom (prev mm_cgroup_oom_kill_total)),
          mm_cpu_throttled_percent = (case (throttled, gap) of (Some d, Some g) \<Rightarrow> Some (py_round_nd 1 (min 100 (d / (g * 1000000) * 100))) | _ \<Rightarrow> None),
          mm_rates_valid = (gap \<noteq> None \<and> swap_in \<noteq> None \<and> swap_out \<noteq> None),
          mm_pswpin_total = pf_column pf pswpin, mm_pswpout_total = pf_column pf pswpout, mm_oom_kill_total = pf_column pf oom,
          mm_cgroup_oom_kill_total = pf_column pf cgroup_oom, mm_throttled_usec_total = pf_column pf throttled_total, mm_readings = raw_readings pf r,
          mm_top_processes = (if mp_top_processes r = [] then None else Some (mp_top_processes r))\<rparr>)"

text \<open>A text among the counters that are subtracted raises.\<close>

definition memory_raises :: "perf_env \<Rightarrow> memory_report \<Rightarrow> memory_metric option \<Rightarrow> bool" where
  "memory_raises pf r previous \<longleftrightarrow>
     (case previous of
        None \<Rightarrow> False
      | Some p \<Rightarrow> gap_seconds (Some (mm_collected_at p)) (pf_now pf) \<noteq> None \<and>
          (delta_raises (get (mp_counters r) ''pswpin'') (mm_pswpin_total p) \<or> delta_raises (get (mp_counters r) ''pswpout'') (mm_pswpout_total p) \<or>
           delta_raises (get (mp_counters r) ''oom_kill'') (mm_oom_kill_total p) \<or> delta_raises (get (mp_cgroup r) ''oom_kill_total'') (mm_cgroup_oom_kill_total p) \<or>
           delta_raises (get (mp_cgroup r) ''throttled_usec_total'') (mm_throttled_usec_total p)))"

subsection \<open>Disk I/O\<close>

definition IO_COUNTERS :: "(string \<times> string) list" where
  "IO_COUNTERS = [(''reads_total'', ''reads''), (''writes_total'', ''writes''), (''sectors_read_total'', ''sectors_read''),
     (''sectors_written_total'', ''sectors_written''), (''read_ms_total'', ''read_ms''), (''write_ms_total'', ''write_ms''),
     (''io_ms_total'', ''io_ms''), (''weighted_ms_total'', ''weighted_ms'')]"

record io_rates =
  ir_read_iops :: "rat option"
  ir_write_iops :: "rat option"
  ir_read_mb_s :: rat
  ir_write_mb_s :: rat
  ir_await_ms :: rat
  ir_util_percent :: rat
  ir_avg_queue :: rat

record io_sample =
  io_monitored_host :: string
  io_collected_at :: datetime
  io_device :: string
  io_in_flight :: "json_val option"
  io_counters :: dict
  io_rates :: "io_rates option"

text \<open>A device of the report: its name and its readings; an entry that is not a mapping is \<open>None\<close>.\<close>

type_synonym device_report = "(string option \<times> dict) option"

definition io_current :: "dict \<Rightarrow> dict" where
  "io_current dev = List.map_filter (\<lambda>(col, key). map_option (\<lambda>v. (col, v)) (get dev key)) IO_COUNTERS"

definition io_stored :: "perf_env \<Rightarrow> dict \<Rightarrow> dict" where
  "io_stored pf dev = List.map_filter (\<lambda>(col, key). map_option (\<lambda>v. (col, v)) (pf_column pf (get dev key))) IO_COUNTERS"

definition io_deltas :: "dict \<Rightarrow> dict \<Rightarrow> string \<Rightarrow> rat option" where
  "io_deltas current prev k = counter_delta (get current k) (get prev k)"

definition rates_of :: "(string \<Rightarrow> rat) \<Rightarrow> rat \<Rightarrow> io_rates" where
  "rates_of d gap =
     (let ops = d ''reads_total'' + d ''writes_total''
      in \<lparr>ir_read_iops = per_second (Some (d ''reads_total'')) (Some gap), ir_write_iops = per_second (Some (d ''writes_total'')) (Some gap),
          ir_read_mb_s = py_round_nd 2 (d ''sectors_read_total'' * SECTOR_BYTES / 1000000 / gap),
          ir_write_mb_s = py_round_nd 2 (d ''sectors_written_total'' * SECTOR_BYTES / 1000000 / gap),
          ir_await_ms = (if ops = 0 then 0 else py_round_nd 2 ((d ''read_ms_total'' + d ''write_ms_total'') / ops)),
          ir_util_percent = py_round_nd 1 (min 100 (d ''io_ms_total'' / (gap * 1000) * 100)),
          ir_avg_queue = py_round_nd 2 (d ''weighted_ms_total'' / (gap * 1000))\<rparr>)"

text \<open>What becomes of a device: a busy time and rates, a busy time only, or nothing.\<close>

datatype io_verdict = Rated rat io_rates | FirstSeen rat | Idle

definition judge_device :: "perf_env \<Rightarrow> io_sample option \<Rightarrow> dict \<Rightarrow> io_verdict" where
  "judge_device pf prev dev =
     (case (prev, gap_seconds (map_option io_collected_at prev) (pf_now pf)) of
        (Some p, Some gap) \<Rightarrow>
          (let d = io_deltas (io_current dev) (io_counters p); ops = or_zero (d ''reads_total'') + or_zero (d ''writes_total'')
           in if list_ex (\<lambda>c. d (fst c) = None) IO_COUNTERS then FirstSeen (flt_val pf (get dev ''io_ms''))
              else if ops = 0 \<and> or_zero (d ''io_ms_total'') = 0 then Idle
              else Rated (or_zero (d ''io_ms_total'')) (rates_of (or_zero \<circ> d) gap))
      | _ \<Rightarrow> FirstSeen (flt_val pf (get dev ''io_ms'')))"

record perf_db =
  memory_metrics :: "memory_metric list"
  io_samples :: "io_sample list"
  perf_errors :: "string list"

definition latest_sample :: "perf_env \<Rightarrow> string \<Rightarrow> string \<Rightarrow> 'a perf_db_scheme \<Rightarrow> io_sample option" where
  "latest_sample pf host device st =
     newest_by io_collected_at None (filter (\<lambda>s. io_monitored_host s = host \<and> io_device s = device \<and>
       io_collected_at s \<ge> pf_now pf - IO_HISTORY_LOOKBACK_MINUTES * MINUTE) (io_samples st))"

definition named_devices :: "device_report list \<Rightarrow> (string \<times> dict) list" where
  "named_devices devices = List.map_filter (\<lambda>e. case e of Some (Some n, d) \<Rightarrow> if n = [] then None else Some (n, d) | _ \<Rightarrow> None) devices"

definition rated_devices :: "perf_env \<Rightarrow> string \<Rightarrow> 'a perf_db_scheme \<Rightarrow> device_report list \<Rightarrow> (rat \<times> string \<times> dict \<times> io_rates) list" where
  "rated_devices pf host st devices =
     List.map_filter (\<lambda>(n, d). case judge_device pf (latest_sample pf host n st) d of Rated b r \<Rightarrow> Some (b, n, d, r) | _ \<Rightarrow> None) (named_devices devices)"

definition first_seen_devices :: "perf_env \<Rightarrow> string \<Rightarrow> 'a perf_db_scheme \<Rightarrow> device_report list \<Rightarrow> (rat \<times> string \<times> dict) list" where
  "first_seen_devices pf host st devices =
     List.map_filter (\<lambda>(n, d). case judge_device pf (latest_sample pf host n st) d of FirstSeen b \<Rightarrow> Some (b, n, d) | _ \<Rightarrow> None) (named_devices devices)"

text \<open>Busiest first; Python's sort with \<open>reverse=True\<close> keeps the order of equals.\<close>

definition chosen_devices :: "perf_env \<Rightarrow> string \<Rightarrow> 'a perf_db_scheme \<Rightarrow> device_report list \<Rightarrow> (string \<times> dict \<times> io_rates option) list" where
  "chosen_devices pf host st devices =
     (let rated = take MAX_IO_DEVICES_STORED (sort_key (\<lambda>t. - fst t) (rated_devices pf host st devices));
          room = MAX_IO_DEVICES_STORED - length rated
      in map (\<lambda>(b, n, d, r). (n, d, Some r)) rated @
         map (\<lambda>(b, n, d). (n, d, None)) (take room (sort_key (\<lambda>t. - fst t) (first_seen_devices pf host st devices))))"

definition io_row :: "perf_env \<Rightarrow> string \<Rightarrow> string \<times> dict \<times> io_rates option \<Rightarrow> io_sample" where
  "io_row pf host c = (case c of (n, d, r) \<Rightarrow>
     \<lparr>io_monitored_host = host, io_collected_at = pf_now pf, io_device = n, io_in_flight = get d ''in_flight'', io_counters = io_stored pf d, io_rates = r\<rparr>)"

definition io_raises :: "perf_env \<Rightarrow> string \<Rightarrow> 'a perf_db_scheme \<Rightarrow> device_report list \<Rightarrow> bool" where
  "io_raises pf host st devices \<longleftrightarrow> None \<in> set devices \<or>
     list_ex (\<lambda>(n, d). case latest_sample pf host n st of
        None \<Rightarrow> False
      | Some p \<Rightarrow> gap_seconds (Some (io_collected_at p)) (pf_now pf) \<noteq> None \<and>
          list_ex (\<lambda>c. delta_raises (get (io_current d) (fst c)) (get (io_counters p) (fst c))) IO_COUNTERS) (named_devices devices)"

definition store_io_samples :: "perf_env \<Rightarrow> string \<Rightarrow> device_report list \<Rightarrow> 'a perf_db_scheme \<Rightarrow> nat option \<times> 'a perf_db_scheme" where
  "store_io_samples pf host devices st =
     (if io_raises pf host st devices then (None, st)
      else (let chosen = chosen_devices pf host st devices
            in (Some (length chosen), st\<lparr>io_samples := io_samples st @ map (io_row pf host) chosen\<rparr>)))"

definition store_memory_sample :: "perf_env \<Rightarrow> string \<Rightarrow> memory_report option \<Rightarrow> 'a perf_db_scheme \<Rightarrow> bool \<times> 'a perf_db_scheme" where
  "store_memory_sample pf host rep st =
     (case rep of
        None \<Rightarrow> (False, st)
      | Some r \<Rightarrow>
          (let previous = newest_by mm_collected_at None (filter (\<lambda>m. mm_monitored_host m = host) (memory_metrics st))
           in if memory_raises pf r previous then (False, st)
              else (True, st\<lparr>memory_metrics := memory_metrics st @ [memory_row pf host r previous]\<rparr>)))"

record performance_report =
  pr_memory :: "memory_report option option"
  pr_io :: "device_report list option"

definition perf_error :: "string \<Rightarrow> 'a perf_db_scheme \<Rightarrow> 'a perf_db_scheme" where
  "perf_error title st = st\<lparr>perf_errors := perf_errors st @ [title]\<rparr>"

definition process_performance :: "perf_env \<Rightarrow> string \<Rightarrow> performance_report \<Rightarrow> 'a perf_db_scheme \<Rightarrow> (nat \<times> nat \<times> string list) \<times> 'a perf_db_scheme" where
  "process_performance pf host rp st =
     (let m = (case pr_memory rp of
                 None \<Rightarrow> (0, [], st)
               | Some rep \<Rightarrow>
                   (case store_memory_sample pf host rep st of
                      (True, st1) \<Rightarrow> (1, [], st1)
                    | (False, st1) \<Rightarrow> (0, [''skipped malformed memory payload''], perf_error (''Host Health: malformed memory payload from '' @ host) st1)));
          i = (case pr_io rp of
                 None \<Rightarrow> (0, [], snd (snd m))
               | Some devices \<Rightarrow>
                   (case store_io_samples pf host devices (snd (snd m)) of
                      (Some n, st1) \<Rightarrow> (n, [], st1)
                    | (None, st1) \<Rightarrow> (0, [''skipped malformed disk I/O payload''], perf_error (''Host Health: malformed disk I/O payload from '' @ host) st1)))
      in ((fst m, fst i, fst (snd m) @ fst (snd i)), snd (snd i)))"

subsection \<open>MariaDB\<close>

text \<open>The stored counters are JSON text; \<open>None\<close> stands for text that does not parse.\<close>

record mariadb_metric =
  md_monitored_host :: string
  md_collected_at :: datetime
  md_rates_valid :: bool
  md_uptime_s :: rat
  md_values :: "(string \<times> rat) list"
  md_raw_counters :: "dict option"

record mariadb_report =
  mr_status :: dict
  mr_variables :: dict
  mr_process :: dict
  mr_data :: dict
  mr_oldest_trx_s :: "rat option"
  mr_trx_count :: "rat option"
  mr_limited :: "string list"
  mr_sites_total :: "rat option"

record mariadb_snapshot =
  mc_monitored_host :: string
  mc_collected_at :: datetime
  mc_variables_hash :: "string option"
  mc_version :: "json_val option"
  mc_variables :: "dict option"
  mc_limited :: "string option"
  mc_sites_total :: "rat option"
  mc_sizes :: "dict option"

record redis_metric =
  rd_monitored_host :: string
  rd_instance :: string
  rd_collected_at :: datetime
  rd_rates_valid :: bool
  rd_uptime_s :: rat
  rd_values :: "(string \<times> rat) list"
  rd_texts :: dict
  rd_raw_counters :: "dict option"

record store_perf_db = perf_db +
  mariadb_metrics :: "mariadb_metric list"
  mariadb_snapshots :: "mariadb_snapshot list"
  redis_metrics :: "redis_metric list"

definition MARIADB_COUNTER_KEYS :: "string list" where
  "MARIADB_COUNTER_KEYS =
     [''Questions'', ''Slow_queries'', ''Connections'', ''Aborted_connects'', ''Aborted_clients'', ''Connection_errors_max_connections'',
      ''Innodb_buffer_pool_reads'', ''Innodb_buffer_pool_read_requests'', ''Innodb_buffer_pool_wait_free'', ''Innodb_buffer_pool_pages_flushed'',
      ''Innodb_data_reads'', ''Innodb_data_writes'', ''Innodb_data_fsyncs'', ''Innodb_log_waits'', ''Innodb_row_lock_waits'', ''Innodb_row_lock_time'',
      ''Innodb_deadlocks'', ''Created_tmp_disk_tables'', ''Created_tmp_tables'', ''Select_full_join'', ''Sort_merge_passes'', ''Opened_tables'',
      ''Table_locks_waited'']"

text \<open>Those that are subtracted: all but one.\<close>

definition MARIADB_DELTA_KEYS :: "string list" where
  "MARIADB_DELTA_KEYS = filter (\<lambda>k. k \<noteq> ''Aborted_clients'') MARIADB_COUNTER_KEYS"

definition MARIADB_SNAPSHOT_EVERY_SECONDS :: int where "MARIADB_SNAPSHOT_EVERY_SECONDS = 3600"

text \<open>Which sample the rates refer to: its counters and the time between, or nothing after a restart, a gap or unreadable counters.\<close>

definition usable_sample :: "datetime \<Rightarrow> rat \<Rightarrow> (datetime \<times> rat \<times> dict option) option \<Rightarrow> (dict \<times> rat) option" where
  "usable_sample now uptime previous =
     (case previous of
        None \<Rightarrow> None
      | Some (collected_at, prev_uptime, raw) \<Rightarrow>
          (case gap_seconds (Some collected_at) now of
             None \<Rightarrow> None
           | Some gap \<Rightarrow>
               if prev_uptime \<noteq> 0 \<and> uptime < prev_uptime then None
               else map_option (\<lambda>d. (d, gap)) raw))"

definition delta_to :: "(dict \<times> rat) option \<Rightarrow> dict \<Rightarrow> string \<Rightarrow> rat option" where
  "delta_to base d k = (case base of None \<Rightarrow> None | Some (prev, gap) \<Rightarrow> counter_delta (get d k) (get prev k))"

definition rate_to :: "(dict \<times> rat) option \<Rightarrow> dict \<Rightarrow> string \<Rightarrow> rat option" where
  "rate_to base d k = per_second (delta_to base d k) (map_option snd base)"

definition deltas_raise :: "(dict \<times> rat) option \<Rightarrow> dict \<Rightarrow> string list \<Rightarrow> bool" where
  "deltas_raise base d ks = (case base of None \<Rightarrow> False | Some (prev, gap) \<Rightarrow> list_ex (\<lambda>k. delta_raises (get d k) (get prev k)) ks)"

definition keep_known :: "(string \<times> 'v option) list \<Rightarrow> (string \<times> 'v) list" where
  "keep_known vs = List.map_filter (\<lambda>(k, v). map_option (\<lambda>r. (k, r)) v) vs"

definition raw_counters_of :: "string list \<Rightarrow> dict \<Rightarrow> dict" where
  "raw_counters_of ks d = List.map_filter (\<lambda>k. map_option (\<lambda>v. (k, v)) (map_of d k)) ks"

text \<open>The rates of a sample: column and counter.\<close>

definition MARIADB_RATES :: "(string \<times> string) list" where
  "MARIADB_RATES =
     [(''connections_per_s'', ''Connections''), (''aborted_connects_per_s'', ''Aborted_connects''), (''bp_disk_reads_per_s'', ''Innodb_buffer_pool_reads''),
      (''data_reads_per_s'', ''Innodb_data_reads''), (''data_writes_per_s'', ''Innodb_data_writes''), (''data_fsyncs_per_s'', ''Innodb_data_fsyncs''),
      (''pages_flushed_per_s'', ''Innodb_buffer_pool_pages_flushed''), (''row_lock_waits_per_s'', ''Innodb_row_lock_waits''),
      (''queries_per_s'', ''Questions''), (''slow_queries_per_s'', ''Slow_queries''), (''tmp_disk_per_s'', ''Created_tmp_disk_tables''),
      (''full_joins_per_s'', ''Select_full_join''), (''sort_merge_passes_per_s'', ''Sort_merge_passes''), (''table_opens_per_s'', ''Opened_tables''),
      (''table_locks_waited_per_s'', ''Table_locks_waited'')]"

definition mariadb_gauges :: "perf_env \<Rightarrow> mariadb_report \<Rightarrow> (string \<times> rat option) list" where
  "mariadb_gauges pf r =
     (let st = mr_status r; vs = mr_variables r; given = (\<lambda>k. map_option (\<lambda>v. flt_val pf (Some v)) (get (mr_process r) k)); c = (\<lambda>d k. Some (cint_val pf (get d k)));
          pages_total = num_of pf st ''Innodb_buffer_pool_pages_total'';
          in_mb = (\<lambda>k. case num_of pf vs k of None \<Rightarrow> None | Some b \<Rightarrow> if b = 0 then None else Some (py_round_nd 1 (b / MB)))
      in [(''threads_connected'', c st ''Threads_connected''), (''threads_running'', c st ''Threads_running''),
          (''max_used_connections'', c st ''Max_used_connections''), (''max_connections'', c vs ''max_connections''),
          (''bp_size_mb'', in_mb ''innodb_buffer_pool_size''),
          (''bp_data_mb'', if map_of st ''Innodb_buffer_pool_bytes_data'' = None then None
             else Some (py_round_nd 1 (flt_val pf (get st ''Innodb_buffer_pool_bytes_data'') / MB))),
          (''bp_dirty_percent'', ratio_percent (flt_val pf (get st ''Innodb_buffer_pool_pages_dirty'')) pages_total),
          (''bp_free_percent'', ratio_percent (flt_val pf (get st ''Innodb_buffer_pool_pages_free'')) pages_total),
          (''pending_reads'', c st ''Innodb_data_pending_reads''), (''pending_writes'', c st ''Innodb_data_pending_writes''),
          (''pending_fsyncs'', c st ''Innodb_data_pending_fsyncs''),
          (''checkpoint_age_percent'', ratio_percent (flt_val pf (get st ''Innodb_checkpoint_age'')) (num_of pf st ''Innodb_checkpoint_max_age'')),
          (''io_capacity'', c vs ''innodb_io_capacity''), (''io_capacity_max'', c vs ''innodb_io_capacity_max''),
          (''log_file_size_mb'', in_mb ''innodb_log_file_size''),
          (''history_list_length'', c st ''Innodb_history_list_length''), (''oldest_trx_s'', mr_oldest_trx_s r), (''trx_count'', mr_trx_count r),
          (''row_lock_current_waits'', c st ''Innodb_row_lock_current_waits''), (''open_files'', c st ''Open_files''),
          (''open_files_limit'', c vs ''open_files_limit''), (''open_tables'', c st ''Open_tables''),
          (''mariadbd_rss_mb'', given ''rss_mb''), (''mariadbd_swap_mb'', given ''swap_mb'')])"

definition mariadb_changes :: "(dict \<times> rat) option \<Rightarrow> dict \<Rightarrow> (string \<times> rat option) list" where
  "mariadb_changes base st =
     (let d = delta_to base st; count = (\<lambda>k. Some (or_zero (d k)))
      in [(''connection_limit_errors'', count ''Connection_errors_max_connections''), (''bp_wait_free'', count ''Innodb_buffer_pool_wait_free''),
          (''log_waits'', count ''Innodb_log_waits''), (''deadlocks'', count ''Innodb_deadlocks''),
          (''bp_hit_percent'', case (d ''Innodb_buffer_pool_read_requests'', d ''Innodb_buffer_pool_reads'') of
             (Some req, Some reads) \<Rightarrow> if req = 0 then None else Some (max 0 (min 100 (py_round_nd 2 ((1 - reads / req) * 100)))) | _ \<Rightarrow> None),
          (''row_lock_avg_wait_ms'', case (d ''Innodb_row_lock_waits'', d ''Innodb_row_lock_time'') of
             (Some waits, Some t) \<Rightarrow> if waits = 0 then None else Some (py_round_nd 1 (t / waits)) | _ \<Rightarrow> None),
          (''tmp_disk_percent'', case (d ''Created_tmp_tables'', d ''Created_tmp_disk_tables'') of
             (Some n, Some disk) \<Rightarrow> if n = 0 then None else ratio_percent disk (Some n) | _ \<Rightarrow> None)])"

definition mariadb_row :: "perf_env \<Rightarrow> string \<Rightarrow> mariadb_report \<Rightarrow> (dict \<times> rat) option \<Rightarrow> mariadb_metric" where
  "mariadb_row pf host r base =
     \<lparr>md_monitored_host = host, md_collected_at = pf_now pf, md_rates_valid = (base \<noteq> None), md_uptime_s = cint_val pf (get (mr_status r) ''Uptime''),
      md_values = keep_known (mariadb_gauges pf r @ mariadb_changes base (mr_status r) @ map (\<lambda>(col, k). (col, rate_to base (mr_status r) k)) MARIADB_RATES),
      md_raw_counters = Some (raw_counters_of MARIADB_COUNTER_KEYS (mr_status r))\<rparr>"

definition mariadb_base :: "perf_env \<Rightarrow> string \<Rightarrow> mariadb_report \<Rightarrow> 'a store_perf_db_scheme \<Rightarrow> (dict \<times> rat) option" where
  "mariadb_base pf host r st =
     usable_sample (pf_now pf) (cint_val pf (get (mr_status r) ''Uptime''))
       (map_option (\<lambda>m. (md_collected_at m, md_uptime_s m, md_raw_counters m))
          (newest_by md_collected_at None (filter (\<lambda>m. md_monitored_host m = host) (mariadb_metrics st))))"

definition store_mariadb_sample :: "perf_env \<Rightarrow> string \<Rightarrow> mariadb_report \<Rightarrow> 'a store_perf_db_scheme \<Rightarrow> bool \<times> 'a store_perf_db_scheme" where
  "store_mariadb_sample pf host r st =
     (let base = mariadb_base pf host r st
      in if deltas_raise base (mr_status r) MARIADB_DELTA_KEYS then (False, st)
         else (True, st\<lparr>mariadb_metrics := mariadb_metrics st @ [mariadb_row pf host r base]\<rparr>))"

text \<open>The two lists of the sizes are carried as their JSON text.\<close>

definition size_columns :: "dict \<Rightarrow> (string \<times> json_val) list" where
  "size_columns data =
     keep_known (map (\<lambda>k. (k, get data k)) [''data_mb'', ''index_mb'', ''free_mb'', ''sites_counted''] @
       map (\<lambda>k. (k, Some (case get data k of None \<Rightarrow> Txt ''[]'' | Some v \<Rightarrow> v))) [''by_site'', ''top_tables''])"

definition latest_snapshot :: "string \<Rightarrow> 'a store_perf_db_scheme \<Rightarrow> mariadb_snapshot option" where
  "latest_snapshot host st = newest_by mc_collected_at None (filter (\<lambda>s. mc_monitored_host s = host) (mariadb_snapshots st))"

definition settings_changed :: "perf_env \<Rightarrow> dict \<Rightarrow> mariadb_snapshot option \<Rightarrow> bool" where
  "settings_changed pf variables latest \<longleftrightarrow> variables \<noteq> [] \<and> (case latest of None \<Rightarrow> True | Some s \<Rightarrow> mc_variables_hash s \<noteq> Some (pf_digest pf variables))"

definition sizes_due :: "perf_env \<Rightarrow> dict \<Rightarrow> mariadb_snapshot option \<Rightarrow> bool" where
  "sizes_due pf data latest \<longleftrightarrow> data \<noteq> [] \<and>
     (case latest of None \<Rightarrow> True | Some s \<Rightarrow> pf_now pf - mc_collected_at s \<ge> MARIADB_SNAPSHOT_EVERY_SECONDS * SECOND)"

definition store_mariadb_snapshot :: "perf_env \<Rightarrow> string \<Rightarrow> mariadb_report \<Rightarrow> 'a store_perf_db_scheme \<Rightarrow> nat \<times> 'a store_perf_db_scheme" where
  "store_mariadb_snapshot pf host r st =
     (let variables = mr_variables r; data = mr_data r; latest = latest_snapshot host st; limits = py_join '', '' (mr_limited r)
      in if \<not> (settings_changed pf variables latest \<or> sizes_due pf data latest) then (0, st)
         else (1, st\<lparr>mariadb_snapshots := mariadb_snapshots st @
           [\<lparr>mc_monitored_host = host, mc_collected_at = pf_now pf,
             mc_variables_hash = (if variables = [] then None else Some (pf_digest pf variables)), mc_version = get variables ''version'',
             mc_variables = (if variables = [] then None else Some variables), mc_limited = (if limits = [] then None else Some limits),
             mc_sites_total = mr_sites_total r,
             mc_sizes = (if data = [] then None else Some (size_columns data))\<rparr>]\<rparr>))"

definition process_mariadb :: "perf_env \<Rightarrow> string \<Rightarrow> mariadb_report \<Rightarrow> 'a store_perf_db_scheme \<Rightarrow> (nat \<times> nat \<times> string list) \<times> 'a store_perf_db_scheme" where
  "process_mariadb pf host r st =
     (let s = (if mr_status r = [] then (True, st) else store_mariadb_sample pf host r st); logged = (if mr_status r \<noteq> [] \<and> fst s then 1 else 0)
      in if \<not> fst s then ((0, 0, [''skipped malformed MariaDB payload'']), perf_error (''Host Health: malformed MariaDB payload from '' @ host) (snd s))
         else if mr_variables r = [] \<and> mr_data r = [] then ((logged, 0, []), snd s)
         else (let n = store_mariadb_snapshot pf host r (snd s) in ((logged, fst n, []), snd n)))"

subsection \<open>Redis\<close>

record redis_entry =
  en_label :: "string option"
  en_roles :: "string list"
  en_info :: dict
  en_config :: dict
  en_slowlog :: dict
  en_recent_commands :: "string list"

definition REDIS_COUNTER_KEYS :: "string list" where
  "REDIS_COUNTER_KEYS = [''evicted_keys'', ''expired_keys'', ''keyspace_hits'', ''keyspace_misses'', ''rejected_connections'',
     ''total_commands_processed'', ''total_connections_received'']"

definition REDIS_DELTA_KEYS :: "string list" where
  "REDIS_DELTA_KEYS = filter (\<lambda>k. k \<noteq> ''total_connections_received'') REDIS_COUNTER_KEYS"

definition status_ok :: "dict \<Rightarrow> string \<Rightarrow> bool" where
  "status_ok d k \<longleftrightarrow> (case map_of d k of None \<Rightarrow> True | Some v \<Rightarrow> v = Txt ''ok'')"

definition redis_values :: "perf_env \<Rightarrow> redis_entry \<Rightarrow> (dict \<times> rat) option \<Rightarrow> (string \<times> rat option) list" where
  "redis_values pf en base =
     (let info = en_info en; d = delta_to base info; used = flt_val pf (get info ''used_memory'') / MB; rss = flt_val pf (get info ''used_memory_rss'') / MB;
          max_mb = flt_val pf (get info ''maxmemory'') / MB; frag = flt_val pf (get info ''mem_fragmentation_ratio''); c = (\<lambda>x k. Some (cint_val pf (get x k)))
      in [(''used_mb'', Some (py_round_nd 1 used)), (''rss_mb'', Some (py_round_nd 1 rss)), (''maxmemory_mb'', Some (py_round_nd 1 max_mb)),
          (''memory_percent'', if max_mb = 0 then None else Some (py_round_nd 1 (used / max_mb * 100))),
          (''fragmentation_ratio'', if frag = 0 then None else Some frag), (''keys'', c info ''keys''),
          (''hit_percent'', case (d ''keyspace_hits'', d ''keyspace_misses'') of
             (Some h, Some m) \<Rightarrow> if h + m = 0 then None else Some (py_round_nd 2 (h / (h + m) * 100)) | _ \<Rightarrow> None),
          (''evicted'', Some (or_zero (d ''evicted_keys''))), (''rejected'', Some (or_zero (d ''rejected_connections''))),
          (''ops_per_s'', rate_to base info ''total_commands_processed''), (''evicted_per_s'', rate_to base info ''evicted_keys''),
          (''expired_per_s'', rate_to base info ''expired_keys''),
          (''connected_clients'', c info ''connected_clients''), (''max_clients'', c (en_config en) ''maxclients''), (''blocked_clients'', c info ''blocked_clients''),
          (''persistence_ok'', Some (if status_ok info ''rdb_last_bgsave_status'' \<and> status_ok info ''aof_last_write_status'' then 1 else 0)),
          (''fork_ms'', Some (py_round_nd 1 (flt_val pf (get info ''latest_fork_usec'') / 1000))), (''slowlog_len'', c (en_slowlog en) ''len''),
          (''slowlog_recent_count'', c (en_slowlog en) ''recent_count''), (''slowlog_recent_max_ms'', Some (flt_val pf (get (en_slowlog en) ''recent_max_ms'')))])"

definition redis_base :: "perf_env \<Rightarrow> string \<Rightarrow> string \<Rightarrow> redis_entry \<Rightarrow> 'a store_perf_db_scheme \<Rightarrow> (dict \<times> rat) option" where
  "redis_base pf host label en st =
     usable_sample (pf_now pf) (cint_val pf (get (en_info en) ''uptime_in_seconds''))
       (map_option (\<lambda>m. (rd_collected_at m, rd_uptime_s m, rd_raw_counters m))
          (newest_by rd_collected_at None (filter (\<lambda>m. rd_monitored_host m = host \<and> rd_instance m = label) (redis_metrics st))))"

definition redis_row :: "perf_env \<Rightarrow> string \<Rightarrow> string \<Rightarrow> redis_entry \<Rightarrow> (dict \<times> rat) option \<Rightarrow> redis_metric" where
  "redis_row pf host label en base =
     \<lparr>rd_monitored_host = host, rd_instance = label, rd_collected_at = pf_now pf, rd_rates_valid = (base \<noteq> None),
      rd_uptime_s = cint_val pf (get (en_info en) ''uptime_in_seconds''), rd_values = keep_known (redis_values pf en base),
      rd_texts = keep_known [(''roles'', Some (Txt (py_join ''+'' (en_roles en)))), (''maxmemory_policy'', get (en_info en) ''maxmemory_policy''),
        (''slowlog_recent_commands'', Some (Txt (take 140 (py_join '', '' (en_recent_commands en)))))],
      rd_raw_counters = Some (raw_counters_of REDIS_COUNTER_KEYS (en_info en))\<rparr>"

definition store_redis_sample :: "perf_env \<Rightarrow> string \<Rightarrow> redis_entry \<Rightarrow> 'a store_perf_db_scheme \<Rightarrow> bool \<times> 'a store_perf_db_scheme" where
  "store_redis_sample pf host en st =
     (case en_label en of
        None \<Rightarrow> (False, st)
      | Some label \<Rightarrow>
          (let base = redis_base pf host label en st
           in if deltas_raise base (en_info en) REDIS_DELTA_KEYS then (False, st)
              else (True, st\<lparr>redis_metrics := redis_metrics st @ [redis_row pf host label en base]\<rparr>)))"

fun process_redis :: "perf_env \<Rightarrow> string \<Rightarrow> redis_entry list \<Rightarrow> 'a store_perf_db_scheme \<Rightarrow> (nat \<times> string list) \<times> 'a store_perf_db_scheme" where
  "process_redis pf host [] st = ((0, []), st)"
| "process_redis pf host (en # es) st =
     (if en_info en = [] then process_redis pf host es st
      else case store_redis_sample pf host en st of
             (True, st1) \<Rightarrow> (case process_redis pf host es st1 of ((n, ws), st2) \<Rightarrow> ((Suc n, ws), st2))
           | (False, st1) \<Rightarrow>
               (case process_redis pf host es (perf_error (''Host Health: malformed Redis payload from '' @ host) st1) of
                  ((n, ws), st2) \<Rightarrow> ((n, (''skipped malformed Redis entry '' @ (case en_label en of None \<Rightarrow> ''None'' | Some label \<Rightarrow> label)) # ws), st2)))"

subsection \<open>Rates are never negative, percentages stay within 0 and 100\<close>

lemma py_round_nd_zero [simp]: "py_round_nd n 0 = 0"
  using py_round_nd_of_int [of n 0] by simp

lemma py_round_nd_nonneg: "0 \<le> x \<Longrightarrow> 0 \<le> py_round_nd n x"
  using py_round_nd_mono [of 0 x n] by simp

lemma py_round_nd_hundred: "x \<le> 100 \<Longrightarrow> py_round_nd n x \<le> 100"
  using py_round_nd_mono [of x 100 n] py_round_nd_of_int [of n 100] by simp

lemmas round_bounds = py_round_nd_nonneg py_round_nd_hundred

lemma counter_delta_nonneg: "counter_delta c p = Some d \<Longrightarrow> 0 \<le> d"
  by (cases "(c, p)" rule: counter_delta.cases) (auto split: if_splits)

lemma or_zero_counter_delta: "0 \<le> or_zero (counter_delta c p)"
  by (auto simp: or_zero_def split: option.splits dest: counter_delta_nonneg)

lemma gap_seconds_bounds: "gap_seconds t now = Some g \<Longrightarrow> 5 \<le> g \<and> g \<le> 900"
  by (auto simp: gap_seconds_def Let_def MIN_RATE_GAP_SECONDS_def MAX_RATE_GAP_SECONDS_def split: option.splits if_splits)

lemma per_second_nonneg: "per_second d g = Some v \<Longrightarrow> (\<And>x. d = Some x \<Longrightarrow> 0 \<le> x) \<Longrightarrow> (\<And>x. g = Some x \<Longrightarrow> 0 \<le> x) \<Longrightarrow> 0 \<le> v"
  by (auto simp: per_second_def py_round_nd_nonneg split: option.splits if_splits)

lemma per_second_None [simp]: "per_second None g = None" "per_second d None = None"
  by (auto simp: per_second_def split: option.splits)

lemma usable_sample_gap: "usable_sample now up p = Some (d, g) \<Longrightarrow> 5 \<le> g \<and> g \<le> 900"
  by (auto simp: usable_sample_def split: option.splits if_splits dest: gap_seconds_bounds)

lemma delta_to_nonneg: "delta_to base d k = Some v \<Longrightarrow> 0 \<le> v"
  by (auto simp: delta_to_def split: option.splits dest: counter_delta_nonneg)

lemma rate_to_nonneg: "rate_to base d k = Some v \<Longrightarrow> (\<And>b g. base = Some (b, g) \<Longrightarrow> 0 \<le> g) \<Longrightarrow> 0 \<le> v"
  unfolding rate_to_def by (erule per_second_nonneg) (auto dest: delta_to_nonneg)

lemma rate_to_needs_base: "rate_to base d k = Some v \<Longrightarrow> base \<noteq> None"
  by (cases base) (auto simp: rate_to_def)

lemma share_bounds:
  assumes "0 \<le> h" "0 \<le> m"
  shows "0 \<le> h / (h + m) * (100 :: rat) \<and> h / (h + m) * 100 \<le> 100"
proof (cases "h + m = 0")
  case False
  then have "0 < h + m" using assms by linarith
  then have "h / (h + m) \<le> 1" using assms by simp
  moreover have "0 \<le> h / (h + m)" using assms by simp
  moreover have "0 \<le> q \<Longrightarrow> q \<le> 1 \<Longrightarrow> 0 \<le> q * 100 \<and> q * 100 \<le> 100" for q :: rat by linarith
  ultimately show ?thesis by blast
qed simp

text \<open>The rates of a device, from differences that are not negative.\<close>

definition io_rates_ok :: "io_rates \<Rightarrow> bool" where
  "io_rates_ok r \<longleftrightarrow> (\<exists>a b. ir_read_iops r = Some a \<and> ir_write_iops r = Some b \<and> 0 \<le> a \<and> 0 \<le> b) \<and>
     0 \<le> ir_read_mb_s r \<and> 0 \<le> ir_write_mb_s r \<and> 0 \<le> ir_await_ms r \<and> 0 \<le> ir_avg_queue r \<and> 0 \<le> ir_util_percent r \<and> ir_util_percent r \<le> 100"

lemma rates_of_ok:
  assumes d: "\<And>k. 0 \<le> d k" and g: "0 < gap"
  shows "io_rates_ok (rates_of d gap)"
proof -
  have iops: "per_second (Some (d k)) (Some gap) = Some (py_round_nd 2 (d k / gap))" for k using g by (simp add: per_second_def)
  have "0 \<le> min 100 (d ''io_ms_total'' / (gap * 1000) * 100)" using d [of "''io_ms_total''"] g by simp
  then have util: "0 \<le> ir_util_percent (rates_of d gap) \<and> ir_util_percent (rates_of d gap) \<le> 100"
    by (simp add: rates_of_def Let_def round_bounds)
  show ?thesis unfolding io_rates_ok_def using util d g
    by (auto simp: rates_of_def Let_def iops SECTOR_BYTES_def intro!: py_round_nd_nonneg divide_nonneg_nonneg add_nonneg_nonneg)
qed

lemma judged_rates_ok: "judge_device pf prev dev = Rated b r \<Longrightarrow> io_rates_ok r \<and> 0 \<le> b"
  by (auto simp: judge_device_def Let_def io_deltas_def or_zero_counter_delta comp_def
        split: option.splits if_splits dest!: gap_seconds_bounds intro!: rates_of_ok)

lemma throttle_bounds:
  assumes "mm_cpu_throttled_percent (memory_row pf host r previous) = Some v"
  shows "0 \<le> v \<and> v \<le> 100"
proof -
  have "\<exists>d g c p t. counter_delta c p = Some d \<and> gap_seconds t (pf_now pf) = Some g \<and> v = py_round_nd 1 (min 100 (d / (g * 1000000) * 100))"
    using assms by (auto simp: memory_row_def Let_def split: option.splits if_splits)
  then show ?thesis by (auto dest!: counter_delta_nonneg gap_seconds_bounds intro!: round_bounds)
qed

text \<open>Well-formed history: every stored figure is one the rest of the system may chart.\<close>

definition memory_ok :: "memory_metric \<Rightarrow> bool" where
  "memory_ok m \<longleftrightarrow> (\<forall>v. mm_swap_in_per_s m = Some v \<longrightarrow> 0 \<le> v) \<and> (\<forall>v. mm_swap_out_per_s m = Some v \<longrightarrow> 0 \<le> v) \<and>
     0 \<le> mm_oom_kills_since_last m \<and> 0 \<le> mm_cgroup_oom_kills_since_last m \<and>
     (\<forall>v. mm_cpu_throttled_percent m = Some v \<longrightarrow> 0 \<le> v \<and> v \<le> 100) \<and>
     (mm_rates_valid m \<longrightarrow> mm_swap_in_per_s m \<noteq> None \<and> mm_swap_out_per_s m \<noteq> None)"

definition io_ok :: "io_sample \<Rightarrow> bool" where
  "io_ok s \<longleftrightarrow> (case io_rates s of None \<Rightarrow> True | Some r \<Rightarrow> io_rates_ok r)"

definition figures_ok :: "string list \<Rightarrow> string list \<Rightarrow> bool \<Rightarrow> (string \<times> rat) list \<Rightarrow> bool" where
  "figures_ok rate_cols percent_cols valid vs \<longleftrightarrow>
     list_all (\<lambda>(c, v). (c \<in> set rate_cols \<longrightarrow> valid \<and> 0 \<le> v) \<and> (c \<in> set percent_cols \<longrightarrow> valid \<and> 0 \<le> v \<and> v \<le> 100)) vs"

definition REDIS_RATE_COLUMNS :: "string list" where
  "REDIS_RATE_COLUMNS = [''ops_per_s'', ''evicted_per_s'', ''expired_per_s'']"

definition perf_ok :: "'a store_perf_db_scheme \<Rightarrow> bool" where
  "perf_ok st \<longleftrightarrow> list_all memory_ok (memory_metrics st) \<and> list_all io_ok (io_samples st) \<and>
     list_all (\<lambda>m. figures_ok (map fst MARIADB_RATES) [''bp_hit_percent''] (md_rates_valid m) (md_values m)) (mariadb_metrics st) \<and>
     list_all (\<lambda>m. figures_ok REDIS_RATE_COLUMNS [''hit_percent''] (rd_rates_valid m) (rd_values m)) (redis_metrics st)"

lemma memory_row_ok: "memory_ok (memory_row pf host r previous)"
proof -
  have g: "gap_seconds t (pf_now pf) = Some g \<Longrightarrow> 0 < g" for t g by (auto dest: gap_seconds_bounds)
  have ps: "per_second (Some d) (Some g) = Some (py_round_nd 2 (d / g))" if "0 < g" for d g using that by (simp add: per_second_def)
  let ?m = "memory_row pf host r previous"
  have nn: "0 \<le> v" if "per_second (counter_delta c p) (gap_seconds t (pf_now pf)) = Some v" for c p t v
    using that by (rule per_second_nonneg) (auto dest: counter_delta_nonneg gap_seconds_bounds)
  have si: "mm_swap_in_per_s ?m = Some v \<Longrightarrow> 0 \<le> v" for v using nn by (simp add: memory_row_def Let_def)
  have so: "mm_swap_out_per_s ?m = Some v \<Longrightarrow> 0 \<le> v" for v using nn by (simp add: memory_row_def Let_def)
  have oom: "0 \<le> mm_oom_kills_since_last ?m" "0 \<le> mm_cgroup_oom_kills_since_last ?m"
    by (simp_all add: memory_row_def Let_def or_zero_counter_delta)
  have valid: "mm_rates_valid ?m \<Longrightarrow> mm_swap_in_per_s ?m \<noteq> None \<and> mm_swap_out_per_s ?m \<noteq> None"
    using g ps by (auto simp: memory_row_def Let_def)
  show ?thesis unfolding memory_ok_def using si so oom valid throttle_bounds by blast
qed

lemma in_map_filter: "y \<in> set (List.map_filter f xs) \<longleftrightarrow> (\<exists>x\<in>set xs. f x = Some y)"
  by (force simp: List.map_filter_def)

lemma rated_deviceD: "(b, n, d, r) \<in> set (rated_devices pf host st devices) \<Longrightarrow>
    (n, d) \<in> set (named_devices devices) \<and> judge_device pf (latest_sample pf host n st) d = Rated b r"
  by (auto simp: rated_devices_def in_map_filter split: io_verdict.splits)

lemma io_row_ok: "c \<in> set (chosen_devices pf host st devices) \<Longrightarrow> io_ok (io_row pf host c)"
  by (auto simp: chosen_devices_def io_row_def io_ok_def Let_def dest!: in_set_takeD rated_deviceD judged_rates_ok)

lemma keep_known_iff: "(c, v) \<in> set (keep_known vs) \<longleftrightarrow> (c, Some v) \<in> set vs"
  by (force simp: keep_known_def in_map_filter)

lemma figures_okI:
  assumes "\<And>c v. (c, Some v) \<in> set vs \<Longrightarrow> c \<in> set rate_cols \<Longrightarrow> valid \<and> 0 \<le> v"
    and "\<And>c v. (c, Some v) \<in> set vs \<Longrightarrow> c \<in> set percent_cols \<Longrightarrow> valid \<and> 0 \<le> v \<and> v \<le> 100"
  shows "figures_ok rate_cols percent_cols valid (keep_known vs)"
  using assms unfolding figures_ok_def list_all_iff by (auto simp: keep_known_iff)

lemma figures_ok_append: "figures_ok rc pc valid (keep_known (vs @ ws)) \<longleftrightarrow> figures_ok rc pc valid (keep_known vs) \<and> figures_ok rc pc valid (keep_known ws)"
  by (simp add: figures_ok_def keep_known_def List.map_filter_def)

lemma figures_ok_other:
  assumes "list_all (\<lambda>c. c \<notin> set rate_cols \<and> c \<notin> set percent_cols) (map fst vs)"
  shows "figures_ok rate_cols percent_cols valid (keep_known vs)"
  using assms by (intro figures_okI) (auto simp: list_all_iff)

lemma gauges_other: "list_all (\<lambda>c. c \<notin> set (map fst MARIADB_RATES) \<and> c \<notin> set [''bp_hit_percent'']) (map fst (mariadb_gauges pf r))"
  by (simp add: mariadb_gauges_def MARIADB_RATES_def Let_def)

lemma mariadb_changes_ok: "figures_ok (map fst MARIADB_RATES) [''bp_hit_percent''] (base \<noteq> None) (keep_known (mariadb_changes base st))"
proof (rule figures_okI)
  fix c v assume "(c, Some v) \<in> set (mariadb_changes base st)" and "c \<in> set (map fst MARIADB_RATES)"
  then show "base \<noteq> None \<and> 0 \<le> v" by (simp add: mariadb_changes_def MARIADB_RATES_def Let_def) blast
next
  fix c v assume "(c, Some v) \<in> set (mariadb_changes base st)" and "c \<in> set [''bp_hit_percent'']"
  then show "base \<noteq> None \<and> 0 \<le> v \<and> v \<le> 100"
    by (cases base) (auto simp: mariadb_changes_def Let_def delta_to_def split: option.splits if_splits)
qed

lemma mariadb_rates_ok:
  assumes "\<And>b g. base = Some (b, g) \<Longrightarrow> 0 \<le> g"
  shows "figures_ok (map fst MARIADB_RATES) [''bp_hit_percent''] (base \<noteq> None) (keep_known (map (\<lambda>(col, k). (col, rate_to base st k)) MARIADB_RATES))"
proof (rule figures_okI)
  fix c v assume "(c, Some v) \<in> set (map (\<lambda>(col, k). (col, rate_to base st k)) MARIADB_RATES)"
  then obtain k where r: "rate_to base st k = Some v" by auto
  show "base \<noteq> None \<and> 0 \<le> v" using rate_to_needs_base [OF r] rate_to_nonneg [OF r] assms by blast
next
  fix c v assume a: "(c, Some v) \<in> set (map (\<lambda>(col, k). (col, rate_to base st k)) MARIADB_RATES)" and c: "c \<in> set [''bp_hit_percent'']"
  have "c \<in> set (map fst MARIADB_RATES)" using a by force
  then show "base \<noteq> None \<and> 0 \<le> v \<and> v \<le> 100" using c by (simp add: MARIADB_RATES_def)
qed

lemma mariadb_base_gap: "mariadb_base pf host r st = Some (b, g) \<Longrightarrow> 0 \<le> g"
  by (auto simp: mariadb_base_def dest: usable_sample_gap)

lemma redis_base_gap: "redis_base pf host label en st = Some (b, g) \<Longrightarrow> 0 \<le> g"
  by (auto simp: redis_base_def dest: usable_sample_gap)

lemma mariadb_row_ok:
  assumes "\<And>b g. base = Some (b, g) \<Longrightarrow> 0 \<le> g"
  shows "figures_ok (map fst MARIADB_RATES) [''bp_hit_percent''] (md_rates_valid (mariadb_row pf host r base)) (md_values (mariadb_row pf host r base))"
  using figures_ok_other [OF gauges_other] mariadb_changes_ok mariadb_rates_ok [OF assms]
  by (simp add: mariadb_row_def figures_ok_append del: set_map)

lemma redis_values_ok:
  assumes g: "\<And>b g. base = Some (b, g) \<Longrightarrow> 0 \<le> g"
  shows "figures_ok REDIS_RATE_COLUMNS [''hit_percent''] (base \<noteq> None) (keep_known (redis_values pf en base))"
proof (rule figures_okI)
  fix c v assume a: "(c, Some v) \<in> set (redis_values pf en base)" and "c \<in> set REDIS_RATE_COLUMNS"
  then have "c = ''ops_per_s'' \<or> c = ''evicted_per_s'' \<or> c = ''expired_per_s''" by (simp add: REDIS_RATE_COLUMNS_def)
  then have "Some v = rate_to base (en_info en) ''total_commands_processed'' \<or> Some v = rate_to base (en_info en) ''evicted_keys'' \<or>
      Some v = rate_to base (en_info en) ''expired_keys''"
    using a by (elim disjE) (simp_all add: redis_values_def Let_def)
  then have "\<exists>k. rate_to base (en_info en) k = Some v" by metis
  then show "base \<noteq> None \<and> 0 \<le> v" using rate_to_needs_base rate_to_nonneg g by metis
next
  fix c v assume "(c, Some v) \<in> set (redis_values pf en base)" and "c \<in> set [''hit_percent'']"
  then obtain h m where d: "delta_to base (en_info en) ''keyspace_hits'' = Some h" "delta_to base (en_info en) ''keyspace_misses'' = Some m"
      and v: "v = py_round_nd 2 (h / (h + m) * 100)"
    by (simp add: redis_values_def Let_def split: option.splits if_splits)
  have "base \<noteq> None" using d by (cases base) (simp_all add: delta_to_def)
  moreover have "0 \<le> h / (h + m) * 100 \<and> h / (h + m) * 100 \<le> 100" using share_bounds delta_to_nonneg d by blast
  ultimately show "base \<noteq> None \<and> 0 \<le> v \<and> v \<le> 100" unfolding v using round_bounds by blast
qed

lemma perf_error_ok: "perf_ok (perf_error t st) = perf_ok st"
  by (simp add: perf_ok_def perf_error_def)

lemma store_memory_sample_ok: "perf_ok st \<Longrightarrow> perf_ok (snd (store_memory_sample pf host rep st))"
  by (auto simp: store_memory_sample_def perf_ok_def memory_row_ok Let_def split: option.splits)

lemma store_io_samples_ok: "perf_ok st \<Longrightarrow> perf_ok (snd (store_io_samples pf host devices st))"
  by (auto simp: store_io_samples_def perf_ok_def Let_def list_all_iff intro: io_row_ok)

lemma store_mariadb_sample_ok:
  assumes "perf_ok st"
  shows "perf_ok (snd (store_mariadb_sample pf host r st))"
  using assms mariadb_row_ok [of "mariadb_base pf host r st" pf host r] mariadb_base_gap [of pf host r st] by (simp add: store_mariadb_sample_def perf_ok_def Let_def)

lemma store_mariadb_snapshot_ok: "perf_ok st \<Longrightarrow> perf_ok (snd (store_mariadb_snapshot pf host r st))"
  by (simp add: store_mariadb_snapshot_def perf_ok_def Let_def)

lemma store_redis_sample_ok:
  assumes "perf_ok st"
  shows "perf_ok (snd (store_redis_sample pf host en st))"
  using assms redis_values_ok [of "redis_base pf host _ en st" pf en] redis_base_gap [of pf host _ en st]
  by (simp add: store_redis_sample_def perf_ok_def redis_row_def Let_def split: option.splits)

lemmas stored_ok = perf_error_ok store_memory_sample_ok store_io_samples_ok store_mariadb_sample_ok store_mariadb_snapshot_ok store_redis_sample_ok

lemma memory_step_ok: "store_memory_sample pf host rep st = (b, st1) \<Longrightarrow> perf_ok st \<Longrightarrow> perf_ok st1"
  using store_memory_sample_ok [of st pf host rep] by simp

lemma io_step_ok: "store_io_samples pf host devices st = (n, st1) \<Longrightarrow> perf_ok st \<Longrightarrow> perf_ok st1"
  using store_io_samples_ok [of st pf host devices] by simp

lemma process_performance_ok: "perf_ok st \<Longrightarrow> perf_ok (snd (process_performance pf host rp st))"
  by (auto simp: process_performance_def Let_def perf_error_ok split: option.splits prod.splits bool.splits
      elim!: memory_step_ok io_step_ok)

lemma process_mariadb_ok: "perf_ok st \<Longrightarrow> perf_ok (snd (process_mariadb pf host r st))"
  by (simp add: process_mariadb_def Let_def stored_ok)

lemma redis_step_ok: "store_redis_sample pf host en st = (b, st1) \<Longrightarrow> perf_ok st \<Longrightarrow> perf_ok st1"
  using store_redis_sample_ok [of st pf host en] by simp

lemma process_redis_ok: "perf_ok st \<Longrightarrow> perf_ok (snd (process_redis pf host es st))"
proof (induction es arbitrary: st)
  case (Cons en es)
  obtain b st1 where r: "store_redis_sample pf host en st = (b, st1)" by fastforce
  have "perf_ok st1" using redis_step_ok [OF r Cons.prems] .
  then have "perf_ok (snd (process_redis pf host es st1))" "perf_ok (snd (process_redis pf host es (perf_error t st1)))" for t
    using Cons.IH perf_error_ok by blast+
  then show ?case using Cons by (simp add: r case_prod_unfold split: bool.split)
qed simp

text \<open>One report of any of the three kinds, with the clock it arrives under.\<close>

datatype perf_step =
  Performance perf_env string performance_report
| MariaDB perf_env string mariadb_report
| Redis perf_env string "redis_entry list"

fun perf_step_run :: "perf_step \<Rightarrow> 'a store_perf_db_scheme \<Rightarrow> 'a store_perf_db_scheme" where
  "perf_step_run (Performance pf host rp) st = snd (process_performance pf host rp st)"
| "perf_step_run (MariaDB pf host r) st = snd (process_mariadb pf host r st)"
| "perf_step_run (Redis pf host es) st = snd (process_redis pf host es st)"

lemma perf_step_ok: "perf_ok st \<Longrightarrow> perf_ok (perf_step_run s st)"
  by (cases s) (simp_all add: process_performance_ok process_mariadb_ok process_redis_ok)

text \<open>Whatever reports arrive, in whatever order, a well-formed history stays well formed: no stored swap rate, disk rate or
  per-second column of MariaDB or Redis is negative; disk utilisation, CPU throttling and the two cache hit percentages are between
  0 and 100; the per-second columns and the hit percentages of MariaDB and Redis are stored only in rows marked valid; and a memory row
  marked valid has both of its swap rates. (A memory row that is not marked valid may still have one of them, and
  the share of temporary tables on disk has no bound.)\<close>

theorem performance_history_well_formed:
  fixes st :: "'a store_perf_db_scheme"
  assumes "perf_ok st"
  shows "perf_ok (fold perf_step_run steps st)"
  using assms by (induction steps arbitrary: st) (simp_all add: perf_step_ok)

subsection \<open>Which devices are kept\<close>

lemma sort_key_take_drop:
  assumes "x \<in> set (take n (sort_key f xs))" "y \<in> set (drop n (sort_key f xs))"
  shows "f x \<le> (f y :: 'k :: linorder)"
proof -
  have "sorted (map f (take n (sort_key f xs) @ drop n (sort_key f xs)))" by simp
  then show ?thesis using assms unfolding map_append sorted_append by simp
qed

lemma take_or_beaten:
  assumes "y \<in> set xs" "y \<notin> set (take n (sort_key f xs))" "x \<in> set (take n (sort_key f xs))"
  shows "f x \<le> (f y :: 'k :: linorder)"
proof (rule sort_key_take_drop [OF assms(3)])
  have "y \<in> set (take n (sort_key f xs) @ drop n (sort_key f xs))" using assms(1) by (simp only: append_take_drop_id set_sort)
  then show "y \<in> set (drop n (sort_key f xs))" using assms(2) by (simp only: set_append Un_iff simp_thms)
qed

lemma take_full: "y \<in> set xs \<Longrightarrow> y \<notin> set (take n (sort_key f xs)) \<Longrightarrow> length (take n (sort_key f xs)) = n"
  by (metis length_take min.absorb2 nat_le_linear set_sort take_all)

lemma rated_deviceI: "(n, d) \<in> set (named_devices devices) \<Longrightarrow> judge_device pf (latest_sample pf host n st) d = Rated b r \<Longrightarrow>
    (b, n, d, r) \<in> set (rated_devices pf host st devices)"
  unfolding rated_devices_def in_map_filter by (rule bexI [of _ "(n, d)"]) simp_all

lemma chosen_devices_at_most: "length (chosen_devices pf host st devices) \<le> MAX_IO_DEVICES_STORED"
  by (simp add: chosen_devices_def Let_def)

lemma left_out_device:
  assumes x: "(b, n, d, r) \<in> set (rated_devices pf host st devices)" and out: "(n, d, Some r) \<notin> set (chosen_devices pf host st devices)"
  shows "length (chosen_devices pf host st devices) = MAX_IO_DEVICES_STORED"
    and "c \<in> set (chosen_devices pf host st devices) \<Longrightarrow>
      \<exists>b' n' d' r'. c = (n', d', Some r') \<and> b \<le> b' \<and> (b', n', d', r') \<in> set (rated_devices pf host st devices)"
proof -
  let ?kept = "take MAX_IO_DEVICES_STORED (sort_key (\<lambda>t. - fst t) (rated_devices pf host st devices))"
  have no: "(b, n, d, r) \<notin> set ?kept" using out by (force simp: chosen_devices_def Let_def)
  have full: "length ?kept = MAX_IO_DEVICES_STORED" using take_full [OF x no] .
  have ch: "chosen_devices pf host st devices = map (\<lambda>(b, n, d, r). (n, d, Some r)) ?kept"
    unfolding chosen_devices_def Let_def full by simp
  show "length (chosen_devices pf host st devices) = MAX_IO_DEVICES_STORED" unfolding ch using full by simp
  assume "c \<in> set (chosen_devices pf host st devices)"
  then obtain b' n' d' r' where k: "(b', n', d', r') \<in> set ?kept" and c: "c = (n', d', Some r')" unfolding ch by auto
  have "b \<le> b'" using take_or_beaten [OF x no k] by simp
  moreover have "(b', n', d', r') \<in> set (rated_devices pf host st devices)" using in_set_takeD [OF k] by simp
  ultimately show "\<exists>b' n' d' r'. c = (n', d', Some r') \<and> b \<le> b' \<and> (b', n', d', r') \<in> set (rated_devices pf host st devices)"
    using c by blast
qed

text \<open>C33: a poll that stores disks stores at most six of them, also when none has readings to compare, and the busiest: a disk with readings
  to compare and something to show is stored, or six others are, each at least as busy over the interval.\<close>

theorem io_keeps_the_busiest:
  fixes st :: "'a perf_db_scheme"
  assumes s: "store_io_samples pf host devices st = (Some k, st')"
  shows "\<exists>rows. io_samples st' = io_samples st @ rows \<and> length rows = k \<and> k \<le> 6 \<and>
    (\<forall>n d b r. (n, d) \<in> set (named_devices devices) \<longrightarrow> judge_device pf (latest_sample pf host n st) d = Rated b r \<longrightarrow>
     io_row pf host (n, d, Some r) \<in> set rows \<or>
     k = 6 \<and> (\<forall>s\<in>set rows. \<exists>b' n' d' r'. s = io_row pf host (n', d', Some r') \<and> (n', d') \<in> set (named_devices devices) \<and>
        judge_device pf (latest_sample pf host n' st) d' = Rated b' r' \<and> b \<le> b'))"
proof (intro exI conjI allI impI)
  let ?ch = "chosen_devices pf host st devices"
  have "\<not> io_raises pf host st devices" using s by (auto simp: store_io_samples_def)
  then have st': "st' = st\<lparr>io_samples := io_samples st @ map (io_row pf host) ?ch\<rparr>" and k: "k = length ?ch"
    using s by (auto simp: store_io_samples_def Let_def)
  show "io_samples st' = io_samples st @ map (io_row pf host) ?ch" "length (map (io_row pf host) ?ch) = k" by (simp_all add: st' k)
  show "k \<le> 6" using chosen_devices_at_most [of pf host st devices] by (simp add: k MAX_IO_DEVICES_STORED_def)
  fix n d b r
  assume n: "(n, d) \<in> set (named_devices devices)" and j: "judge_device pf (latest_sample pf host n st) d = Rated b r"
  show "io_row pf host (n, d, Some r) \<in> set (map (io_row pf host) ?ch) \<or>
     k = 6 \<and> (\<forall>s\<in>set (map (io_row pf host) ?ch). \<exists>b' n' d' r'. s = io_row pf host (n', d', Some r') \<and> (n', d') \<in> set (named_devices devices) \<and>
        judge_device pf (latest_sample pf host n' st) d' = Rated b' r' \<and> b \<le> b')"
  proof (cases "(n, d, Some r) \<in> set ?ch")
    case False
    note left = left_out_device [OF rated_deviceI [OF n j] False]
    show ?thesis using left(1) left(2) unfolding k set_map MAX_IO_DEVICES_STORED_def by (blast dest: rated_deviceD)
  qed simp
qed

subsection \<open>Rates refer to the sample stored before\<close>

text \<open>Every stored sample of the host is from before this moment.\<close>

definition mariadb_before :: "string \<Rightarrow> datetime \<Rightarrow> 'a store_perf_db_scheme \<Rightarrow> bool" where
  "mariadb_before host t st \<longleftrightarrow> list_all (\<lambda>m. md_monitored_host m = host \<longrightarrow> md_collected_at m \<le> t) (mariadb_metrics st)"

lemma mariadb_base_after_store:
  assumes "mariadb_before host (pf_now pf) st" and "mr_status r \<noteq> []"
    and s: "process_mariadb pf host r st = ((1, k, ws), st1)"
  shows "mariadb_base pf2 host r2 st1 =
    usable_sample (pf_now pf2) (cint_val pf2 (get (mr_status r2) ''Uptime''))
      (Some (pf_now pf, cint_val pf (get (mr_status r) ''Uptime''), Some (raw_counters_of MARIADB_COUNTER_KEYS (mr_status r))))"
proof -
  let ?row = "mariadb_row pf host r (mariadb_base pf host r st)"
  have "mariadb_metrics st1 = mariadb_metrics st @ [?row]"
    using assms(2) s by (auto simp: process_mariadb_def store_mariadb_sample_def store_mariadb_snapshot_def Let_def split: if_splits)
  then have "newest_by md_collected_at None (filter (\<lambda>m. md_monitored_host m = host) (mariadb_metrics st1)) = Some ?row"
    using assms(1) by (auto simp: mariadb_row_def mariadb_before_def list_all_iff intro!: newest_by_last)
  then show ?thesis by (simp add: mariadb_base_def mariadb_row_def)
qed

lemma map_of_raw_counters: "map_of (raw_counters_of ks d) k = (if k \<in> set ks then map_of d k else None)"
  unfolding raw_counters_of_def by (induction ks) (auto split: option.splits)

lemma get_raw_counters: "k \<in> set ks \<Longrightarrow> get (raw_counters_of ks d) k = get d k"
  by (simp add: get_def map_of_raw_counters)

lemma rate_columns: "(c, k) \<in> set MARIADB_RATES \<Longrightarrow> k \<in> set MARIADB_COUNTER_KEYS"
proof -
  have "list_all (\<lambda>(c, k). k \<in> set MARIADB_COUNTER_KEYS) MARIADB_RATES" by (simp add: MARIADB_RATES_def MARIADB_COUNTER_KEYS_def)
  then show "(c, k) \<in> set MARIADB_RATES \<Longrightarrow> ?thesis" unfolding list_all_iff by blast
qed

lemma changes_other: "list_all (\<lambda>c. c \<notin> set (map fst MARIADB_RATES)) (map fst (mariadb_changes base st))"
  by (simp add: mariadb_changes_def MARIADB_RATES_def Let_def)

lemma distinct_rate_columns: "distinct (map fst MARIADB_RATES)"
  by (simp add: MARIADB_RATES_def)

lemma column_of_map:
  assumes "distinct (map fst xs)" and "(c, k) \<in> set xs"
  shows "(c, y) \<in> set (map (\<lambda>(c, k). (c, f k)) xs) \<longleftrightarrow> f k = y"
proof
  assume "(c, y) \<in> set (map (\<lambda>(c, k). (c, f k)) xs)"
  then obtain k' where "(c, k') \<in> set xs" "y = f k'" by auto
  then show "f k = y" using eq_key_imp_eq_value [OF assms(1) _ assms(2)] by blast
next
  assume "f k = y"
  then show "(c, y) \<in> set (map (\<lambda>(c, k). (c, f k)) xs)" using assms(2) by force
qed

lemma rate_column_iff:
  assumes c: "(c, k) \<in> set MARIADB_RATES"
  shows "(c, v) \<in> set (md_values (mariadb_row pf host r base)) \<longleftrightarrow> rate_to base (mr_status r) k = Some v"
proof -
  have c1: "c \<in> set (map fst MARIADB_RATES)" using c by force
  then have "c \<notin> set (map fst (mariadb_gauges pf r))" "c \<notin> set (map fst (mariadb_changes base (mr_status r)))"
    using gauges_other [of pf r] changes_other [of base "mr_status r"] unfolding list_all_iff by blast+
  then have no: "(c, x) \<notin> set (mariadb_gauges pf r)" "(c, x) \<notin> set (mariadb_changes base (mr_status r))" for x by force+
  from column_of_map [OF distinct_rate_columns c]
  have "(c, Some v) \<in> set (map (\<lambda>(col, k). (col, rate_to base (mr_status r) k)) MARIADB_RATES) \<longleftrightarrow> rate_to base (mr_status r) k = Some v" .
  then show ?thesis using no by (simp add: mariadb_row_def keep_known_iff del: set_map)
qed

lemma counter_delta_Some: "counter_delta c p = Some d \<longleftrightarrow> (\<exists>a b. c = Some (Num b) \<and> p = Some (Num a) \<and> a \<le> b \<and> d = b - a)"
  by (cases "(c, p)" rule: counter_delta.cases) auto

lemma rate_to_Some:
  assumes "base = Some (prev, g)" "g \<noteq> 0"
  shows "rate_to base d k = Some v \<longleftrightarrow> (\<exists>a b. get d k = Some (Num b) \<and> get prev k = Some (Num a) \<and> a \<le> b \<and> v = py_round_nd 2 ((b - a) / g))"
  using assms by (auto simp: rate_to_def delta_to_def per_second_def counter_delta_Some split: option.splits)

text \<open>C32: two MariaDB reports in a row, the first the newest of its host. The second row is marked valid exactly when the reports are between
  5 and 900 seconds apart and the uptime has not gone back (an uptime of 0 says nothing); a per-second column is then the difference of the two reports' counters
  over the time between them, rounded, if both gave a number and it has not gone back; and otherwise the column is left out.\<close>

theorem mariadb_rates_exact:
  fixes st :: "'a store_perf_db_scheme"
  assumes before: "mariadb_before host (pf_now pf) st" and r1: "mr_status r1 \<noteq> []" and r2: "mr_status r2 \<noteq> []"
    and s1: "process_mariadb pf host r1 st = ((1, k1, ws1), st1)" and s2: "process_mariadb pf2 host r2 st1 = ((1, k2, ws2), st2)"
    and gap: "gap = of_int (pf_now pf2 - pf_now pf) / of_int SECOND"
    and up: "up1 = cint_val pf (get (mr_status r1) ''Uptime'')" "up2 = cint_val pf2 (get (mr_status r2) ''Uptime'')"
    and col: "(col, key) \<in> set MARIADB_RATES"
  shows "\<exists>row. mariadb_metrics st2 = mariadb_metrics st1 @ [row] \<and> md_monitored_host row = host \<and> md_collected_at row = pf_now pf2 \<and>
    (md_rates_valid row \<longleftrightarrow> 5 \<le> gap \<and> gap \<le> 900 \<and> (up1 = 0 \<or> up1 \<le> up2)) \<and>
    ((col, v) \<in> set (md_values row) \<longleftrightarrow> md_rates_valid row \<and>
       (\<exists>a b. get (mr_status r1) key = Some (Num a) \<and> get (mr_status r2) key = Some (Num b) \<and> a \<le> b \<and> v = py_round_nd 2 ((b - a) / gap)))"
proof -
  let ?base = "mariadb_base pf2 host r2 st1"
  let ?raw = "raw_counters_of MARIADB_COUNTER_KEYS (mr_status r1)"
  have base: "?base = (if 5 \<le> gap \<and> gap \<le> 900 \<and> (up1 = 0 \<or> up1 \<le> up2) then Some (?raw, gap) else None)"
    unfolding mariadb_base_after_store [OF before r1 s1] usable_sample_def gap_seconds_def gap up
    by (simp add: MIN_RATE_GAP_SECONDS_def MAX_RATE_GAP_SECONDS_def Let_def)
  have row: "mariadb_metrics st2 = mariadb_metrics st1 @ [mariadb_row pf2 host r2 ?base]"
    using r2 s2 by (auto simp: process_mariadb_def store_mariadb_sample_def store_mariadb_snapshot_def Let_def split: if_splits)
  have key: "get ?raw key = get (mr_status r1) key" using get_raw_counters [OF rate_columns [OF col]] .
  show ?thesis
  proof (cases "?base = None")
    case True
    then have "5 \<le> gap \<and> gap \<le> 900 \<and> (up1 = 0 \<or> up1 \<le> up2) \<longleftrightarrow> False" using base by (auto split: if_splits)
    moreover have "rate_to ?base (mr_status r2) key = None" using True by (simp add: rate_to_def)
    ultimately show ?thesis using row rate_column_iff [OF col, of v pf2 host r2 ?base] True by (simp add: mariadb_row_def)
  next
    case False
    then have b: "?base = Some (?raw, gap)" and ok: "5 \<le> gap \<and> gap \<le> 900 \<and> (up1 = 0 \<or> up1 \<le> up2) \<longleftrightarrow> True" using base by (auto split: if_splits)
    then have "gap \<noteq> 0" by auto
    from rate_to_Some [OF b this] show ?thesis
      using row rate_column_iff [OF col, of v pf2 host r2 ?base] ok b by (auto simp: mariadb_row_def key)
  qed
qed

subsection \<open>Configuration snapshots\<close>

definition host_snapshots :: "string \<Rightarrow> 'a store_perf_db_scheme \<Rightarrow> mariadb_snapshot list" where
  "host_snapshots host st = filter (\<lambda>s. mc_monitored_host s = host) (mariadb_snapshots st)"

text \<open>The snapshots of a host up to a time: in order, and each next one with other settings or at least an hour later.\<close>

definition snapshots_in_order :: "string \<Rightarrow> datetime \<Rightarrow> 'a store_perf_db_scheme \<Rightarrow> bool" where
  "snapshots_in_order host t st \<longleftrightarrow>
     list_all (\<lambda>s. mc_collected_at s \<le> t) (host_snapshots host st) \<and> sorted (map mc_collected_at (host_snapshots host st)) \<and>
     successively (\<lambda>a b. mc_variables_hash b \<noteq> mc_variables_hash a \<or> mc_collected_at b - mc_collected_at a \<ge> 3600 * SECOND) (host_snapshots host st)"

lemma latest_snapshot_last:
  assumes "sorted (map mc_collected_at (host_snapshots host st))" "host_snapshots host st \<noteq> []"
  shows "latest_snapshot host st = Some (last (host_snapshots host st))"
proof -
  obtain ss s where e: "host_snapshots host st = ss @ [s]" using assms(2) by (cases "host_snapshots host st" rule: rev_cases) auto
  have "\<And>r. r \<in> set ss \<Longrightarrow> mc_collected_at r \<le> mc_collected_at s" using assms(1) by (auto simp: e sorted_append)
  then show ?thesis unfolding latest_snapshot_def host_snapshots_def [symmetric] e by (simp add: newest_by_last)
qed

lemma host_snapshots_step:
  "host_snapshots host (snd (process_mariadb pf host' r st)) = host_snapshots host st \<or>
   (\<exists>s. host' = host \<and> host_snapshots host (snd (process_mariadb pf host' r st)) = host_snapshots host st @ [s] \<and> mc_collected_at s = pf_now pf \<and>
      (case latest_snapshot host st of
         None \<Rightarrow> True
       | Some l \<Rightarrow> mc_variables_hash s \<noteq> mc_variables_hash l \<or> pf_now pf - mc_collected_at l \<ge> 3600 * SECOND))"
proof -
  let ?st1 = "snd (if mr_status r = [] then (True, st) else store_mariadb_sample pf host' r st)"
  have same: "mariadb_snapshots ?st1 = mariadb_snapshots st" by (simp add: store_mariadb_sample_def Let_def)
  then have l: "latest_snapshot host ?st1 = latest_snapshot host st" by (simp add: latest_snapshot_def)
  have "snd (process_mariadb pf host' r st) \<in> {perf_error (''Host Health: malformed MariaDB payload from '' @ host') ?st1, ?st1, snd (store_mariadb_snapshot pf host' r ?st1)}"
    by (simp add: process_mariadb_def Let_def)
  moreover have "mariadb_snapshots (perf_error t ?st1) = mariadb_snapshots st" for t using same by (simp add: perf_error_def)
  moreover have "mariadb_snapshots (snd (store_mariadb_snapshot pf host' r ?st1)) = mariadb_snapshots st \<or>
      (\<exists>s. mariadb_snapshots (snd (store_mariadb_snapshot pf host' r ?st1)) = mariadb_snapshots st @ [s] \<and> mc_monitored_host s = host' \<and> mc_collected_at s = pf_now pf \<and>
        (host' = host \<longrightarrow> (case latest_snapshot host st of
           None \<Rightarrow> True
         | Some l \<Rightarrow> mc_variables_hash s \<noteq> mc_variables_hash l \<or> pf_now pf - mc_collected_at l \<ge> 3600 * SECOND)))"
    using same l by (auto simp: store_mariadb_snapshot_def Let_def settings_changed_def sizes_due_def MARIADB_SNAPSHOT_EVERY_SECONDS_def split: option.splits)
  ultimately show ?thesis using same unfolding host_snapshots_def by (cases "host' = host") auto
qed

lemma snapshots_in_order_step:
  fixes st :: "'a store_perf_db_scheme"
  assumes i: "snapshots_in_order host t st" and t: "t \<le> pf_now pf"
  shows "snapshots_in_order host (pf_now pf) (snd (process_mariadb pf host' r st))"
proof -
  let ?ss = "host_snapshots host st"
  have le: "list_all (\<lambda>s. mc_collected_at s \<le> pf_now pf) ?ss" using i t by (auto simp: snapshots_in_order_def list_all_iff)
  from host_snapshots_step [of host pf host' r st] show ?thesis
  proof (elim disjE exE conjE)
    assume "host_snapshots host (snd (process_mariadb pf host' r st)) = ?ss"
    then show ?thesis using i le by (simp add: snapshots_in_order_def)
  next
    fix s assume new: "host_snapshots host (snd (process_mariadb pf host' r st)) = ?ss @ [s]" and at_now: "mc_collected_at s = pf_now pf"
      and due: "case latest_snapshot host st of None \<Rightarrow> True
        | Some l \<Rightarrow> mc_variables_hash s \<noteq> mc_variables_hash l \<or> pf_now pf - mc_collected_at l \<ge> 3600 * SECOND"
    have "?ss \<noteq> [] \<Longrightarrow> mc_variables_hash s \<noteq> mc_variables_hash (last ?ss) \<or> pf_now pf - mc_collected_at (last ?ss) \<ge> 3600 * SECOND"
      using due latest_snapshot_last [of host st] i by (simp add: snapshots_in_order_def)
    then show ?thesis using i le unfolding snapshots_in_order_def new
      by (auto simp: successively_append_iff sorted_append list_all_iff at_now)
  qed
qed

text \<open>Over any run of MariaDB reports that arrive in the order of their clock, two neighbouring settings snapshots of a host differ in
  the fingerprint of the settings or are at least an hour apart, and they are stored in order.\<close>

theorem settings_snapshots_spaced:
  fixes st :: "'a store_perf_db_scheme"
  assumes "snapshots_in_order host t st" and "sorted (t # map (\<lambda>q. pf_now (fst q)) reports)"
  shows "snapshots_in_order host (last (t # map (\<lambda>q. pf_now (fst q)) reports)) (fold (\<lambda>(pf, h, r) st. snd (process_mariadb pf h r st)) reports st)"
  using assms
proof (induction reports arbitrary: t st)
  case (Cons q qs)
  obtain pf h r where q: "q = (pf, h, r)" by (cases q)
  have "snapshots_in_order host (pf_now pf) (snd (process_mariadb pf h r st))" using Cons.prems by (intro snapshots_in_order_step) (auto simp: q)
  from Cons.IH [OF this] show ?case using Cons.prems(2) by (simp add: q)
qed simp

subsection \<open>Demonstration\<close>

definition demo_pf :: "int \<Rightarrow> perf_env" where
  "demo_pf t = \<lparr>pf_now = t * SECOND, pf_flt = (\<lambda>s. 0), pf_column = id, pf_digest = (\<lambda>d. case d of [] \<Rightarrow> [] | (k, v) # _ \<Rightarrow> k)\<rparr>"

definition demo_perf :: store_perf_db where
  "demo_perf = \<lparr>memory_metrics = [], io_samples = [], perf_errors = [], mariadb_metrics = [], mariadb_snapshots = [], redis_metrics = []\<rparr>"

definition demo_mariadb :: "rat \<Rightarrow> rat \<Rightarrow> mariadb_report" where
  "demo_mariadb up n = \<lparr>mr_status = [(''Uptime'', Num up), (''Questions'', Num n)], mr_variables = [(''version'', Txt ''11'')], mr_process = [], mr_data = [],
     mr_oldest_trx_s = None, mr_trx_count = None, mr_limited = [], mr_sites_total = None\<rparr>"

definition demo_busy_disk :: "rat \<Rightarrow> device_report" where
  "demo_busy_disk n = Some (Some ''sda'', map (\<lambda>c. (snd c, Num n)) IO_COUNTERS)"

lemma demo_perf_ok: "perf_ok demo_perf"
  by (simp add: perf_ok_def demo_perf_def)

theorem performance_history_well_formed_witness:
  "perf_ok (fold perf_step_run [MariaDB (demo_pf 0) ''h'' (demo_mariadb 10 5), MariaDB (demo_pf 60) ''h'' (demo_mariadb 70 65)] demo_perf)"
  by (rule performance_history_well_formed) (rule demo_perf_ok)

theorem settings_snapshots_spaced_witness:
  "snapshots_in_order ''h'' (60 * SECOND) (fold (\<lambda>(pf, h, r) st. snd (process_mariadb pf h r st))
     [(demo_pf 0, ''h'', demo_mariadb 10 5), (demo_pf 60, ''h'', demo_mariadb 70 65)] demo_perf)"
  using settings_snapshots_spaced [of "''h''" 0 demo_perf "[(demo_pf 0, ''h'', demo_mariadb 10 5), (demo_pf 60, ''h'', demo_mariadb 70 65)]"]
  by (simp add: demo_pf_def snapshots_in_order_def host_snapshots_def demo_perf_def SECOND_def)

definition demo_perf1 :: store_perf_db where
  "demo_perf1 = snd (process_mariadb (demo_pf 0) ''h'' (demo_mariadb 10 5) demo_perf)"

lemma demo_mariadb_first: "process_mariadb (demo_pf 0) ''h'' (demo_mariadb 10 5) demo_perf = ((1, 1, []), demo_perf1)"
proof -
  have "fst (process_mariadb (demo_pf 0) ''h'' (demo_mariadb 10 5) demo_perf) = (1, 1, [])" by code_simp
  then show ?thesis unfolding demo_perf1_def by (metis prod.collapse)
qed

lemma demo_mariadb_second:
  "process_mariadb (demo_pf 60) ''h'' (demo_mariadb 70 65) demo_perf1 = ((1, 0, []), snd (process_mariadb (demo_pf 60) ''h'' (demo_mariadb 70 65) demo_perf1))"
proof -
  have "fst (process_mariadb (demo_pf 60) ''h'' (demo_mariadb 70 65) demo_perf1) = (1, 0, [])" by code_simp
  then show ?thesis by (metis prod.collapse)
qed

theorem mariadb_rates_exact_witness:
  "\<exists>row. mariadb_metrics (snd (process_mariadb (demo_pf 60) ''h'' (demo_mariadb 70 65) demo_perf1)) = mariadb_metrics demo_perf1 @ [row] \<and>
     md_rates_valid row \<and> (''queries_per_s'', 1) \<in> set (md_values row)"
proof -
  have col: "(''queries_per_s'', ''Questions'') \<in> set MARIADB_RATES" by (simp add: MARIADB_RATES_def)
  have before: "mariadb_before ''h'' (pf_now (demo_pf 0)) demo_perf" by (simp add: mariadb_before_def demo_perf_def)
  have status: "mr_status (demo_mariadb 10 5) \<noteq> []" "mr_status (demo_mariadb 70 65) \<noteq> []" by (simp_all add: demo_mariadb_def)
  have gap: "60 = of_int (pf_now (demo_pf 60) - pf_now (demo_pf 0)) / (of_int SECOND :: rat)" by (simp add: demo_pf_def SECOND_def)
  have up: "10 = cint_val (demo_pf 0) (get (mr_status (demo_mariadb 10 5)) ''Uptime'')" "70 = cint_val (demo_pf 60) (get (mr_status (demo_mariadb 70 65)) ''Uptime'')"
    by code_simp+
  have "1 = py_round_nd 2 ((65 - 5) / 60)" by code_simp
  moreover have "get (mr_status (demo_mariadb 10 5)) ''Questions'' = Some (Num 5)" "get (mr_status (demo_mariadb 70 65)) ''Questions'' = Some (Num 65)"
    by code_simp+
  ultimately show ?thesis
    using mariadb_rates_exact [OF before status demo_mariadb_first demo_mariadb_second gap up col, of 1] by fastforce
qed

definition demo_io :: store_perf_db where
  "demo_io = snd (store_io_samples (demo_pf 0) ''h'' [demo_busy_disk 100] demo_perf)"

theorem io_keeps_the_busiest_witness:
  "\<exists>rows. io_samples (snd (store_io_samples (demo_pf 60) ''h'' [demo_busy_disk 400] demo_io)) = io_samples demo_io @ rows \<and> length rows = 1"
proof -
  have "fst (store_io_samples (demo_pf 60) ''h'' [demo_busy_disk 400] demo_io) = Some 1" by code_simp
  then have s: "store_io_samples (demo_pf 60) ''h'' [demo_busy_disk 400] demo_io = (Some 1, snd (store_io_samples (demo_pf 60) ''h'' [demo_busy_disk 400] demo_io))"
    by (metis prod.collapse)
  show ?thesis using io_keeps_the_busiest [OF s] by blast
qed

end
