(* ===== verification/Host_Poll.thy ===== *)
theory Host_Poll
  imports Ssh_Client Host_Resources Host_Performance
begin

text \<open>
  The SSH poller (\<open>tasks/host_poller.py\<close>): one pass over the enabled hosts and the bounded loop around it. A pass resolves every host,
  polls the targets (in threads, which only touch their own connection, so that here the polls follow each other in the order their
  results arrive), stores the reports on the loop's own thread and judges the bastion. The state is the pair of the current and the last committed tables.
\<close>

record poll_db = resource_db +
  perf :: store_perf_db
  slow_read :: "string \<Rightarrow> rat option"

text \<open>A section of a report: left out, empty, with arguments the storing function does not take, or as it should be.\<close>

datatype 'r part = Absent | Empty | Bad | Part 'r

record host_report =
  hp_status :: "status_report option"
  hp_resources :: "resource_report option"
  hp_mariadb :: "(mariadb_report \<times> bool) part"
  hp_redis :: "redis_entry list part"
  hp_performance :: "performance_report part"
  hp_errors :: "string list"

definition SLOW_TIER_SECONDS :: int where "SLOW_TIER_SECONDS = 300"
definition HOST_DEFAULT_INTERVAL_SECONDS :: int where "HOST_DEFAULT_INTERVAL_SECONDS = 30"
definition HOST_POLLER_JOB_ID :: string where "HOST_POLLER_JOB_ID = ''alfaedge_pulse_host_poller''"
definition HOST_HEARTBEAT_CACHE_KEY :: string where "HOST_HEARTBEAT_CACHE_KEY = ''alfaedge_pulse:host_poller_heartbeat''"
definition HOST_MAX_LOOP_SECONDS :: int where "HOST_MAX_LOOP_SECONDS = 300"
definition RUN_HOST_POLL_LOOP :: string where "RUN_HOST_POLL_LOOP = ''alfaedge_pulse.tasks.host_poller.run_host_poll_loop''"

definition slow_key :: "string \<Rightarrow> string" where
  "slow_key n = ''alfaedge_pulse:slow_collect:'' @ n"

text \<open>What is outside during a pass: the clocks and channels, the numbers of the performance part, the configuration file, the private key, the network, the collector's JSON,
  the order in which results arrive, and how long each poll took.\<close>

datatype key_state = KeyMissing | KeyUnreadable string | KeyOk

record pass_world =
  pw_report :: report_env
  pw_perf :: perf_env
  pw_roles :: conf_roles
  pw_key :: key_state
  pw_net :: ssh_net
  pw_json :: "string \<Rightarrow> host_report option"
  pw_order :: "target list \<Rightarrow> target list"
  pw_duration_ms :: "string \<Rightarrow> int"

definition load_private_key :: "key_state \<Rightarrow> ssh_error option" where
  "load_private_key k =
     (case k of
        KeyMissing \<Rightarrow> Some (host_error ''auth'' ''No SSH private key is configured in SSH Settings.'')
      | KeyUnreadable n \<Rightarrow> Some (host_error ''auth'' (''Could not read the SSH private key ('' @ n @ '').''))
      | KeyOk \<Rightarrow> None)"

type_synonym 'a tables = "'a poll_db_scheme \<times> 'a poll_db_scheme"

definition commit :: "'a poll_db_scheme \<Rightarrow> 'a tables" where
  "commit st = (st, st)"

text \<open>A rollback keeps what was sent and what Redis holds.\<close>

definition host_rollback :: "'a poll_db_scheme \<Rightarrow> 'a poll_db_scheme \<Rightarrow> 'a poll_db_scheme" where
  "host_rollback committed st = committed\<lparr>outbox := outbox st, cache_expiry := cache_expiry st, slow_read := slow_read st\<rparr>"

definition failed :: "string \<Rightarrow> 'a poll_db_scheme \<Rightarrow> 'a poll_db_scheme \<Rightarrow> 'a tables" where
  "failed title committed st = (log_error title (host_rollback committed st), committed)"

definition on_perf :: "(store_perf_db \<Rightarrow> 'r \<times> store_perf_db) \<Rightarrow> 'a poll_db_scheme \<Rightarrow> 'a poll_db_scheme" where
  "on_perf f st = st\<lparr>perf := snd (f (perf st))\<rparr>"

text \<open>The three sections that may fail without spoiling the rest.\<close>

definition store_part :: "string \<Rightarrow> ('r \<Rightarrow> store_perf_db \<Rightarrow> 'x \<times> store_perf_db) \<Rightarrow> 'r part \<Rightarrow> 'a tables \<Rightarrow> 'a tables" where
  "store_part title f s p =
     (case s of
        Part r \<Rightarrow> commit (on_perf (f r) (fst p))
      | Bad \<Rightarrow> failed title (snd p) (fst p)
      | _ \<Rightarrow> p)"

definition slow_due :: "pass_world \<Rightarrow> string \<Rightarrow> 'a poll_db_scheme \<Rightarrow> bool" where
  "slow_due w n st \<longleftrightarrow>
     \<not> cache_get (re_poll_env (pw_report w)) (slow_key n) st \<or>
     (case slow_read st n of None \<Rightarrow> True | Some last_read \<Rightarrow> nt_now (pw_net w) - last_read \<ge> of_int SLOW_TIER_SECONDS)"

definition mark_slow_read :: "pass_world \<Rightarrow> target \<Rightarrow> host_report \<Rightarrow> 'a poll_db_scheme \<Rightarrow> 'a poll_db_scheme" where
  "mark_slow_read w t r st =
     (if tg_slow t \<and> (case hp_mariadb r of Absent \<Rightarrow> True | Part (m, data_read) \<Rightarrow> data_read | _ \<Rightarrow> False)
      then (cache_set (re_poll_env (pw_report w)) (slow_key (tg_name t)) (SLOW_TIER_SECONDS * 4) st)
             \<lparr>slow_read := (slow_read st)(tg_name t \<mapsto> nt_now (pw_net w))\<rparr>
      else st)"

definition store_report :: "pass_world \<Rightarrow> target \<Rightarrow> host_report \<Rightarrow> string option \<Rightarrow> 'a tables \<Rightarrow> 'a tables" where
  "store_report w t r new_key p =
     (let n = tg_name t; re = pw_report w; pf = pw_perf w;
          title = ''Host Health: storing report from '' @ n @ '' failed'';
          st1 = (case new_key of None \<Rightarrow> fst p | Some k \<Rightarrow> if k = [] then fst p else pin_key n (tg_pin_scope t = ''settings'') k (fst p))
      in case hp_status r of
           None \<Rightarrow> failed title (snd p) st1
         | Some status \<Rightarrow>
             (case process_status re n status st1 of
                (Inl err, st2) \<Rightarrow> failed title (snd p) st2
              | (Inr res, st2) \<Rightarrow>
                  (case hp_resources r of
                     None \<Rightarrow> failed title st2 st2
                   | Some resources \<Rightarrow>
                       (case process_resources re n resources st2 of
                          (Inl err, st3) \<Rightarrow> failed title st2 st3
                        | (Inr res3, st3) \<Rightarrow>
                            (let p3 = (mark_slow_read w t r st3, st3);
                                 p4 = store_part (''Host Health: MariaDB report from '' @ n @ '' failed'') (\<lambda>m. process_mariadb pf n (fst m)) (hp_mariadb r) p3;
                                 p5 = store_part (''Host Health: Redis report from '' @ n @ '' failed'') (process_redis pf n) (hp_redis r) p4;
                                 p6 = store_part (''Host Health: performance report from '' @ n @ '' failed'') (process_performance pf n) (hp_performance r) p5
                             in commit (set_host n (\<lambda>h. h\<lparr>mh_last_poll_kind := ''ok'', mh_last_poll_error := take 500 (py_join ''; '' (hp_errors r)),
                                  mh_last_poll_duration_ms := pw_duration_ms w n\<rparr>) (fst p6)))))))"

text \<open>\<open>_record_failure\<close> with its commit, which a failure that repeats itself does not reach.\<close>

definition failure_known :: "string \<Rightarrow> ssh_error \<Rightarrow> 'a poll_db_scheme \<Rightarrow> bool" where
  "failure_known n e st \<longleftrightarrow>
     (case find_row mh_name n (monitored_hosts st) of
        None \<Rightarrow> False
      | Some h \<Rightarrow> mh_last_poll_kind h = se_kind e \<and> mh_last_poll_error h = take 500 (se_message e))"

definition note_failure :: "string \<Rightarrow> ssh_error \<Rightarrow> int \<Rightarrow> 'a tables \<Rightarrow> 'a tables" where
  "note_failure n e duration_ms p =
     (if failure_known n e (fst p) then p else commit (record_failure n (se_kind e) (se_message e) duration_ms (fst p)))"

subsection \<open>One pass\<close>

fun resolve_all :: "pass_world \<Rightarrow> string list \<Rightarrow> 'a tables \<Rightarrow> target list \<times> 'a tables" where
  "resolve_all w [] p = ([], p)"
| "resolve_all w (n # ns) p =
     (case resolve_target (pw_roles w) n (fst p) of
        Inr t \<Rightarrow> (case resolve_all w ns p of (ts, q) \<Rightarrow> (t # ts, q))
      | Inl (Some e) \<Rightarrow> resolve_all w ns (note_failure n e 0 p)
      | Inl None \<Rightarrow> resolve_all w ns (log_error (''Host Health: cannot resolve SSH target for '' @ n) (fst p), snd p))"

record pass_counts =
  pc_succeeded :: int
  pc_bastion_failed :: int

fun poll_targets :: "pass_world \<Rightarrow> target list \<Rightarrow> ssh_state \<Rightarrow> 'a tables \<Rightarrow> pass_counts \<times> ssh_state \<times> 'a tables" where
  "poll_targets w [] ss p = (\<lparr>pc_succeeded = 0, pc_bastion_failed = 0\<rparr>, ss, p)"
| "poll_targets w (t # ts) ss p =
     (case collect (pw_json w) (pw_net w) t ss of
        (Done (r, k), ss1) \<Rightarrow>
          (case poll_targets w ts ss1 (store_report w t r k p) of (c, s, q) \<Rightarrow> (c\<lparr>pc_succeeded := pc_succeeded c + 1\<rparr>, s, q))
      | (Poll_Error e, ss1) \<Rightarrow>
          (case poll_targets w ts ss1 (note_failure (tg_name t) e (pw_duration_ms w (tg_name t)) p) of
             (c, s, q) \<Rightarrow> (c\<lparr>pc_bastion_failed := pc_bastion_failed c + (if se_scope e = ''bastion'' then 1 else 0)\<rparr>, s, q))
      | (Raised f, ss1) \<Rightarrow> poll_targets w ts ss1 (log_error (''Host Health: poll crashed for '' @ tg_name t) (fst p), snd p))"

definition enabled_hosts :: "'a poll_db_scheme \<Rightarrow> string list" where
  "enabled_hosts st = map mh_name (filter mh_enabled (monitored_hosts st))"

definition poll_all_hosts :: "pass_world \<Rightarrow> ssh_state \<Rightarrow> 'a tables \<Rightarrow> ssh_state \<times> 'a tables" where
  "poll_all_hosts w ss p =
     (let hosts = enabled_hosts (fst p)
      in if hosts = [] then (ss, p)
         else case load_private_key (pw_key w) of
                Some e \<Rightarrow> (ss, fold (\<lambda>n. note_failure n e 0) hosts p)
              | None \<Rightarrow>
                  (case resolve_all w hosts p of
                     (ts, p1) \<Rightarrow>
                       (let targets = map (\<lambda>t. t\<lparr>tg_slow := slow_due w (tg_name t) (fst p1)\<rparr>) ts
                        in case poll_targets w (pw_order w targets) ss p1 of
                             (c, ss2, p2) \<Rightarrow>
                               (ss2, if targets = [] then p2
                                     else commit (snd (update_bastion_state (base_env (re_poll_env (pw_report w)))
                                            (int (length targets)) (pc_succeeded c) (pc_bastion_failed c) (fst p2)))))))"

subsection \<open>The loop\<close>

record host_world =
  hw_pass :: pass_world
  hw_allowed :: bool
  hw_elapsed :: rat
  hw_stop :: bool
  hw_crash :: bool

definition host_poll_interval :: "'a host_db_scheme \<Rightarrow> int" where
  "host_poll_interval st = or_int (ssh_poll_interval_seconds (ssh_settings st)) HOST_DEFAULT_INTERVAL_SECONDS"

text \<open>One turn of the loop; the flag says that polling was found switched off, which ends the run without a successor.\<close>

definition host_cycle :: "host_world \<Rightarrow> bool \<times> ssh_state \<times> 'a tables \<Rightarrow> bool \<times> ssh_state \<times> 'a tables" where
  "host_cycle w s =
     (case s of (off, ss, p) \<Rightarrow>
        if \<not> polling_on (hw_allowed w) (fst p) then (True, ss, p)
        else let st = cache_set (re_poll_env (pw_report (hw_pass w))) HOST_HEARTBEAT_CACHE_KEY (max (host_poll_interval (fst p) * 4) 120) (fst p)
             in if hw_crash w then (False, ss, failed ''Host Health: SSH poll cycle failed'' (snd p) st)
                else (False, poll_all_hosts (hw_pass w) ss (st, snd p)))"

definition keep_host_polling :: "host_world \<Rightarrow> bool" where
  "keep_host_polling w \<longleftrightarrow> \<not> hw_stop w \<and> hw_elapsed w < of_int HOST_MAX_LOOP_SECONDS"

fun host_loop :: "nat \<Rightarrow> (nat \<Rightarrow> host_world) \<Rightarrow> nat \<Rightarrow> bool \<times> ssh_state \<times> 'a tables \<Rightarrow> (nat \<times> bool \<times> ssh_state \<times> 'a tables) option" where
  "host_loop 0 w i s = None"
| "host_loop (Suc fuel) w i s =
     (if keep_host_polling (w i) then (let s1 = host_cycle (w i) s in if fst s1 then Some (Suc i, s1) else host_loop fuel w (Suc i) s1)
      else Some (i, s))"

definition run_host_poll_loop :: "nat \<Rightarrow> job_env \<Rightarrow> string option \<Rightarrow> (nat \<Rightarrow> host_world) \<Rightarrow> ssh_state \<Rightarrow> 'a tables \<Rightarrow> (nat \<times> bool \<times> ssh_state \<times> 'a tables) option" where
  "run_host_poll_loop fuel je current w ss p =
     map_option (\<lambda>(i, off, s, q).
         (i, off, s, if \<not> off \<and> \<not> hw_stop (w i) \<and> hw_elapsed (w i) \<ge> of_int HOST_MAX_LOOP_SECONDS
                     then (hand_off_loop je current RUN_HOST_POLL_LOOP HOST_POLLER_JOB_ID (fst q), snd q) else q))
       (host_loop fuel w 0 (False, ss, p))"

interpretation host_run: bounded_loop
  "\<lambda>fuel. host_loop fuel w" "\<lambda>i. keep_host_polling (w i)" "\<lambda>i. host_cycle (w i)" "\<lambda>s. fst s"
  "\<lambda>i. hw_stop (w i)" "\<lambda>i. hw_elapsed (w i)" HOST_MAX_LOOP_SECONDS for w
  by unfold_locales (auto simp: keep_host_polling_def HOST_MAX_LOOP_SECONDS_def Let_def)

text \<open>One run of the host poller always comes back after at most 301 cycles, and hands over to a successor exactly when it ended
  by reaching its time bound.\<close>

theorem run_host_poll_loop_returns:
  assumes "0 \<le> hw_elapsed (w 0)" and "\<And>i. hw_stop (w (Suc i)) \<or> hw_elapsed (w i) + 1 \<le> hw_elapsed (w (Suc i))"
  shows "\<exists>k off s q. host_loop 301 w 0 (False, ss, p) = Some (k, off, s, q) \<and> k \<le> 301 \<and>
    run_host_poll_loop 301 je current w ss p =
      Some (k, off, s, if off \<or> hw_stop (w k) \<or> hw_elapsed (w k) < 300 then q
                       else (hand_off_loop je current RUN_HOST_POLL_LOOP HOST_POLLER_JOB_ID (fst q), snd q))"
proof -
  have "\<exists>k q. host_loop (Suc (nat HOST_MAX_LOOP_SECONDS)) w 0 (False, ss, p) = Some (k, q) \<and> k \<le> Suc (nat HOST_MAX_LOOP_SECONDS) \<and>
      (\<not> keep_host_polling (w k) \<or> fst q)"
    by (rule host_run.run_returns) (rule assms)+
  then obtain k off s q where "host_loop 301 w 0 (False, ss, p) = Some (k, off, s, q)" "k \<le> 301"
    by (auto simp: HOST_MAX_LOOP_SECONDS_def)
  then show ?thesis by (auto simp: run_host_poll_loop_def HOST_MAX_LOOP_SECONDS_def)
qed

subsection \<open>Which hosts a pass reaches\<close>

lemma role_set_host:
  assumes "\<And>h. mh_name (f h) = mh_name h" and "\<And>h. mh_proxmox_guest (f h) = mh_proxmox_guest h"
  shows "get_host_role m (set_host n f st) = get_host_role m st"
proof -
  have "guest_role g (set_host n f st) = guest_role g st" for g unfolding set_host_def guest_role_def by (simp split: option.split)
  moreover have "find_row mh_name m (monitored_hosts (set_host n f st)) = map_option (\<lambda>x. if mh_name x = n then f x else x) (find_row mh_name m (monitored_hosts st))"
    using find_row_map_if [of mh_name f m "\<lambda>x. mh_name x = n" "monitored_hosts st"] assms(1) by (simp add: set_host_def)
  ultimately show ?thesis by (cases "find_row mh_name m (monitored_hosts st)") (simp_all add: get_host_role_def assms(2))
qed

lemma role_note_failure: "get_host_role m (fst (note_failure n e d p)) = get_host_role m (fst p)"
  by (simp add: note_failure_def commit_def record_failure_def Let_def role_set_host split: option.splits)

lemma role_log_error: "get_host_role m (log_error t (st :: 'a poll_db_scheme)) = get_host_role m st"
proof -
  have "guest_role g (log_error t st) = guest_role g st" for g unfolding log_error_def guest_role_def by (simp split: option.split)
  then show ?thesis by (simp add: get_host_role_def split: option.split)
qed

lemma resolved_role:
  assumes "resolve_target conf n st = Inr t" and "allowed_roles conf = Some rs" and "rs \<noteq> []"
  shows "tg_name t = n \<and> (\<exists>r \<in> set rs. get_host_role n st = Some r)"
  using assms by (auto simp: resolve_target_def Let_def split: option.splits sum.splits if_splits dest: check_role_None)

lemma resolve_all_roles:
  fixes p :: "'a tables"
  assumes "resolve_all w ns p = (ts, q)" and "allowed_roles (pw_roles w) = Some rs" and "rs \<noteq> []" and "t \<in> set ts"
  shows "tg_name t \<in> set ns \<and> (\<exists>r \<in> set rs. get_host_role (tg_name t) (fst p) = Some r)"
  using assms(1,4)
proof (induction ns arbitrary: p ts q)
  case (Cons n ns)
  show ?case
  proof (cases "resolve_target (pw_roles w) n (fst p)")
    case (Inr t0)
    obtain us q0 where us: "resolve_all w ns p = (us, q0)" by (cases "resolve_all w ns p")
    with Cons.prems Inr have "t = t0 \<or> t \<in> set us" by auto
    then show ?thesis using Cons.IH [OF us] resolved_role [OF Inr assms(2,3)] by auto
  next
    case (Inl err)
    obtain p1 where "resolve_all w ns p1 = (ts, q)" "\<And>m. get_host_role m (fst p1) = get_host_role m (fst p)"
      using Cons.prems(1) Inl that [of "note_failure n (the err) 0 p"] that [of "(log_error (''Host Health: cannot resolve SSH target for '' @ n) (fst p), snd p)"]
      by (cases err) (auto simp: role_note_failure role_log_error)
    with Cons.IH [of p1 ts q] Cons.prems(2) show ?thesis by auto
  qed
qed simp

definition reaches_only :: "(string \<Rightarrow> bool) \<Rightarrow> ssh_state \<Rightarrow> ssh_state \<Rightarrow> bool" where
  "reaches_only ok ss ss' \<longleftrightarrow>
     (\<exists>cs rs. contacts ss' = contacts ss @ cs \<and> list_all (\<lambda>c. ok (fst c)) cs \<and> runs ss' = runs ss @ rs \<and> list_all (\<lambda>r. ok (fst r)) rs)"

lemma reaches_only_refl: "reaches_only ok ss ss"
  by (simp add: reaches_only_def)

lemma reaches_only_trans:
  assumes "reaches_only ok a b" and "reaches_only ok b c"
  shows "reaches_only ok a c"
proof -
  from assms(1) obtain cs rs where "contacts b = contacts a @ cs" "list_all (\<lambda>c. ok (fst c)) cs" "runs b = runs a @ rs" "list_all (\<lambda>r. ok (fst r)) rs"
    unfolding reaches_only_def by blast
  moreover from assms(2) obtain ds qs where "contacts c = contacts b @ ds" "list_all (\<lambda>c. ok (fst c)) ds" "runs c = runs b @ qs" "list_all (\<lambda>r. ok (fst r)) qs"
    unfolding reaches_only_def by blast
  ultimately show ?thesis unfolding reaches_only_def by (intro exI [of _ "cs @ ds"] exI [of _ "rs @ qs"]) simp
qed

lemma collect_reaches_only:
  assumes "collect json net t ss = (r, ss1)" and "ok (tg_name t)"
  shows "reaches_only ok ss ss1"
proof -
  from reached_collect [OF assms(1)] obtain cs ks where "contacts ss1 = contacts ss @ cs" "set cs \<subseteq> {(tg_name t, tg_hostname t, tg_username t)}"
    "runs ss1 = runs ss @ map (Pair (tg_name t)) ks" unfolding reached_def by blast
  then show ?thesis using assms(2) unfolding reaches_only_def by (intro exI [of _ cs] exI [of _ "map (Pair (tg_name t)) ks"]) (auto simp: list_all_iff)
qed

lemma poll_targets_reaches_only:
  assumes "poll_targets w ts ss p = (c, ss', p')" and "list_all (\<lambda>t. ok (tg_name t)) ts"
  shows "reaches_only ok ss ss'"
  using assms
proof (induction ts arbitrary: ss p c p')
  case (Cons t ts)
  obtain o1 ss1 where col: "collect (pw_json w) (pw_net w) t ss = (o1, ss1)" by (cases "collect (pw_json w) (pw_net w) t ss")
  have 1: "reaches_only ok ss ss1" using collect_reaches_only [OF col] Cons.prems(2) by simp
  define p1 where "p1 = (case o1 of Done (r, k) \<Rightarrow> store_report w t r k p | Poll_Error e \<Rightarrow> note_failure (tg_name t) e (pw_duration_ms w (tg_name t)) p
    | Raised f \<Rightarrow> (log_error (''Host Health: poll crashed for '' @ tg_name t) (fst p), snd p))"
  have "fst (snd (poll_targets w (t # ts) ss p)) = fst (snd (poll_targets w ts ss1 p1))"
    unfolding p1_def by (simp only: poll_targets.simps col) (simp split: outcome.split prod.split)
  then obtain c1 q1 where "poll_targets w ts ss1 p1 = (c1, ss', q1)" using Cons.prems(1) by (cases "poll_targets w ts ss1 p1") simp
  then have "reaches_only ok ss1 ss'" using Cons.IH [of ss1 p1 c1 q1] Cons.prems(2) by simp
  with 1 show ?case by (rule reaches_only_trans)
qed (simp add: reaches_only_refl)

text \<open>C26: when this server's configuration lists the roles it may poll, a pass opens connections to, and runs the collector on, enabled hosts of a listed
  role only, whatever the hosts, the settings and the key in the database say: a copy of the production database on another server does not reach production.\<close>

theorem only_listed_roles_reached:
  fixes p :: "'a tables"
  assumes pass: "poll_all_hosts w ss p = (ss', p')" and rs: "allowed_roles (pw_roles w) = Some rs" "rs \<noteq> []"
    and order: "\<And>ts. set (pw_order w ts) = set ts"
  shows "\<exists>cs runs'. contacts ss' = contacts ss @ cs \<and> runs ss' = runs ss @ runs' \<and>
    (\<forall>n \<in> fst ` set cs \<union> fst ` set runs'. n \<in> set (enabled_hosts (fst p)) \<and> (\<exists>r \<in> set rs. get_host_role n (fst p) = Some r))"
proof -
  let ?ok = "\<lambda>n. n \<in> set (enabled_hosts (fst p)) \<and> (\<exists>r \<in> set rs. get_host_role n (fst p) = Some r)"
  have "reaches_only ?ok ss ss'"
  proof (cases "enabled_hosts (fst p) = [] \<or> load_private_key (pw_key w) \<noteq> None")
    case True
    then have "ss' = ss" using pass by (cases "load_private_key (pw_key w)") (auto simp: poll_all_hosts_def Let_def split: if_splits)
    then show ?thesis by (simp add: reaches_only_refl)
  next
    case False
    obtain ts p1 where res: "resolve_all w (enabled_hosts (fst p)) p = (ts, p1)" by (cases "resolve_all w (enabled_hosts (fst p)) p")
    let ?ts = "map (\<lambda>t. t\<lparr>tg_slow := slow_due w (tg_name t) (fst p1)\<rparr>) ts"
    obtain c p2 where "poll_targets w (pw_order w ?ts) ss p1 = (c, ss', p2)"
      using pass False res by (auto simp: poll_all_hosts_def Let_def split: prod.splits)
    moreover have "list_all (\<lambda>t. ?ok (tg_name t)) (pw_order w ?ts)"
      using resolve_all_roles [OF res rs] by (auto simp: list_all_iff order)
    ultimately show ?thesis by (rule poll_targets_reaches_only)
  qed
  then show ?thesis unfolding reaches_only_def list_all_iff by blast
qed

subsection \<open>A report that cannot be stored\<close>

lemma pooled_poll:
  assumes "pool ss (tg_name t) = Some c" and "nt_active net (length (runs ss))" and "nt_now net - cl_born c < RECONNECT_AFTER_SECONDS"
    and "nt_exec net (length (runs ss)) t = Ran 0 raw err" and "raw \<noteq> []" and "int (length raw) \<le> MAX_OUTPUT_BYTES" and "json raw = Some r"
  shows "fst (collect json net t ss) = Done (r, None)"
  using assms by (simp add: collect_def retried_def try_once_def get_client_def usable_client_def exec_collector_def Let_def not_less)

lemma store_report_fails:
  assumes "hp_status r = Some status" and "k \<noteq> []"
    and "fst (process_status (pw_report w) (tg_name t) status (pin_key (tg_name t) (tg_pin_scope t = ''settings'') k (fst p))) = Inl err"
  shows "monitored_hosts (fst (store_report w t r (Some k) p)) = monitored_hosts (snd p) \<and> ssh_settings (fst (store_report w t r (Some k) p)) = ssh_settings (snd p)"
  using assms by (auto simp: store_report_def Let_def failed_def host_rollback_def split: prod.splits)

text \<open>C37: A known defect. The module says that the first key seen is stored. When the report of a first poll raises while its status is stored (one bench with an
  unparseable time of its scheduler is enough) everything is rolled back, the pinned key and the time the host was last seen with it; the open
  connection stays in the pool, so the next poll succeeds over it and has no key to pin, and the host stays without a pin until a
  later connection, which trusts whatever key it is shown.\<close>

theorem unstored_report_loses_first_key:
  fixes p :: "'a tables"
  assumes first: "collect json net t ss = (Done (r, Some k), ss1)" and "hp_status r = Some status" and "k \<noteq> []"
    and "fst (process_status (pw_report w) (tg_name t) status (pin_key (tg_name t) (tg_pin_scope t = ''settings'') k (fst p))) = Inl err"
    and "p' = store_report w t r (Some k) p"
    and "nt_active net2 (length (runs ss1))" and "nt_now net2 - nt_now net < 3600" and "nt_exec net2 (length (runs ss1)) t = Ran 0 raw e"
    and "raw \<noteq> []" and "int (length raw) \<le> MAX_OUTPUT_BYTES" and "json raw = Some r2"
  shows "monitored_hosts (fst p') = monitored_hosts (snd p) \<and> ssh_settings (fst p') = ssh_settings (snd p) \<and>
    fst (collect json net2 t ss1) = Done (r2, None)"
proof -
  from collect_done [OF first] obtain c where "pool ss1 (tg_name t) = Some c" "cl_born c = nt_now net" by auto
  then have "fst (collect json net2 t ss1) = Done (r2, None)"
    using assms(6-11) by (intro pooled_poll) (auto simp: RECONNECT_AFTER_SECONDS_def)
  then show ?thesis using store_report_fails [OF assms(2-4)] assms(5) by simp
qed

subsection \<open>Demonstration\<close>

definition demo_poll_db :: poll_db where
  "demo_poll_db = resource_db.extend (demo_resource_db\<lparr>alert_log := [], monitored_hosts := [demo_host]\<rparr>) \<lparr>perf = demo_perf, slow_read = (\<lambda>n. None)\<rparr>"

definition demo_report :: host_report where
  "demo_report = \<lparr>hp_status = Some \<lparr>rp_reported_at = ''now'', rp_services = None, rp_benches = Some [Some (demo_bench\<lparr>bn_scheduler_last_run := Some ''bad''\<rparr>)],
       rp_sites = None\<rparr>, hp_resources = None, hp_mariadb = Absent, hp_redis = Absent, hp_performance = Absent, hp_errors = []\<rparr>"

definition demo_pass :: pass_world where
  "demo_pass = \<lparr>pw_report = demo_report_env, pw_perf = demo_pf 0, pw_roles = RoleText ''Production'', pw_key = KeyOk, pw_net = demo_net ''K'',
     pw_json = (\<lambda>raw. Some demo_report), pw_order = (\<lambda>ts. ts), pw_duration_ms = (\<lambda>n. 5)\<rparr>"

definition demo_new_target :: target where
  "demo_new_target = demo_target\<lparr>tg_pinned_key := None\<rparr>"

definition demo_ssh1 :: ssh_state where
  "demo_ssh1 = snd (collect (\<lambda>raw. Some demo_report) (demo_net ''K'') demo_new_target demo_ssh)"

lemma demo_first_poll: "collect (\<lambda>raw. Some demo_report) (demo_net ''K'') demo_new_target demo_ssh = (Done (demo_report, Some ''K''), demo_ssh1)"
  by (simp add: demo_ssh1_def collect_def retried_def try_once_def get_client_def usable_client_def connect_def exec_collector_def drop_connection_def stale_connection_def
      demo_ssh_def demo_net_def demo_new_target_def demo_target_def MAX_OUTPUT_BYTES_def Let_def)

lemma demo_status_raises:
  "\<exists>err. fst (process_status demo_report_env ''web1'' (the (hp_status demo_report)) (pin_key ''web1'' True ''K'' demo_poll_db)) = Inl err"
proof -
  have "(case fst (process_status demo_report_env ''web1'' (the (hp_status demo_report)) (pin_key ''web1'' True ''K'' demo_poll_db)) of Inl e \<Rightarrow> True | Inr x \<Rightarrow> False)"
    by code_simp
  then show ?thesis by (auto split: sum.splits)
qed

theorem unstored_report_loses_first_key_witness:
  "monitored_hosts (fst (store_report demo_pass demo_new_target demo_report (Some ''K'') (demo_poll_db, demo_poll_db))) = monitored_hosts demo_poll_db \<and>
   fst (collect (\<lambda>raw. Some demo_report) (demo_net ''K'') demo_new_target demo_ssh1) = Done (demo_report, None)"
proof -
  obtain err where err: "fst (process_status (pw_report demo_pass) (tg_name demo_new_target) (the (hp_status demo_report))
      (pin_key (tg_name demo_new_target) (tg_pin_scope demo_new_target = ''settings'') ''K'' (fst (demo_poll_db, demo_poll_db)))) = Inl err"
    using demo_status_raises by (auto simp: demo_pass_def demo_new_target_def demo_target_def)
  have st: "hp_status demo_report = Some (the (hp_status demo_report))" by (simp add: demo_report_def)
  have net: "nt_active (demo_net ''K'') (length (runs demo_ssh1))" "nt_now (demo_net ''K'') - nt_now (demo_net ''K'') < 3600"
    "nt_exec (demo_net ''K'') (length (runs demo_ssh1)) demo_new_target = Ran 0 ''{}'' []" "''{}'' \<noteq> []" "int (length ''{}'') \<le> MAX_OUTPUT_BYTES"
    by code_simp+
  from unstored_report_loses_first_key [OF demo_first_poll st _ err refl net refl] show ?thesis by simp
qed

theorem only_listed_roles_reached_witness:
  "\<exists>cs. contacts (fst (poll_all_hosts demo_pass demo_ssh (demo_poll_db, demo_poll_db))) = contacts demo_ssh @ cs \<and>
     set (map fst cs) \<subseteq> {n. n \<in> set (enabled_hosts demo_poll_db) \<and> get_host_role n demo_poll_db = Some ''Production''}"
proof -
  have "allowed_roles (pw_roles demo_pass) = Some [''Production'']" by code_simp
  moreover have "\<And>ts. set (pw_order demo_pass ts) = set ts" by (simp add: demo_pass_def)
  ultimately obtain cs and rs :: "(string \<times> string) list"
    where cs: "contacts (fst (poll_all_hosts demo_pass demo_ssh (demo_poll_db, demo_poll_db))) = contacts demo_ssh @ cs"
    and ok: "\<forall>n \<in> fst ` set cs \<union> fst ` set rs. n \<in> set (enabled_hosts demo_poll_db) \<and> (\<exists>r \<in> set [''Production'']. get_host_role n demo_poll_db = Some r)"
    using only_listed_roles_reached [where w = demo_pass and ss = demo_ssh and p = "(demo_poll_db, demo_poll_db)" and rs = "[''Production'']", OF prod.collapse [symmetric]]
    unfolding fst_conv by blast
  from ok have "set (map fst cs) \<subseteq> {n. n \<in> set (enabled_hosts demo_poll_db) \<and> get_host_role n demo_poll_db = Some ''Production''}" by auto
  with cs show ?thesis by blast
qed

theorem run_host_poll_loop_returns_witness:
  "\<exists>k off s q. host_loop 301 (\<lambda>i. \<lparr>hw_pass = demo_pass, hw_allowed = False, hw_elapsed = of_nat (30 * i), hw_stop = False, hw_crash = False\<rparr>) 0
     (False, demo_ssh, demo_poll_db, demo_poll_db) = Some (k, off, s, q) \<and> k \<le> 301"
  using run_host_poll_loop_returns [where w = "\<lambda>i. \<lparr>hw_pass = demo_pass, hw_allowed = False, hw_elapsed = of_nat (30 * i), hw_stop = False, hw_crash = False\<rparr>"
      and p = "(demo_poll_db, demo_poll_db)" and ss = demo_ssh and je = demo_job_env and current = None]
  by fastforce

end
