(* ===== verification/Ip_Address.thy ===== *)
theory Ip_Address
  imports Pulse_Prelude
begin

text \<open>
  The part of Python's \<open>ipaddress\<close> module the sources use: parsing of an IPv4 or IPv6 address
  (\<open>ip_address\<close>, which raises \<open>ValueError\<close> on anything else), \<open>is_loopback\<close> and \<open>is_private\<close> with
  the address blocks of Python 3.14. An address is its integer value; an IPv6 zone is checked and
  dropped.
\<close>

datatype ip_addr = IPv4 int | IPv6 int

fun all_some :: "'a option list \<Rightarrow> 'a list option" where
  "all_some [] = Some []"
| "all_some (None # xs) = None"
| "all_some (Some x # xs) = map_option ((#) x) (all_some xs)"

subsection \<open>IPv4\<close>

text \<open>At most three ASCII digits, no leading zero, at most 255.\<close>

definition parse_octet :: "string \<Rightarrow> int option" where
  "parse_octet s =
     (if s = [] \<or> \<not> list_all is_digit s \<or> length s > 3 \<or> (s \<noteq> ''0'' \<and> hd s = CHR ''0'') then None
      else let n = int (nat_of_digits 0 s) in if n > 255 then None else Some n)"

fun base_value :: "int \<Rightarrow> int \<Rightarrow> int list \<Rightarrow> int" where
  "base_value b acc [] = acc"
| "base_value b acc (d # ds) = base_value b (acc * b + d) ds"

definition parse_ipv4 :: "string \<Rightarrow> int option" where
  "parse_ipv4 s =
     (let octets = py_split (CHR ''.'') s
      in if length octets \<noteq> 4 then None else map_option (base_value 256 0) (all_some (map parse_octet octets)))"

subsection \<open>IPv6\<close>

definition hex_val :: "char \<Rightarrow> int option" where
  "hex_val c =
     (let n = (of_char c :: int)
      in if 48 \<le> n \<and> n \<le> 57 then Some (n - 48)
         else if 97 \<le> n \<and> n \<le> 102 then Some (n - 87)
         else if 65 \<le> n \<and> n \<le> 70 then Some (n - 55) else None)"

definition parse_hextet :: "string \<Rightarrow> int option" where
  "parse_hextet s =
     (if s = [] \<or> length s > 4 then None else map_option (base_value 16 0) (all_some (map hex_val s)))"

text \<open>A trailing dotted quad counts as two groups.\<close>

definition ipv6_groups :: "string list \<Rightarrow> int option list option" where
  "ipv6_groups parts =
     (if CHR ''.'' \<in> set (last parts)
      then map_option (\<lambda>n. map parse_hextet (butlast parts) @ [Some (n div 65536), Some (n mod 65536)]) (parse_ipv4 (last parts))
      else Some (map parse_hextet parts))"

definition inner_empty :: "string list \<Rightarrow> nat list" where
  "inner_empty parts = filter (\<lambda>i. parts ! i = []) [1..<length parts - 1]"

definition parse_ipv6_body :: "string \<Rightarrow> int option" where
  "parse_ipv6_body s =
     (let parts = py_split (CHR '':'') s
      in if length parts < 3 then None
         else case ipv6_groups parts of
           None \<Rightarrow> None
         | Some groups \<Rightarrow>
             let n = length groups; blank_first = hd parts = []; blank_last = last parts = []
             in if n > 9 then None
                else case inner_empty (if CHR ''.'' \<in> set (last parts) then parts @ [''0''] else parts) of
                  [] \<Rightarrow> (if n \<noteq> 8 \<or> blank_first \<or> blank_last then None
                         else map_option (base_value 65536 0) (all_some groups))
                | [skip] \<Rightarrow>
                    (let hi = (if blank_first then skip - 1 else skip);
                         lo = (if blank_last then n - skip - 2 else n - skip - 1)
                     in if (blank_first \<and> hi \<noteq> 0) \<or> (blank_last \<and> lo \<noteq> 0) \<or> hi + lo > 7 then None
                        else map_option (base_value 65536 0)
                               (all_some (take hi groups @ replicate (8 - (hi + lo)) (Some 0) @ drop (n - lo) groups)))
                | _ \<Rightarrow> None)"

definition parse_ipv6 :: "string \<Rightarrow> int option" where
  "parse_ipv6 s =
     (case py_split (CHR ''%'') s of
        [addr] \<Rightarrow> parse_ipv6_body addr
      | [addr, zone] \<Rightarrow> if zone = [] then None else parse_ipv6_body addr
      | _ \<Rightarrow> None)"

definition ip_address :: "string \<Rightarrow> ip_addr option" where
  "ip_address s =
     (case parse_ipv4 s of
        Some n \<Rightarrow> Some (IPv4 n)
      | None \<Rightarrow> map_option IPv6 (parse_ipv6 s))"

subsection \<open>Address blocks\<close>

definition in_block :: "nat \<Rightarrow> int \<Rightarrow> int \<times> nat \<Rightarrow> bool" where
  "in_block width a net = (case net of (base, prefix) \<Rightarrow> a div 2 ^ (width - prefix) = base div 2 ^ (width - prefix))"

definition v4 :: "int \<Rightarrow> int \<Rightarrow> int \<Rightarrow> int \<Rightarrow> int" where
  "v4 a b c d = base_value 256 0 [a, b, c, d]"

definition v6 :: "int list \<Rightarrow> int" where
  "v6 groups = base_value 65536 0 (groups @ replicate (8 - length groups) 0)"

definition ipv4_private_networks :: "(int \<times> nat) list" where
  "ipv4_private_networks =
     [(v4 0 0 0 0, 8), (v4 10 0 0 0, 8), (v4 127 0 0 0, 8), (v4 169 254 0 0, 16), (v4 172 16 0 0, 12),
      (v4 192 0 0 0, 24), (v4 192 0 0 170, 31), (v4 192 0 2 0, 24), (v4 192 168 0 0, 16), (v4 198 18 0 0, 15),
      (v4 198 51 100 0, 24), (v4 203 0 113 0, 24), (v4 240 0 0 0, 4), (v4 255 255 255 255, 32)]"

definition ipv4_private_exceptions :: "(int \<times> nat) list" where
  "ipv4_private_exceptions = [(v4 192 0 0 9, 32), (v4 192 0 0 10, 32)]"

definition ipv6_private_networks :: "(int \<times> nat) list" where
  "ipv6_private_networks =
     [(1, 128), (0, 128), (v6 [0, 0, 0, 0, 0, 0xFFFF], 96), (v6 [0x64, 0xFF9B, 1], 48), (v6 [0x100], 64),
      (v6 [0x2001], 23), (v6 [0x2001, 0xDB8], 32), (v6 [0x2002], 16), (v6 [0x3FFF], 20), (v6 [0xFC00], 7),
      (v6 [0xFE80], 10)]"

definition ipv6_private_exceptions :: "(int \<times> nat) list" where
  "ipv6_private_exceptions =
     [(v6 [0x2001, 1, 0, 0, 0, 0, 0, 1], 128), (v6 [0x2001, 1, 0, 0, 0, 0, 0, 2], 128), (v6 [0x2001, 3], 32),
      (v6 [0x2001, 4, 0x112], 48), (v6 [0x2001, 0x20], 28), (v6 [0x2001, 0x30], 28)]"

definition ipv4_is_private :: "int \<Rightarrow> bool" where
  "ipv4_is_private n \<longleftrightarrow>
     list_ex (in_block 32 n) ipv4_private_networks \<and> \<not> list_ex (in_block 32 n) ipv4_private_exceptions"

fun is_private :: "ip_addr \<Rightarrow> bool" where
  "is_private (IPv4 n) = ipv4_is_private n"
| "is_private (IPv6 n) =
     (if n div 4294967296 = 65535 then ipv4_is_private (n mod 4294967296)
      else list_ex (in_block 128 n) ipv6_private_networks \<and> \<not> list_ex (in_block 128 n) ipv6_private_exceptions)"

fun is_loopback :: "ip_addr \<Rightarrow> bool" where
  "is_loopback (IPv4 n) = in_block 32 n (v4 127 0 0 0, 8)"
| "is_loopback (IPv6 n) =
     (if n div 4294967296 = 65535 then in_block 32 (n mod 4294967296) (v4 127 0 0 0, 8) else n = 1)"

end
