(* ===== verification/Site_Clients.thy ===== *)
theory Site_Clients
  imports Proxmox_Client Ip_Address
begin

text \<open>
  The clients of site discovery: \<open>site_discovery/npm_client.py\<close>, \<open>site_discovery/cloudflare_client.py\<close> and
  \<open>PVEClient.get_guest_ipv4s\<close>. What a server answers to one request is a parameter (\<open>http_reply\<close>: no
  answer, or a status with the text and the decoded JSON, \<open>None\<close> when it does not decode); an error
  is the message of the exception the client raises.
\<close>

datatype 'j http_reply = Unreachable string | Reply int string "'j option"

definition py_rstrip_char :: "char \<Rightarrow> string \<Rightarrow> string" where
  "py_rstrip_char c s = rev (dropWhile (\<lambda>x. x = c) (rev s))"

subsection \<open>Nginx Proxy Manager\<close>

record raw_proxy_host =
  rp_enabled :: "bool option"
  rp_domain_names :: "string option list"
  rp_forward_host :: "string option"
  rp_forward_port :: "int option"
  rp_forward_scheme :: "string option"

record proxy_host =
  ph_domains :: "string list"
  ph_forward_host :: string
  ph_forward_port :: "int option"
  ph_forward_scheme :: string

text \<open>The server's side: the answer to a login, and to the list request under a token.\<close>

record npm_http =
  npm_post_tokens :: "string \<Rightarrow> string \<Rightarrow> string option http_reply"
  npm_get_proxy_hosts :: "string \<Rightarrow> raw_proxy_host list option http_reply"

record npm_client =
  nc_base_url :: string
  nc_email :: string
  nc_password :: string

definition new_npm_client :: "string \<Rightarrow> string \<Rightarrow> string \<Rightarrow> npm_client" where
  "new_npm_client base_url email password =
     \<lparr>nc_base_url = py_rstrip_char (CHR ''/'') base_url, nc_email = email, nc_password = password\<rparr>"

definition npm_request :: "npm_client \<Rightarrow> string \<Rightarrow> 'j http_reply \<Rightarrow> string + 'j" where
  "npm_request c path reply =
     (case reply of
        Unreachable e \<Rightarrow> Inl (''Could not reach NPM at '' @ nc_base_url c @ '': '' @ e)
      | Reply status body json \<Rightarrow>
          if status \<in> {400, 401, 403} \<and> path = ''/api/tokens''
          then Inl (''NPM rejected the login '' @ utf8_dash @ '' check the email and password'')
          else if status \<ge> 400
          then Inl (''NPM '' @ path @ '' returned HTTP '' @ show_int status @ '': '' @ take 300 (py_strip body))
          else case json of
                 None \<Rightarrow> Inl (''NPM '' @ path @ '' returned a non-JSON response '' @ utf8_dash @ '' is this the NPM admin port?'')
               | Some d \<Rightarrow> Inr d)"

definition npm_login :: "npm_http \<Rightarrow> npm_client \<Rightarrow> string + string" where
  "npm_login http c =
     (if nc_email c = [] \<or> nc_password c = [] then Inl ''NPM email/password not set''
      else case npm_request c ''/api/tokens'' (npm_post_tokens http (nc_email c) (nc_password c)) of
             Inl e \<Rightarrow> Inl e
           | Inr token \<Rightarrow> if truthy token then Inr (opt_str token) else Inl ''NPM login returned no token'')"

definition npm_host_of :: "raw_proxy_host \<Rightarrow> proxy_host" where
  "npm_host_of h =
     \<lparr>ph_domains = map (\<lambda>d. py_lower (py_strip (opt_str d))) (filter (\<lambda>d. py_strip (opt_str d) \<noteq> []) (rp_domain_names h)),
      ph_forward_host = py_strip (opt_str (rp_forward_host h)),
      ph_forward_port = rp_forward_port h,
      ph_forward_scheme = (if truthy (rp_forward_scheme h) then opt_str (rp_forward_scheme h) else ''http'')\<rparr>"

definition list_proxy_hosts :: "npm_http \<Rightarrow> npm_client \<Rightarrow> string + proxy_host list" where
  "list_proxy_hosts http c =
     (case npm_login http c of
        Inl e \<Rightarrow> Inl e
      | Inr token \<Rightarrow>
          (case npm_request c ''/api/nginx/proxy-hosts'' (npm_get_proxy_hosts http token) of
             Inl e \<Rightarrow> Inl e
           | Inr None \<Rightarrow> Inl ''Unexpected proxy-host list from NPM''
           | Inr (Some hosts) \<Rightarrow> Inr (map npm_host_of (filter (\<lambda>h. rp_enabled h \<noteq> Some False) hosts))))"

subsection \<open>Cloudflare\<close>

definition MAX_PAGES :: nat where "MAX_PAGES = 200"

definition RECORD_TYPES :: "string list" where "RECORD_TYPES = [''A'', ''AAAA'', ''CNAME'']"

record 'a cf_page =
  pg_success :: bool
  pg_errors :: "string list"
  pg_result :: "'a list"
  pg_total_pages :: "int option"

record zone =
  z_id :: string
  z_name :: "string option"

record raw_record =
  rr_name :: "string option"
  rr_type :: "string option"
  rr_content :: "string option"
  rr_proxied :: bool

record dns_record =
  rec_name :: string
  rec_type :: string
  rec_content :: string
  rec_proxied :: bool

record cf_http =
  cf_zones_page :: "int \<Rightarrow> zone cf_page http_reply"
  cf_records_page :: "string \<Rightarrow> int \<Rightarrow> raw_record cf_page http_reply"

definition cf_get :: "string \<Rightarrow> 'a cf_page http_reply \<Rightarrow> string + 'a cf_page" where
  "cf_get path reply =
     (case reply of
        Unreachable e \<Rightarrow> Inl (''Could not reach Cloudflare: '' @ e)
      | Reply status body None \<Rightarrow> Inl (''Cloudflare '' @ path @ '' returned HTTP '' @ show_int status @ '' (non-JSON)'')
      | Reply status body (Some d) \<Rightarrow>
          if status \<ge> 400 \<or> \<not> pg_success d
          then Inl (''Cloudflare '' @ path @ '': '' @
                    (let errors = py_join ''; '' (pg_errors d) in if errors = [] then ''HTTP '' @ show_int status else errors))
          else Inr d)"

text \<open>\<open>while page <= MAX_PAGES\<close>; the first argument counts the pages still allowed.\<close>

fun paged_loop :: "nat \<Rightarrow> (int \<Rightarrow> string + 'a cf_page) \<Rightarrow> int \<Rightarrow> 'a list \<Rightarrow> string + 'a list" where
  "paged_loop 0 get page out = Inr out"
| "paged_loop (Suc k) get page out =
     (case get page of
        Inl e \<Rightarrow> Inl e
      | Inr d \<Rightarrow>
          let out' = out @ pg_result d
          in if page \<ge> or_int (pg_total_pages d) 1 then Inr out' else paged_loop k get (page + 1) out')"

definition paged :: "string \<Rightarrow> (int \<Rightarrow> 'a cf_page http_reply) \<Rightarrow> string + 'a list" where
  "paged path server = paged_loop MAX_PAGES (\<lambda>p. cf_get path (server p)) 1 []"

definition list_zones :: "cf_http \<Rightarrow> string list \<Rightarrow> string + zone list" where
  "list_zones http only =
     (let wanted = map (\<lambda>z. py_lower (py_strip z)) (filter (\<lambda>z. py_strip z \<noteq> []) only)
      in map_sum id (\<lambda>zones. if wanted = [] then zones else filter (\<lambda>z. py_lower (opt_str (z_name z)) \<in> set wanted) zones)
           (paged ''/zones'' (cf_zones_page http)))"

definition record_of :: "raw_record \<Rightarrow> dns_record" where
  "record_of r =
     \<lparr>rec_name = py_rstrip_char (CHR ''.'') (py_lower (opt_str (rr_name r))), rec_type = opt_str (rr_type r),
      rec_content = py_rstrip_char (CHR ''.'') (py_lower (opt_str (rr_content r))), rec_proxied = rr_proxied r\<rparr>"

definition list_records :: "cf_http \<Rightarrow> string \<Rightarrow> string + dns_record list" where
  "list_records http zone_id =
     map_sum id (\<lambda>rs. map record_of (filter (\<lambda>r. opt_str (rr_type r) \<in> set RECORD_TYPES) rs))
       (paged (''/zones/'' @ zone_id @ ''/dns_records'') (cf_records_page http zone_id))"

subsection \<open>The addresses of a guest\<close>

text \<open>The keys \<open>netN\<close> of a container and \<open>ipconfigN\<close> of a virtual machine, and every \<open>ip=a.b.c.d\<close> at
  the start of a comma-separated part of their value.\<close>

definition config_key :: "bool \<Rightarrow> string \<Rightarrow> bool" where
  "config_key is_lxc key =
     (let prefix = (if is_lxc then ''net'' else ''ipconfig''); rest = drop (length prefix) key
      in starts_with prefix key \<and> rest \<noteq> [] \<and> list_all is_digit rest)"

definition config_ips :: "string \<Rightarrow> string list" where
  "config_ips v =
     filter (\<lambda>ip. ip \<noteq> [])
       (map (\<lambda>part. takeWhile (\<lambda>c. is_digit c \<or> c = CHR ''.'') (drop 3 part))
          (filter (starts_with ''ip='') (py_split (CHR '','') v)))"

definition static_ips :: "bool \<Rightarrow> (string \<times> string option) list \<Rightarrow> string list" where
  "static_ips is_lxc config =
     concat (map (\<lambda>(key, v). case v of Some s \<Rightarrow> if config_key is_lxc key then config_ips s else [] | None \<Rightarrow> []) config)"

definition live_ips :: "pve_api \<Rightarrow> string \<Rightarrow> int \<Rightarrow> bool \<Rightarrow> string list" where
  "live_ips c node vmid is_lxc =
     (if is_lxc
      then case api_lxc_ifaces c node vmid of
             Inl _ \<Rightarrow> []
           | Inr ifs \<Rightarrow> map (\<lambda>i. hd (py_split (CHR ''/'') (opt_str (li_inet i))))
               (filter (\<lambda>i. li_name i \<noteq> Some ''lo'' \<and> truthy (li_inet i)) ifs)
      else case api_agent_ifaces c node vmid of
             Inl _ \<Rightarrow> []
           | Inr ifs \<Rightarrow> map (\<lambda>a. opt_str (snd a)) (filter (\<lambda>a. fst a = Some ''ipv4'')
               (concat (map ai_addrs (filter (\<lambda>i. ai_name i \<noteq> Some ''lo'') ifs)))))"

type_synonym guest_config = "string \<Rightarrow> bool \<Rightarrow> int \<Rightarrow> api_error + (string \<times> string option) list"

definition get_guest_ipv4s :: "pve_api \<Rightarrow> guest_config \<Rightarrow> string \<Rightarrow> int \<Rightarrow> bool \<Rightarrow> bool \<Rightarrow> string list" where
  "get_guest_ipv4s c config node vmid is_lxc running =
     (let static = (case config node is_lxc vmid of Inl _ \<Rightarrow> [] | Inr items \<Rightarrow> static_ips is_lxc items);
          live = (if running then live_ips c node vmid is_lxc else [])
      in filter (\<lambda>ip. case ip_address ip of None \<Rightarrow> False | Some a \<Rightarrow> \<not> is_loopback a) (remdups (static @ live)))"

end
