(* ===== verification/Site_Resolve.thy ===== *)
theory Site_Resolve
  imports Proxmox_Store Site_Clients
begin

text \<open>
  The resolution step of \<open>site_discovery/sync.py\<close>, which reads no database: what the proxy managers,
  Cloudflare, the guests and the agents report is merged into one row per domain. A Python \<open>dict\<close> is
  an association list in insertion order, a set of addresses a list of which only membership
  matters. \<open>resolve\<close> is \<open>None\<close> where the code raises the \<open>ValueError\<close> of \<open>ipaddress.ip_address\<close>.
\<close>

definition MAX_CNAME_HOPS :: nat where "MAX_CNAME_HOPS = 5"

record npm_result =
  nr_name :: string
  nr_server :: "string option"
  nr_public_ips :: "string list"
  nr_ok :: bool
  nr_error :: string
  nr_hosts :: "proxy_host list"

type_synonym dns_table = "(string \<times> dns_record list) list"

record cf_result =
  cr_enabled :: bool
  cr_ok :: bool
  cr_error :: string
  cr_records :: dns_table
  cr_zone_count :: int

record site_guest =
  sg_name :: string
  sg_server :: string
  sg_guest_name :: string
  sg_ip_address :: "string option"
  sg_ips :: "string list"

record agent_site =
  as_domain :: string
  as_guest :: string

record site_fields =
  si_domain :: string
  si_source :: string
  si_status :: string
  si_note :: string
  si_cloudflare_target :: string
  si_cloudflare_proxied :: bool
  si_proxmox_guest :: "string option"
  si_npm_instance :: "string option"
  si_proxmox_server :: "string option"
  si_forward_target :: string
  si_also_seen_in :: string

subsection \<open>Names\<close>

definition parse_ips :: "string option \<Rightarrow> string list" where
  "parse_ips v =
     filter (\<lambda>s. s \<noteq> []) (map py_strip (py_split (CHR '','') (py_replace_char (CHR 0x0A) (CHR '','') (opt_str v))))"

definition is_alpha :: "char \<Rightarrow> bool" where
  "is_alpha c \<longleftrightarrow> (let n = (of_char c :: nat) in 97 \<le> n \<and> n \<le> 122)"

text \<open>\<open>re.sub(r"^[a-z][a-z0-9+.-]*://", "", value)\<close>; the class does not contain the colon, so the
  longest run of it decides.\<close>

definition strip_scheme :: "string \<Rightarrow> string" where
  "strip_scheme v =
     (let run = takeWhile (\<lambda>c. is_alpha c \<or> is_digit c \<or> c \<in> set ''+.-'') v; rest = drop (length run) v
      in if run \<noteq> [] \<and> is_alpha (hd run) \<and> starts_with ''://'' rest then drop 3 rest else v)"

definition normalize_site :: "string option \<Rightarrow> string" where
  "normalize_site v = takeWhile (\<lambda>c. c \<notin> set ''/:?#'') (strip_scheme (py_lower (py_strip (opt_str v))))"

subsection \<open>Cloudflare\<close>

definition dns_get :: "dns_table \<Rightarrow> string \<Rightarrow> dns_record list" where
  "dns_get records name = (case map_of records name of None \<Rightarrow> [] | Some rs \<Rightarrow> rs)"

fun wildcard_from :: "dns_table \<Rightarrow> string list \<Rightarrow> dns_record list" where
  "wildcard_from records [] = []"
| "wildcard_from records (l # rest) =
     (if length rest \<ge> 2
      then let recs = dns_get records (''*.'' @ py_join ''.'' rest)
           in if recs \<noteq> [] then recs else wildcard_from records rest
      else [])"

definition wildcard_records :: "dns_table \<Rightarrow> string \<Rightarrow> dns_record list" where
  "wildcard_records records name = wildcard_from records (py_split (CHR ''.'') name)"

definition records_for :: "dns_table \<Rightarrow> string \<Rightarrow> dns_record list" where
  "records_for records name =
     (let recs = dns_get records name in if recs \<noteq> [] then recs else wildcard_records records name)"

definition is_address :: "dns_record \<Rightarrow> bool" where
  "is_address r \<longleftrightarrow> rec_type r = ''A'' \<or> rec_type r = ''AAAA''"

text \<open>The loop of \<open>cf_lookup\<close>; the first argument counts the rounds left.\<close>

fun cf_follow :: "nat \<Rightarrow> nat \<Rightarrow> dns_table \<Rightarrow> string \<Rightarrow> bool \<Rightarrow> bool \<Rightarrow> string option \<times> bool \<times> bool" where
  "cf_follow 0 hop records name proxied found = (Some name, proxied, found)"
| "cf_follow (Suc k) hop records name proxied found =
     (let recs = records_for records name
      in if recs = [] then (if found then Some name else None, proxied, found)
         else
           let proxied' = (if hop = 0 then list_ex rec_proxied recs else proxied);
               addresses = filter is_address recs
           in if addresses \<noteq> [] then (Some (rec_content (hd addresses)), proxied', True)
              else cf_follow k (hop + 1) records (rec_content (hd recs)) proxied' True)"

definition cf_lookup :: "dns_table \<Rightarrow> string \<Rightarrow> string option \<times> bool \<times> bool" where
  "cf_lookup records domain = cf_follow (MAX_CNAME_HOPS + 1) 0 records domain False False"

subsection \<open>Guests\<close>

definition guest_ips :: "site_guest \<Rightarrow> string list" where
  "guest_ips g =
     (if sg_ips g \<noteq> [] then sg_ips g
      else let ip = py_strip (opt_str (sg_ip_address g)) in if ip \<noteq> [] then [ip] else [])"

definition first_on_server :: "string option \<Rightarrow> site_guest list \<Rightarrow> string option" where
  "first_on_server server gs =
     (let same_host = filter (\<lambda>g. Some (sg_server g) = server) gs
      in case (if same_host \<noteq> [] then same_host else gs) of [] \<Rightarrow> None | g # _ \<Rightarrow> Some (sg_name g))"

definition guest_for_target :: "string \<Rightarrow> string option \<Rightarrow> site_guest list \<Rightarrow> string option" where
  "guest_for_target tgt server gs =
     (let target = py_lower (py_strip tgt);
          by_ip = filter (\<lambda>g. target \<in> set (guest_ips g)) gs;
          short = hd (py_split (CHR ''.'') target);
          by_name = filter (\<lambda>g. py_lower (sg_guest_name g) \<in> {target, short}) gs
      in if target = [] then None
         else if by_ip \<noteq> [] then first_on_server server by_ip
         else if ip_address target = None then first_on_server server by_name
         else None)"

subsection \<open>Step 1: the proxy managers\<close>

type_synonym candidate = "string \<times> npm_result \<times> proxy_host"

definition npm_candidates :: "npm_result list \<Rightarrow> candidate list" where
  "npm_candidates npms =
     filter (\<lambda>c. fst c \<noteq> [])
       (concat (map (\<lambda>n. concat (map (\<lambda>h. map (\<lambda>d. (normalize_site (Some d), n, h)) (ph_domains h)) (nr_hosts n)))
          (filter nr_ok npms)))"

definition cand_npm :: "candidate \<Rightarrow> string" where
  "cand_npm c = nr_name (fst (snd c))"

fun one_per_npm :: "candidate list \<Rightarrow> candidate list" where
  "one_per_npm [] = []"
| "one_per_npm (c # cs) = c # filter (\<lambda>x. cand_npm x \<noteq> cand_npm c) (one_per_npm cs)"

definition candidates :: "npm_result list \<Rightarrow> (string \<times> candidate list) list" where
  "candidates npms = map (\<lambda>(d, cs). (d, one_per_npm cs)) (group_rows fst (npm_candidates npms))"

definition npm_ips :: "npm_result list \<Rightarrow> (string \<times> string list) list" where
  "npm_ips npms = map (\<lambda>n. (nr_name n, nr_public_ips n)) npms"

definition ips_of :: "npm_result list \<Rightarrow> string \<Rightarrow> string list" where
  "ips_of npms name = (case map_of (npm_ips npms) name of None \<Rightarrow> [] | Some ips \<Rightarrow> ips)"

definition show_target :: "string option \<Rightarrow> string" where
  "show_target t = (case t of None \<Rightarrow> ''None'' | Some s \<Rightarrow> s)"

definition who :: "string option \<Rightarrow> npm_result list \<Rightarrow> string" where
  "who target npms =
     (case filter (\<lambda>(name, ips). truthy target \<and> opt_str target \<in> set ips) (npm_ips npms) of
        (owner, _) # _ \<Rightarrow> show_target target @ '' ('' @ owner @ '' NPM, which has no proxy host for it)''
      | [] \<Rightarrow> show_target target)"

definition cf_checked :: "cf_result \<Rightarrow> bool" where
  "cf_checked cf \<longleftrightarrow> cr_enabled cf \<and> cr_ok cf"

definition look :: "cf_result \<Rightarrow> string \<Rightarrow> string option \<times> bool \<times> bool" where
  "look cf domain = (if cf_checked cf then cf_lookup (cr_records cf) domain else (None, False, False))"

text \<open>Which candidate is chosen, with the row's status and note.\<close>

definition choose_single :: "npm_result list \<Rightarrow> cf_result \<Rightarrow> string option \<Rightarrow> bool \<Rightarrow> string \<Rightarrow> string \<times> string" where
  "choose_single npms cf target in_cf name =
     (let ips = ips_of npms name
      in if cf_checked cf \<and> \<not> in_cf then (''Not in Cloudflare'', ''No Cloudflare DNS record for this domain.'')
         else if cf_checked cf \<and> ips \<noteq> [] \<and> \<not> (target \<noteq> None \<and> opt_str target \<in> set ips)
         then (''DNS Mismatch'', ''Not live on '' @ name @ '': Cloudflare sends it to '' @ who target npms @ ''.'')
         else if cf_checked cf \<and> ips = []
         then (''Active'', ''Set '' @ name @ [CHR 0x27] @ ''s public IP to verify DNS (Cloudflare '' @ utf8_arrow @ '' '' @
                 show_target target @ '').'')
         else (''Active'', []))"

definition dns_matches :: "npm_result list \<Rightarrow> string option \<Rightarrow> string list \<Rightarrow> string list" where
  "dns_matches npms target names = filter (\<lambda>nm. truthy target \<and> opt_str target \<in> set (ips_of npms nm)) names"

definition choose_npm ::
    "npm_result list \<Rightarrow> cf_result \<Rightarrow> string option \<Rightarrow> bool \<Rightarrow> candidate list \<Rightarrow> string option \<times> string \<times> string" where
  "choose_npm npms cf target in_cf by_npm =
     (let names = sort (map cand_npm by_npm);
          listing = py_join '' + '' names
      in case names of
           [name] \<Rightarrow> (Some name, choose_single npms cf target in_cf name)
         | _ \<Rightarrow>
             (case dns_matches npms target names of
                [m] \<Rightarrow> (Some m, ''Active'', ''In '' @ listing @ ''; Cloudflare '' @ utf8_arrow @ '' '' @ show_target target @
                          '' = '' @ m @ ''.'')
              | _ \<Rightarrow> (None, ''Ambiguous'', ''In '' @ listing @ ''; '' @
                        (if \<not> cf_checked cf then ''Cloudflare not checked''
                         else if \<not> in_cf then ''no Cloudflare record''
                         else ''Cloudflare sends it to '' @ who target npms @ '', not to any of them'') @ ''.'')))"

definition unmatched_note :: "string \<Rightarrow> string \<Rightarrow> string" where
  "unmatched_note note fwd =
     (if note \<noteq> [] then note @ '' '' else []) @ ''Forwards to '' @ fwd @ '', which no current VM/CT has '' @ utf8_dash @
     '' a leftover proxy host for a deleted container, or a container whose (DHCP) IP changed.''"

definition forward_target_of :: "proxy_host \<Rightarrow> string" where
  "forward_target_of h =
     ph_forward_host h @ (if opt_int (ph_forward_port h) \<noteq> 0 then '':'' @ show_int (opt_int (ph_forward_port h)) else [])"

definition npm_row :: "npm_result list \<Rightarrow> cf_result \<Rightarrow> site_guest list \<Rightarrow> string \<times> candidate list \<Rightarrow> site_fields" where
  "npm_row npms cf gs entry =
     (let (domain, by_npm) = entry;
          (target, proxied, in_cf) = look cf domain;
          (chosen, status, note) = choose_npm npms cf target in_cf by_npm;
          row = \<lparr>si_domain = domain, si_source = ''NPM'', si_status = status, si_note = note,
                 si_cloudflare_target = opt_str target, si_cloudflare_proxied = proxied, si_proxmox_guest = None,
                 si_npm_instance = None, si_proxmox_server = None, si_forward_target = [], si_also_seen_in = []\<rparr>
      in case find (\<lambda>c. Some (cand_npm c) = chosen) by_npm of
           None \<Rightarrow> row
         | Some (_, n, h) \<Rightarrow>
             let guest = guest_for_target (ph_forward_host h) (nr_server n) gs;
                 row' = row\<lparr>si_npm_instance := Some (nr_name n), si_proxmox_server := nr_server n,
                            si_forward_target := forward_target_of h, si_proxmox_guest := guest\<rparr>
             in if \<not> truthy guest \<and> status = ''Active''
                then row'\<lparr>si_status := ''Unmatched'', si_note := unmatched_note note (ph_forward_host h)\<rparr>
                else row')"

subsection \<open>Step 2: records that point straight at a guest\<close>

definition guest_ip_pairs :: "site_guest list \<Rightarrow> (string \<times> string) list" where
  "guest_ip_pairs gs = concat (map (\<lambda>g. map (\<lambda>ip. (ip, sg_name g)) (guest_ips g)) gs)"

text \<open>\<open>None\<close>: some guest address is not an IP address and \<open>ip_address\<close> raises.\<close>

definition guest_by_ip :: "site_guest list \<Rightarrow> (string \<times> string) list option" where
  "guest_by_ip gs =
     (let pairs = guest_ip_pairs gs
      in if list_ex (\<lambda>(ip, _). ip_address ip = None) pairs then None
         else Some (filter (\<lambda>(ip, _). case ip_address ip of Some a \<Rightarrow> \<not> is_private a | None \<Rightarrow> False) pairs))"

definition direct_row :: "(string \<times> string) list \<Rightarrow> string \<Rightarrow> dns_record list \<Rightarrow> site_fields option" where
  "direct_row by_ip name recs =
     (case find (\<lambda>r. is_address r \<and> map_of by_ip (rec_content r) \<noteq> None) recs of
        None \<Rightarrow> None
      | Some r \<Rightarrow> Some \<lparr>si_domain = name, si_source = ''Direct DNS'', si_status = ''Active'', si_note = [],
          si_cloudflare_target = rec_content r, si_cloudflare_proxied = rec_proxied r,
          si_proxmox_guest = map_of by_ip (rec_content r), si_npm_instance = None, si_proxmox_server = None,
          si_forward_target = [], si_also_seen_in = []\<rparr>)"

definition add_direct :: "(string \<times> string) list \<Rightarrow> string \<times> dns_record list \<Rightarrow> site_fields list \<Rightarrow> site_fields list" where
  "add_direct by_ip entry rows =
     (let (name, recs) = entry
      in if starts_with ''*.'' name \<or> find_row si_domain name rows \<noteq> None then rows
         else case direct_row by_ip name recs of None \<Rightarrow> rows | Some r \<Rightarrow> rows @ [r])"

subsection \<open>Step 3: the agents' sites\<close>

fun split_comma_space :: "string \<Rightarrow> string list" where
  "split_comma_space [] = [[]]"
| "split_comma_space [x] = [[x]]"
| "split_comma_space (x # y # zs) =
     (if x = CHR '','' \<and> y = CHR '' '' then [] # split_comma_space zs
      else case split_comma_space (y # zs) of [] \<Rightarrow> [[x]] | w # ws \<Rightarrow> (x # w) # ws)"

definition seen_by_agent :: "string \<Rightarrow> string" where
  "seen_by_agent also =
     py_join '', '' (sort (remdups (''Pulse agent'' # filter (\<lambda>x. x \<noteq> []) (split_comma_space also))))"

definition agent_merge :: "agent_site \<Rightarrow> site_fields \<Rightarrow> site_fields" where
  "agent_merge s row =
     (let row' = row\<lparr>si_also_seen_in := seen_by_agent (si_also_seen_in row)\<rparr>
      in if \<not> truthy (si_proxmox_guest row) \<and> si_status row = ''Unmatched''
         then row'\<lparr>si_proxmox_guest := Some (as_guest s), si_status := ''Active'',
                   si_note := si_note row @ '' Matched via the Pulse agent.''\<rparr>
         else row')"

definition agent_row :: "cf_result \<Rightarrow> agent_site \<Rightarrow> site_fields" where
  "agent_row cf s =
     (let (target, proxied, in_cf) = look cf (as_domain s)
      in \<lparr>si_domain = as_domain s, si_source = ''Pulse Agent'',
          si_status = (if cf_checked cf \<and> \<not> in_cf then ''Not in Cloudflare'' else ''Active''),
          si_note = ''Reported by the Pulse agent on this instance.'', si_cloudflare_target = opt_str target,
          si_cloudflare_proxied = proxied, si_proxmox_guest = Some (as_guest s), si_npm_instance = None,
          si_proxmox_server = None, si_forward_target = [], si_also_seen_in = []\<rparr>)"

definition add_agent :: "cf_result \<Rightarrow> agent_site \<Rightarrow> site_fields list \<Rightarrow> site_fields list" where
  "add_agent cf s rows =
     (case find_row si_domain (as_domain s) rows of
        Some row \<Rightarrow> put_row si_domain (agent_merge s row) rows
      | None \<Rightarrow> rows @ [agent_row cf s])"

definition resolve ::
    "npm_result list \<Rightarrow> cf_result \<Rightarrow> site_guest list \<Rightarrow> agent_site list \<Rightarrow> site_fields list option" where
  "resolve npms cf gs agents =
     (let rows1 = map (npm_row npms cf gs) (candidates npms);
          rows2 = (if cf_checked cf
                   then map_option (\<lambda>by_ip. fold (add_direct by_ip) (cr_records cf) rows1) (guest_by_ip gs)
                   else Some rows1)
      in map_option (fold (add_agent cf) agents) rows2)"
subsection \<open>Following DNS\<close>

text \<open>What Cloudflare's records say, without the bound: the name reaches an address after \<open>k\<close> aliases.\<close>

inductive reaches_address :: "dns_table \<Rightarrow> nat \<Rightarrow> string \<Rightarrow> string \<Rightarrow> bool" for t where
  reaches_here: "filter is_address (records_for t name) = r # rs \<Longrightarrow> reaches_address t 0 name (rec_content r)"
| reaches_alias:
    "records_for t name = r # rs \<Longrightarrow> filter is_address (r # rs) = [] \<Longrightarrow>
     reaches_address t k (rec_content r) a \<Longrightarrow> reaches_address t (Suc k) name a"

text \<open>The name runs off Cloudflare: after \<open>k\<close> aliases it has become \<open>out\<close>, which has no record.\<close>

inductive leaves_at :: "dns_table \<Rightarrow> nat \<Rightarrow> string \<Rightarrow> string \<Rightarrow> bool" for t where
  leaves_here: "records_for t name = [] \<Longrightarrow> leaves_at t 0 name name"
| leaves_alias:
    "records_for t name = r # rs \<Longrightarrow> filter is_address (r # rs) = [] \<Longrightarrow>
     leaves_at t k (rec_content r) out \<Longrightarrow> leaves_at t (Suc k) name out"

lemma cf_follow_address:
  assumes "reaches_address t k name a" and "k < fuel"
  shows "\<exists>p'. cf_follow fuel hop t name p found = (Some a, p', True) \<and> (hop \<noteq> 0 \<longrightarrow> p' = p) \<and>
     (hop = 0 \<longrightarrow> p' = list_ex rec_proxied (records_for t name))"
  using assms
proof (induction arbitrary: fuel hop p found rule: reaches_address.induct)
  case (reaches_here name r rs)
  then have "records_for t name \<noteq> []" by auto
  with reaches_here show ?case by (cases fuel) (auto simp: Let_def)
next
  case (reaches_alias name r rs k a)
  then obtain f where f: "fuel = Suc f" and "k < f" by (cases fuel) auto
  from reaches_alias.IH [OF \<open>k < f\<close>, of "hop + 1"] reaches_alias.hyps show ?case
    by (fastforce simp: f Let_def)
qed

lemma cf_follow_leaves:
  assumes "leaves_at t k name out" and "k < fuel"
  shows "\<exists>p'. cf_follow fuel hop t name p found = (if found \<or> k > 0 then Some out else None, p', found \<or> k > 0)"
  using assms
proof (induction arbitrary: fuel hop p found rule: leaves_at.induct)
  case (leaves_here name)
  then show ?case by (cases fuel) auto
next
  case (leaves_alias name r rs k out)
  then obtain f where f: "fuel = Suc f" and "k < f" by (cases fuel) auto
  from leaves_alias.IH [OF \<open>k < f\<close>, of "hop + 1" _ True] leaves_alias.hyps show ?case
    by (simp add: f Let_def)
qed

subsection \<open>Candidates\<close>

text \<open>The proxy manager \<open>name\<close> was read and lists \<open>domain\<close>.\<close>

definition lists_domain :: "npm_result list \<Rightarrow> string \<Rightarrow> string \<Rightarrow> bool" where
  "lists_domain npms domain name \<longleftrightarrow>
     domain \<noteq> [] \<and> list_ex (\<lambda>n. nr_ok n \<and> nr_name n = name \<and>
        list_ex (\<lambda>h. list_ex (\<lambda>d. normalize_site (Some d) = domain) (ph_domains h)) (nr_hosts n)) npms"

lemma lists_domain_iff: "lists_domain npms d nm \<longleftrightarrow> (\<exists>c \<in> set (npm_candidates npms). fst c = d \<and> cand_npm c = nm)"
proof
  assume "lists_domain npms d nm"
  then obtain n h x where "n \<in> set npms" "nr_ok n" "nr_name n = nm" "h \<in> set (nr_hosts n)" "x \<in> set (ph_domains h)"
    "normalize_site (Some x) = d" "d \<noteq> []"
    by (auto simp: lists_domain_def list_ex_iff)
  then have "(d, n, h) \<in> set (npm_candidates npms)" by (auto simp: npm_candidates_def)
  moreover have "fst (d, n, h) = d \<and> cand_npm (d, n, h) = nm" using \<open>nr_name n = nm\<close> by (simp add: cand_npm_def)
  ultimately show "\<exists>c \<in> set (npm_candidates npms). fst c = d \<and> cand_npm c = nm" by blast
next
  assume "\<exists>c \<in> set (npm_candidates npms). fst c = d \<and> cand_npm c = nm"
  then show "lists_domain npms d nm"
    by (auto simp: npm_candidates_def cand_npm_def lists_domain_def list_ex_iff)
qed

lemma one_per_npm_names: "cand_npm ` set (one_per_npm cs) = cand_npm ` set cs"
proof (induction cs)
  case (Cons c cs)
  have "insert a (f ` {x \<in> A. f x \<noteq> a}) = insert a (f ` A)" for a :: string and f and A :: "candidate set" by blast
  with Cons show ?case by simp
qed simp

lemma one_per_npm_distinct: "distinct (map cand_npm (one_per_npm cs))"
  by (induction cs) (auto simp: distinct_map_filter)

lemma candidates_domains: "map fst (candidates npms) = map fst (group_rows fst (npm_candidates npms))"
  by (simp add: candidates_def case_prod_unfold)

lemma distinct_candidates: "distinct (map fst (candidates npms))"
  by (simp add: candidates_domains distinct_group_rows)

lemma candidates_mem:
  assumes "(d, cs) \<in> set (candidates npms)"
  shows "cs = one_per_npm (filter (\<lambda>c. fst c = d) (npm_candidates npms))"
    and "cand_npm ` set cs = {nm. lists_domain npms d nm}" and "distinct (map cand_npm cs)" and "cs \<noteq> []"
proof -
  from assms obtain g where g: "(d, g) \<in> set (group_rows fst (npm_candidates npms))" and cs: "cs = one_per_npm g"
    by (auto simp: candidates_def)
  from group_rows_mem [OF g] have geq: "g = filter (\<lambda>c. fst c = d) (npm_candidates npms)" and "g \<noteq> []" by auto
  then show "cs = one_per_npm (filter (\<lambda>c. fst c = d) (npm_candidates npms))" using cs by simp
  show "cand_npm ` set cs = {nm. lists_domain npms d nm}"
    unfolding cs one_per_npm_names geq by (auto simp: lists_domain_iff)
  show "distinct (map cand_npm cs)" unfolding cs by (rule one_per_npm_distinct)
  show "cs \<noteq> []" using \<open>g \<noteq> []\<close> cs by (cases g) auto
qed

lemma candidates_listed:
  assumes "lists_domain npms d nm"
  shows "\<exists>cs. (d, cs) \<in> set (candidates npms)"
proof -
  from assms have "d \<in> fst ` set (npm_candidates npms)" by (auto simp: lists_domain_iff)
  then have "d \<in> set (map fst (candidates npms))"
    unfolding candidates_domains using group_rows_keys [of fst "npm_candidates npms"] by simp
  then show ?thesis by force
qed

subsection \<open>What the later steps keep\<close>

text \<open>The fields of a row no later step changes.\<close>

definition settled :: "site_fields \<Rightarrow> string \<times> string \<times> string option \<times> string option \<times> string \<times> string \<times> bool \<times> string" where
  "settled r = (si_domain r, si_source r, si_npm_instance r, si_proxmox_server r, si_forward_target r,
     si_cloudflare_target r, si_cloudflare_proxied r,
     if si_status r = ''Unmatched'' then ''Active'' else si_status r)"

lemma settled_domain: "settled r = settled r' \<Longrightarrow> si_domain r = si_domain r'"
  by (simp add: settled_def)

lemma settled_agent_merge [simp]: "settled (agent_merge s r) = settled r"
  by (simp add: settled_def agent_merge_def Let_def)

lemma si_domain_agent_merge [simp]: "si_domain (agent_merge s r) = si_domain r"
  by (simp add: agent_merge_def Let_def)

lemma si_domain_agent_row [simp]: "si_domain (agent_row cf s) = as_domain s"
  by (simp add: agent_row_def case_prod_unfold Let_def)

lemma si_domain_direct_row: "direct_row by_ip name recs = Some r \<Longrightarrow> si_domain r = name"
  by (auto simp: direct_row_def split: option.splits)

lemma si_domain_npm_row [simp]: "si_domain (npm_row npms cf gs e) = fst e"
  by (auto simp: npm_row_def case_prod_unfold Let_def split: option.split)

lemma find_add_direct:
  assumes "find_row si_domain d rows = Some r"
  shows "find_row si_domain d (add_direct by_ip e rows) = Some r"
  using assms by (auto simp: add_direct_def case_prod_unfold Let_def find_row_def find_append split: option.split)

lemma find_fold_direct:
  "find_row si_domain d rows = Some r \<Longrightarrow> find_row si_domain d (fold (add_direct by_ip) es rows) = Some r"
  by (induction es arbitrary: rows) (auto intro: find_add_direct)

lemma find_add_agent:
  assumes "find_row si_domain d rows = Some r"
  shows "\<exists>r'. find_row si_domain d (add_agent cf s rows) = Some r' \<and> settled r' = settled r"
proof (cases "find_row si_domain (as_domain s) rows")
  case None
  with assms show ?thesis by (auto simp: add_agent_def find_row_def find_append)
next
  case (Some old)
  then have "si_domain old = as_domain s" by (auto dest: find_row_Some)
  with assms Some show ?thesis by (auto simp: add_agent_def find_row_put)
qed

lemma find_fold_agent:
  "find_row si_domain d rows = Some r \<Longrightarrow>
   \<exists>r'. find_row si_domain d (fold (add_agent cf) ss rows) = Some r' \<and> settled r' = settled r"
proof (induction ss arbitrary: rows r)
  case (Cons s ss)
  from find_add_agent [OF Cons.prems] obtain r1
    where "find_row si_domain d (add_agent cf s rows) = Some r1" and "settled r1 = settled r" by blast
  with Cons.IH [of "add_agent cf s rows" r1] show ?case by auto
qed auto

text \<open>The row of a domain that a proxy manager lists.\<close>

lemma resolve_npm_row:
  assumes "resolve npms cf gs agents = Some rows" and "e \<in> set (candidates npms)"
  shows "\<exists>r. find_row si_domain (fst e) rows = Some r \<and> settled r = settled (npm_row npms cf gs e)"
proof -
  let ?rows1 = "map (npm_row npms cf gs) (candidates npms)"
  have "distinct (map si_domain ?rows1)" by (simp add: comp_def distinct_candidates)
  from find_row_member [OF this, of "npm_row npms cf gs e"] assms(2)
  have one: "find_row si_domain (fst e) ?rows1 = Some (npm_row npms cf gs e)" by simp
  have "\<exists>rows2. rows = fold (add_agent cf) agents rows2 \<and> find_row si_domain (fst e) rows2 = Some (npm_row npms cf gs e)"
    using assms(1) one find_fold_direct [OF one] by (auto simp: resolve_def Let_def split: if_splits)
  then obtain rows2 where rows: "rows = fold (add_agent cf) agents rows2"
    and two: "find_row si_domain (fst e) rows2 = Some (npm_row npms cf gs e)" by blast
  from find_fold_agent [OF two] show ?thesis by (simp add: rows)
qed

subsection \<open>Attribution\<close>

definition dns_owner :: "npm_result list \<Rightarrow> cf_result \<Rightarrow> string \<Rightarrow> string \<Rightarrow> bool" where
  "dns_owner npms cf domain name \<longleftrightarrow>
     (let target = fst (look cf domain) in truthy target \<and> opt_str target \<in> set (ips_of npms name))"

lemma two_elements_no_singleton:
  assumes "a \<in> set xs" and "b \<in> set xs" and "a \<noteq> b"
  shows "\<exists>x y zs. xs = x # y # zs"
  using assms by (cases xs; cases "tl xs") auto

lemma ex1_iff_singleton: "(\<exists>!m. P m) \<longleftrightarrow> (\<exists>m. {m. P m} = {m})"
  by (auto simp: set_eq_iff)

lemma choose_contested:
  assumes "distinct (map cand_npm cs)" and "a \<in> cand_npm ` set cs" and "b \<in> cand_npm ` set cs" and "a \<noteq> b"
    and M: "M = {nm \<in> cand_npm ` set cs. truthy target \<and> opt_str target \<in> set (ips_of npms nm)}"
  shows "(\<exists>m nt. M = {m} \<and> choose_npm npms cf target in_cf cs = (Some m, ''Active'', nt)) \<or>
    ((\<nexists>m. M = {m}) \<and> (\<exists>nt. choose_npm npms cf target in_cf cs = (None, ''Ambiguous'', nt)))"
proof -
  let ?names = "sort (map cand_npm cs)"
  obtain x y zs where names: "?names = x # y # zs"
    using two_elements_no_singleton [of a ?names b] assms(2-4) by auto
  define ms where "ms = dns_matches npms target ?names"
  have "distinct ms" using assms(1) by (simp add: ms_def dns_matches_def)
  have M_eq: "M = set ms" by (auto simp: M ms_def dns_matches_def)
  have ms': "dns_matches npms target (x # y # zs) = ms" by (simp add: ms_def names)
  consider (none) "ms = []" | (one) m where "ms = [m]" | (more) m m' rest where "ms = m # m' # rest"
    by (cases ms; cases "tl ms") auto
  then show ?thesis
  proof cases
    case none
    then show ?thesis using M_eq by (simp add: choose_npm_def Let_def names ms')
  next
    case one
    then show ?thesis using M_eq by (simp add: choose_npm_def Let_def names ms')
  next
    case more
    then have "m \<noteq> m'" using \<open>distinct ms\<close> by auto
    with more show ?thesis using M_eq by (auto simp: choose_npm_def Let_def names ms')
  qed
qed

text \<open>The fields of the row that do not depend on the guests.\<close>

definition npm_settled :: "string \<Rightarrow> string option \<Rightarrow> string \<Rightarrow> string \<Rightarrow> site_fields \<Rightarrow> bool" where
  "npm_settled target chosen status domain r \<longleftrightarrow>
     si_npm_instance r = chosen \<and> si_cloudflare_target r = target \<and> si_source r = ''NPM'' \<and> si_domain r = domain \<and>
     (if si_status r = ''Unmatched'' then ''Active'' else si_status r) = status"

lemma npm_settled_cong: "settled r = settled r' \<Longrightarrow> npm_settled t c s d r = npm_settled t c s d r'"
  by (simp add: settled_def npm_settled_def)

lemma npm_row_settled:
  assumes choice: "choose_npm npms cf (fst (look cf d)) (snd (snd (look cf d))) cs = (chosen, status, nt)"
    and chosen: "\<And>m. chosen = Some m \<Longrightarrow> m \<in> cand_npm ` set cs" and "status \<noteq> ''Unmatched''"
  shows "npm_settled (opt_str (fst (look cf d))) chosen status d (npm_row npms cf gs (d, cs))"
proof -
  obtain t p i where look: "look cf d = (t, p, i)" by (cases "look cf d") auto
  show ?thesis
  proof (cases chosen)
    case None
    then have "find (\<lambda>c. Some (cand_npm c) = chosen) cs = None" by (simp add: find_None_iff)
    with choice None assms(3) show ?thesis by (simp add: npm_row_def look npm_settled_def)
  next
    case (Some m)
    have "\<exists>c. find (\<lambda>c. cand_npm c = m) cs = Some c \<and> cand_npm c = m"
      using chosen [OF Some] by (induction cs) auto
    then obtain x n h where f: "find (\<lambda>c. cand_npm c = m) cs = Some (x, n, h)" and "nr_name n = m"
      by (auto simp: cand_npm_def)
    with choice Some assms(3) show ?thesis by (simp add: npm_row_def look npm_settled_def Let_def)
  qed
qed

lemma choose_single_status:
  "fst (choose_single npms cf target in_cf name) \<in> {''Not in Cloudflare'', ''DNS Mismatch'', ''Active''}"
  by (auto simp: choose_single_def Let_def)

text \<open>C20: a domain that two or more proxy managers list is given to one of them only on the word of DNS. If
  Cloudflare's target lies in the public addresses of exactly one of the listing managers, the row
  belongs to that manager; in every other case (no record, Cloudflare not checked, a target that is
  nobody's, or several managers sharing the address) it has no owner and is marked Ambiguous.\<close>

theorem contested_domain_goes_by_dns:
  assumes "resolve npms cf gs agents = Some rows"
    and "lists_domain npms d a" and "lists_domain npms d b" and "a \<noteq> b"
  shows "\<exists>r. find_row si_domain d rows = Some r \<and>
    (if \<exists>!m. lists_domain npms d m \<and> dns_owner npms cf d m
     then (\<exists>m. lists_domain npms d m \<and> dns_owner npms cf d m \<and> si_npm_instance r = Some m) \<and>
          si_status r \<in> {''Active'', ''Unmatched''}
     else si_npm_instance r = None \<and> si_status r = ''Ambiguous'')"
proof -
  obtain cs where cs: "(d, cs) \<in> set (candidates npms)" using candidates_listed [OF assms(2)] by blast
  note mem = candidates_mem [OF cs]
  let ?M = "{nm \<in> cand_npm ` set cs. truthy (fst (look cf d)) \<and> opt_str (fst (look cf d)) \<in> set (ips_of npms nm)}"
  have M: "?M = {m. lists_domain npms d m \<and> dns_owner npms cf d m}"
    unfolding mem(2) by (auto simp: dns_owner_def Let_def)
  have ex1: "(\<exists>!m. lists_domain npms d m \<and> dns_owner npms cf d m) \<longleftrightarrow> (\<exists>m. ?M = {m})"
    unfolding M by (rule ex1_iff_singleton)
  obtain r where r: "find_row si_domain d rows = Some r" and same: "settled r = settled (npm_row npms cf gs (d, cs))"
    using resolve_npm_row [OF assms(1) cs] by auto
  have ab: "a \<in> cand_npm ` set cs" "b \<in> cand_npm ` set cs" using assms(2,3) mem(2) by auto
  from choose_contested [OF mem(3) ab assms(4) refl, of "fst (look cf d)" npms cf "snd (snd (look cf d))"]
  consider (one) m nt where "?M = {m}"
      "choose_npm npms cf (fst (look cf d)) (snd (snd (look cf d))) cs = (Some m, ''Active'', nt)"
    | (other) nt where "\<nexists>m. ?M = {m}"
      "choose_npm npms cf (fst (look cf d)) (snd (snd (look cf d))) cs = (None, ''Ambiguous'', nt)" by blast
  then show ?thesis
  proof cases
    case one
    then have "m \<in> ?M" by blast
    with npm_row_settled [OF one(2)] have "npm_settled (opt_str (fst (look cf d))) (Some m) ''Active'' d r"
      unfolding npm_settled_cong [OF same] by auto
    moreover have "lists_domain npms d m \<and> dns_owner npms cf d m" using \<open>m \<in> ?M\<close> M by auto
    ultimately show ?thesis using r one(1) ex1 by (auto simp: npm_settled_def split: if_splits)
  next
    case other
    from npm_row_settled [OF other(2)] have "npm_settled (opt_str (fst (look cf d))) None ''Ambiguous'' d r"
      unfolding npm_settled_cong [OF same] by auto
    then show ?thesis using r other(1) ex1 by (auto simp: npm_settled_def split: if_splits)
  qed
qed

lemma choose_Some:
  assumes "choose_npm npms cf target in_cf cs = (Some m, status, nt)"
  shows "m \<in> cand_npm ` set cs"
    and "choose_single npms cf target in_cf m = (status, nt) \<or>
         (status = ''Active'' \<and> truthy target \<and> opt_str target \<in> set (ips_of npms m))"
proof -
  let ?names = "sort (map cand_npm cs)"
  have "m \<in> set ?names \<and> (choose_single npms cf target in_cf m = (status, nt) \<or>
         (status = ''Active'' \<and> m \<in> set (dns_matches npms target ?names)))"
  proof (cases "\<exists>x. ?names = [x]")
    case True
    then obtain x where x: "?names = [x]" by blast
    then have "x = m \<and> choose_single npms cf target in_cf m = (status, nt)"
      using assms by (auto simp: choose_npm_def Let_def)
    with x show ?thesis by (auto simp del: set_sort)
  next
    case False
    define ms where "ms = dns_matches npms target ?names"
    have "set ms \<subseteq> set ?names" by (auto simp: ms_def dns_matches_def)
    moreover have "ms = [m] \<and> status = ''Active''"
      using assms False unfolding choose_npm_def Let_def ms_def [symmetric]
      by (cases ?names rule: list.exhaust; cases "tl ?names"; cases ms; cases "tl ms") simp_all
    ultimately show ?thesis by (simp flip: ms_def)
  qed
  then show "m \<in> cand_npm ` set cs"
    and "choose_single npms cf target in_cf m = (status, nt) \<or>
         (status = ''Active'' \<and> truthy target \<and> opt_str target \<in> set (ips_of npms m))"
    by (auto simp: dns_matches_def)
qed

lemma choose_None:
  "choose_npm npms cf target in_cf cs = (None, status, nt) \<Longrightarrow> status = ''Ambiguous''"
  by (auto simp: choose_npm_def Let_def split: list.splits)

lemma choose_single_live:
  assumes "choose_single npms cf target in_cf m = (''Active'', nt)" and "cf_checked cf" and "ips_of npms m \<noteq> []"
  shows "target \<noteq> None \<and> opt_str target \<in> set (ips_of npms m)"
  using assms by (auto simp: choose_single_def Let_def split: if_splits)

text \<open>A site shown as live behind a proxy manager is one that DNS sends there. When Cloudflare was
  checked and the manager's public addresses are known, a row owned by the manager that is Active (or
  only lacks its guest) has a Cloudflare record whose target is one of these addresses; a listed
  domain that Cloudflare does not know or sends elsewhere is never Active.\<close>

theorem active_site_is_live:
  assumes "resolve npms cf gs agents = Some rows" and "lists_domain npms d m"
    and "find_row si_domain d rows = Some r" and "si_npm_instance r = Some m"
    and "cf_checked cf" and "ips_of npms m \<noteq> []" and "si_status r \<in> {''Active'', ''Unmatched''}"
  shows "si_cloudflare_target r \<in> set (ips_of npms m) \<and> fst (look cf d) = Some (si_cloudflare_target r)"
proof -
  obtain cs where cs: "(d, cs) \<in> set (candidates npms)" using candidates_listed [OF assms(2)] by blast
  obtain chosen status nt where choice:
      "choose_npm npms cf (fst (look cf d)) (snd (snd (look cf d))) cs = (chosen, status, nt)"
    by (cases "choose_npm npms cf (fst (look cf d)) (snd (snd (look cf d))) cs") auto
  have ok: "status \<noteq> ''Unmatched''"
  proof (cases chosen)
    case None
    with choice choose_None show ?thesis by fastforce
  next
    case (Some x)
    with choose_Some(2) choice choose_single_status [of npms cf "fst (look cf d)" "snd (snd (look cf d))" x]
    show ?thesis by force
  qed
  have "npm_settled (opt_str (fst (look cf d))) chosen status d (npm_row npms cf gs (d, cs))"
  proof (rule npm_row_settled [OF choice _ ok])
    show "x \<in> cand_npm ` set cs" if "chosen = Some x" for x using choose_Some(1) choice that by blast
  qed
  then have "npm_settled (opt_str (fst (look cf d))) chosen status d r"
    using resolve_npm_row [OF assms(1) cs] assms(3) npm_settled_cong [of r "npm_row npms cf gs (d, cs)"] by auto
  then have status: "status = ''Active''" and chosen: "chosen = Some m"
    and t: "si_cloudflare_target r = opt_str (fst (look cf d))"
    using assms(4,7) by (auto simp: npm_settled_def split: if_splits)
  have "fst (look cf d) \<noteq> None \<and> opt_str (fst (look cf d)) \<in> set (ips_of npms m)"
    using choose_Some(2) [OF choice [unfolded chosen]]
  proof
    assume "choose_single npms cf (fst (look cf d)) (snd (snd (look cf d))) m = (status, nt)"
    with choose_single_live [OF _ assms(5,6)] status show ?thesis by blast
  next
    assume "status = ''Active'' \<and> truthy (fst (look cf d)) \<and> opt_str (fst (look cf d)) \<in> set (ips_of npms m)"
    then show ?thesis by (cases "fst (look cf d)") (auto simp: truthy_def)
  qed
  then show ?thesis by (auto simp: t)
qed

subsection \<open>Which domains get a row\<close>

definition direct_domain :: "(string \<times> string) list \<Rightarrow> cf_result \<Rightarrow> string \<Rightarrow> bool" where
  "direct_domain by_ip cf d \<longleftrightarrow> \<not> starts_with ''*.'' d \<and>
     (\<exists>recs. (d, recs) \<in> set (cr_records cf) \<and> direct_row by_ip d recs \<noteq> None)"

lemma add_direct_domains:
  "si_domain ` set (add_direct by_ip (d, recs) rows) = si_domain ` set rows \<union>
     (if starts_with ''*.'' d \<or> direct_row by_ip d recs = None then {} else {d})"
  by (auto simp: add_direct_def Let_def find_row_None si_domain_direct_row split: option.split
        dest: find_row_Some)

lemma fold_direct_domains:
  "si_domain ` set (fold (add_direct by_ip) es rows) = si_domain ` set rows \<union>
     {d. \<not> starts_with ''*.'' d \<and> (\<exists>recs. (d, recs) \<in> set es \<and> direct_row by_ip d recs \<noteq> None)}"
proof (induction es arbitrary: rows)
  case (Cons e es)
  obtain d recs where e: "e = (d, recs)" by (cases e)
  show ?case unfolding e fold_simps(2) Cons.IH add_direct_domains by auto
qed simp

lemma distinct_add_direct:
  "distinct (map si_domain rows) \<Longrightarrow> distinct (map si_domain (add_direct by_ip e rows))"
  by (auto simp: add_direct_def case_prod_unfold Let_def find_row_None si_domain_direct_row split: option.split)

lemma add_agent_domains:
  "si_domain ` set (add_agent cf s rows) = insert (as_domain s) (si_domain ` set rows)"
proof (cases "find_row si_domain (as_domain s) rows")
  case None
  then show ?thesis by (simp add: add_agent_def)
next
  case (Some old)
  then have old: "old \<in> set rows" "si_domain old = as_domain s" by (auto dest: find_row_Some)
  have "si_domain ` set (put_row si_domain (agent_merge s old) rows) = insert (si_domain old) (si_domain ` set rows)"
    using map_key_put_row [of si_domain "agent_merge s old" rows] old
    by (metis (no_types, lifting) image_eqI insert_absorb list.set_map si_domain_agent_merge)
  then show ?thesis by (simp add: add_agent_def Some old(2))
qed

lemma distinct_add_agent:
  "distinct (map si_domain rows) \<Longrightarrow> distinct (map si_domain (add_agent cf s rows))"
  by (auto simp: add_agent_def find_row_None intro: distinct_put_row split: option.split)

lemma fold_agent_domains:
  "si_domain ` set (fold (add_agent cf) ss rows) = si_domain ` set rows \<union> as_domain ` set ss"
  by (induction ss arbitrary: rows) (auto simp: add_agent_domains)

lemma candidate_domains: "fst ` set (candidates npms) = {d. \<exists>m. lists_domain npms d m}"
proof (intro equalityI subsetI)
  fix d assume "d \<in> fst ` set (candidates npms)"
  then obtain cs where cs: "(d, cs) \<in> set (candidates npms)" by force
  from candidates_mem(2,4) [OF cs] show "d \<in> {d. \<exists>m. lists_domain npms d m}"
    by (cases cs) auto
next
  fix d assume "d \<in> {d. \<exists>m. lists_domain npms d m}"
  then show "d \<in> fst ` set (candidates npms)" using candidates_listed by force
qed

lemma distinct_npm_rows: "distinct (map si_domain (map (npm_row npms cf gs) (candidates npms)))"
  by (simp add: comp_def distinct_candidates)

lemma distinct_resolve:
  assumes "resolve npms cf gs agents = Some rows"
  shows "distinct (map si_domain rows)"
proof -
  have direct: "distinct (map si_domain (fold (add_direct by_ip) es rs))" if "distinct (map si_domain rs)" for by_ip es rs
    using that by (rule fold_invariant [where I = "\<lambda>rs. distinct (map si_domain rs)", rotated]) (rule distinct_add_direct)
  have agents: "distinct (map si_domain (fold (add_agent cf) ss rs))" if "distinct (map si_domain rs)" for ss rs
    using that by (rule fold_invariant [where I = "\<lambda>rs. distinct (map si_domain rs)", rotated]) (rule distinct_add_agent)
  show ?thesis
    using assms by (auto simp: resolve_def Let_def simp del: map_map split: if_splits intro!: agents direct distinct_npm_rows)
qed

lemma npm_row_domains: "si_domain ` set (map (npm_row npms cf gs) (candidates npms)) = {d. \<exists>m. lists_domain npms d m}"
  by (simp add: image_image candidate_domains)

text \<open>\<open>resolve\<close> makes exactly one row for every domain some readable source reports: those a proxy
  manager that answered lists, those whose Cloudflare records (when Cloudflare was read) point
  straight at a public address of a guest, wildcards aside, and those an agent reports; and no row
  for any other domain.\<close>

theorem resolve_domains_exact:
  assumes "resolve npms cf gs agents = Some rows"
  shows "distinct (map si_domain rows) \<and>
    (\<forall>d. find_row si_domain d rows \<noteq> None \<longleftrightarrow>
       (\<exists>m. lists_domain npms d m) \<or> d \<in> as_domain ` set agents \<or>
       (cf_checked cf \<and> (\<exists>by_ip. guest_by_ip gs = Some by_ip \<and> direct_domain by_ip cf d)))"
proof -
  have "si_domain ` set rows = {d. \<exists>m. lists_domain npms d m} \<union> as_domain ` set agents \<union>
      (if cf_checked cf then {d. \<exists>by_ip. guest_by_ip gs = Some by_ip \<and> direct_domain by_ip cf d} else {})"
  proof (cases "cf_checked cf")
    case True
    with assms obtain by_ip where b: "guest_by_ip gs = Some by_ip"
      and rows: "rows = fold (add_agent cf) agents (fold (add_direct by_ip) (cr_records cf)
        (map (npm_row npms cf gs) (candidates npms)))"
      by (auto simp: resolve_def Let_def)
    show ?thesis
      unfolding rows fold_agent_domains fold_direct_domains npm_row_domains
      using True b by (auto simp: direct_domain_def)
  next
    case False
    with assms have rows: "rows = fold (add_agent cf) agents (map (npm_row npms cf gs) (candidates npms))"
      by (simp add: resolve_def Let_def)
    show ?thesis unfolding rows fold_agent_domains npm_row_domains using False by auto
  qed
  then have "si_domain ` set rows = {d. (\<exists>m. lists_domain npms d m) \<or> d \<in> as_domain ` set agents \<or>
       (cf_checked cf \<and> (\<exists>by_ip. guest_by_ip gs = Some by_ip \<and> direct_domain by_ip cf d))}"
    by auto
  then show ?thesis using distinct_resolve [OF assms] by (auto simp: find_row_None)
qed

text \<open>\<open>cf_lookup\<close> follows Cloudflare's records as DNS does: a name that reaches an A or AAAA record
  within \<open>MAX_CNAME_HOPS\<close> aliases (taking wildcards into account at each step) gets the address of
  that record, is reported as found, and as proxied exactly when one of its own records is.\<close>

theorem cf_lookup_reaches_address:
  assumes "reaches_address t k d a" and "k \<le> MAX_CNAME_HOPS"
  shows "cf_lookup t d = (Some a, list_ex rec_proxied (records_for t d), True)"
  using cf_follow_address [OF assms(1), of "MAX_CNAME_HOPS + 1" 0 False False] assms(2)
  by (auto simp: cf_lookup_def)

subsection \<open>Sample input\<close>

text \<open>Two proxy managers list \<open>erp.x.org\<close>, which is an alias of \<open>lb.x.org\<close>, whose address is a's; \<open>b.x.org\<close>
  is only on b and reached through a wildcard.\<close>

definition demo_npm_result :: "string \<Rightarrow> string \<Rightarrow> string list \<Rightarrow> npm_result" where
  "demo_npm_result n ip ds = \<lparr>nr_name = n, nr_server = None, nr_public_ips = [ip], nr_ok = True, nr_error = [],
     nr_hosts = [\<lparr>ph_domains = ds, ph_forward_host = ''10.0.0.5'', ph_forward_port = Some 80, ph_forward_scheme = ''http''\<rparr>]\<rparr>"

definition demo_npm_results :: "npm_result list" where
  "demo_npm_results = [demo_npm_result ''a'' ''5.5.5.1'' [''ERP.x.org''], demo_npm_result ''b'' ''5.5.5.2'' [''erp.x.org'', ''b.x.org'']]"

definition demo_dns :: dns_table where
  "demo_dns =
     [(''erp.x.org'', [\<lparr>rec_name = ''erp.x.org'', rec_type = ''CNAME'', rec_content = ''lb.x.org'', rec_proxied = True\<rparr>]),
      (''lb.x.org'', [\<lparr>rec_name = ''lb.x.org'', rec_type = ''A'', rec_content = ''5.5.5.1'', rec_proxied = False\<rparr>]),
      (''*.x.org'', [\<lparr>rec_name = ''*.x.org'', rec_type = ''A'', rec_content = ''5.5.5.2'', rec_proxied = False\<rparr>])]"

definition demo_cf_result :: cf_result where
  "demo_cf_result = \<lparr>cr_enabled = True, cr_ok = True, cr_error = [], cr_records = demo_dns, cr_zone_count = 1\<rparr>"

lemma demo_resolve: "\<exists>rows. resolve demo_npm_results demo_cf_result [] [] = Some rows"
proof -
  have "guest_by_ip [] = Some []" by code_simp
  then show ?thesis by (auto simp: resolve_def Let_def)
qed

lemma demo_lists: "lists_domain demo_npm_results ''erp.x.org'' ''a''" "lists_domain demo_npm_results ''erp.x.org'' ''b''"
  "lists_domain demo_npm_results ''b.x.org'' ''b''"
  by code_simp+

lemma demo_owner: "dns_owner demo_npm_results demo_cf_result ''erp.x.org'' ''a''"
  "\<not> dns_owner demo_npm_results demo_cf_result ''erp.x.org'' ''b''"
  by code_simp+

lemma demo_listers: "lists_domain demo_npm_results d m \<Longrightarrow> m = ''a'' \<or> m = ''b''"
  by (auto simp: lists_domain_def demo_npm_results_def demo_npm_result_def)

theorem contested_domain_goes_by_dns_witness:
  "\<exists>rows r. resolve demo_npm_results demo_cf_result [] [] = Some rows \<and> find_row si_domain ''erp.x.org'' rows = Some r \<and>
     si_npm_instance r = Some ''a'' \<and> si_status r \<in> {''Active'', ''Unmatched''}"
proof -
  obtain rows where rows: "resolve demo_npm_results demo_cf_result [] [] = Some rows" using demo_resolve by blast
  have one: "lists_domain demo_npm_results ''erp.x.org'' m \<and> dns_owner demo_npm_results demo_cf_result ''erp.x.org'' m \<longleftrightarrow> m = ''a''" for m
    using demo_lists demo_owner demo_listers by blast
  have "''a'' \<noteq> (''b'' :: string)" by simp
  note go = contested_domain_goes_by_dns [OF rows demo_lists(1,2) this]
  have "\<exists>!m. lists_domain demo_npm_results ''erp.x.org'' m \<and> dns_owner demo_npm_results demo_cf_result ''erp.x.org'' m"
    unfolding one by blast
  with go obtain r m where r: "find_row si_domain ''erp.x.org'' rows = Some r" "si_status r \<in> {''Active'', ''Unmatched''}"
    and m: "lists_domain demo_npm_results ''erp.x.org'' m \<and> dns_owner demo_npm_results demo_cf_result ''erp.x.org'' m"
    and inst: "si_npm_instance r = Some m" by (simp only: if_True) blast
  from m have "m = ''a''" using one by blast
  with rows r inst show ?thesis by blast
qed

theorem resolve_domains_exact_witness:
  "\<exists>rows. resolve demo_npm_results demo_cf_result [] [] = Some rows \<and> find_row si_domain ''b.x.org'' rows \<noteq> None"
proof -
  obtain rows where rows: "resolve demo_npm_results demo_cf_result [] [] = Some rows" using demo_resolve by blast
  with resolve_domains_exact [OF rows] demo_lists(3) show ?thesis by blast
qed

theorem cf_lookup_reaches_address_witness:
  "cf_lookup demo_dns ''erp.x.org'' = (Some ''5.5.5.1'', True, True)"
proof -
  have a: "records_for demo_dns ''erp.x.org'' = [\<lparr>rec_name = ''erp.x.org'', rec_type = ''CNAME'', rec_content = ''lb.x.org'', rec_proxied = True\<rparr>]"
    and b: "records_for demo_dns ''lb.x.org'' = [\<lparr>rec_name = ''lb.x.org'', rec_type = ''A'', rec_content = ''5.5.5.1'', rec_proxied = False\<rparr>]"
    by code_simp+
  have "reaches_address demo_dns 0 ''lb.x.org'' ''5.5.5.1''"
    using reaches_here [of demo_dns "''lb.x.org''"] b by (fastforce simp: is_address_def)
  then have "reaches_address demo_dns (Suc 0) ''erp.x.org'' ''5.5.5.1''"
    by (intro reaches_alias [OF a]) (simp_all add: is_address_def)
  from cf_lookup_reaches_address [OF this] a show ?thesis by (simp add: MAX_CNAME_HOPS_def)
qed

end
