(* ===== verification/Site_Discovery.thy ===== *)
theory Site_Discovery
  imports Alert_Summaries Site_Resolve
begin

text \<open>
  The daily run of \<open>site_discovery/sync.py\<close> around \<open>resolve\<close>: its schedule, how the sources are read
  (proxy managers, Cloudflare, guests with the addresses Proxmox knows, agents' sites) and how the
  table \<open>Instance Site\<close> is brought up to date. The servers' answers are parameters (\<open>site_env\<close>);
  tables are lists in the order the database returns them; the framework's validation of link
  fields on insert is left out.
\<close>

definition SYNC_JOB_ID :: string where "SYNC_JOB_ID = ''alfaedge_pulse_site_sync''"

definition SYNC_JOB_TIMEOUT :: int where "SYNC_JOB_TIMEOUT = 1800"

definition RUN_SYNC :: string where "RUN_SYNC = ''alfaedge_pulse.site_discovery.sync.run_sync''"

record instance_site = site_fields +
  si_last_seen :: datetime

record npm_instance =
  ni_name :: string
  ni_proxmox_server :: "string option"
  ni_enabled :: bool
  ni_public_ips :: "string option"
  ni_url :: "string option"
  ni_protocol :: "string option"
  ni_port :: "int option"
  ni_verify_ssl :: bool
  ni_email :: string
  ni_password :: string
  ni_last_synced :: "datetime option"
  ni_last_error :: "string option"
  ni_proxy_host_count :: int

record cloudflare_settings =
  cs_enabled :: bool
  cs_api_token :: string
  cs_zones :: "string option"
  cs_sync_hour :: "int option"
  cs_last_synced :: "datetime option"
  cs_last_error :: "string option"
  cs_zone_count :: int
  cs_record_count :: int
  cs_site_count :: int

record site_db = host_db +
  instance_sites :: "instance_site list"
  npm_instances :: "npm_instance list"
  cloudflare_settings :: cloudflare_settings

text \<open>The outside world during a run: the proxy manager behind a base URL, Cloudflare under a token, the
  API of a Proxmox server with the guests' configurations.\<close>

record site_env =
  se_job_env :: job_env
  se_npm :: "string \<Rightarrow> npm_http"
  se_cloudflare :: "string \<Rightarrow> cf_http"
  se_pve :: "string \<Rightarrow> pve_api"
  se_guest_config :: "string \<Rightarrow> guest_config"

definition site_clock :: "site_env \<Rightarrow> datetime" where
  "site_clock se = clock (job_poll_env (se_job_env se))"

subsection \<open>Scheduling\<close>

definition anything_configured :: "'a site_db_scheme \<Rightarrow> bool" where
  "anything_configured st \<longleftrightarrow> cs_enabled (cloudflare_settings st) \<or> filter ni_enabled (npm_instances st) \<noteq> []"

definition enqueue_sync :: "site_env \<Rightarrow> 'a site_db_scheme \<Rightarrow> 'a site_db_scheme" where
  "enqueue_sync se st =
     (let st1 = snd (clear_stale_job (se_job_env se) SYNC_JOB_ID (SYNC_JOB_TIMEOUT + 300) ''site sync'' st)
      in st1\<lparr>rq_jobs := rq_enqueue (se_job_env se) RUN_SYNC ''long'' SYNC_JOB_ID (rq_jobs st1)\<rparr>)"

definition sync_due :: "datetime \<Rightarrow> cloudflare_settings \<Rightarrow> bool" where
  "sync_due now s \<longleftrightarrow>
     (let hour = min (max (opt_int (cs_sync_hour s)) 0) 23
      in \<not> (now mod DAY div HOUR < hour \<or>
            (case cs_last_synced s of None \<Rightarrow> False | Some t \<Rightarrow> date_of t \<ge> date_of now)))"

definition sync_sites :: "site_env \<Rightarrow> 'a site_db_scheme \<Rightarrow> 'a site_db_scheme" where
  "sync_sites se st =
     (if \<not> anything_configured st \<or> \<not> sync_due (site_clock se) (cloudflare_settings st) then st else enqueue_sync se st)"

subsection \<open>Inputs\<close>

text \<open>\<open>log_monitor.connection.build_base_url\<close>.\<close>

definition strip_alpha_scheme :: "string \<Rightarrow> string" where
  "strip_alpha_scheme h =
     (let run = takeWhile is_alpha h; rest = drop (length run) h
      in if run \<noteq> [] \<and> starts_with ''://'' rest then drop 3 rest else h)"

definition build_base_url :: "string option \<Rightarrow> string option \<Rightarrow> int option \<Rightarrow> string option \<Rightarrow> string" where
  "build_base_url protocol host port url_path =
     (let protocol' = py_lower (py_strip (if truthy protocol then opt_str protocol else ''http''));
          host' = py_rstrip_char (CHR ''/'') (strip_alpha_scheme (py_strip (opt_str host)));
          port' = opt_int port;
          default_port = (if protocol' = ''https'' then 443 else 80);
          netloc = (if port' = 0 \<or> port' = default_port then host' else host' @ '':'' @ show_int port');
          path = dropWhile (\<lambda>c. c = CHR ''/'') (py_rstrip_char (CHR ''/'') (py_strip (opt_str url_path)))
      in protocol' @ ''://'' @ netloc @ ''/'' @ (if path \<noteq> [] then path @ ''/'' else []))"

definition npm_effective_url :: "'a proxmox_db_scheme \<Rightarrow> npm_instance \<Rightarrow> string" where
  "npm_effective_url st doc =
     (if py_strip (opt_str (ni_url doc)) \<noteq> [] then py_rstrip_char (CHR ''/'') (py_strip (opt_str (ni_url doc)))
      else
        let host = (if truthy (ni_proxmox_server doc)
                    then map_option hostname (find_row srv_name (opt_str (ni_proxmox_server doc)) (servers st)) else None)
        in if \<not> truthy host then []
           else py_rstrip_char (CHR ''/'')
                  (build_base_url (Some (if truthy (ni_protocol doc) then opt_str (ni_protocol doc) else ''http'')) host
                     (Some (or_int (ni_port doc) 81)) (Some [])))"

text \<open>An unsaved dialog value wins; a blank one keeps the stored secret of a saved document.\<close>

definition secret_or_stored :: "bool \<Rightarrow> string option \<Rightarrow> string \<Rightarrow> string" where
  "secret_or_stored saved override stored =
     (let v = py_strip (opt_str override) in if v = [] \<and> saved then py_strip stored else v)"

definition npm_client_for ::
    "'a proxmox_db_scheme \<Rightarrow> bool \<Rightarrow> npm_instance \<Rightarrow> string option \<Rightarrow> string option \<Rightarrow> string + npm_client" where
  "npm_client_for st saved doc email password =
     (let url = npm_effective_url st doc
      in if url = [] then Inl (''No URL '' @ utf8_dash @ '' set one, or pick a Proxmox host that has a hostname'')
         else Inr (new_npm_client url (secret_or_stored saved email (ni_email doc))
                     (secret_or_stored saved password (ni_password doc))))"

definition fetch_npm :: "site_env \<Rightarrow> 'a site_db_scheme \<Rightarrow> npm_instance \<Rightarrow> npm_result" where
  "fetch_npm se st doc =
     (let r = \<lparr>nr_name = ni_name doc, nr_server = ni_proxmox_server doc, nr_public_ips = parse_ips (ni_public_ips doc),
               nr_ok = False, nr_error = [], nr_hosts = []\<rparr>;
          answer = (case npm_client_for st True doc None None of
                      Inl e \<Rightarrow> Inl e
                    | Inr c \<Rightarrow> list_proxy_hosts (se_npm se (nc_base_url c)) c)
      in case answer of Inl e \<Rightarrow> r\<lparr>nr_error := e\<rparr> | Inr hs \<Rightarrow> r\<lparr>nr_hosts := hs, nr_ok := True\<rparr>)"

definition fetch_npms :: "site_env \<Rightarrow> 'a site_db_scheme \<Rightarrow> npm_result list" where
  "fetch_npms se st = map (fetch_npm se st) (filter ni_enabled (npm_instances st))"

definition cloudflare_client :: "cloudflare_settings \<Rightarrow> string option \<Rightarrow> string + string" where
  "cloudflare_client s token_override =
     (let token = (if py_strip (opt_str token_override) \<noteq> [] then py_strip (opt_str token_override) else py_strip (cs_api_token s))
      in if token = [] then Inl ''Cloudflare API token not set'' else Inr token)"

text \<open>The records of zone after zone; what was read before a failure stays in the result.\<close>

fun gather_records :: "cf_http \<Rightarrow> zone list \<Rightarrow> dns_table \<Rightarrow> dns_table \<times> string option" where
  "gather_records http [] recs = (recs, None)"
| "gather_records http (z # zs) recs =
     (case list_records http (z_id z) of
        Inl e \<Rightarrow> (recs, Some e)
      | Inr new \<Rightarrow> gather_records http zs (fold (\<lambda>r. group_add (rec_name r) r) new recs))"

definition fetch_cloudflare :: "site_env \<Rightarrow> 'a site_db_scheme \<Rightarrow> cf_result" where
  "fetch_cloudflare se st =
     (let s = cloudflare_settings st;
          result = \<lparr>cr_enabled = cs_enabled s, cr_ok = False, cr_error = [], cr_records = [], cr_zone_count = 0\<rparr>
      in if \<not> cs_enabled s then result
         else case cloudflare_client s None of
                Inl e \<Rightarrow> result\<lparr>cr_error := e\<rparr>
              | Inr token \<Rightarrow>
                  let http = se_cloudflare se token
                  in case list_zones http (py_split (CHR '','') (opt_str (cs_zones s))) of
                       Inl e \<Rightarrow> result\<lparr>cr_error := e\<rparr>
                     | Inr zones \<Rightarrow>
                         (case gather_records http zones [] of
                            (recs, Some e) \<Rightarrow>
                              result\<lparr>cr_zone_count := int (length zones), cr_records := recs, cr_error := e\<rparr>
                          | (recs, None) \<Rightarrow>
                              result\<lparr>cr_zone_count := int (length zones), cr_records := recs, cr_ok := True\<rparr>))"

text \<open>One server's guests get the addresses its API knows; a failed node lookup ends the server's loop.\<close>

fun read_guest_ips ::
    "pve_api \<Rightarrow> guest_config \<Rightarrow> string \<Rightarrow> string option \<Rightarrow> (guest \<times> string list) list \<Rightarrow> (guest \<times> string list) list \<times> bool" where
  "read_guest_ips c config server default_node [] = ([], True)"
| "read_guest_ips c config server default_node ((g, ips) # rest) =
     (if g_server g \<noteq> server
      then map_prod ((#) (g, ips)) id (read_guest_ips c config server default_node rest)
      else
        case (if g_node g \<noteq> [] then Inr (g_node g, default_node)
              else if truthy default_node then Inr (opt_str default_node, default_node)
              else map_sum id (\<lambda>n. (n, Some n)) (discover_node_name c)) of
          Inl err \<Rightarrow> ((g, ips) # rest, False)
        | Inr (node, default') \<Rightarrow>
            map_prod ((#) (g, ips @ get_guest_ipv4s c config node (g_vmid g) (g_guest_type g = ''LXC (CT)'')
                                      (g_status g = ''running''))) id
              (read_guest_ips c config server default' rest))"

definition stored_ips :: "guest \<Rightarrow> string list" where
  "stored_ips g = (let ip = py_strip (opt_str (g_ip_address g)) in if ip = [] then [] else [ip])"

definition read_server ::
    "site_env \<Rightarrow> server \<Rightarrow> (guest \<times> string list) list \<times> string list \<Rightarrow> (guest \<times> string list) list \<times> string list" where
  "read_server se s acc =
     (let (gs, ok) = read_guest_ips (se_pve se (srv_name s)) (se_guest_config se (srv_name s)) (srv_name s) None (fst acc)
      in (gs, if ok then snd acc
              else snd acc @ [''alfaEdge Pulse: site sync couldn'' @ [CHR 0x27] @ ''t read guest IPs on '' @ srv_name s]))"

definition site_guest_of :: "guest \<times> string list \<Rightarrow> site_guest" where
  "site_guest_of p =
     \<lparr>sg_name = g_name (fst p), sg_server = g_server (fst p), sg_guest_name = g_guest_name (fst p),
      sg_ip_address = g_ip_address (fst p), sg_ips = snd p\<rparr>"

text \<open>The guests, and the titles of the errors logged on the way.\<close>

definition load_guests :: "site_env \<Rightarrow> 'a site_db_scheme \<Rightarrow> site_guest list \<times> string list" where
  "load_guests se st =
     map_prod (map site_guest_of) id
       (fold (read_server se) (filter (\<lambda>s. srv_enabled s \<and> server_type s = ''PVE'') (servers st))
          (map (\<lambda>g. (g, stored_ips g)) (guests st), []))"

definition host_agent_sites :: "monitored_host \<Rightarrow> agent_site list" where
  "host_agent_sites h =
     concat (map (\<lambda>row.
       let domain = normalize_site (Some (if truthy (hs_site_url row) then opt_str (hs_site_url row) else hs_site_name row))
       in if truthy (mh_proxmox_guest h) \<and> domain \<noteq> [] \<and> CHR ''.'' \<in> set domain
          then [\<lparr>as_domain = domain, as_guest = opt_str (mh_proxmox_guest h)\<rparr>] else []) (mh_hosted_sites h))"

definition load_agent_sites :: "'a host_db_scheme \<Rightarrow> agent_site list" where
  "load_agent_sites st = concat (map host_agent_sites (monitored_hosts st))"

subsection \<open>One full sync\<close>

definition failed_npms :: "npm_result list \<Rightarrow> string list" where
  "failed_npms npms = map nr_name (filter (\<lambda>n. \<not> nr_ok n) npms)"

definition cf_failed :: "cf_result \<Rightarrow> bool" where
  "cf_failed cf \<longleftrightarrow> cr_enabled cf \<and> \<not> cr_ok cf"

definition owner_failed :: "npm_result list \<Rightarrow> instance_site \<Rightarrow> bool" where
  "owner_failed npms row \<longleftrightarrow> truthy (si_npm_instance row) \<and> opt_str (si_npm_instance row) \<in> set (failed_npms npms)"

definition row_with :: "datetime \<Rightarrow> site_fields \<Rightarrow> instance_site" where
  "row_with now f = site_fields.extend f (instance_site.fields now)"

definition upsert_site ::
    "datetime \<Rightarrow> npm_result list \<Rightarrow> cf_result \<Rightarrow> instance_site list \<Rightarrow> site_fields \<Rightarrow> instance_site list \<Rightarrow> instance_site list" where
  "upsert_site now npms cf existing f table =
     (case find_row si_domain (si_domain f) existing of
        Some old \<Rightarrow>
          if cf_failed cf \<or> owner_failed npms old
          then map (\<lambda>r. if si_domain r = si_domain f then r\<lparr>si_last_seen := now\<rparr> else r) table
          else put_row si_domain (row_with now f) table
      | None \<Rightarrow> table @ [row_with now f])"

definition stale_sites :: "npm_result list \<Rightarrow> cf_result \<Rightarrow> site_fields list \<Rightarrow> instance_site list \<Rightarrow> string list" where
  "stale_sites npms cf rows existing =
     (if cf_failed cf then []
      else map si_domain (filter (\<lambda>r. find_row si_domain (si_domain r) rows = None \<and> \<not> owner_failed npms r) existing))"

definition sync_table ::
    "datetime \<Rightarrow> npm_result list \<Rightarrow> cf_result \<Rightarrow> site_fields list \<Rightarrow> instance_site list \<Rightarrow> instance_site list" where
  "sync_table now npms cf rows existing =
     delete_rows si_domain (stale_sites npms cf rows existing) (fold (upsert_site now npms cf existing) rows existing)"

definition note_npm :: "datetime \<Rightarrow> npm_result \<Rightarrow> npm_instance list \<Rightarrow> npm_instance list" where
  "note_npm now n docs =
     map (\<lambda>d. if ni_name d = nr_name n
              then d\<lparr>ni_last_synced := Some now,
                     ni_last_error := (if nr_error n \<noteq> [] then Some (take 1000 (nr_error n)) else None),
                     ni_proxy_host_count := (if nr_ok n then int (length (nr_hosts n)) else ni_proxy_host_count d)\<rparr>
              else d) docs"

definition note_cloudflare :: "datetime \<Rightarrow> cf_result \<Rightarrow> nat \<Rightarrow> cloudflare_settings \<Rightarrow> cloudflare_settings" where
  "note_cloudflare now cf sites s =
     (let s1 = s\<lparr>cs_last_synced := Some now, cs_site_count := int sites,
                 cs_last_error := (if cr_error cf \<noteq> [] then Some (take 1000 (cr_error cf)) else None)\<rparr>
      in if cr_ok cf
         then s1\<lparr>cs_zone_count := cr_zone_count cf, cs_record_count := int (sum_list (map (\<lambda>e. length (snd e)) (cr_records cf)))\<rparr>
         else s1)"

record sync_summary =
  sum_sites :: int
  sum_deleted :: int
  sum_npm_ok :: "string list"
  sum_npm_failed :: "(string \<times> string) list"
  sum_cloudflare :: string

definition summary_of :: "npm_result list \<Rightarrow> cf_result \<Rightarrow> site_fields list \<Rightarrow> instance_site list \<Rightarrow> sync_summary" where
  "summary_of npms cf rows existing =
     \<lparr>sum_sites = int (length rows), sum_deleted = int (length (stale_sites npms cf rows existing)),
      sum_npm_ok = map nr_name (filter nr_ok npms),
      sum_npm_failed = map (\<lambda>n. (nr_name n, nr_error n)) (filter (\<lambda>n. \<not> nr_ok n) npms),
      sum_cloudflare = (if cr_ok cf then ''ok'' else if \<not> cr_enabled cf then ''disabled'' else cr_error cf)\<rparr>"

text \<open>\<open>None\<close> when \<open>resolve\<close> raises: the job ends before it has written anything.\<close>

definition run_sync :: "site_env \<Rightarrow> 'a site_db_scheme \<Rightarrow> ('a site_db_scheme \<times> sync_summary) option" where
  "run_sync se st =
     (let now = site_clock se; npms = fetch_npms se st; cf = fetch_cloudflare se st;
          (gs, logged) = load_guests se st; existing = instance_sites st
      in map_option (\<lambda>rows.
           ((fold log_error logged st)
              \<lparr>instance_sites := sync_table now npms cf rows existing,
               npm_instances := fold (note_npm now) npms (npm_instances st),
               cloudflare_settings := note_cloudflare now cf (length rows) (cloudflare_settings st)\<rparr>,
            summary_of npms cf rows existing))
         (resolve npms cf gs (load_agent_sites st)))"

subsection \<open>Outages and full views\<close>

lemma si_domain_row_with [simp]: "si_domain (row_with now f) = si_domain f"
  by (simp add: row_with_def site_fields.defs instance_site.defs)

lemma row_with_fields [simp]:
  "si_last_seen (row_with now f) = now" "site_fields.truncate (row_with now f) = f"
  by (simp_all add: row_with_def site_fields.defs instance_site.defs)

lemma owner_failed_seen [simp]: "owner_failed npms (r\<lparr>si_last_seen := t\<rparr>) = owner_failed npms r"
  by (simp add: owner_failed_def)

lemma find_row_seen:
  "find_row si_domain d (map (\<lambda>r. if si_domain r = n then r\<lparr>si_last_seen := now\<rparr> else r) table) =
     map_option (\<lambda>r. if si_domain r = n then r\<lparr>si_last_seen := now\<rparr> else r) (find_row si_domain d table)"
  unfolding find_row_def by (induction table) auto

text \<open>The row an update leaves for a domain.\<close>

lemma find_upsert:
  assumes "\<And>d. find_row si_domain d existing \<noteq> None \<Longrightarrow> find_row si_domain d table \<noteq> None"
    and "find_row si_domain (si_domain f) existing = None \<Longrightarrow> find_row si_domain (si_domain f) table = None"
  shows "find_row si_domain d (upsert_site now npms cf existing f table) =
    (if d \<noteq> si_domain f then find_row si_domain d table
     else case find_row si_domain d existing of
            None \<Rightarrow> Some (row_with now f)
          | Some old \<Rightarrow> if cf_failed cf \<or> owner_failed npms old
                        then map_option (\<lambda>r. r\<lparr>si_last_seen := now\<rparr>) (find_row si_domain d table)
                        else Some (row_with now f))"
proof (cases "find_row si_domain (si_domain f) existing")
  case None
  with assms(2) show ?thesis
    by (auto simp: upsert_site_def find_row_def find_append split: option.split)
next
  case (Some old)
  then show ?thesis
    by (auto simp: upsert_site_def find_row_seen find_row_put map_option_case split: option.split dest: find_row_Some)
qed

lemma find_fold_upsert:
  assumes "distinct (map si_domain rows)"
    and "\<And>d. d \<in> si_domain ` set rows \<Longrightarrow> find_row si_domain d table = find_row si_domain d existing"
    and "\<And>d. find_row si_domain d existing \<noteq> None \<Longrightarrow> find_row si_domain d table \<noteq> None"
  shows "find_row si_domain d (fold (upsert_site now npms cf existing) rows table) =
    (case find_row si_domain d rows of
       None \<Rightarrow> find_row si_domain d table
     | Some f \<Rightarrow> (case find_row si_domain d existing of
            None \<Rightarrow> Some (row_with now f)
          | Some old \<Rightarrow> if cf_failed cf \<or> owner_failed npms old then Some (old\<lparr>si_last_seen := now\<rparr>)
                        else Some (row_with now f)))"
  using assms
proof (induction rows arbitrary: table)
  case Nil
  then show ?case by (simp add: find_row_def)
next
  case (Cons f rows)
  let ?t = "upsert_site now npms cf existing f table"
  have f: "find_row si_domain (si_domain f) table = find_row si_domain (si_domain f) existing"
    using Cons.prems(2) by simp
  have up: "find_row si_domain e ?t =
    (if e \<noteq> si_domain f then find_row si_domain e table
     else case find_row si_domain e existing of
            None \<Rightarrow> Some (row_with now f)
          | Some old \<Rightarrow> if cf_failed cf \<or> owner_failed npms old
                        then map_option (\<lambda>r. r\<lparr>si_last_seen := now\<rparr>) (find_row si_domain e table)
                        else Some (row_with now f))" for e
    by (rule find_upsert) (use Cons.prems(3) f in auto)
  have rest: "si_domain f \<notin> si_domain ` set rows" using Cons.prems(1) by auto
  have IH: "find_row si_domain d (fold (upsert_site now npms cf existing) rows ?t) =
    (case find_row si_domain d rows of
       None \<Rightarrow> find_row si_domain d ?t
     | Some f \<Rightarrow> (case find_row si_domain d existing of
            None \<Rightarrow> Some (row_with now f)
          | Some old \<Rightarrow> if cf_failed cf \<or> owner_failed npms old then Some (old\<lparr>si_last_seen := now\<rparr>)
                        else Some (row_with now f)))"
  proof (rule Cons.IH)
    show "distinct (map si_domain rows)" using Cons.prems(1) by simp
    show "find_row si_domain e ?t = find_row si_domain e existing" if "e \<in> si_domain ` set rows" for e
    proof -
      have "e \<noteq> si_domain f" using that rest by blast
      then show ?thesis using that Cons.prems(2) [of e] by (simp add: up)
    qed
    show "find_row si_domain e ?t \<noteq> None" if "find_row si_domain e existing \<noteq> None" for e
      using that Cons.prems(3) [of e] by (auto simp: up split: option.split)
  qed
  show ?case
  proof (cases "d = si_domain f")
    case True
    then have "find_row si_domain d rows = None" using rest by (simp add: find_row_None)
    moreover have "find_row si_domain d (f # rows) = Some f" using True by (simp add: find_row_def)
    ultimately show ?thesis using IH f True by (auto simp: up split: option.split)
  next
    case False
    then have "find_row si_domain d (f # rows) = find_row si_domain d rows" by (simp add: find_row_def)
    with False IH show ?thesis by (simp add: up split: option.split)
  qed
qed


text \<open>What one sync leaves for a domain.\<close>

lemma find_sync_table:
  assumes "distinct (map si_domain rows)" and "distinct (map si_domain existing)"
  shows "find_row si_domain d (sync_table now npms cf rows existing) =
    (case find_row si_domain d rows of
       Some f \<Rightarrow> (case find_row si_domain d existing of
            None \<Rightarrow> Some (row_with now f)
          | Some old \<Rightarrow> if cf_failed cf \<or> owner_failed npms old then Some (old\<lparr>si_last_seen := now\<rparr>)
                        else Some (row_with now f))
     | None \<Rightarrow> (case find_row si_domain d existing of
            None \<Rightarrow> None
          | Some old \<Rightarrow> if cf_failed cf \<or> owner_failed npms old then Some old else None))"
proof -
  have fold: "find_row si_domain d (fold (upsert_site now npms cf existing) rows existing) =
    (case find_row si_domain d rows of
       None \<Rightarrow> find_row si_domain d existing
     | Some f \<Rightarrow> (case find_row si_domain d existing of
            None \<Rightarrow> Some (row_with now f)
          | Some old \<Rightarrow> if cf_failed cf \<or> owner_failed npms old then Some (old\<lparr>si_last_seen := now\<rparr>)
                        else Some (row_with now f)))"
    by (rule find_fold_upsert [OF assms(1)]) auto
  have stale: "d \<in> set (stale_sites npms cf rows existing) \<longleftrightarrow>
      \<not> cf_failed cf \<and> find_row si_domain d rows = None \<and>
      (\<exists>old. find_row si_domain d existing = Some old \<and> \<not> owner_failed npms old)"
    using find_row_member [OF assms(2)] by (auto simp: stale_sites_def dest: find_row_Some)
  show ?thesis
    unfolding sync_table_def find_row_delete fold stale by (auto split: option.split)
qed

lemma map_seen_domains: "map si_domain (map (\<lambda>r. if P r then r\<lparr>si_last_seen := now\<rparr> else r) table) = map si_domain table"
  by auto

lemma distinct_upsert:
  assumes "distinct (map si_domain table)" and "find_row si_domain (si_domain f) existing = None \<Longrightarrow> find_row si_domain (si_domain f) table = None"
  shows "distinct (map si_domain (upsert_site now npms cf existing f table))"
  using assms by (auto simp: upsert_site_def map_seen_domains find_row_None simp del: map_map split: option.split intro: distinct_put_row)

lemma find_row_append: "find_row key n (xs @ ys) = (case find_row key n xs of None \<Rightarrow> find_row key n ys | Some x \<Rightarrow> Some x)"
  by (simp add: find_row_def find_append split: option.split)

lemma find_row_single: "find_row key n [x] = (if key x = n then Some x else None)"
  by (simp add: find_row_def)

lemma upsert_other_domain:
  "d \<noteq> si_domain f \<Longrightarrow> find_row si_domain d (upsert_site now npms cf existing f table) = find_row si_domain d table"
  by (auto simp: upsert_site_def find_row_seen find_row_put find_row_append map_option_case find_row_single
        split: option.split dest: find_row_Some)

lemma distinct_fold_upsert:
  assumes "distinct (map si_domain rows)" and "distinct (map si_domain table)"
    and "\<And>d. d \<in> si_domain ` set rows \<Longrightarrow> find_row si_domain d table = find_row si_domain d existing"
  shows "distinct (map si_domain (fold (upsert_site now npms cf existing) rows table))"
  using assms
proof (induction rows arbitrary: table)
  case (Cons f rows)
  have "find_row si_domain d (upsert_site now npms cf existing f table) = find_row si_domain d existing"
    if "d \<in> si_domain ` set rows" for d
  proof -
    have "si_domain f \<notin> si_domain ` set rows" using Cons.prems(1) by simp
    with that have "d \<noteq> si_domain f" by blast
    then show ?thesis using that Cons.prems(3) [of d] by (simp add: upsert_other_domain)
  qed
  moreover have "distinct (map si_domain (upsert_site now npms cf existing f table))"
    by (rule distinct_upsert [OF Cons.prems(2)]) (use Cons.prems(3) [of "si_domain f"] in auto)
  ultimately show ?case using Cons.IH Cons.prems(1) by simp
qed simp

lemma distinct_sync_table:
  assumes "distinct (map si_domain rows)" and "distinct (map si_domain existing)"
  shows "distinct (map si_domain (sync_table now npms cf rows existing))"
  unfolding sync_table_def by (intro distinct_delete_rows distinct_fold_upsert [OF assms]) simp

text \<open>How a run that does not raise is made up.\<close>

lemma run_sync_parts:
  assumes "run_sync se st = Some (st', s)"
  obtains rows where "resolve (fetch_npms se st) (fetch_cloudflare se st) (fst (load_guests se st)) (load_agent_sites st) = Some rows"
    and "instance_sites st' = sync_table (site_clock se) (fetch_npms se st) (fetch_cloudflare se st) rows (instance_sites st)"
    and "s = summary_of (fetch_npms se st) (fetch_cloudflare se st) rows (instance_sites st)"
  using assms by (auto simp: run_sync_def Let_def case_prod_unfold)

text \<open>C18: outages never wipe data. A row of the site table whose proxy manager could not be read in this
  run keeps every field, and so does every row when Cloudflare is enabled but could not be read; only
  the time it was last seen may move to now. The table keeps one row per domain.\<close>

theorem outages_never_wipe:
  assumes "run_sync se st = Some (st', s)" and "distinct (map si_domain (instance_sites st))"
    and "find_row si_domain d (instance_sites st) = Some r"
    and "cf_failed (fetch_cloudflare se st) \<or> owner_failed (fetch_npms se st) r"
  shows "(find_row si_domain d (instance_sites st') = Some r \<or>
          find_row si_domain d (instance_sites st') = Some (r\<lparr>si_last_seen := site_clock se\<rparr>)) \<and>
         distinct (map si_domain (instance_sites st'))"
proof -
  obtain rows where rows: "resolve (fetch_npms se st) (fetch_cloudflare se st) (fst (load_guests se st)) (load_agent_sites st) = Some rows"
    and table: "instance_sites st' = sync_table (site_clock se) (fetch_npms se st) (fetch_cloudflare se st) rows (instance_sites st)"
    using run_sync_parts [OF assms(1)] by metis
  note uniq = distinct_resolve [OF rows] assms(2)
  show ?thesis
    unfolding table find_sync_table [OF uniq] using assms(3,4) distinct_sync_table [OF uniq]
    by (auto split: option.split)
qed

text \<open>C19: a run in which every enabled proxy manager answered and Cloudflare (when enabled) was read makes
  the site table exactly what \<open>resolve\<close> found: one row for each resolved domain with the resolved
  fields, seen now, whatever the table held before, and no other row; the summary counts them.\<close>

theorem full_view_rebuilds_table:
  assumes "run_sync se st = Some (st', s)" and "distinct (map si_domain (instance_sites st))"
    and "\<not> cf_failed (fetch_cloudflare se st)" and "filter (\<lambda>n. \<not> nr_ok n) (fetch_npms se st) = []"
  shows "\<exists>rows. resolve (fetch_npms se st) (fetch_cloudflare se st) (fst (load_guests se st)) (load_agent_sites st) = Some rows \<and>
    (\<forall>d. find_row si_domain d (instance_sites st') = map_option (row_with (site_clock se)) (find_row si_domain d rows)) \<and>
    sum_sites s = int (length (instance_sites st'))"
proof -
  obtain rows where rows: "resolve (fetch_npms se st) (fetch_cloudflare se st) (fst (load_guests se st)) (load_agent_sites st) = Some rows"
    and table: "instance_sites st' = sync_table (site_clock se) (fetch_npms se st) (fetch_cloudflare se st) rows (instance_sites st)"
    and s: "s = summary_of (fetch_npms se st) (fetch_cloudflare se st) rows (instance_sites st)"
    using run_sync_parts [OF assms(1)] by metis
  note uniq = distinct_resolve [OF rows] assms(2)
  have no_owner: "\<not> owner_failed (fetch_npms se st) r" for r using assms(4) by (simp add: owner_failed_def failed_npms_def)
  have find: "find_row si_domain d (instance_sites st') = map_option (row_with (site_clock se)) (find_row si_domain d rows)" for d
    unfolding table find_sync_table [OF uniq] using assms(3) no_owner by (auto split: option.split)
  have "set (map si_domain (instance_sites st')) = set (map si_domain rows)"
  proof (intro set_eqI)
    fix d
    have "d \<in> set (map si_domain (instance_sites st')) \<longleftrightarrow> find_row si_domain d (instance_sites st') \<noteq> None"
      and "d \<in> set (map si_domain rows) \<longleftrightarrow> find_row si_domain d rows \<noteq> None"
      by (auto simp: find_row_None)
    then show "d \<in> set (map si_domain (instance_sites st')) \<longleftrightarrow> d \<in> set (map si_domain rows)" by (simp add: find)
  qed
  moreover have "distinct (map si_domain (instance_sites st'))" unfolding table by (rule distinct_sync_table [OF uniq])
  ultimately have "length (instance_sites st') = length rows"
    using uniq(1) by (metis distinct_card length_map)
  then show ?thesis using rows find by (auto simp: s summary_of_def)
qed

text \<open>C34: a domain whose row has no owner is not protected by an outage. The row of a domain recorded as Ambiguous carries
  no manager. When Cloudflare is read, or off, such a row is deleted as soon as no manager that answered lists the domain, no agent reports
  it and no record points straight at a guest, whichever managers failed: also when exactly the ones that list it could not be
  read, so that no successful view of its sources says it is gone.\<close>

theorem ambiguous_row_lost_in_outage:
  assumes "run_sync se st = Some (st', s)" and "distinct (map si_domain (instance_sites st))"
    and "\<not> cf_failed (fetch_cloudflare se st)" and "\<And>m. \<not> lists_domain (fetch_npms se st) d m"
    and "find_row si_domain d (instance_sites st) = Some r" and "si_npm_instance r = None"
    and "d \<notin> as_domain ` set (load_agent_sites st)"
    and "list_all (\<lambda>by_ip. \<not> direct_domain by_ip (fetch_cloudflare se st) d)
           (case guest_by_ip (fst (load_guests se st)) of None \<Rightarrow> [] | Some b \<Rightarrow> [b])"
  shows "find_row si_domain d (instance_sites st') = None"
proof -
  obtain rows where rows: "resolve (fetch_npms se st) (fetch_cloudflare se st) (fst (load_guests se st)) (load_agent_sites st) = Some rows"
    and table: "instance_sites st' = sync_table (site_clock se) (fetch_npms se st) (fetch_cloudflare se st) rows (instance_sites st)"
    using run_sync_parts [OF assms(1)] by metis
  have "\<not> direct_domain b (fetch_cloudflare se st) d" if "guest_by_ip (fst (load_guests se st)) = Some b" for b
    using assms(8) that by simp
  then have "find_row si_domain d rows = None" using resolve_domains_exact [OF rows] assms(4,7) by blast
  then show ?thesis
    unfolding table find_sync_table [OF distinct_resolve [OF rows] assms(2)]
    using assms(3,5,6) by (simp add: owner_failed_def truthy_def)
qed

subsection \<open>A small world\<close>

text \<open>Two proxy managers, behind the addresses \<open>http://a\<close> and \<open>http://b\<close>: the site \<open>erp.x.org\<close> is listed by both and
  Cloudflare sends it to a; \<open>old.x.org\<close> is listed by both and goes to neither; \<open>b.x.org\<close> is only on b. \<open>up\<close>
  says which managers answer and \<open>cf\<close> whether Cloudflare does.\<close>

definition demo_raw_host :: "string list \<Rightarrow> raw_proxy_host" where
  "demo_raw_host ds = \<lparr>rp_enabled = Some True, rp_domain_names = map Some ds, rp_forward_host = Some ''10.0.0.5'',
     rp_forward_port = Some 80, rp_forward_scheme = None\<rparr>"

definition demo_npm_http :: "bool \<Rightarrow> string list \<Rightarrow> npm_http" where
  "demo_npm_http up ds = \<lparr>npm_post_tokens = (\<lambda>u p. if up then Reply 200 [] (Some (Some ''tok'')) else Unreachable ''timeout''),
     npm_get_proxy_hosts = (\<lambda>t. if up then Reply 200 [] (Some (Some [demo_raw_host ds])) else Unreachable ''timeout'')\<rparr>"

definition demo_a_record :: "string \<Rightarrow> string \<Rightarrow> raw_record" where
  "demo_a_record n ip = \<lparr>rr_name = Some n, rr_type = Some ''A'', rr_content = Some ip, rr_proxied = True\<rparr>"

definition demo_page :: "'a list \<Rightarrow> 'a cf_page http_reply" where
  "demo_page xs = Reply 200 [] (Some \<lparr>pg_success = True, pg_errors = [], pg_result = xs, pg_total_pages = Some 1\<rparr>)"

definition demo_cf_http :: "bool \<Rightarrow> cf_http" where
  "demo_cf_http up = \<lparr>cf_zones_page = (\<lambda>p. if up then demo_page [\<lparr>z_id = ''z1'', z_name = Some ''x.org''\<rparr>] else Unreachable ''timeout''),
     cf_records_page = (\<lambda>z p. demo_page [demo_a_record ''erp.x.org'' ''5.5.5.1'', demo_a_record ''old.x.org'' ''9.9.9.9'',
        \<lparr>rr_name = Some ''*.x.org'', rr_type = Some ''CNAME'', rr_content = Some ''erp.x.org.'', rr_proxied = False\<rparr>])\<rparr>"

definition demo_site_env :: "(string \<Rightarrow> bool) \<Rightarrow> bool \<Rightarrow> site_env" where
  "demo_site_env up cf = \<lparr>se_job_env = demo_job_env,
     se_npm = (\<lambda>u. if u = ''http://a'' then demo_npm_http (up ''a'') [''erp.x.org'', ''old.x.org'']
                   else demo_npm_http (up ''b'') [''ERP.x.org'', ''old.x.org'', ''b.x.org'']),
     se_cloudflare = (\<lambda>t. demo_cf_http cf), se_pve = (\<lambda>s. demo_pve), 
     se_guest_config = (\<lambda>s n l v. Inr [(if l then ''net0'' else ''ipconfig0'', Some ''name=eth0,ip=10.0.0.5/24,gw=10.0.0.1'')])\<rparr>"

definition demo_npm :: "string \<Rightarrow> string \<Rightarrow> npm_instance" where
  "demo_npm n ip = \<lparr>ni_name = n, ni_proxmox_server = Some ''alpha'', ni_enabled = True, ni_public_ips = Some ip,
     ni_url = Some (''http://'' @ n), ni_protocol = None, ni_port = None, ni_verify_ssl = True, ni_email = ''u'', ni_password = ''p'',
     ni_last_synced = None, ni_last_error = None, ni_proxy_host_count = 0\<rparr>"

definition demo_site_db :: site_db where
  "demo_site_db = host_db.extend demo_host_db
     \<lparr>instance_sites = [], npm_instances = [demo_npm ''a'' ''5.5.5.1'', demo_npm ''b'' ''5.5.5.2''],
      cloudflare_settings = \<lparr>cs_enabled = True, cs_api_token = ''t'', cs_zones = None, cs_sync_hour = Some 2, cs_last_synced = None,
        cs_last_error = None, cs_zone_count = 0, cs_record_count = 0, cs_site_count = 0\<rparr>\<rparr>"

definition demo_site :: "string \<Rightarrow> string \<Rightarrow> string option \<Rightarrow> instance_site" where
  "demo_site d status npm = row_with 7 \<lparr>si_domain = d, si_source = ''NPM'', si_status = status, si_note = [], si_cloudflare_target = [],
     si_cloudflare_proxied = True, si_proxmox_guest = None, si_npm_instance = npm, si_proxmox_server = None, si_forward_target = [],
     si_also_seen_in = []\<rparr>"

text \<open>The state after an earlier run.\<close>

definition demo_synced :: site_db where
  "demo_synced = demo_site_db\<lparr>instance_sites :=
     [demo_site ''erp.x.org'' ''Active'' (Some ''a''), demo_site ''old.x.org'' ''Ambiguous'' None]\<rparr>"

lemma run_sync_total:
  assumes "guest_by_ip (fst (load_guests se st)) \<noteq> None"
  shows "run_sync se st \<noteq> None"
  using assms by (auto simp: run_sync_def Let_def case_prod_unfold resolve_def)

lemma demo_guest_ips: "guest_by_ip (fst (load_guests (demo_site_env up cf) demo_site_db)) = Some []"
  by code_simp

lemma demo_synced_guests: "load_guests se demo_synced = load_guests se demo_site_db"
  by (simp add: load_guests_def demo_synced_def)

lemma demo_runs: "run_sync (demo_site_env up cf) demo_site_db \<noteq> None" "run_sync (demo_site_env up cf) demo_synced \<noteq> None"
  by (rule run_sync_total; simp add: demo_synced_guests demo_guest_ips)+

lemma demo_synced_sites: "distinct (map si_domain (instance_sites demo_synced))"
  by code_simp

theorem outages_never_wipe_witness:
  "\<exists>r st' s. run_sync (demo_site_env (\<lambda>n. n = ''b'') True) demo_synced = Some (st', s) \<and>
     find_row si_domain ''erp.x.org'' (instance_sites demo_synced) = Some r \<and> si_status r = ''Active'' \<and>
     (find_row si_domain ''erp.x.org'' (instance_sites st') = Some r \<or>
      find_row si_domain ''erp.x.org'' (instance_sites st') =
        Some (r\<lparr>si_last_seen := site_clock (demo_site_env (\<lambda>n. n = ''b'') True)\<rparr>))"
proof -
  let ?se = "demo_site_env (\<lambda>n. n = ''b'') True"
  obtain st' s where run: "run_sync ?se demo_synced = Some (st', s)" using demo_runs(2) [of "\<lambda>n. n = ''b''" True] by (cases "run_sync ?se demo_synced") auto
  have "case find_row si_domain ''erp.x.org'' (instance_sites demo_synced) of None \<Rightarrow> False
     | Some r \<Rightarrow> owner_failed (fetch_npms ?se demo_synced) r \<and> si_status r = ''Active''" by code_simp
  then obtain r where r: "find_row si_domain ''erp.x.org'' (instance_sites demo_synced) = Some r"
    and "owner_failed (fetch_npms ?se demo_synced) r" "si_status r = ''Active''" by (auto split: option.splits)
  with outages_never_wipe [OF run demo_synced_sites(1) r] run show ?thesis by blast
qed

theorem full_view_rebuilds_table_witness:
  "\<exists>st' s rows. run_sync (demo_site_env (\<lambda>n. True) True) demo_site_db = Some (st', s) \<and> sum_sites s = int (length (instance_sites st')) \<and>
     find_row si_domain ''erp.x.org'' (instance_sites st') =
       map_option (row_with (site_clock (demo_site_env (\<lambda>n. True) True))) (find_row si_domain ''erp.x.org'' rows)"
proof -
  let ?se = "demo_site_env (\<lambda>n. True) True"
  obtain st' s where run: "run_sync ?se demo_site_db = Some (st', s)" using demo_runs(1) [of "\<lambda>n. True" True] by (cases "run_sync ?se demo_site_db") auto
  have d: "distinct (map si_domain (instance_sites demo_site_db))" and c: "\<not> cf_failed (fetch_cloudflare ?se demo_site_db)"
    and n: "filter (\<lambda>n. \<not> nr_ok n) (fetch_npms ?se demo_site_db) = []" by code_simp+
  from full_view_rebuilds_table [OF run d c n] run show ?thesis by blast
qed

theorem ambiguous_row_lost_in_outage_witness:
  "\<exists>r st' s. run_sync (demo_site_env (\<lambda>n. False) True) demo_synced = Some (st', s) \<and>
     find_row si_domain ''old.x.org'' (instance_sites demo_synced) = Some r \<and> si_status r = ''Ambiguous'' \<and>
     find_row si_domain ''old.x.org'' (instance_sites st') = None"
proof -
  let ?se = "demo_site_env (\<lambda>n. False) True"
  obtain st' s where run: "run_sync ?se demo_synced = Some (st', s)" using demo_runs(2) [of "\<lambda>n. False" True] by (cases "run_sync ?se demo_synced") auto
  have "case find_row si_domain ''old.x.org'' (instance_sites demo_synced) of None \<Rightarrow> False
     | Some r \<Rightarrow> si_npm_instance r = None \<and> si_status r = ''Ambiguous''" by code_simp
  then obtain r where r: "find_row si_domain ''old.x.org'' (instance_sites demo_synced) = Some r" "si_npm_instance r = None"
    and "si_status r = ''Ambiguous''" by (auto split: option.splits)
  have c: "\<not> cf_failed (fetch_cloudflare ?se demo_synced)" and n: "filter nr_ok (fetch_npms ?se demo_synced) = []"
    and a: "load_agent_sites demo_synced = []"
    and g: "list_all (\<lambda>by_ip. \<not> list_ex (\<lambda>(n, recs). n = ''old.x.org'' \<and> direct_row by_ip n recs \<noteq> None) (cr_records (fetch_cloudflare ?se demo_synced)))
           (case guest_by_ip (fst (load_guests ?se demo_synced)) of None \<Rightarrow> [] | Some b \<Rightarrow> [b])" by code_simp+
  have "list_all (\<lambda>by_ip. \<not> direct_domain by_ip (fetch_cloudflare ?se demo_synced) ''old.x.org'')
           (case guest_by_ip (fst (load_guests ?se demo_synced)) of None \<Rightarrow> [] | Some b \<Rightarrow> [b])"
    using g by (auto simp: direct_domain_def list_all_iff list_ex_iff)
  moreover have "\<not> lists_domain (fetch_npms ?se demo_synced) d m" for d m
    using n by (auto simp: lists_domain_def list_ex_iff filter_empty_conv)
  ultimately show ?thesis
    using ambiguous_row_lost_in_outage [OF run demo_synced_sites(1) c _ r] a run r(1) \<open>si_status r = ''Ambiguous''\<close>
    by simp
qed

end
