(* ===== verification/Llm_Usage.thy ===== *)
theory Llm_Usage
  imports Loop_Jobs "HOL-Library.Sublist"
begin

text \<open>
  \<open>tasks/bifrost_sync.py\<close>: the incremental copy of Bifrost's request log into \<open>LLM Usage Log\<close>. The
  schedule with its deduplicated job, the pull of one window page by page, the idempotent upsert of a
  row, the second pull for rows still \<open>processing\<close>, and the checkpoint. Bifrost's answers, the
  conversion between the site's time zone and UTC, ISO parsing and the outcome of an insert are
  parameters (\<open>bifrost_env\<close>).
\<close>

definition DEFAULT_SYNC_INTERVAL_MINUTES :: int where "DEFAULT_SYNC_INTERVAL_MINUTES = 15"
definition DEFAULT_BACKFILL_DAYS :: int where "DEFAULT_BACKFILL_DAYS = 30"
definition CHECKPOINT_OVERLAP_MINUTES :: int where "CHECKPOINT_OVERLAP_MINUTES = 5"
definition PAGE_LIMIT :: nat where "PAGE_LIMIT = 500"
definition MAX_LOG_PAGES :: nat where "MAX_LOG_PAGES = 500"
definition PROCESSING_MIN_AGE :: timedelta where "PROCESSING_MIN_AGE = 2 * MINUTE"
definition PROCESSING_MAX_AGE :: timedelta where "PROCESSING_MAX_AGE = 48 * HOUR"
definition BIFROST_SYNC_JOB_ID :: string where "BIFROST_SYNC_JOB_ID = ''alfaedge_pulse_bifrost_sync''"
definition RUN_SYNC_NOW :: string where "RUN_SYNC_NOW = ''alfaedge_pulse.tasks.bifrost_sync.run_sync_now''"

subsection \<open>Bifrost's rows\<close>

record prompt_details =
  pd_cached_read_tokens :: "int option"
  pd_cached_write_tokens :: "int option"
  pd_audio_tokens :: "int option"
  pd_image_tokens :: "int option"

record token_cost =
  tc_input_tokens_cost :: "rat option"
  tc_output_tokens_cost :: "rat option"
  tc_reasoning_tokens_cost :: "rat option"

record token_usage =
  tu_prompt_tokens :: "int option"
  tu_completion_tokens :: "int option"
  tu_total_tokens :: "int option"
  tu_prompt_details :: "prompt_details option"
  tu_reasoning_tokens :: "int option option"
  tu_cost :: "token_cost option"

text \<open>One row of \<open>/api/logs\<close>; \<open>br_json\<close> is its compact JSON text.\<close>

record bifrost_row =
  br_id :: "string option"
  br_timestamp :: "string option"
  br_created_at :: "string option"
  br_provider :: "string option"
  br_model :: "string option"
  br_virtual_key_name :: "string option"
  br_status :: "string option"
  br_object :: "string option"
  br_stream :: bool
  br_number_of_retries :: "int option"
  br_latency :: "rat option"
  br_token_usage :: "token_usage option"
  br_cost :: "rat option"
  br_json :: string

record usage_fields =
  lu_provider :: "string option"
  lu_model :: "string option"
  lu_virtual_key_name :: "string option"
  lu_status :: "string option"
  lu_object_type :: "string option"
  lu_is_stream :: bool
  lu_number_of_retries :: int
  lu_request_timestamp :: datetime
  lu_created_at :: "datetime option"
  lu_latency_ms :: rat
  lu_prompt_tokens :: int
  lu_completion_tokens :: int
  lu_total_tokens :: int
  lu_cached_read_tokens :: int
  lu_cached_write_tokens :: int
  lu_reasoning_tokens :: int
  lu_audio_tokens :: int
  lu_image_tokens :: int
  lu_total_cost :: rat
  lu_input_tokens_cost :: rat
  lu_output_tokens_cost :: rat
  lu_reasoning_tokens_cost :: rat
  lu_raw_log :: "string option"

record usage_log =
  ul_name :: string
  ul_source :: string
  ul_external_id :: string
  ul_fields :: usage_fields

record bifrost_settings =
  bs_enabled :: bool
  bs_base_url :: "string option"
  bs_username :: "string option"
  bs_password :: "string option"
  bs_sync_interval_minutes :: "int option"
  bs_initial_backfill_days :: "int option"
  bs_last_synced :: "datetime option"
  bs_last_synced_through :: "datetime option"
  bs_last_sync_row_count :: int
  bs_last_error :: string

record usage_db = job_db +
  usage_logs :: "usage_log list"
  bifrost_settings :: bifrost_settings

record log_page =
  lp_logs :: "bifrost_row list"
  lp_total_count :: "int option"

datatype insert_result = Inserted | Lost_race | Insert_failed

record bifrost_env =
  be_job_env :: job_env
  be_finished :: datetime
  be_get_logs :: "string \<Rightarrow> string \<Rightarrow> nat \<Rightarrow> string + log_page"
  be_fromisoformat :: "string \<Rightarrow> (datetime \<times> timedelta option) option"
  be_utc_to_system :: "datetime \<Rightarrow> datetime"
  be_zone_offset :: "datetime \<Rightarrow> timedelta"
  be_insert :: "string \<Rightarrow> insert_result"

definition be_clock :: "bifrost_env \<Rightarrow> datetime" where
  "be_clock be = clock (job_poll_env (be_job_env be))"

subsection \<open>Time stamps\<close>

text \<open>A time stamp without an offset is taken as UTC; the result is in the site's zone, without one.\<close>

definition parse_bifrost_timestamp :: "bifrost_env \<Rightarrow> string \<Rightarrow> datetime option" where
  "parse_bifrost_timestamp be v =
     map_option (\<lambda>(t, offset). be_utc_to_system be (t - (case offset of None \<Rightarrow> 0 | Some d \<Rightarrow> d))) (be_fromisoformat be v)"

definition to_utc_rfc3339 :: "bifrost_env \<Rightarrow> datetime \<Rightarrow> string" where
  "to_utc_rfc3339 be t = py_replace_char (CHR '' '') (CHR ''T'') (show_datetime (t - be_zone_offset be t)) @ ''Z''"

subsection \<open>One row\<close>

definition usage_of :: "bifrost_row \<Rightarrow> (token_usage \<Rightarrow> 'a option) \<Rightarrow> 'a option" where
  "usage_of row f = (case br_token_usage row of None \<Rightarrow> None | Some u \<Rightarrow> f u)"

definition map_bifrost_row :: "bifrost_env \<Rightarrow> bifrost_row \<Rightarrow> usage_fields option" where
  "map_bifrost_row be row =
     (let prompt = (\<lambda>f. opt_int (usage_of row (\<lambda>u. case tu_prompt_details u of None \<Rightarrow> None | Some d \<Rightarrow> f d)));
          cost = (\<lambda>f. opt_rat (usage_of row (\<lambda>u. case tu_cost u of None \<Rightarrow> None | Some c \<Rightarrow> f c)));
          created = (if truthy (br_created_at row) then map_option Some (parse_bifrost_timestamp be (opt_str (br_created_at row)))
                     else Some None)
      in case br_timestamp row of
           None \<Rightarrow> None
         | Some ts \<Rightarrow>
             (case (parse_bifrost_timestamp be ts, created) of
                (Some t, Some c) \<Rightarrow>
                  Some \<lparr>lu_provider = br_provider row, lu_model = br_model row,
                     lu_virtual_key_name = br_virtual_key_name row, lu_status = br_status row,
                     lu_object_type = br_object row, lu_is_stream = br_stream row,
                     lu_number_of_retries = opt_int (br_number_of_retries row), lu_request_timestamp = t,
                     lu_created_at = c, lu_latency_ms = opt_rat (br_latency row),
                     lu_prompt_tokens = opt_int (usage_of row tu_prompt_tokens),
                     lu_completion_tokens = opt_int (usage_of row tu_completion_tokens),
                     lu_total_tokens = opt_int (usage_of row tu_total_tokens),
                     lu_cached_read_tokens = prompt pd_cached_read_tokens,
                     lu_cached_write_tokens = prompt pd_cached_write_tokens,
                     lu_reasoning_tokens = opt_int (usage_of row (\<lambda>u. case tu_reasoning_tokens u of None \<Rightarrow> None | Some n \<Rightarrow> n)),
                     lu_audio_tokens = prompt pd_audio_tokens, lu_image_tokens = prompt pd_image_tokens,
                     lu_total_cost = opt_rat (br_cost row),
                     lu_input_tokens_cost = cost tc_input_tokens_cost,
                     lu_output_tokens_cost = cost tc_output_tokens_cost,
                     lu_reasoning_tokens_cost = cost tc_reasoning_tokens_cost,
                     lu_raw_log = (if br_status row \<noteq> Some ''success'' then Some (br_json row) else None)\<rparr>
              | _ \<Rightarrow> None))"

definition docname_of :: "bifrost_row \<Rightarrow> string" where
  "docname_of row = ''Bifrost-'' @ opt_str (br_id row)"

text \<open>\<open>None\<close>: the row has no id, a time stamp that does not parse, or the insert raises. A lost race leaves
  the row the other process made, with this row's fields.\<close>

definition upsert_log :: "bifrost_env \<Rightarrow> bifrost_row \<Rightarrow> usage_log list \<Rightarrow> usage_log list option" where
  "upsert_log be row logs =
     (if br_id row = None then None
      else case map_bifrost_row be row of
             None \<Rightarrow> None
           | Some flds \<Rightarrow>
               let doc = \<lparr>ul_name = docname_of row, ul_source = ''Bifrost'', ul_external_id = opt_str (br_id row), ul_fields = flds\<rparr>
               in case find_row ul_name (docname_of row) logs of
                    Some old \<Rightarrow> Some (put_row ul_name (old\<lparr>ul_fields := flds\<rparr>) logs)
                  | None \<Rightarrow> if be_insert be (docname_of row) = Insert_failed then None else Some (put_row ul_name doc logs))"

subsection \<open>One window\<close>

record 'd pull =
  pl_db :: 'd
  pl_synced :: int
  pl_last_seen :: "datetime option"

definition pull_row :: "bifrost_env \<Rightarrow> bifrost_row \<Rightarrow> 'a usage_db_scheme pull \<Rightarrow> 'a usage_db_scheme pull" where
  "pull_row be row p =
     (case upsert_log be row (usage_logs (pl_db p)) of
        Some logs \<Rightarrow> p\<lparr>pl_db := (pl_db p)\<lparr>usage_logs := logs\<rparr>, pl_synced := pl_synced p + 1,
                       pl_last_seen := parse_bifrost_timestamp be (opt_str (br_timestamp row))\<rparr>
      | None \<Rightarrow> p\<lparr>pl_db := log_error (''Bifrost Monitor: failed to upsert log '' @
                               (case br_id row of None \<Rightarrow> ''None'' | Some i \<Rightarrow> i)) (pl_db p)\<rparr>)"

text \<open>The page loop; the first argument counts the pages still allowed. A failed request keeps what the
  earlier pages committed.\<close>

fun pull_loop ::
    "nat \<Rightarrow> bifrost_env \<Rightarrow> string \<Rightarrow> string \<Rightarrow> nat \<Rightarrow> 'a usage_db_scheme pull \<Rightarrow> 'a usage_db_scheme pull \<times> (string + bool)" where
  "pull_loop 0 be start stop offset p = (p, Inr False)"
| "pull_loop (Suc k) be start stop offset p =
     (case be_get_logs be start stop offset of
        Inl e \<Rightarrow> (p, Inl e)
      | Inr page \<Rightarrow>
          if lp_logs page = [] then (p, Inr True)
          else
            let p' = fold (pull_row be) (lp_logs page) p;
                offset' = offset + length (lp_logs page)
            in if int offset' \<ge> opt_int (lp_total_count page) then (p', Inr True)
               else pull_loop k be start stop offset' p')"

definition pull_and_upsert ::
    "bifrost_env \<Rightarrow> datetime \<Rightarrow> datetime \<Rightarrow> 'a usage_db_scheme \<Rightarrow> 'a usage_db_scheme pull \<times> (string + bool)" where
  "pull_and_upsert be start stop st =
     pull_loop MAX_LOG_PAGES be (to_utc_rfc3339 be start) (to_utc_rfc3339 be stop) 0
       \<lparr>pl_db = st, pl_synced = 0, pl_last_seen = None\<rparr>"

subsection \<open>One sync\<close>

definition open_processing :: "datetime \<Rightarrow> usage_log list \<Rightarrow> datetime list" where
  "open_processing sync_start logs =
     map (\<lambda>r. lu_request_timestamp (ul_fields r))
       (filter (\<lambda>r. ul_source r = ''Bifrost'' \<and> lu_status (ul_fields r) = Some ''processing'' \<and>
          lu_request_timestamp (ul_fields r) < sync_start - PROCESSING_MIN_AGE \<and>
          lu_request_timestamp (ul_fields r) > sync_start - PROCESSING_MAX_AGE) logs)"

definition oldest_open :: "datetime \<Rightarrow> usage_log list \<Rightarrow> datetime option" where
  "oldest_open sync_start logs =
     (case open_processing sync_start logs of [] \<Rightarrow> None | t # ts \<Rightarrow> Some (fold min ts t))"

definition reconcile_open_processing ::
    "bifrost_env \<Rightarrow> datetime \<Rightarrow> 'a usage_db_scheme \<Rightarrow> 'a usage_db_scheme \<times> (string + bool)" where
  "reconcile_open_processing be sync_start st =
     (case oldest_open sync_start (usage_logs st) of
        None \<Rightarrow> (st, Inr True)
      | Some t \<Rightarrow> (case pull_and_upsert be t sync_start st of (p, r) \<Rightarrow> (pl_db p, r)))"

definition sync_checkpoint :: "datetime \<Rightarrow> bifrost_settings \<Rightarrow> datetime" where
  "sync_checkpoint sync_start s =
     (case bs_last_synced_through s of
        Some t \<Rightarrow> t
      | None \<Rightarrow> sync_start - or_int (bs_initial_backfill_days s) DEFAULT_BACKFILL_DAYS * DAY)"

definition window_start :: "datetime \<Rightarrow> bifrost_settings \<Rightarrow> datetime" where
  "window_start sync_start s = sync_checkpoint sync_start s - CHECKPOINT_OVERLAP_MINUTES * MINUTE"

definition note_sync_error :: "string \<Rightarrow> 'a usage_db_scheme \<Rightarrow> 'a usage_db_scheme" where
  "note_sync_error e st = st\<lparr>bifrost_settings := (bifrost_settings st)\<lparr>bs_last_error := e\<rparr>\<rparr>"

definition bifrost_sync :: "bifrost_env \<Rightarrow> 'a usage_db_scheme \<Rightarrow> 'a usage_db_scheme \<times> (string + int)" where
  "bifrost_sync be st =
     (let s = bifrost_settings st; sync_start = be_clock be
      in if \<not> truthy (bs_password s) \<or> \<not> truthy (bs_username s) \<or> \<not> truthy (bs_base_url s)
         then (st, Inl ''Base URL / Admin Username / Admin Password are not fully configured in Bifrost Settings.'')
         else case pull_and_upsert be (window_start sync_start s) sync_start st of
                (p, Inl e) \<Rightarrow> (note_sync_error e (pl_db p), Inl e)
              | (p, Inr drained) \<Rightarrow>
                  (case reconcile_open_processing be sync_start (pl_db p) of
                     (st2, Inl e) \<Rightarrow> (note_sync_error e st2, Inl e)
                   | (st2, Inr _) \<Rightarrow>
                       (st2\<lparr>bifrost_settings := (bifrost_settings st2)
                          \<lparr>bs_last_synced := Some (be_finished be),
                           bs_last_synced_through := Some
                             (if drained then sync_start
                              else case pl_last_seen p of Some t \<Rightarrow> t | None \<Rightarrow> sync_checkpoint sync_start s),
                           bs_last_sync_row_count := pl_synced p, bs_last_error := []\<rparr>\<rparr>, Inr (pl_synced p))))"

definition run_sync_now :: "bifrost_env \<Rightarrow> 'a usage_db_scheme \<Rightarrow> 'a usage_db_scheme \<times> (string + int)" where
  "run_sync_now be st =
     (if \<not> bs_enabled (bifrost_settings st)
      then (st, Inl (''Bifrost sync is disabled '' @ utf8_dash @ '' enable it in Bifrost Settings first.''))
      else bifrost_sync be st)"

subsection \<open>Scheduling\<close>

definition enqueue_bifrost_sync :: "job_env \<Rightarrow> 'a job_db_scheme \<Rightarrow> 'a job_db_scheme" where
  "enqueue_bifrost_sync je st = st\<lparr>rq_jobs := rq_enqueue je RUN_SYNC_NOW ''long'' BIFROST_SYNC_JOB_ID (rq_jobs st)\<rparr>"

definition sync_bifrost_logs :: "bifrost_env \<Rightarrow> 'a usage_db_scheme \<Rightarrow> 'a usage_db_scheme" where
  "sync_bifrost_logs be st =
     (let s = bifrost_settings st
      in if \<not> bs_enabled s then st
         else case bs_last_synced s of
                Some t \<Rightarrow>
                  if be_clock be - t < or_int (bs_sync_interval_minutes s) DEFAULT_SYNC_INTERVAL_MINUTES * MINUTE then st
                  else enqueue_bifrost_sync (be_job_env be) st
              | None \<Rightarrow> enqueue_bifrost_sync (be_job_env be) st)"

subsection \<open>The table as a map\<close>

text \<open>What the table records under a document name.\<close>

definition recorded :: "usage_log list \<Rightarrow> string \<Rightarrow> usage_fields option" where
  "recorded logs n = map_option ul_fields (find_row ul_name n logs)"

text \<open>A row leaves no trace unless it has an id and readable time stamps, and its document exists or can be
  inserted.\<close>

definition writable :: "bifrost_env \<Rightarrow> (string \<Rightarrow> usage_fields option) \<Rightarrow> bifrost_row \<Rightarrow> bool" where
  "writable be m row \<longleftrightarrow> br_id row \<noteq> None \<and> map_bifrost_row be row \<noteq> None \<and>
     (m (docname_of row) \<noteq> None \<or> be_insert be (docname_of row) \<noteq> Insert_failed)"

definition spec_upsert :: "bifrost_env \<Rightarrow> bifrost_row \<Rightarrow> (string \<Rightarrow> usage_fields option) \<Rightarrow> (string \<Rightarrow> usage_fields option)" where
  "spec_upsert be row m = (if writable be m row then m(docname_of row := map_bifrost_row be row) else m)"

definition written_rows :: "bifrost_env \<Rightarrow> (string \<Rightarrow> usage_fields option) \<Rightarrow> bifrost_row list \<Rightarrow> (string \<times> usage_fields) list" where
  "written_rows be m rows = map (\<lambda>r. (docname_of r, the (map_bifrost_row be r))) (filter (writable be m) rows)"

lemma ul_name_fields [simp]: "ul_name (old\<lparr>ul_fields := f\<rparr>) = ul_name old"
  by simp

lemma recorded_upsert:
  "recorded (case upsert_log be row logs of None \<Rightarrow> logs | Some logs' \<Rightarrow> logs') = spec_upsert be row (recorded logs)"
proof (cases "br_id row = None \<or> map_bifrost_row be row = None")
  case True
  then show ?thesis by (auto simp: upsert_log_def spec_upsert_def writable_def split: option.splits)
next
  case False
  then obtain f where f: "map_bifrost_row be row = Some f" and i: "br_id row \<noteq> None" by auto
  show ?thesis
  proof (cases "find_row ul_name (docname_of row) logs")
    case None
    with f i show ?thesis
      by (auto simp: upsert_log_def spec_upsert_def writable_def recorded_def find_row_put Let_def fun_eq_iff)
  next
    case (Some old)
    then have "ul_name old = docname_of row" by (auto dest: find_row_Some)
    with Some f i show ?thesis
      by (auto simp: upsert_log_def spec_upsert_def writable_def recorded_def find_row_put Let_def fun_eq_iff)
  qed
qed

lemma writable_upd: "map_bifrost_row be r \<noteq> None \<Longrightarrow> writable be m r \<Longrightarrow> writable be (m(docname_of r := map_bifrost_row be r)) = writable be m"
  by (auto simp: writable_def fun_eq_iff)

lemma writable_spec_upsert: "writable be (spec_upsert be r m) = writable be m"
proof (cases "writable be m r")
  case True
  then have "map_bifrost_row be r \<noteq> None" by (simp add: writable_def)
  with True show ?thesis by (simp add: spec_upsert_def writable_upd)
qed (simp add: spec_upsert_def)

lemma fold_spec_upsert:
  "fold (spec_upsert be) rows m = m ++ map_of (rev (written_rows be m rows))"
proof (induction rows arbitrary: m)
  case (Cons r rows)
  have w: "written_rows be (spec_upsert be r m) rows = written_rows be m rows"
    by (simp add: written_rows_def writable_spec_upsert)
  show ?case
  proof (cases "writable be m r")
    case True
    then obtain f where "map_bifrost_row be r = Some f" by (auto simp: writable_def)
    with True show ?thesis
      unfolding fold_simps(2) Cons.IH w by (simp add: written_rows_def spec_upsert_def)
  next
    case False
    then show ?thesis unfolding fold_simps(2) Cons.IH w by (simp add: written_rows_def spec_upsert_def)
  qed
qed (simp add: written_rows_def)

lemma recorded_pull_row:
  "recorded (usage_logs (pl_db (pull_row be row p))) = spec_upsert be row (recorded (usage_logs (pl_db p)))"
  using recorded_upsert [where be = be and row = row and logs = "usage_logs (pl_db p)"]
  by (auto simp: pull_row_def log_error_def split: option.splits)

lemma recorded_pull_rows:
  "recorded (usage_logs (pl_db (fold (pull_row be) rows p))) = fold (spec_upsert be) rows (recorded (usage_logs (pl_db p)))"
  by (induction rows arbitrary: p) (simp_all add: recorded_pull_row)

subsection \<open>Paging\<close>

text \<open>Bifrost's documented paging: the rows of the window, in order of their time stamps, cut at \<open>offset\<close> and
  \<open>limit\<close>, with their total.\<close>

definition serves :: "bifrost_env \<Rightarrow> string \<Rightarrow> string \<Rightarrow> bifrost_row list \<Rightarrow> bool" where
  "serves be start stop rows \<longleftrightarrow> (\<forall>off. be_get_logs be start stop off =
     Inr \<lparr>lp_logs = take PAGE_LIMIT (drop off rows), lp_total_count = Some (int (length rows))\<rparr>)"

lemma pull_loop_serves:
  assumes "serves be start stop rows" and "off < length rows"
  shows "pull_loop k be start stop off p =
    (fold (pull_row be) (take (k * PAGE_LIMIT) (drop off rows)) p, Inr (length rows \<le> off + k * PAGE_LIMIT))"
  using assms(2)
proof (induction k arbitrary: off p)
  case (Suc k)
  let ?page = "take PAGE_LIMIT (drop off rows)"
  have get: "be_get_logs be start stop off = Inr \<lparr>lp_logs = ?page, lp_total_count = Some (int (length rows))\<rparr>"
    using assms(1) by (simp add: serves_def)
  have ne: "?page \<noteq> []" using Suc.prems by (simp add: PAGE_LIMIT_def)
  show ?case
  proof (cases "length rows \<le> off + PAGE_LIMIT")
    case True
    then have "?page = drop off rows" and "take (Suc k * PAGE_LIMIT) (drop off rows) = drop off rows" by auto
    with True ne Suc.prems show ?thesis by (simp add: get Let_def)
  next
    case False
    then have len: "length ?page = PAGE_LIMIT" by simp
    have split: "take (PAGE_LIMIT + k * PAGE_LIMIT) (drop off rows) = ?page @ take (k * PAGE_LIMIT) (drop (off + PAGE_LIMIT) rows)"
      by (simp add: take_add add.commute)
    then have fold_split: "fold f (take (PAGE_LIMIT + k * PAGE_LIMIT) (drop off rows)) q =
        fold f (take (k * PAGE_LIMIT) (drop (off + PAGE_LIMIT) rows)) (fold f ?page q)" for f :: "bifrost_row \<Rightarrow> 'b \<Rightarrow> 'b" and q
      by (simp del: take_append)
    from False have "off + PAGE_LIMIT < length rows" by simp
    from Suc.IH [OF this] False ne show ?thesis
      by (simp add: get Let_def len fold_split add.assoc)
  qed
qed simp

lemma pull_and_upsert_serves:
  assumes "serves be (to_utc_rfc3339 be start) (to_utc_rfc3339 be stop) rows"
  shows "pull_and_upsert be start stop st =
    (fold (pull_row be) (take (MAX_LOG_PAGES * PAGE_LIMIT) rows) \<lparr>pl_db = st, pl_synced = 0, pl_last_seen = None\<rparr>,
     Inr (length rows \<le> MAX_LOG_PAGES * PAGE_LIMIT))"
proof (cases rows)
  case Nil
  have "\<exists>k. MAX_LOG_PAGES = Suc k" by (simp add: MAX_LOG_PAGES_def)
  then obtain k where M: "MAX_LOG_PAGES = Suc k" ..
  have get: "be_get_logs be (to_utc_rfc3339 be start) (to_utc_rfc3339 be stop) 0 = Inr \<lparr>lp_logs = [], lp_total_count = Some 0\<rparr>"
    using assms by (simp add: serves_def Nil)
  then show ?thesis unfolding pull_and_upsert_def Nil M by simp
next
  case (Cons r rs)
  then show ?thesis using pull_loop_serves [OF assms, of 0 MAX_LOG_PAGES] by (simp add: pull_and_upsert_def)
qed

lemma pull_is_map_update:
  assumes "serves be (to_utc_rfc3339 be start) (to_utc_rfc3339 be stop) rows"
  shows "recorded (usage_logs (pl_db (fst (pull_and_upsert be start stop st)))) =
    recorded (usage_logs st) ++ map_of (rev (written_rows be (recorded (usage_logs st)) (take (MAX_LOG_PAGES * PAGE_LIMIT) rows)))"
  by (simp add: pull_and_upsert_serves [OF assms] recorded_pull_rows fold_spec_upsert)

lemma writable_fold: "writable be (fold (spec_upsert be) rows m) = writable be m"
  by (induction rows arbitrary: m) (simp_all add: writable_spec_upsert)

lemma map_add_twice: "(m ++ g) ++ g = m ++ g"
  by (auto simp: map_add_def fun_eq_iff split: option.split)

lemma pull_idempotent:
  assumes "serves be (to_utc_rfc3339 be start) (to_utc_rfc3339 be stop) rows"
  shows "recorded (usage_logs (pl_db (fst (pull_and_upsert be start stop (pl_db (fst (pull_and_upsert be start stop st))))))) =
    recorded (usage_logs (pl_db (fst (pull_and_upsert be start stop st))))"
proof -
  let ?m = "recorded (usage_logs st)" and ?rows = "take (MAX_LOG_PAGES * PAGE_LIMIT) rows"
  have "written_rows be (?m ++ map_of (rev (written_rows be ?m ?rows))) ?rows = written_rows be ?m ?rows"
    using writable_fold [of be ?rows ?m] by (simp add: fold_spec_upsert written_rows_def)
  then show ?thesis by (simp add: pull_is_map_update [OF assms] map_add_twice)
qed

subsection \<open>What a pull never does\<close>

lemma spec_upsert_keeps: "m n \<noteq> None \<Longrightarrow> spec_upsert be row m n \<noteq> None"
  by (auto simp: spec_upsert_def writable_def)


lemma recorded_pull_loop:
  assumes step: "\<And>row m. P m \<Longrightarrow> P (spec_upsert be row m)" and "P (recorded (usage_logs (pl_db p)))"
  shows "P (recorded (usage_logs (pl_db (fst (pull_loop k be start stop off p)))))"
  using assms(2)
proof (induction k arbitrary: off p)
  case (Suc k)
  have "P (recorded (usage_logs (pl_db (fold (pull_row be) rows p))))" for rows
    unfolding recorded_pull_rows by (rule fold_invariant [where I = P]) (use step Suc.prems in auto)
  with Suc show ?case by (auto simp: Let_def split: sum.split)
qed simp

lemma recorded_reconcile:
  assumes "\<And>row m. P m \<Longrightarrow> P (spec_upsert be row m)" and "P (recorded (usage_logs st))"
  shows "P (recorded (usage_logs (fst (reconcile_open_processing be t st))))"
  using recorded_pull_loop [of P be "\<lparr>pl_db = st, pl_synced = 0, pl_last_seen = None\<rparr>"] assms
  by (auto simp: reconcile_open_processing_def pull_and_upsert_def case_prod_unfold split: option.split)

lemma bifrost_sync_parts:
  assumes "run_sync_now be st = (st', Inr n)"
  obtains p drained st2 r where
    "pull_and_upsert be (window_start (be_clock be) (bifrost_settings st)) (be_clock be) st = (p, Inr drained)"
    and "reconcile_open_processing be (be_clock be) (pl_db p) = (st2, Inr r)" and "usage_logs st' = usage_logs st2"
    and "bs_last_synced_through (bifrost_settings st') = Some (if drained then be_clock be
           else case pl_last_seen p of Some t \<Rightarrow> t | None \<Rightarrow> sync_checkpoint (be_clock be) (bifrost_settings st))"
proof -
  obtain p r1 where pull: "pull_and_upsert be (window_start (be_clock be) (bifrost_settings st)) (be_clock be) st = (p, r1)"
    by (cases "pull_and_upsert be (window_start (be_clock be) (bifrost_settings st)) (be_clock be) st")
  obtain st2 r2 where rec: "reconcile_open_processing be (be_clock be) (pl_db p) = (st2, r2)"
    by (cases "reconcile_open_processing be (be_clock be) (pl_db p)")
  have run: "bifrost_sync be st = (st', Inr n)" using assms by (simp add: run_sync_now_def split: if_splits)
  then have conf: "truthy (bs_password (bifrost_settings st)) \<and> truthy (bs_username (bifrost_settings st)) \<and> truthy (bs_base_url (bifrost_settings st))"
    by (auto simp: bifrost_sync_def Let_def split: if_splits)
  show ?thesis
  proof (cases r1)
    case (Inl e)
    with run conf pull show ?thesis by (simp add: bifrost_sync_def Let_def)
  next
    case r1: (Inr drained)
    show ?thesis
    proof (cases r2)
      case (Inl e)
      with run conf pull rec r1 show ?thesis by (simp add: bifrost_sync_def Let_def)
    next
      case (Inr d)
      with run conf pull rec r1 have "st' = st2\<lparr>bifrost_settings := (bifrost_settings st2)
          \<lparr>bs_last_synced := Some (be_finished be),
           bs_last_synced_through := Some (if drained then be_clock be
             else case pl_last_seen p of Some t \<Rightarrow> t | None \<Rightarrow> sync_checkpoint (be_clock be) (bifrost_settings st)),
           bs_last_sync_row_count := pl_synced p, bs_last_error := []\<rparr>\<rparr>"
        by (simp only: bifrost_sync_def Let_def) auto
      then show ?thesis using pull rec r1 Inr by (intro that [of p drained st2 d]) simp_all
    qed
  qed
qed

text \<open>A row every step can store.\<close>

definition usable :: "bifrost_env \<Rightarrow> bifrost_row \<Rightarrow> bool" where
  "usable be r \<longleftrightarrow> br_id r \<noteq> None \<and> map_bifrost_row be r \<noteq> None \<and> be_insert be (docname_of r) \<noteq> Insert_failed"

definition row_time :: "bifrost_env \<Rightarrow> bifrost_row \<Rightarrow> datetime option" where
  "row_time be r = parse_bifrost_timestamp be (opt_str (br_timestamp r))"

lemma usable_writable: "usable be r \<Longrightarrow> writable be m r"
  by (simp add: usable_def writable_def)

lemma usable_time: "usable be r \<Longrightarrow> \<exists>t. row_time be r = Some t"
  by (auto simp: usable_def map_bifrost_row_def row_time_def Let_def split: option.splits)

lemma recorded_after_fold:
  assumes "usable be r" and "r \<in> set rows"
  shows "recorded (usage_logs (pl_db (fold (pull_row be) rows p))) (docname_of r) \<noteq> None"
proof -
  have "docname_of r \<in> dom (map_of (rev (written_rows be m rows)))" for m
    using assms(2) usable_writable [OF assms(1), of m] by (auto simp: dom_map_of_conv_image_fst written_rows_def image_image)
  then show ?thesis unfolding recorded_pull_rows fold_spec_upsert by (auto simp: map_add_dom_app_simps)
qed

text \<open>The newest time a pull has noted is bounded by the rows it stored.\<close>

definition seen_by :: "datetime \<Rightarrow> datetime option \<Rightarrow> bool" where
  "seen_by t s \<longleftrightarrow> (case s of None \<Rightarrow> True | Some x \<Rightarrow> x \<le> t)"

lemma seen_by_rows:
  assumes "\<And>x s. x \<in> set rows \<Longrightarrow> row_time be x = Some s \<Longrightarrow> s \<le> t" and "seen_by t (pl_last_seen p)"
  shows "seen_by t (pl_last_seen (fold (pull_row be) rows p))"
proof (rule fold_invariant [where I = "\<lambda>p. seen_by t (pl_last_seen p)"])
  fix x and q :: "'a usage_db_scheme pull"
  assume x: "x \<in> set rows" and q: "seen_by t (pl_last_seen q)"
  show "seen_by t (pl_last_seen (pull_row be x q))"
    using assms(1) [OF x] q by (auto simp: pull_row_def seen_by_def row_time_def split: option.splits)
qed (fact assms(2))

subsection \<open>A log that grows while it is read\<close>

text \<open>Bifrost is a live system: each request is answered from the log as it is then. The rows of the window are in
  order of their times, no row leaves the log, and a row that lands during the pull can shift the
  ones after it to a later page. A row without a readable time may stand anywhere.\<close>

definition serves_log :: "bifrost_env \<Rightarrow> datetime \<Rightarrow> datetime \<Rightarrow> (nat \<Rightarrow> bifrost_row list) \<Rightarrow> bool" where
  "serves_log be start stop L \<longleftrightarrow>
     (\<forall>off. be_get_logs be (to_utc_rfc3339 be start) (to_utc_rfc3339 be stop) off =
        Inr \<lparr>lp_logs = take PAGE_LIMIT (drop off (L off)), lp_total_count = Some (int (length (L off)))\<rparr> \<and>
        sorted (List.map_filter (row_time be) (L off)) \<and>
        (\<forall>off' \<ge> off. subseq (L off) (L off')) \<and>
        (\<forall>r \<in> set (L off). \<forall>t. row_time be r = Some t \<longrightarrow> start \<le> t \<and> t \<le> stop))"

lemma subseq_drop_set:
  assumes "subseq xs ys" and "r \<in> set (drop n xs)"
  shows "r \<in> set (drop n ys)"
  using assms
proof (induction arbitrary: n rule: list_emb.induct)
  case (list_emb_Nil ys)
  then show ?case by simp
next
  case (list_emb_Cons xs ys y)
  have "r \<in> set (drop n ys)" by (rule list_emb_Cons.IH) (rule list_emb_Cons.prems)
  then show ?case by (cases n) (auto dest: in_set_dropD set_drop_subset_set_drop [OF le_SucI [OF le_refl], THEN subsetD])
next
  case (list_emb_Cons2 x y xs ys)
  then show ?case by (cases n) (auto simp: subseq_order.dual_order.trans dest: list_emb_set)
qed

lemma sorted_map_filter_split:
  assumes "sorted (List.map_filter f (xs @ ys))" and "x \<in> set xs" and "f x = Some a" and "y \<in> set ys" and "f y = Some b"
  shows "a \<le> b"
  using assms by (force simp: List.map_filter_def sorted_append)

lemma pull_loop_reaches:
  assumes "serves_log be start stop L" and "usable be r" and "row_time be r = Some t"
    and "r \<in> set (drop off (L off))" and "seen_by t (pl_last_seen p)"
    and "pull_loop k be (to_utc_rfc3339 be start) (to_utc_rfc3339 be stop) off p = (q, Inr drained)"
  shows "recorded (usage_logs (pl_db q)) (docname_of r) \<noteq> None \<or> \<not> drained \<and> seen_by t (pl_last_seen q)"
  using assms(4-6)
proof (induction k arbitrary: off p)
  case (Suc k)
  define page where "page = take PAGE_LIMIT (drop off (L off))"
  let ?off = "off + PAGE_LIMIT" and ?fold = "fold (pull_row be) page p"
  let ?loop = "\<lambda>k. pull_loop k be (to_utc_rfc3339 be start) (to_utc_rfc3339 be stop)"
  have get: "be_get_logs be (to_utc_rfc3339 be start) (to_utc_rfc3339 be stop) off =
      Inr \<lparr>lp_logs = page, lp_total_count = Some (int (length (L off)))\<rparr>"
    and sorted: "sorted (List.map_filter (row_time be) (L off))" and grows: "subseq (L off) (L ?off)"
    using assms(1) unfolding serves_log_def page_def by auto
  have ne: "page \<noteq> []" using Suc.prems(1) by (auto simp: page_def PAGE_LIMIT_def)
  have run: "(if length (L off) \<le> off + length page then (?fold, Inr True) else ?loop k (off + length page) ?fold) = (q, Inr drained)"
    using Suc.prems(3) ne by (simp add: get Let_def)
  show ?case
  proof (cases "r \<in> set page")
    case True
    note stored = recorded_after_fold [OF assms(2) True]
    have "recorded (usage_logs (pl_db (fst (?loop k off' ?fold)))) (docname_of r) \<noteq> None" for off'
      by (rule recorded_pull_loop [where P = "\<lambda>m. m (docname_of r) \<noteq> None"]) (simp_all add: spec_upsert_keeps stored)
    then show ?thesis using run stored [of p] by (metis fst_conv prod.inject)
  next
    case False
    have parts: "take off (L off) @ page @ drop ?off (L off) = L off"
      by (metis add.commute append_take_drop_id drop_drop page_def)
    have ahead: "r \<in> set (drop ?off (L off))"
      using Suc.prems(1) False by (metis Un_iff add.commute append_take_drop_id drop_drop page_def set_append)
    then have long: "?off < length (L off)" by (metis drop_all empty_iff empty_set not_le)
    then have full: "length page = PAGE_LIMIT" by (simp add: page_def)
    have "sorted (List.map_filter (row_time be) ((take off (L off) @ page) @ drop ?off (L off)))"
      using sorted by (simp only: append_assoc parts)
    then have "s \<le> t" if "x \<in> set page" "row_time be x = Some s" for x s
      by (rule sorted_map_filter_split) (use that ahead assms(3) in auto)
    then have "seen_by t (pl_last_seen ?fold)" using Suc.prems(2) by (rule seen_by_rows)
    moreover have "r \<in> set (drop ?off (L ?off))" using grows ahead by (rule subseq_drop_set)
    moreover have "?loop k ?off ?fold = (q, Inr drained)" using run long full by simp
    ultimately show ?thesis by (intro Suc.IH)
  qed
qed simp

text \<open>What every row of the pages preserves, the pull preserves.\<close>

lemma pull_loop_invariant:
  assumes "\<And>off page x p. be_get_logs be start stop off = Inr page \<Longrightarrow> x \<in> set (lp_logs page) \<Longrightarrow> I p \<Longrightarrow> I (pull_row be x p)"
    and "I p"
  shows "I (fst (pull_loop k be start stop off p))"
  using assms(2)
proof (induction k arbitrary: off p)
  case (Suc k)
  show ?case
  proof (cases "be_get_logs be start stop off")
    case (Inr page)
    have "I (fold (pull_row be) (lp_logs page) p)"
      by (rule fold_invariant [where I = I]) (use assms(1) [OF Inr] Suc.prems in auto)
    then show ?thesis using Suc by (simp add: Inr Let_def)
  qed (use Suc.prems in simp)
qed simp

text \<open>C21: a sync loses nothing that can be stored. Bifrost is read page by page while its log grows (rows in order of
  their times, none removed, later rows pushed back by arrivals). Take a row with an id, readable
  times and an insert that does not fail; the other rows may be malformed. If it is in the window when the
  pull starts, or lands during the pull with a time in the last five minutes before the run's start, then after a
  successful run it is recorded, or the window of the next run starts no later than its time and asks for it again.\<close>

theorem sync_loses_nothing:
  fixes st :: "'a usage_db_scheme"
  assumes "run_sync_now be st = (st', Inr n)"
    and "serves_log be (window_start (be_clock be) (bifrost_settings st)) (be_clock be) L"
    and "usable be r" and "r \<in> set (L i)"
    and "i = 0 \<or> be_clock be - CHECKPOINT_OVERLAP_MINUTES * MINUTE \<le> the (row_time be r)"
  shows "recorded (usage_logs st') (docname_of r) \<noteq> None \<or> window_start later (bifrost_settings st') \<le> the (row_time be r)"
proof -
  let ?w = "window_start (be_clock be) (bifrost_settings st)" and ?p0 = "\<lparr>pl_db = st, pl_synced = 0, pl_last_seen = None\<rparr>"
  obtain p drained st2 d where pull: "pull_and_upsert be ?w (be_clock be) st = (p, Inr drained)"
    and rec: "reconcile_open_processing be (be_clock be) (pl_db p) = (st2, Inr d)" and logs: "usage_logs st' = usage_logs st2"
    and chk: "bs_last_synced_through (bifrost_settings st') = Some (if drained then be_clock be
           else case pl_last_seen p of Some t \<Rightarrow> t | None \<Rightarrow> sync_checkpoint (be_clock be) (bifrost_settings st))"
    using bifrost_sync_parts [OF assms(1)] by metis
  note loop = pull [unfolded pull_and_upsert_def]
  obtain t where t: "row_time be r = Some t" using usable_time [OF assms(3)] by blast
  have window: "?w \<le> s" "s \<le> be_clock be" if "x \<in> set (L j)" "row_time be x = Some s" for x j s
    using assms(2) that unfolding serves_log_def by blast+
  have asked: "window_start later (bifrost_settings st') \<le> t" if "\<not> drained" "seen_by t (pl_last_seen p)"
    using that chk window(1) [OF assms(4) t]
    by (auto simp: seen_by_def window_start_def sync_checkpoint_def CHECKPOINT_OVERLAP_MINUTES_def MINUTE_def split: option.splits)
  show ?thesis
  proof (cases "i = 0")
    case True
    have "r \<in> set (drop 0 (L 0))" using assms(4) True by simp
    then have "recorded (usage_logs (pl_db p)) (docname_of r) \<noteq> None \<or> \<not> drained \<and> seen_by t (pl_last_seen p)"
      by (rule pull_loop_reaches [OF assms(2,3) t _ _ loop]) (simp add: seen_by_def)
    moreover have "recorded (usage_logs st') (docname_of r) \<noteq> None" if "recorded (usage_logs (pl_db p)) (docname_of r) \<noteq> None"
      using recorded_reconcile [where P = "\<lambda>m. m (docname_of r) \<noteq> None", of be "pl_db p"] that
      by (metis fst_conv logs rec spec_upsert_keeps)
    ultimately show ?thesis using asked t by auto
  next
    case False
    have "seen_by (be_clock be) (pl_last_seen (fst (pull_loop MAX_LOG_PAGES be (to_utc_rfc3339 be ?w) (to_utc_rfc3339 be (be_clock be)) 0 ?p0)))"
    proof (rule pull_loop_invariant [where I = "\<lambda>q. seen_by (be_clock be) (pl_last_seen q)"])
      fix off page x and q :: "'a usage_db_scheme pull"
      assume q: "seen_by (be_clock be) (pl_last_seen q)" and page: "be_get_logs be (to_utc_rfc3339 be ?w) (to_utc_rfc3339 be (be_clock be)) off = Inr page"
        and x: "x \<in> set (lp_logs page)"
      have "lp_logs page = take PAGE_LIMIT (drop off (L off))" using assms(2) page by (auto simp: serves_log_def)
      then have "x \<in> set (L off)" using x by (auto dest: in_set_takeD in_set_dropD)
      then show "seen_by (be_clock be) (pl_last_seen (pull_row be x q))"
        using seen_by_rows [of "[x]" be "be_clock be" q] window(2) q by simp
    qed (simp add: seen_by_def)
    then have "seen_by (be_clock be) (pl_last_seen p)" by (simp add: loop)
    then show ?thesis
      using False assms(5) t chk window(1) [OF assms(4) t]
      by (auto simp: seen_by_def window_start_def sync_checkpoint_def split: option.splits if_splits)
  qed
qed





text \<open>A row still \<open>processing\<close> that has left the overlap gets its final fields from the second pull.\<close>

lemma map_of_written:
  assumes "distinct (map docname_of rows)" and "r \<in> set rows" and "writable be m r"
  shows "map_of (rev (written_rows be m rows)) (docname_of r) = map_bifrost_row be r"
proof -
  have "map fst (rev (written_rows be m rows)) = rev (map docname_of (filter (writable be m) rows))"
    by (simp add: written_rows_def rev_map)
  then have "distinct (map fst (rev (written_rows be m rows)))"
    using assms(1) by (simp add: distinct_map_filter)
  moreover have "(docname_of r, the (map_bifrost_row be r)) \<in> set (rev (written_rows be m rows))"
    using assms(2,3) by (auto simp: written_rows_def)
  ultimately have "map_of (rev (written_rows be m rows)) (docname_of r) = Some (the (map_bifrost_row be r))" by simp
  then show ?thesis using assms(3) by (auto simp: writable_def)
qed

theorem reconcile_settles_processing:
  assumes "oldest_open t (usage_logs st) = Some t0" and "serves be (to_utc_rfc3339 be t0) (to_utc_rfc3339 be t) rows"
    and "length rows \<le> MAX_LOG_PAGES * PAGE_LIMIT" and "distinct (map docname_of rows)" and "r \<in> set rows"
    and "writable be (recorded (usage_logs st)) r"
  shows "recorded (usage_logs (fst (reconcile_open_processing be t st))) (docname_of r) = map_bifrost_row be r"
  using pull_is_map_update [OF assms(2), of st] assms(1,3) map_of_written [OF assms(4-6)] assms(6)
  by (auto simp: reconcile_open_processing_def case_prod_unfold map_add_def writable_def split: option.split)

subsection \<open>A small sync\<close>

definition demo_log_row :: "string \<Rightarrow> string \<Rightarrow> bifrost_row" where
  "demo_log_row i ts = \<lparr>br_id = Some i, br_timestamp = Some ts, br_created_at = None, br_provider = Some ''openai'', br_model = None,
     br_virtual_key_name = None, br_status = Some ''success'', br_object = None, br_stream = False, br_number_of_retries = None,
     br_latency = None, br_token_usage = None, br_cost = Some 2, br_json = ''{}''\<rparr>"

text \<open>The second of the three rows has no id and cannot be stored.\<close>

definition demo_log_rows :: "bifrost_row list" where
  "demo_log_rows = [demo_log_row ''1'' ''t'', (demo_log_row ''x'' ''t'')\<lparr>br_id := None\<rparr>, demo_log_row ''2'' ''tt'']"

definition demo_bifrost_env :: bifrost_env where
  "demo_bifrost_env = \<lparr>be_job_env = demo_job_env, be_finished = 5,
     be_get_logs = (\<lambda>s e off. Inr \<lparr>lp_logs = take PAGE_LIMIT (drop off demo_log_rows), lp_total_count = Some (int (length demo_log_rows))\<rparr>),
     be_fromisoformat = (\<lambda>s. Some ((int (length s) - 1000) * SECOND, None)), be_utc_to_system = (\<lambda>t. t), be_zone_offset = (\<lambda>t. 0),
     be_insert = (\<lambda>n. if n = ''Bifrost-2'' then Insert_failed else Inserted)\<rparr>"


definition demo_usage_db :: usage_db where
  "demo_usage_db = job_db.extend demo_job_db \<lparr>usage_logs = [], bifrost_settings = \<lparr>bs_enabled = True, bs_base_url = Some ''u'',
     bs_username = Some ''a'', bs_password = Some ''p'', bs_sync_interval_minutes = None, bs_initial_backfill_days = None,
     bs_last_synced = None, bs_last_synced_through = None, bs_last_sync_row_count = 0, bs_last_error = []\<rparr>\<rparr>"

lemma run_sync_succeeds:
  assumes "\<And>start stop. serves be start stop rows" and "bs_enabled (bifrost_settings st)" and "truthy (bs_password (bifrost_settings st))"
    and "truthy (bs_username (bifrost_settings st))" and "truthy (bs_base_url (bifrost_settings st))"
  shows "\<exists>st' n. run_sync_now be st = (st', Inr n)"
proof -
  have pull: "\<exists>p d. pull_and_upsert be a b s = (p, Inr d)" for a b and s :: "'a usage_db_scheme"
    using pull_and_upsert_serves [OF assms(1)] by blast
  let ?w = "window_start (be_clock be) (bifrost_settings st)"
  obtain p d where p: "pull_and_upsert be ?w (be_clock be) st = (p, Inr d)" using pull by blast
  have "\<exists>s' d'. reconcile_open_processing be (be_clock be) (pl_db p) = (s', Inr d')"
  proof (cases "oldest_open (be_clock be) (usage_logs (pl_db p))")
    case None
    then show ?thesis by (auto simp: reconcile_open_processing_def)
  next
    case (Some t)
    obtain q d' where "pull_and_upsert be t (be_clock be) (pl_db p) = (q, Inr d')" using pull by blast
    with Some show ?thesis by (simp add: reconcile_open_processing_def)
  qed
  then obtain s' d' where "reconcile_open_processing be (be_clock be) (pl_db p) = (s', Inr d')" by blast
  with p assms(2-) show ?thesis by (simp add: run_sync_now_def bifrost_sync_def Let_def)
qed

lemma demo_serves: "serves demo_bifrost_env start stop demo_log_rows"
  "serves (demo_bifrost_env\<lparr>be_insert := f\<rparr>) start stop demo_log_rows"
  by (simp_all add: serves_def demo_bifrost_env_def)

lemma demo_configured: "bs_enabled (bifrost_settings demo_usage_db)" "truthy (bs_password (bifrost_settings demo_usage_db))"
  "truthy (bs_username (bifrost_settings demo_usage_db))" "truthy (bs_base_url (bifrost_settings demo_usage_db))"
  by code_simp+

theorem sync_loses_nothing_witness:
  "\<exists>st' n. run_sync_now (demo_bifrost_env\<lparr>be_insert := \<lambda>n. Inserted\<rparr>) demo_usage_db = (st', Inr n) \<and>
     (recorded (usage_logs st') ''Bifrost-2'' \<noteq> None \<or> window_start 2000 (bifrost_settings st') \<le> -998 * SECOND)"
proof -
  let ?be = "demo_bifrost_env\<lparr>be_insert := \<lambda>n. Inserted\<rparr>" and ?r = "demo_log_row ''2'' ''tt''"
  let ?w = "window_start (be_clock ?be) (bifrost_settings demo_usage_db)"
  obtain st' n where run: "run_sync_now ?be demo_usage_db = (st', Inr n)"
    using run_sync_succeeds [OF demo_serves(2) demo_configured] by blast
  have u: "usable ?be ?r" and s: "sorted (List.map_filter (row_time ?be) demo_log_rows)"
    and t: "the (row_time ?be ?r) = -998 * SECOND" and d: "docname_of ?r = ''Bifrost-2''"
    and w: "list_all (\<lambda>r. list_all (\<lambda>t. ?w \<le> t \<and> t \<le> be_clock ?be) (case row_time ?be r of None \<Rightarrow> [] | Some t \<Rightarrow> [t])) demo_log_rows"
    by code_simp+
  have "serves_log ?be ?w (be_clock ?be) (\<lambda>off. demo_log_rows)"
    unfolding serves_log_def using demo_serves(2) s w by (auto simp: serves_def list_all_iff)
  moreover have "?r \<in> set demo_log_rows" by (simp add: demo_log_rows_def)
  ultimately show ?thesis using sync_loses_nothing [OF run _ u, of "\<lambda>off. demo_log_rows" 0 2000] run t d by auto
qed




end
