(* ===== verification/Log_Queries.thy ===== *)
theory Log_Queries
  imports Site_Resolve
begin

text \<open>
  The queries of the log monitor: \<open>log_monitor/connection.py\<close> (identifiers, the identity of a site) and
  \<open>log_monitor/queries.py\<close>. A query is a ClickHouse SQL text in the source; here it is the function on
  the table's rows that the text describes. The rows as stored are a parameter, and so is the hash
  behind a signature.
\<close>

subsection \<open>Identifiers\<close>

text \<open>\<open>^[A-Za-z_][A-Za-z0-9_]*$\<close>; in Python the dollar also matches before a final newline.\<close>

definition ident_start :: "char \<Rightarrow> bool" where
  "ident_start c \<longleftrightarrow> (let n = (of_char c :: nat) in (65 \<le> n \<and> n \<le> 90) \<or> (97 \<le> n \<and> n \<le> 122) \<or> n = 95)"

definition identifier_ok :: "string \<Rightarrow> bool" where
  "identifier_ok s \<longleftrightarrow>
     (let body = (if s \<noteq> [] \<and> last s = CHR 0x0A then butlast s else s)
      in body \<noteq> [] \<and> ident_start (hd body) \<and> list_all (\<lambda>c. ident_start c \<or> is_digit c) body)"

definition validate_identifier :: "string option \<Rightarrow> string \<Rightarrow> bool \<Rightarrow> string option" where
  "validate_identifier v label required =
     (if \<not> truthy v then (if required then Some (label @ '' is required'') else None)
      else if \<not> identifier_ok (opt_str v)
      then Some (label @ '' may only contain letters, digits and underscores'') else None)"

record column_settings =
  co_database_name :: "string option"
  co_table_name :: "string option"
  co_ts_column :: "string option"
  co_site_column :: "string option"
  co_content_column :: "string option"
  co_title_column :: "string option"
  co_id_column :: "string option"
  co_log_type_column :: "string option"

record column_map =
  cm_table :: string
  cm_ts :: string
  cm_site :: string
  cm_content :: string
  cm_title :: "string option"
  cm_id :: "string option"
  cm_log_type :: "string option"

definition backtick :: string where "backtick = [CHR 0x60]"

definition quoted :: "string option \<Rightarrow> string" where
  "quoted v = backtick @ opt_str v @ backtick"

definition quoted_opt :: "string option \<Rightarrow> string option" where
  "quoted_opt v = (if truthy v then Some (quoted v) else None)"

definition column_checks :: "column_settings \<Rightarrow> (string option \<times> string \<times> bool) list" where
  "column_checks s =
     [(co_database_name s, ''Database'', True), (co_table_name s, ''Table'', True),
      (co_ts_column s, ''Timestamp Column'', True), (co_site_column s, ''Site URL Column'', True),
      (co_content_column s, ''Content Column'', True), (co_title_column s, ''Title Column'', False),
      (co_id_column s, ''ID Column'', False), (co_log_type_column s, ''Log Type Column'', False)]"

definition get_column_map :: "column_settings \<Rightarrow> string + column_map" where
  "get_column_map s =
     (case List.map_filter (\<lambda>(v, label, required). validate_identifier v label required) (column_checks s) of
        e # _ \<Rightarrow> Inl e
      | [] \<Rightarrow> Inr \<lparr>cm_table = quoted (co_database_name s) @ ''.'' @ quoted (co_table_name s),
                  cm_ts = quoted (co_ts_column s), cm_site = quoted (co_site_column s),
                  cm_content = quoted (co_content_column s), cm_title = quoted_opt (co_title_column s),
                  cm_id = quoted_opt (co_id_column s), cm_log_type = quoted_opt (co_log_type_column s)\<rparr>)"

subsection \<open>Sites\<close>

definition normalize_site_label :: "string option \<Rightarrow> string" where
  "normalize_site_label v =
     (let s = py_strip (opt_str v)
      in if CHR '' '' \<in> set s \<and> \<not> py_contains ''://'' s then s else normalize_site (Some s))"

definition is_letter :: "char \<Rightarrow> bool" where
  "is_letter c \<longleftrightarrow> (let n = (of_char c :: nat) in (65 \<le> n \<and> n \<le> 90) \<or> (97 \<le> n \<and> n \<le> 122))"

text \<open>The host expression in SQL: \<open>^(?:[a-zA-Z][a-zA-Z0-9+.-]*://)?([^/:?#]+).*$\<close> replaced by its group, in
  lower case; a value that does not match stays whole. When nothing follows the scheme the optional
  part is given up.\<close>

definition strip_scheme_ci :: "string \<Rightarrow> string" where
  "strip_scheme_ci v =
     (let run = takeWhile (\<lambda>c. is_letter c \<or> is_digit c \<or> c \<in> set ''+.-'') v; rest = drop (length run) v
      in if run \<noteq> [] \<and> is_letter (hd run) \<and> starts_with ''://'' rest then drop 3 rest else v)"

definition site_host :: "string \<Rightarrow> string" where
  "site_host v =
     (let cut = takeWhile (\<lambda>c. c \<notin> set ''/:?#''); a = cut (strip_scheme_ci v); b = cut v
      in py_lower (if a \<noteq> [] then a else if b \<noteq> [] then b else v))"

subsection \<open>Rows\<close>

record raw_log =
  rl_ts :: datetime
  rl_site :: string
  rl_content :: string
  rl_title_column :: "string option"
  rl_type_column :: "string option"
  rl_id :: string

record log_row =
  lm_ts :: datetime
  lm_site :: string
  lm_content :: string
  lm_title :: string
  lm_type :: string
  lm_sig :: string
  lm_id :: string

definition trim_blank :: "string \<Rightarrow> string" where
  "trim_blank s = rev (dropWhile (\<lambda>c. c = CHR '' '') (rev (dropWhile (\<lambda>c. c = CHR '' '') s)))"

definition log_lines :: "string \<Rightarrow> string list" where
  "log_lines content = filter (\<lambda>l. trim_blank l \<noteq> []) (py_split (CHR 0x0A) content)"

definition trim_right_colon :: "string \<Rightarrow> string" where
  "trim_right_colon s = py_rstrip_char (CHR '':'') s"

text \<open>A traceback is titled by its last line, after the context line in front of it when there is one.\<close>

definition log_title :: "raw_log \<Rightarrow> string" where
  "log_title r =
     (case rl_title_column r of
        Some t \<Rightarrow> take 300 (trim_blank t)
      | None \<Rightarrow>
          let ls = log_lines (rl_content r);
              first = (if ls = [] then [] else trim_blank (hd ls));
              final = (if ls = [] then [] else trim_blank (last ls))
          in take 300
               (if py_contains (py_lower ''Traceback'') (py_lower (rl_content r))
                then (if starts_with ''Traceback'' first then final else trim_right_colon first @ '': '' @ final)
                else first))"

definition log_type_of :: "string \<Rightarrow> raw_log \<Rightarrow> string" where
  "log_type_of kw r =
     (let source = (case rl_type_column r of Some t \<Rightarrow> t | None \<Rightarrow> rl_content r)
      in if py_contains (py_lower kw) (py_lower source) then ''Error'' else ''General'')"

definition error_kw :: "string option \<Rightarrow> string" where
  "error_kw v =
     (let kw = py_strip (if truthy v then opt_str v else ''error'') in if kw = [] then ''error'' else kw)"

definition apply_alias :: "(string \<times> string) list \<Rightarrow> string \<Rightarrow> string" where
  "apply_alias aliases host = (case map_of aliases host of None \<Rightarrow> host | Some site \<Rightarrow> site)"

text \<open>\<open>base_query\<close>: the signature hashes the site and the title.\<close>

definition base_row :: "(string \<Rightarrow> string \<Rightarrow> string) \<Rightarrow> (string \<times> string) list \<Rightarrow> string \<Rightarrow> raw_log \<Rightarrow> log_row" where
  "base_row sig_hash aliases kw r =
     (let site = apply_alias aliases (site_host (rl_site r)); title = log_title r
      in \<lparr>lm_ts = rl_ts r, lm_site = site, lm_content = rl_content r, lm_title = title,
          lm_type = log_type_of kw r, lm_sig = sig_hash site title, lm_id = rl_id r\<rparr>)"

subsection \<open>Filters\<close>

definition LOG_TYPES :: "string list" where "LOG_TYPES = [''Error'', ''General'']"

definition to_second :: "datetime \<Rightarrow> datetime" where
  "to_second t = t div SECOND * SECOND"

record log_filter =
  lf_start :: datetime
  lf_end :: datetime
  lf_sites :: "string list"
  lf_types :: "string list"
  lf_signature :: "string option"
  lf_search :: "string option"
  lf_log_id :: "string option"
  lf_exclude_resolved :: bool
  lf_exclude_ignored :: bool

text \<open>What the filter reads of \<open>Recurring Error\<close>: when each signature was resolved (to the second), and
  which are ignored.\<close>

record log_marks =
  mk_resolutions :: "(string \<times> datetime) list"
  mk_ignored :: "string list"

definition type_filter :: "string list \<Rightarrow> string list" where
  "type_filter ts = filter (\<lambda>t. t \<in> set LOG_TYPES) ts"

definition row_passes :: "log_filter \<Rightarrow> log_marks \<Rightarrow> log_row \<Rightarrow> bool" where
  "row_passes f m r \<longleftrightarrow>
     (lf_sites f \<noteq> [] \<longrightarrow> lm_site r \<in> set (lf_sites f)) \<and>
     (let types = type_filter (lf_types f) in types \<noteq> [] \<and> length types < length LOG_TYPES \<longrightarrow> lm_type r \<in> set types) \<and>
     (truthy (lf_signature f) \<longrightarrow> lm_sig r = opt_str (lf_signature f)) \<and>
     (truthy (lf_log_id f) \<longrightarrow> lm_id r = opt_str (lf_log_id f)) \<and>
     (lf_exclude_resolved f \<and> mk_resolutions m \<noteq> [] \<longrightarrow>
        lm_ts r > (case map_of (mk_resolutions m) (lm_sig r) of None \<Rightarrow> 0 | Some t \<Rightarrow> t)) \<and>
     (lf_exclude_ignored f \<longrightarrow> lm_sig r \<notin> set (mk_ignored m)) \<and>
     (truthy (lf_search f) \<longrightarrow>
        py_contains (py_lower (opt_str (lf_search f))) (py_lower (lm_content r)) \<or>
        py_contains (py_lower (opt_str (lf_search f))) (py_lower (lm_site r)))"

definition filtered_rows ::
    "(string \<Rightarrow> string \<Rightarrow> string) \<Rightarrow> (string \<times> string) list \<Rightarrow> string \<Rightarrow> log_filter \<Rightarrow> log_marks \<Rightarrow> raw_log list \<Rightarrow> log_row list" where
  "filtered_rows sig_hash aliases kw f m rows =
     filter (row_passes f m)
       (map (base_row sig_hash aliases kw) (filter (\<lambda>r. lf_start f \<le> rl_ts r \<and> rl_ts r < lf_end f) rows))"

subsection \<open>Grouping by signature\<close>

record error_group =
  eg_signature :: string
  eg_site_url :: string
  eg_title :: string
  eg_occurrences :: int
  eg_first_seen :: datetime
  eg_last_seen :: datetime
  eg_latest_log_id :: string

definition latest_row :: "log_row list \<Rightarrow> log_row" where
  "latest_row g = fold (\<lambda>r best. if lm_ts r > lm_ts best then r else best) (tl g) (hd g)"

definition error_group_of :: "string \<times> log_row list \<Rightarrow> error_group" where
  "error_group_of p =
     (case p of (sg, g) \<Rightarrow>
        \<lparr>eg_signature = sg, eg_site_url = lm_site (hd g), eg_title = lm_title (hd g), eg_occurrences = int (length g),
         eg_first_seen = to_second (Min (set (map lm_ts g))), eg_last_seen = to_second (Max (set (map lm_ts g))),
         eg_latest_log_id = lm_id (latest_row g)\<rparr>)"

text \<open>\<open>GROUP BY lm_sig HAVING occurrences >= threshold ORDER BY occurrences DESC LIMIT max_groups\<close>.\<close>

definition group_errors :: "int \<Rightarrow> nat \<Rightarrow> log_row list \<Rightarrow> error_group list" where
  "group_errors threshold max_groups rows =
     take max_groups (sort_key (\<lambda>g. - eg_occurrences g)
       (filter (\<lambda>g. eg_occurrences g \<ge> threshold) (map error_group_of (group_rows lm_sig rows))))"

subsection \<open>One identity of a site\<close>

lemma of_char_lower:
  "(of_char (char_lower c) :: nat) = (let n = of_char c in if 65 \<le> n \<and> n \<le> 90 then n + 32 else n)"
  by (auto simp: char_lower_def Let_def of_char_of)

lemma lower_eq_nonletter:
  assumes "\<not> is_letter d"
  shows "char_lower c = d \<longleftrightarrow> c = d" "d = char_lower c \<longleftrightarrow> d = c"
proof -
  have "char_lower c = c \<or> is_letter c \<and> is_letter (char_lower c)"
    by (auto simp: is_letter_def of_char_lower Let_def) (auto simp: char_lower_def Let_def)
  with assms show "char_lower c = d \<longleftrightarrow> c = d" "d = char_lower c \<longleftrightarrow> d = c" by auto
qed

lemma nonletters:
  "\<not> is_letter (CHR ''+'')" "\<not> is_letter (CHR ''.'')" "\<not> is_letter (CHR ''-'')" "\<not> is_letter (CHR ''/'')"
  "\<not> is_letter (CHR '':'')" "\<not> is_letter (CHR ''?'')" "\<not> is_letter (CHR ''#'')"
  by (simp_all add: is_letter_def)

lemmas lower_eq_mark = nonletters [THEN lower_eq_nonletter(1)] nonletters [THEN lower_eq_nonletter(2)]

lemma lower_classes:
  "is_alpha (char_lower c) = is_letter c" "is_digit (char_lower c) = is_digit c"
  "(char_lower c \<in> set ''+.-'') = (c \<in> set ''+.-'')" "(char_lower c \<notin> set ''/:?#'') = (c \<notin> set ''/:?#'')"
  by (auto simp: is_alpha_def is_letter_def is_digit_def of_char_lower Let_def lower_eq_mark)

lemma starts_scheme_lower: "starts_with ''://'' (py_lower s) = starts_with ''://'' s"
proof -
  have "starts_with p (py_lower s) = starts_with p s" if "list_all (\<lambda>c. \<not> is_letter c) p" for p
    using that
  proof (induction p s rule: starts_with.induct)
    case (3 c cs x xs)
    then show ?case by (simp add: py_lower_def lower_eq_nonletter(2))
  qed (simp_all add: py_lower_def)
  then show ?thesis by (simp add: nonletters)
qed

lemma strip_scheme_lower: "strip_scheme (py_lower v) = py_lower (strip_scheme_ci v)"
proof -
  let ?run = "takeWhile (\<lambda>c. is_letter c \<or> is_digit c \<or> c \<in> set ''+.-'') v"
  have run: "takeWhile (\<lambda>c. is_alpha c \<or> is_digit c \<or> c \<in> set ''+.-'') (py_lower v) = py_lower ?run"
    unfolding py_lower_def takeWhile_map comp_def lower_classes ..
  have len: "length (py_lower s) = length s" for s by (simp add: py_lower_def)
  have hd: "?run \<noteq> [] \<Longrightarrow> is_alpha (hd (py_lower ?run)) = is_letter (hd ?run)"
    using lower_classes(1) by (simp add: py_lower_def hd_map)
  have drop: "drop n (py_lower s) = py_lower (drop n s)" for n s by (simp add: py_lower_def drop_map)
  have nil: "py_lower ?run = [] \<longleftrightarrow> ?run = []" by (simp add: py_lower_def)
  show ?thesis
    unfolding strip_scheme_def strip_scheme_ci_def Let_def run len drop starts_scheme_lower nil
    using hd by auto
qed

text \<open>The dashboard and the queries mean the same site. The host expression evaluated by ClickHouse and
  \<open>normalize_site\<close> agree on every URL that has a host and no blanks around it, whatever its scheme, its
  port, its path or its capitals; both give the bare host in lower case.\<close>

theorem site_identity_agrees:
  assumes "py_strip v = v" and "normalize_site (Some v) \<noteq> []"
  shows "site_host v = normalize_site (Some v) \<and> list_all (\<lambda>c. c \<notin> set ''/:?#'') (site_host v)"
proof -
  let ?P = "\<lambda>c. c \<notin> set ''/:?#''"
  have tw: "takeWhile ?P (py_lower s) = py_lower (takeWhile ?P s)" for s
    unfolding py_lower_def takeWhile_map comp_def lower_classes(4) ..
  have n: "normalize_site (Some v) = py_lower (takeWhile ?P (strip_scheme_ci v))"
    using assms(1) by (simp add: normalize_site_def strip_scheme_lower tw del: set_simps)
  with assms(2) have "takeWhile ?P (strip_scheme_ci v) \<noteq> []" by (auto simp: py_lower_def)
  then have eq: "site_host v = normalize_site (Some v)" by (simp add: site_host_def Let_def n)
  have "list_all ?P (normalize_site (Some v))"
    unfolding normalize_site_def list_all_iff by (blast dest: set_takeWhileD)
  with eq show ?thesis by simp
qed

theorem site_identity_agrees_witness:
  "site_host ''HTTPS://Anson.example.org:443/app'' = normalize_site (Some ''HTTPS://Anson.example.org:443/app'') \<and>
   normalize_site (Some ''HTTPS://Anson.example.org:443/app'') = ''anson.example.org''"
proof -
  have "py_strip ''HTTPS://Anson.example.org:443/app'' = ''HTTPS://Anson.example.org:443/app''"
    and n: "normalize_site (Some ''HTTPS://Anson.example.org:443/app'') = ''anson.example.org''" by code_simp+
  from site_identity_agrees [OF this(1)] n show ?thesis by simp
qed

end
