(* ===== verification/Log_Monitor.thy ===== *)
theory Log_Monitor
  imports Alert_Summaries Log_Queries
begin

text \<open>
  \<open>tasks/log_monitor.py\<close> and the state-changing endpoints of \<open>log_monitor/api.py\<close>: the recurring-error check
  with its throttle, the resolution and the ignoring of an error, and the aliases of sites with
  \<open>LogSiteAlias.validate\<close>. The state is \<open>Recurring Error\<close>, the alert log it opens incidents in, the
  settings and the aliases; the rows in ClickHouse (or the failure to read them) and the signature
  hash are parameters.
\<close>

definition RECURRING_ERROR :: string where "RECURRING_ERROR = ''Recurring Error''"

definition MAX_GROUPS :: nat where "MAX_GROUPS = 500"

definition RESOLVE_ROLES :: "string list" where
  "RESOLVE_ROLES = [''System Manager'', ''Proxmox Monitor Manager'', ''Proxmox Monitor Viewer'']"

definition IGNORE_ROLES :: "string list" where
  "IGNORE_ROLES = [''System Manager'', ''Proxmox Monitor Manager'']"

definition ALIAS_ROLES :: "string list" where "ALIAS_ROLES = [''Proxmox Monitor Manager'']"

record recurring_error =
  re_name :: string
  re_signature :: string
  re_title :: string
  re_site_url :: string
  re_monitored_host :: "string option"
  re_window_count :: int
  re_peak_window_count :: int
  re_first_seen :: "datetime option"
  re_last_seen :: "datetime option"
  re_latest_log_id :: string
  re_is_critical :: bool
  re_alert_count :: int
  re_last_alerted :: "datetime option"
  re_last_recovered :: "datetime option"
  re_resolved_at :: "datetime option"
  re_resolved_by :: string
  re_ignored :: bool
  re_ignored_at :: "datetime option"
  re_ignored_by :: string

record log_settings =
  ls_enabled :: bool
  ls_host :: "string option"
  ls_error_keyword :: "string option"
  ls_enable_recurring_alerts :: bool
  ls_occurrence_threshold :: "int option"
  ls_window_minutes :: "int option"
  ls_check_interval_minutes :: "int option"
  ls_last_checked :: "datetime option"
  ls_last_error :: "string option"

record log_db = host_db +
  recurring_errors :: "recurring_error list"
  log_settings :: log_settings
  site_aliases :: "(string \<times> string) list"
  last_check :: "datetime option"

record log_env =
  le_env :: env
  le_rows :: "string + raw_log list"
  le_sig :: "string \<Rightarrow> string \<Rightarrow> string"

definition le_now :: "log_env \<Rightarrow> datetime" where "le_now le = now_datetime (le_env le)"

subsection \<open>Reading the logs\<close>

definition log_marks_of :: "'a log_db_scheme \<Rightarrow> log_marks" where
  "log_marks_of st =
     \<lparr>mk_resolutions = List.map_filter (\<lambda>r. map_option (\<lambda>t. (re_signature r, to_second t)) (re_resolved_at r)) (recurring_errors st),
      mk_ignored = map re_signature (filter re_ignored (recurring_errors st))\<rparr>"

definition build_filtered :: "log_env \<Rightarrow> 'a log_db_scheme \<Rightarrow> log_filter \<Rightarrow> string + log_row list" where
  "build_filtered le st f =
     map_sum id (filtered_rows (le_sig le) (site_aliases st) (error_kw (ls_error_keyword (log_settings st))) f (log_marks_of st))
       (le_rows le)"

definition error_filter :: "datetime \<Rightarrow> datetime \<Rightarrow> string option \<Rightarrow> bool \<Rightarrow> bool \<Rightarrow> log_filter" where
  "error_filter start stop sg no_resolved no_ignored =
     \<lparr>lf_start = to_second start, lf_end = to_second stop, lf_sites = [], lf_types = [''Error''], lf_signature = sg,
      lf_search = None, lf_log_id = None, lf_exclude_resolved = no_resolved, lf_exclude_ignored = no_ignored\<rparr>"

definition setdefault :: "string \<Rightarrow> 'v \<Rightarrow> (string \<times> 'v) list \<Rightarrow> (string \<times> 'v) list" where
  "setdefault k v m = (if map_of m k = None then m @ [(k, v)] else m)"

definition site_values :: "hosted_site \<Rightarrow> string list" where
  "site_values row = filter (\<lambda>v. v \<noteq> []) [opt_str (hs_site_url row), hs_site_name row]"

definition add_alias_host :: "string \<times> string \<Rightarrow> (string \<times> string) list \<Rightarrow> (string \<times> string) list" where
  "add_alias_host a m =
     (let target = normalize_site (Some (snd a))
      in case (case map_of m (fst a) of Some h \<Rightarrow> Some h | None \<Rightarrow> map_of m target) of
           None \<Rightarrow> m | Some host \<Rightarrow> setdefault target host m)"

definition monitored_hosts_by_site :: "'a log_db_scheme \<Rightarrow> (string \<times> string) list" where
  "monitored_hosts_by_site st =
     fold add_alias_host (site_aliases st)
       (fold (\<lambda>h m. fold (\<lambda>row m. fold (\<lambda>v. setdefault (normalize_site (Some v)) (mh_name h)) (site_values row) m)
          (mh_hosted_sites h) m) (monitored_hosts st) [])"

subsection \<open>The check\<close>

definition error_name :: "string \<Rightarrow> string" where "error_name sg = ''RE-'' @ sg"

definition new_error :: "string \<Rightarrow> recurring_error" where
  "new_error sg = \<lparr>re_name = error_name sg, re_signature = sg, re_title = [], re_site_url = [], re_monitored_host = None,
     re_window_count = 0, re_peak_window_count = 0, re_first_seen = None, re_last_seen = None, re_latest_log_id = [],
     re_is_critical = False, re_alert_count = 0, re_last_alerted = None, re_last_recovered = None, re_resolved_at = None,
     re_resolved_by = [], re_ignored = False, re_ignored_at = None, re_ignored_by = []\<rparr>"

definition error_doc :: "string \<Rightarrow> 'a log_db_scheme \<Rightarrow> recurring_error" where
  "error_doc sg st = (case find_row re_signature sg (recurring_errors st) of Some d \<Rightarrow> d | None \<Rightarrow> new_error sg)"

definition save_error :: "recurring_error \<Rightarrow> 'a log_db_scheme \<Rightarrow> 'a log_db_scheme" where
  "save_error d st = st\<lparr>recurring_errors := put_row re_name d (recurring_errors st)\<rparr>"

definition open_error :: "string \<Rightarrow> 'a alert_db_scheme \<Rightarrow> bool" where
  "open_error name st \<longleftrightarrow> has_open_alert RECURRING_ERROR name RECURRING_ERROR st"

definition breach_doc :: "(string \<times> string) list \<Rightarrow> error_group \<Rightarrow> recurring_error \<Rightarrow> recurring_error" where
  "breach_doc hosts row doc =
     doc\<lparr>re_signature := eg_signature row,
         re_title := (if eg_title row \<noteq> [] then eg_title row else ''(no message)''),
         re_site_url := eg_site_url row,
         re_monitored_host := map_of hosts (normalize_site (Some (eg_site_url row))),
         re_window_count := eg_occurrences row,
         re_peak_window_count := max (re_peak_window_count doc) (eg_occurrences row),
         re_last_seen := Some (eg_last_seen row), re_latest_log_id := eg_latest_log_id row, re_is_critical := True,
         re_first_seen := (case re_first_seen doc of None \<Rightarrow> Some (eg_first_seen row) | t \<Rightarrow> t)\<rparr>"

definition breach_message :: "int \<Rightarrow> recurring_error \<Rightarrow> error_group \<Rightarrow> string" where
  "breach_message window doc row =
     re_title doc @ '' '' @ utf8_dash @ '' '' @ show_int (eg_occurrences row) @ ''x in the last '' @ show_int window @
     '' min on '' @ re_site_url doc @ '' (last at '' @ show_datetime (eg_last_seen row) @ '')''"

text \<open>One breaching signature; the second component counts the alerts.\<close>

definition breach_step ::
    "log_env \<Rightarrow> datetime \<Rightarrow> int \<Rightarrow> (string \<times> string) list \<Rightarrow> error_group \<Rightarrow> 'a log_db_scheme \<times> int \<Rightarrow> 'a log_db_scheme \<times> int" where
  "breach_step le now window hosts row acc =
     (let (st, alerted) = acc; old = error_doc (eg_signature row) st; doc = breach_doc hosts row old;
          needs_alert = (\<not> re_is_critical old \<or> \<not> open_error (re_name doc) st)
      in if needs_alert
         then (dispatch_alert (le_env le) RECURRING_ERROR RECURRING_ERROR (re_name doc) (breach_message window doc row) True
                 (save_error (doc\<lparr>re_alert_count := re_alert_count doc + 1, re_last_alerted := Some now\<rparr>) st), alerted + 1)
         else (save_error doc st, alerted))"

definition recover_message :: "int \<Rightarrow> int \<Rightarrow> recurring_error \<Rightarrow> string" where
  "recover_message threshold window r =
     ''Back to normal: '' @ re_title r @ '' on '' @ re_site_url r @ '' '' @ utf8_dash @ '' under '' @ show_int threshold @
     ''x in the last '' @ show_int window @ '' min''"

definition recover_step ::
    "log_env \<Rightarrow> datetime \<Rightarrow> int \<Rightarrow> int \<Rightarrow> recurring_error \<Rightarrow> 'a log_db_scheme \<Rightarrow> 'a log_db_scheme" where
  "recover_step le now threshold window r st =
     (let st1 = st\<lparr>recurring_errors := map (\<lambda>x. if re_name x = re_name r
                    then x\<lparr>re_is_critical := False, re_window_count := 0, re_last_recovered := Some now\<rparr> else x)
                  (recurring_errors st)\<rparr>
      in if open_error (re_name r) st1
         then dispatch_recovery (le_env le) RECURRING_ERROR RECURRING_ERROR (re_name r) (recover_message threshold window r) True
                (resolve_alert RECURRING_ERROR (re_name r) RECURRING_ERROR st1)
         else st1)"

record check_result =
  ck_breaching :: int
  ck_alerted :: int
  ck_recovered :: int

definition check_threshold :: "'a log_db_scheme \<Rightarrow> int" where
  "check_threshold st = max (opt_int (ls_occurrence_threshold (log_settings st))) 1"

definition check_window :: "'a log_db_scheme \<Rightarrow> int" where
  "check_window st = max (opt_int (ls_window_minutes (log_settings st))) 1"

definition breaching_groups :: "log_env \<Rightarrow> datetime \<Rightarrow> 'a log_db_scheme \<Rightarrow> string + error_group list" where
  "breaching_groups le now st =
     map_sum id (group_errors (check_threshold st) MAX_GROUPS)
       (build_filtered le st (error_filter (now - check_window st * MINUTE) (now + SECOND) None True True))"

definition apply_check :: "log_env \<Rightarrow> datetime \<Rightarrow> error_group list \<Rightarrow> 'a log_db_scheme \<Rightarrow> 'a log_db_scheme \<times> check_result" where
  "apply_check le now rows st =
     (let threshold = check_threshold st; window = check_window st; hosts = monitored_hosts_by_site st;
          (st1, alerted) = fold (breach_step le now window hosts) rows (st, 0);
          gone = filter (\<lambda>r. re_is_critical r \<and> \<not> re_ignored r \<and> re_signature r \<notin> set (map eg_signature rows)) (recurring_errors st1)
      in (fold (recover_step le now threshold window) gone st1,
          \<lparr>ck_breaching = int (length rows), ck_alerted = alerted, ck_recovered = int (length gone)\<rparr>))"

definition run_check :: "log_env \<Rightarrow> datetime \<Rightarrow> 'a log_db_scheme \<Rightarrow> string + ('a log_db_scheme \<times> check_result)" where
  "run_check le now st = map_sum id (\<lambda>rows. apply_check le now rows st) (breaching_groups le now st)"

definition set_last_checked :: "datetime option \<Rightarrow> string option \<Rightarrow> 'a log_db_scheme \<Rightarrow> 'a log_db_scheme" where
  "set_last_checked t err st = st\<lparr>log_settings := (log_settings st)\<lparr>ls_last_checked := t, ls_last_error := err\<rparr>\<rparr>"

text \<open>The cron entry: at most one pass per interval; a failed pass is rolled back and noted.\<close>

definition check_recurring_errors :: "log_env \<Rightarrow> 'a log_db_scheme \<Rightarrow> 'a log_db_scheme" where
  "check_recurring_errors le st =
     (let s = log_settings st; now = le_now le; interval = max (opt_int (ls_check_interval_minutes s)) 1
      in if \<not> ls_enabled s \<or> \<not> ls_enable_recurring_alerts s \<or> \<not> truthy (ls_host s) then st
         else if (case last_check st of None \<Rightarrow> False | Some t \<Rightarrow> t > now - interval * MINUTE + 10 * SECOND) then st
         else
           let st1 = st\<lparr>last_check := Some now\<rparr>
           in case run_check le now st1 of
                Inr (st2, _) \<Rightarrow> set_last_checked (Some now) None st2
              | Inl e \<Rightarrow> set_last_checked (Some now) (Some e)
                  (log_error ''alfaEdge Pulse: recurring error check failed'' st1))"

subsection \<open>Resolving and ignoring\<close>

datatype api_refusal = Forbidden | Refused string | Query_failed string

definition allowed :: "string list \<Rightarrow> string list \<Rightarrow> bool" where
  "allowed roles needed \<longleftrightarrow> list_ex (\<lambda>r. r \<in> set needed) roles"

record error_info =
  ei_site_url :: string
  ei_title :: string
  ei_first_seen :: datetime
  ei_last_seen :: datetime

definition lookup_error :: "log_env \<Rightarrow> 'a log_db_scheme \<Rightarrow> string \<Rightarrow> api_refusal + error_info" where
  "lookup_error le st sg =
     (if sg = [] \<or> \<not> list_all is_digit sg then Inl (Refused ''Invalid error signature'')
      else case build_filtered le st (error_filter (le_now le - 30 * DAY) (le_now le + SECOND) (Some sg) False False) of
             Inl e \<Rightarrow> Inl (Query_failed e)
           | Inr [] \<Rightarrow> Inl (Refused ''No error with this signature in the last 30 days'')
           | Inr rows \<Rightarrow> Inr \<lparr>ei_site_url = lm_site (hd rows), ei_title = lm_title (latest_row rows),
               ei_first_seen = to_second (Min (set (map lm_ts rows))), ei_last_seen = to_second (Max (set (map lm_ts rows)))\<rparr>)"

definition recurring_error_doc :: "string \<Rightarrow> error_info \<Rightarrow> 'a log_db_scheme \<Rightarrow> recurring_error" where
  "recurring_error_doc sg info st =
     (let d = error_doc sg st
      in d\<lparr>re_signature := sg,
           re_title := (if re_title d \<noteq> [] then re_title d else if ei_title info \<noteq> [] then ei_title info else ''(no message)''),
           re_site_url := (if re_site_url d \<noteq> [] then re_site_url d else ei_site_url info),
           re_first_seen := (case re_first_seen d of None \<Rightarrow> Some (ei_first_seen info) | t \<Rightarrow> t),
           re_last_seen := Some (ei_last_seen info)\<rparr>)"

definition resolve_error ::
    "log_env \<Rightarrow> string list \<Rightarrow> string \<Rightarrow> string \<Rightarrow> string \<Rightarrow> 'a log_db_scheme \<Rightarrow> 'a log_db_scheme \<times> (api_refusal + unit)" where
  "resolve_error le roles user fullname signature st =
     (if \<not> allowed roles RESOLVE_ROLES then (st, Inl Forbidden)
      else
        let sg = py_strip signature
        in case lookup_error le st sg of
             Inl e \<Rightarrow> (st, Inl e)
           | Inr info \<Rightarrow>
               let doc = (recurring_error_doc sg info st)\<lparr>re_is_critical := False, re_window_count := 0,
                           re_resolved_at := Some (le_now le), re_resolved_by := user\<rparr>;
                   st1 = save_error doc st
               in (if open_error (re_name doc) st1
                   then dispatch_recovery (le_env le) RECURRING_ERROR RECURRING_ERROR (re_name doc)
                          (''Marked resolved by '' @ fullname @ '': '' @ re_title doc @ '' on '' @ re_site_url doc) True
                          (resolve_alert RECURRING_ERROR (re_name doc) RECURRING_ERROR st1)
                   else st1, Inr ()))"

definition set_error_ignored ::
    "log_env \<Rightarrow> string list \<Rightarrow> string \<Rightarrow> string \<Rightarrow> bool \<Rightarrow> 'a log_db_scheme \<Rightarrow> 'a log_db_scheme \<times> (api_refusal + bool)" where
  "set_error_ignored le roles user signature ignore st =
     (if user \<noteq> ''Administrator'' \<and> \<not> allowed roles IGNORE_ROLES then (st, Inl Forbidden)
      else
        let sg = py_strip signature
        in case lookup_error le st sg of
             Inl e \<Rightarrow> (st, Inl e)
           | Inr info \<Rightarrow>
               let d = recurring_error_doc sg info st;
                   doc = (if ignore
                          then d\<lparr>re_ignored := True, re_ignored_at := Some (le_now le), re_ignored_by := user,
                                 re_is_critical := False, re_window_count := 0\<rparr>
                          else d\<lparr>re_ignored := False, re_ignored_at := None, re_ignored_by := []\<rparr>);
                   st1 = save_error doc st
               in (if ignore \<and> open_error (re_name doc) st1
                   then resolve_alert RECURRING_ERROR (re_name doc) RECURRING_ERROR st1 else st1, Inr ignore))"

subsection \<open>Aliases\<close>

text \<open>\<open>LogSiteAlias.validate\<close> on the document \<open>(source, site)\<close> of the host \<open>source\<close>.\<close>

definition validate_alias :: "string \<Rightarrow> string \<Rightarrow> (string \<times> string) list \<Rightarrow> string + (string \<times> string)" where
  "validate_alias source_host site aliases =
     (let src = normalize_site (Some source_host); tgt = normalize_site_label (Some site)
      in if src = [] then Inl ''Host in Logs is required''
         else if tgt = [] then Inl ''Show As is required''
         else if tgt = src then Inl ''Show As must differ from the host itself''
         else if list_ex (\<lambda>(s, t). t = src \<and> s \<noteq> src) aliases
         then Inl (''Other hosts are already shown as '' @ src)
         else Inr (src, case map_of aliases tgt of Some t \<Rightarrow> t | None \<Rightarrow> tgt))"

definition save_site_alias ::
    "string list \<Rightarrow> string \<Rightarrow> string \<Rightarrow> 'a log_db_scheme \<Rightarrow> 'a log_db_scheme \<times> (api_refusal + string option)" where
  "save_site_alias roles source_host site st =
     (if \<not> allowed roles ALIAS_ROLES then (st, Inl Forbidden)
      else
        let src = normalize_site (Some source_host); shown = py_strip site
        in if src = [] then (st, Inl (Refused ''Host is required''))
           else if shown = [] \<or> normalize_site (Some shown) = src
           then (st\<lparr>site_aliases := filter (\<lambda>a. fst a \<noteq> src) (site_aliases st)\<rparr>, Inr None)
           else case validate_alias src shown (site_aliases st) of
                  Inl e \<Rightarrow> (st, Inl (Refused e))
                | Inr (s, t) \<Rightarrow> (st\<lparr>site_aliases := put_row fst (s, t) (site_aliases st)\<rparr>, Inr (Some t)))"

subsection \<open>What alerts leave alone\<close>

lemma log_fields_of_more:
  fixes s t :: "'a log_db_scheme"
  assumes "alert_db.more s = alert_db.more t"
  shows "recurring_errors s = recurring_errors t" "log_settings s = log_settings t" "site_aliases s = site_aliases t"
    "monitored_hosts s = monitored_hosts t"
  using assms by (cases s; cases t; simp)+

lemma log_alert_frame [frame_simps, simp]:
  fixes st :: "'a log_db_scheme"
  shows "recurring_errors (dispatch_alert e ty d n m g st) = recurring_errors st"
    "recurring_errors (dispatch_recovery e ty d n m g st) = recurring_errors st"
    "alert_inv st \<Longrightarrow> recurring_errors (resolve_alert d n ty st) = recurring_errors st"
  by (rule log_fields_of_more; simp)+

lemma log_store_frame [simp]:
  fixes st :: "'a log_db_scheme"
  shows "alert_log (save_error d st) = alert_log st" "next_alert (save_error d st) = next_alert st"
    "recurring_errors (save_error d st) = put_row re_name d (recurring_errors st)"
  by (simp_all add: save_error_def)

lemma alert_inv_same_log:
  fixes s t :: "'a alert_db_scheme"
  assumes "alert_log s = alert_log t" and "next_alert s = next_alert t"
  shows "alert_inv s = alert_inv t" "open_alerts_of s = open_alerts_of t"
  using assms by (auto simp: alert_inv_def open_alerts_of_def fun_eq_iff)

lemma open_error_iff: "open_error n st \<longleftrightarrow> 0 < open_alerts_of st (RECURRING_ERROR, n, RECURRING_ERROR)"
  by (simp add: open_error_def has_open_iff)

text \<open>Which errors are flagged critical.\<close>

definition flagged :: "string \<Rightarrow> 'a log_db_scheme \<Rightarrow> bool" where
  "flagged n st \<longleftrightarrow> (case find_row re_name n (recurring_errors st) of None \<Rightarrow> False | Some r \<Rightarrow> re_is_critical r)"

definition errors_wf :: "recurring_error list \<Rightarrow> bool" where
  "errors_wf rs \<longleftrightarrow> distinct (map re_name rs) \<and>
     list_all (\<lambda>r. re_name r = error_name (re_signature r) \<and> \<not> (re_ignored r \<and> re_is_critical r)) rs"

text \<open>The invariant: names follow signatures, nothing ignored is critical, and an incident is open exactly
  for the errors flagged critical.\<close>

definition error_inv :: "'a log_db_scheme \<Rightarrow> bool" where
  "error_inv st \<longleftrightarrow> alert_inv st \<and> errors_wf (recurring_errors st) \<and> (\<forall>n. open_error n st = flagged n st)"

lemma error_name_inj [simp]: "error_name a = error_name b \<longleftrightarrow> a = b"
  by (simp add: error_name_def)

lemma find_by_signature:
  assumes "errors_wf rs"
  shows "find_row re_signature sg rs = find_row re_name (error_name sg) rs"
  using assms unfolding errors_wf_def find_row_def by (induction rs) auto

lemma error_doc_facts:
  assumes "errors_wf (recurring_errors st)"
  shows "re_name (error_doc sg st) = error_name sg" "re_signature (error_doc sg st) = sg"
    "flagged (error_name sg) st = re_is_critical (error_doc sg st)"
    "\<not> (re_ignored (error_doc sg st) \<and> re_is_critical (error_doc sg st))"
    "re_ignored (error_doc sg st) \<Longrightarrow> sg \<in> set (mk_ignored (log_marks_of st))"
proof -
  show "re_name (error_doc sg st) = error_name sg" "re_signature (error_doc sg st) = sg"
    "flagged (error_name sg) st = re_is_critical (error_doc sg st)"
    "\<not> (re_ignored (error_doc sg st) \<and> re_is_critical (error_doc sg st))"
    using assms find_by_signature [OF assms, of sg]
    by (auto simp: error_doc_def new_error_def flagged_def errors_wf_def list_all_iff split: option.splits dest!: find_row_Some)
  show "re_ignored (error_doc sg st) \<Longrightarrow> sg \<in> set (mk_ignored (log_marks_of st))"
    by (auto simp: error_doc_def new_error_def log_marks_of_def split: option.splits dest!: find_row_Some)
qed

lemma errors_wf_put:
  assumes "errors_wf rs" and "re_name d = error_name (re_signature d)" and "\<not> (re_ignored d \<and> re_is_critical d)"
  shows "errors_wf (put_row re_name d rs)"
  using assms set_put_row(1) [of re_name d rs] distinct_put_row [of re_name rs d]
  by (fastforce simp: errors_wf_def list_all_iff)

lemma flagged_put:
  assumes "recurring_errors st' = put_row re_name d (recurring_errors st)"
  shows "flagged n st' = (if n = re_name d then re_is_critical d else flagged n st)"
  by (simp add: flagged_def assms find_row_put)

subsection \<open>The two loops\<close>

lemma breach_doc_facts:
  "re_signature (breach_doc hosts row d) = eg_signature row" "re_is_critical (breach_doc hosts row d)"
  "re_ignored (breach_doc hosts row d) = re_ignored d" "re_name (breach_doc hosts row d) = re_name d"
  by (simp_all add: breach_doc_def)

lemma breach_step_inv:
  fixes st :: "'a log_db_scheme"
  assumes "error_inv st" and "\<not> re_ignored (error_doc (eg_signature row) st)"
  shows "error_inv (fst (breach_step le now window hosts row (st, k)))"
    and "flagged n (fst (breach_step le now window hosts row (st, k))) \<longleftrightarrow> n = error_name (eg_signature row) \<or> flagged n st"
    and "\<not> re_ignored (error_doc sg st) \<Longrightarrow> \<not> re_ignored (error_doc sg (fst (breach_step le now window hosts row (st, k))))"
proof -
  have wf: "errors_wf (recurring_errors st)" and ai: "alert_inv st" and inc: "\<And>n. open_error n st = flagged n st"
    using assms(1) by (auto simp: error_inv_def)
  define old where "old = error_doc (eg_signature row) st"
  note old = error_doc_facts [OF wf, of "eg_signature row", folded old_def]
  define d where "d = (if \<not> re_is_critical old \<or> \<not> open_error (re_name (breach_doc hosts row old)) st
      then (breach_doc hosts row old)\<lparr>re_alert_count := re_alert_count (breach_doc hosts row old) + 1, re_last_alerted := Some now\<rparr>
      else breach_doc hosts row old)"
  have d: "re_name d = error_name (eg_signature row)" "re_signature d = eg_signature row" "re_is_critical d" "\<not> re_ignored d"
    using old assms(2) by (simp_all add: d_def breach_doc_facts old_def)
  let ?st' = "fst (breach_step le now window hosts row (st, k))"
  define need where "need \<longleftrightarrow> \<not> re_is_critical old \<or> \<not> open_error (error_name (eg_signature row)) st"
  have step: "?st' = (if need
      then dispatch_alert (le_env le) RECURRING_ERROR RECURRING_ERROR (re_name d)
             (breach_message window (breach_doc hosts row old) row) True (save_error d st) else save_error d st)"
    using old(1) by (simp add: breach_step_def Let_def d_def need_def breach_doc_facts flip: old_def)
  have recs: "recurring_errors ?st' = put_row re_name d (recurring_errors st)" unfolding step by simp
  have same: "alert_inv (save_error d st)" "open_alerts_of (save_error d st) = open_alerts_of st"
    using alert_inv_same_log [of "save_error d st" st] ai by simp_all
  have ai': "alert_inv ?st'" unfolding step using same by (simp add: alert_inv_dispatch)
  have wf': "errors_wf (recurring_errors ?st')" unfolding recs by (rule errors_wf_put [OF wf]) (use d in simp_all)
  have flag: "flagged n ?st' \<longleftrightarrow> n = error_name (eg_signature row) \<or> flagged n st" for n
    using flagged_put [OF recs] d by auto
  then show "flagged n ?st' \<longleftrightarrow> n = error_name (eg_signature row) \<or> flagged n st" .
  have "open_error n ?st' \<longleftrightarrow> n = error_name (eg_signature row) \<or> open_error n st" for n
    unfolding step using same d(1) by (auto simp: open_error_iff open_dispatch need_def)
  with flag inc ai' wf' show "error_inv ?st'" by (simp add: error_inv_def)
  show "\<not> re_ignored (error_doc sg st) \<Longrightarrow> \<not> re_ignored (error_doc sg ?st')"
    using find_by_signature [OF wf, of sg] find_by_signature [OF wf', of sg] d(1,4)
    by (auto simp: error_doc_def recs find_row_put new_error_def split: option.splits if_splits)
qed

lemma breach_fold_inv:
  fixes st :: "'a log_db_scheme"
  assumes "error_inv st" and "\<And>row. row \<in> set rows \<Longrightarrow> \<not> re_ignored (error_doc (eg_signature row) st)"
  shows "error_inv (fst (fold (breach_step le now window hosts) rows (st, k))) \<and>
    (\<forall>n. flagged n (fst (fold (breach_step le now window hosts) rows (st, k))) \<longleftrightarrow>
       n \<in> (\<lambda>row. error_name (eg_signature row)) ` set rows \<or> flagged n st)"
  using assms
proof (induction rows arbitrary: st k)
  case (Cons row rows)
  let ?st1 = "fst (breach_step le now window hosts row (st, k))" and ?k1 = "snd (breach_step le now window hosts row (st, k))"
  have ok: "\<not> re_ignored (error_doc (eg_signature row) st)" using Cons.prems(2) by simp
  note step = breach_step_inv [OF Cons.prems(1) ok]
  have later: "row' \<in> set rows \<Longrightarrow> \<not> re_ignored (error_doc (eg_signature row') ?st1)" for row'
    using step(3) Cons.prems(2) by simp
  have "fold (breach_step le now window hosts) (row # rows) (st, k) = fold (breach_step le now window hosts) rows (?st1, ?k1)"
    by simp
  then show ?case
    using Cons.IH [OF step(1) later, of ?k1] step(2) by (simp only:) auto
qed simp

lemma recover_step_inv:
  fixes st :: "'a log_db_scheme"
  assumes "error_inv st"
  shows "error_inv (recover_step le now threshold window r st)"
    and "flagged n (recover_step le now threshold window r st) \<longleftrightarrow> flagged n st \<and> n \<noteq> re_name r"
proof -
  have wf: "errors_wf (recurring_errors st)" and ai: "alert_inv st" and inc: "\<And>n. open_error n st = flagged n st"
    using assms by (auto simp: error_inv_def)
  define f :: "recurring_error \<Rightarrow> recurring_error" where "f = (\<lambda>x. x\<lparr>re_is_critical := False, re_window_count := 0, re_last_recovered := Some now\<rparr>)"
  define st1 where "st1 = st\<lparr>recurring_errors := map (\<lambda>x. if re_name x = re_name r then f x else x) (recurring_errors st)\<rparr>"
  let ?st' = "recover_step le now threshold window r st"
  have same: "alert_inv st1" "open_alerts_of st1 = open_alerts_of st"
    using alert_inv_same_log [of st1 st] ai by (simp_all add: st1_def)
  have step: "?st' = (if open_error (re_name r) st1
      then dispatch_recovery (le_env le) RECURRING_ERROR RECURRING_ERROR (re_name r) (recover_message threshold window r) True
             (resolve_alert RECURRING_ERROR (re_name r) RECURRING_ERROR st1) else st1)"
    unfolding recover_step_def Let_def st1_def f_def ..
  have recs: "recurring_errors ?st' = map (\<lambda>x. if re_name x = re_name r then f x else x) (recurring_errors st)"
    unfolding step using same(1) by (simp add: st1_def)
  have wf': "errors_wf (recurring_errors ?st')"
    using wf unfolding recs errors_wf_def by (auto simp: list_all_iff f_def comp_def if_distrib cong: if_cong)
  have flag: "flagged n ?st' \<longleftrightarrow> flagged n st \<and> n \<noteq> re_name r" for n
    unfolding flagged_def recs using find_row_map_if [of re_name f n "\<lambda>x. re_name x = re_name r" "recurring_errors st"]
    by (auto simp: f_def split: option.split dest: find_row_Some)
  then show "flagged n ?st' \<longleftrightarrow> flagged n st \<and> n \<noteq> re_name r" .
  have ai': "alert_inv ?st'" unfolding step using same by (simp add: alert_inv_resolve alert_inv_recovery)
  have "open_error n ?st' \<longleftrightarrow> open_error n st \<and> n \<noteq> re_name r" for n
    unfolding step using same by (auto simp: open_error_iff open_recovery open_resolve)
  with flag inc ai' wf' show "error_inv ?st'" by (simp add: error_inv_def)
qed

lemma recover_fold_inv:
  fixes st :: "'a log_db_scheme"
  assumes "error_inv st"
  shows "error_inv (fold (recover_step le now threshold window) rs st) \<and>
    (\<forall>n. flagged n (fold (recover_step le now threshold window) rs st) \<longleftrightarrow> flagged n st \<and> n \<notin> re_name ` set rs)"
  using assms
proof (induction rs arbitrary: st)
  case (Cons r rs)
  show ?case
    using Cons.IH [OF recover_step_inv(1) [OF Cons.prems]] recover_step_inv(2) [OF Cons.prems] by auto
qed simp

text \<open>After a pass the open incidents are exactly the breaching signatures.\<close>

lemma apply_check_inv:
  fixes st :: "'a log_db_scheme"
  assumes "error_inv st" and "\<And>row. row \<in> set rows \<Longrightarrow> \<not> re_ignored (error_doc (eg_signature row) st)"
  shows "error_inv (fst (apply_check le now rows st)) \<and>
    (\<forall>n. flagged n (fst (apply_check le now rows st)) \<longleftrightarrow> n \<in> (\<lambda>row. error_name (eg_signature row)) ` set rows)"
proof -
  define p where "p = fold (breach_step le now (check_window st) (monitored_hosts_by_site st)) rows (st, 0)"
  define gone where "gone = filter (\<lambda>r. re_is_critical r \<and> \<not> re_ignored r \<and> re_signature r \<notin> set (map eg_signature rows))
      (recurring_errors (fst p))"
  from breach_fold_inv [OF assms] have inv: "error_inv (fst p)"
    and flag: "\<And>n. flagged n (fst p) \<longleftrightarrow> n \<in> (\<lambda>row. error_name (eg_signature row)) ` set rows \<or> flagged n st"
    unfolding p_def by blast+
  have res: "fst (apply_check le now rows st) = fold (recover_step le now (check_threshold st) (check_window st)) gone (fst p)"
    by (simp add: apply_check_def Let_def case_prod_unfold p_def gone_def)
  have wf: "errors_wf (recurring_errors (fst p))" using inv by (simp add: error_inv_def)
  have goner: "n \<in> re_name ` set gone \<longleftrightarrow> flagged n (fst p) \<and> n \<notin> (\<lambda>row. error_name (eg_signature row)) ` set rows" for n
  proof
    assume "n \<in> re_name ` set gone"
    then obtain r where r: "r \<in> set (recurring_errors (fst p))" "re_is_critical r" "re_signature r \<notin> eg_signature ` set rows" "n = re_name r"
      by (auto simp: gone_def)
    have "find_row re_name (re_name r) (recurring_errors (fst p)) = Some r"
      by (rule find_row_member) (use wf r(1) in \<open>simp_all add: errors_wf_def\<close>)
    moreover have "n = error_name (re_signature r)" using wf r by (auto simp: errors_wf_def list_all_iff)
    ultimately show "flagged n (fst p) \<and> n \<notin> (\<lambda>row. error_name (eg_signature row)) ` set rows"
      using r by (auto simp: flagged_def)
  next
    assume a: "flagged n (fst p) \<and> n \<notin> (\<lambda>row. error_name (eg_signature row)) ` set rows"
    then obtain r where "find_row re_name n (recurring_errors (fst p)) = Some r" "re_is_critical r"
      by (auto simp: flagged_def split: option.splits)
    then have r: "r \<in> set (recurring_errors (fst p))" "re_name r = n" "re_is_critical r" by (auto dest: find_row_Some)
    with wf have nm: "re_name r = error_name (re_signature r)" and "\<not> re_ignored r" by (auto simp: errors_wf_def list_all_iff)
    moreover have "re_signature r \<notin> set (map eg_signature rows)" using a r(2) nm by auto
    ultimately have "r \<in> set gone" using r by (simp add: gone_def)
    then show "n \<in> re_name ` set gone" using r(2) by blast
  qed
  note rec = recover_fold_inv [OF inv, of le now "check_threshold st" "check_window st" gone]
  have "flagged n (fst p) \<and> n \<notin> re_name ` set gone \<longleftrightarrow> n \<in> (\<lambda>row. error_name (eg_signature row)) ` set rows" for n
    using goner [of n] flag [of n] by argo
  then show ?thesis unfolding res using rec by simp
qed

subsection \<open>Grouping\<close>

definition sig_count :: "log_row list \<Rightarrow> string \<Rightarrow> int" where
  "sig_count rows sg = int (length (filter (\<lambda>r. lm_sig r = sg) rows))"

definition big_signatures :: "int \<Rightarrow> log_row list \<Rightarrow> string list" where
  "big_signatures threshold rows = filter (\<lambda>sg. threshold \<le> sig_count rows sg) (remdups (map lm_sig rows))"

definition big_groups :: "int \<Rightarrow> log_row list \<Rightarrow> error_group list" where
  "big_groups threshold rows = filter (\<lambda>g. eg_occurrences g \<ge> threshold) (map error_group_of (group_rows lm_sig rows))"

lemma map_filter_image: "(\<And>x. x \<in> set xs \<Longrightarrow> P (f x) = Q (g x)) \<Longrightarrow> (\<And>x. x \<in> set xs \<Longrightarrow> h (f x) = g x) \<Longrightarrow>
    map h (filter P (map f xs)) = filter Q (map g xs)"
  by (induction xs) auto

lemma big_groups_signatures:
  "map eg_signature (big_groups threshold rows) = filter (\<lambda>sg. threshold \<le> sig_count rows sg) (map fst (group_rows lm_sig rows))"
  unfolding big_groups_def
proof (rule map_filter_image)
  fix p assume p: "p \<in> set (group_rows lm_sig rows)"
  obtain sg g where pe: "p = (sg, g)" by (cases p)
  with group_rows_mem(1) [of sg g lm_sig rows] p
  show "(threshold \<le> eg_occurrences (error_group_of p)) = (threshold \<le> sig_count rows (fst p))"
    by (simp add: error_group_of_def sig_count_def)
  show "eg_signature (error_group_of p) = fst p" by (simp add: error_group_of_def pe)
qed

lemma big_groups_set: "eg_signature ` set (big_groups threshold rows) = set (big_signatures threshold rows)"
proof -
  have "eg_signature ` set (big_groups threshold rows) = set (map eg_signature (big_groups threshold rows))" by simp
  also have "\<dots> = {sg \<in> fst ` set (group_rows lm_sig rows). threshold \<le> sig_count rows sg}"
    unfolding big_groups_signatures by auto
  finally show ?thesis by (auto simp: group_rows_keys big_signatures_def)
qed

lemma length_big_groups: "length (big_groups threshold rows) = length (big_signatures threshold rows)"
proof -
  have "distinct (map eg_signature (big_groups threshold rows))"
    unfolding big_groups_signatures by (rule distinct_filter [OF distinct_group_rows])
  then have "length (big_groups threshold rows) = card (eg_signature ` set (big_groups threshold rows))"
    by (metis distinct_card length_map list.set_map)
  also have "\<dots> = length (big_signatures threshold rows)"
    unfolding big_groups_set by (rule distinct_card) (simp add: big_signatures_def)
  finally show ?thesis .
qed

lemma group_errors_subset: "set (group_errors threshold n rows) \<subseteq> set (big_groups threshold rows)"
  by (auto simp: group_errors_def big_groups_def dest: in_set_takeD)

lemma group_errors_all:
  assumes "length (big_signatures threshold rows) \<le> n"
  shows "eg_signature ` set (group_errors threshold n rows) = set (big_signatures threshold rows)"
proof -
  have "take n (sort_key (\<lambda>g. - eg_occurrences g) (big_groups threshold rows)) = sort_key (\<lambda>g. - eg_occurrences g) (big_groups threshold rows)"
    using assms by (simp add: length_big_groups)
  then have "set (group_errors threshold n rows) = set (big_groups threshold rows)"
    unfolding group_errors_def big_groups_def [symmetric] by simp
  then show ?thesis by (simp add: big_groups_set)
qed

subsection \<open>A pass\<close>

text \<open>The error rows a pass counts: those of the window that are not resolved and not ignored.\<close>

definition counted_rows :: "log_env \<Rightarrow> datetime \<Rightarrow> 'a log_db_scheme \<Rightarrow> string + log_row list" where
  "counted_rows le now st = build_filtered le st (error_filter (now - check_window st * MINUTE) (now + SECOND) None True True)"

lemma counted_not_ignored:
  assumes "counted_rows le now st = Inr logs" and "r \<in> set logs"
  shows "lm_sig r \<notin> set (mk_ignored (log_marks_of st))"
  using assms by (auto simp: counted_rows_def build_filtered_def filtered_rows_def row_passes_def error_filter_def
      split: sum.splits simp: map_sum_def)

lemma run_check_parts:
  assumes "run_check le now st = Inr (st', res)"
  obtains logs where "counted_rows le now st = Inr logs"
    and "(st', res) = apply_check le now (group_errors (check_threshold st) MAX_GROUPS logs) st"
  using assms by (auto simp: run_check_def breaching_groups_def counted_rows_def map_sum_def split: sum.splits)

lemma run_check_inv:
  fixes st :: "'a log_db_scheme"
  assumes "error_inv st" and "counted_rows le now st = Inr logs"
    and "(st', res) = apply_check le now (group_errors (check_threshold st) MAX_GROUPS logs) st"
  shows "error_inv st' \<and> (\<forall>n. flagged n st' \<longleftrightarrow> n \<in> (\<lambda>row. error_name (eg_signature row)) ` set (group_errors (check_threshold st) MAX_GROUPS logs))"
proof -
  have wf: "errors_wf (recurring_errors st)" using assms(1) by (simp add: error_inv_def)
  have "\<not> re_ignored (error_doc (eg_signature row) st)" if "row \<in> set (group_errors (check_threshold st) MAX_GROUPS logs)" for row
  proof -
    have "eg_signature row \<in> set (big_signatures (check_threshold st) logs)"
      using that group_errors_subset big_groups_set by fastforce
    then obtain r where "r \<in> set logs" "lm_sig r = eg_signature row" by (auto simp: big_signatures_def)
    then have "eg_signature row \<notin> set (mk_ignored (log_marks_of st))" using counted_not_ignored [OF assms(2)] by metis
    then show ?thesis using error_doc_facts(5) [OF wf] by blast
  qed
  from apply_check_inv [OF assms(1) this] show ?thesis using assms(3) by (metis fst_conv)
qed

text \<open>What a pass means to count, beside the filter the query is built from: an Error row of the window whose
  error is neither ignored nor resolved at or after it, a resolution being cut to the second.\<close>

definition still_recurring :: "datetime \<Rightarrow> 'a log_db_scheme \<Rightarrow> log_row \<Rightarrow> bool" where
  "still_recurring now st r \<longleftrightarrow> lm_type r = ''Error'' \<and>
     to_second (now - check_window st * MINUTE) \<le> lm_ts r \<and> lm_ts r < to_second (now + SECOND) \<and>
     list_all (\<lambda>e. re_signature e = lm_sig r \<longrightarrow>
       \<not> re_ignored e \<and> (case re_resolved_at e of None \<Rightarrow> True | Some t \<Rightarrow> to_second t < lm_ts r)) (recurring_errors st)"

definition recurring_rows :: "log_env \<Rightarrow> datetime \<Rightarrow> 'a log_db_scheme \<Rightarrow> raw_log list \<Rightarrow> log_row list" where
  "recurring_rows le now st raws = filter (still_recurring now st)
     (map (base_row (le_sig le) (site_aliases st) (error_kw (ls_error_keyword (log_settings st)))) raws)"

lemma distinct_signatures: "errors_wf rs \<Longrightarrow> distinct (map re_signature rs)"
  unfolding errors_wf_def by (induction rs) (auto simp: list_all_iff)

lemma resolution_of:
  assumes "distinct (map re_signature rs)"
  shows "map_of (List.map_filter (\<lambda>r. map_option (\<lambda>t. (re_signature r, to_second t)) (re_resolved_at r)) rs) sg =
    (case find_row re_signature sg rs of None \<Rightarrow> None | Some e \<Rightarrow> map_option to_second (re_resolved_at e))"
  using assms
proof (induction rs)
  case (Cons e rs)
  have "find_row re_signature (re_signature e) rs = None"
    using Cons.prems unfolding find_row_def find_None_iff by (metis distinct.simps(2) image_eqI list.simps(9) list.set_map)
  with Cons show ?case by (auto simp: List.map_filter_simps find_row_def split: option.splits)
qed (simp add: find_row_def List.map_filter_simps)

lemma counted_rows_recurring:
  fixes st :: "'a log_db_scheme"
  assumes wf: "errors_wf (recurring_errors st)" and "le_rows le = Inr raws" and pos: "0 < to_second (now - check_window st * MINUTE)"
  shows "counted_rows le now st = Inr (recurring_rows le now st raws)"
proof -
  let ?f = "error_filter (now - check_window st * MINUTE) (now + SECOND) None True True"
  note dist = distinct_signatures [OF wf]
  have marks: "(case map_of (mk_resolutions (log_marks_of st)) (lm_sig r) of None \<Rightarrow> 0 | Some t \<Rightarrow> t) < lm_ts r \<longleftrightarrow>
      list_all (\<lambda>e. re_signature e = lm_sig r \<longrightarrow> (case re_resolved_at e of None \<Rightarrow> True | Some t \<Rightarrow> to_second t < lm_ts r)) (recurring_errors st)"
    if "0 < lm_ts r" for r
  proof (cases "find_row re_signature (lm_sig r) (recurring_errors st)")
    case None
    then have "list_all (\<lambda>e. re_signature e \<noteq> lm_sig r) (recurring_errors st)" by (auto simp: find_row_def find_None_iff list_all_iff)
    with None that show ?thesis by (simp add: log_marks_of_def resolution_of [OF dist] list_all_iff)
  next
    case (Some e)
    then have e: "e \<in> set (recurring_errors st)" "re_signature e = lm_sig r" by (auto dest: find_row_Some)
    have "inj_on re_signature (set (recurring_errors st))" using dist by (simp add: distinct_map)
    then have "e' = e" if "e' \<in> set (recurring_errors st)" "re_signature e' = lm_sig r" for e'
      by (rule inj_onD) (use e that in simp_all)
    then have "list_all (\<lambda>e. re_signature e = lm_sig r \<longrightarrow> P e) (recurring_errors st) \<longleftrightarrow> P e" for P
      unfolding list_all_iff using e by blast
    then show ?thesis using Some that by (simp add: log_marks_of_def resolution_of [OF dist] split: option.split)
  qed
  have no_marks: "list_all (\<lambda>e. re_resolved_at e = None) (recurring_errors st)" if "mk_resolutions (log_marks_of st) = []"
    using that by (auto simp: log_marks_of_def List.map_filter_def filter_empty_conv list_all_iff)
  have "(row_passes ?f (log_marks_of st) r \<and> lf_start ?f \<le> lm_ts r \<and> lm_ts r < lf_end ?f) = still_recurring now st r" for r
  proof (cases "lf_start ?f \<le> lm_ts r \<and> lm_ts r < lf_end ?f")
    case True
    then have p: "0 < lm_ts r" using pos by (simp add: error_filter_def)
    have ign: "lm_sig r \<notin> set (mk_ignored (log_marks_of st)) \<longleftrightarrow> list_all (\<lambda>e. re_signature e = lm_sig r \<longrightarrow> \<not> re_ignored e) (recurring_errors st)"
      by (auto simp: log_marks_of_def list_all_iff image_iff)
    have "row_passes ?f (log_marks_of st) r \<longleftrightarrow> lm_type r = ''Error'' \<and>
        list_all (\<lambda>e. re_signature e = lm_sig r \<longrightarrow> (case re_resolved_at e of None \<Rightarrow> True | Some t \<Rightarrow> to_second t < lm_ts r)) (recurring_errors st) \<and>
        lm_sig r \<notin> set (mk_ignored (log_marks_of st))"
      using no_marks marks [OF p]
      by (auto simp: row_passes_def error_filter_def type_filter_def LOG_TYPES_def truthy_def Let_def list_all_iff)
    then show ?thesis using True unfolding still_recurring_def ign by (auto simp: error_filter_def list_all_iff)
  qed (auto simp: still_recurring_def error_filter_def)
  then have same: "still_recurring now st = (\<lambda>r. row_passes ?f (log_marks_of st) r \<and> lf_start ?f \<le> lm_ts r \<and> lm_ts r < lf_end ?f)"
    by auto
  have ts: "lm_ts (base_row h as kw r) = rl_ts r" for h as kw r by (simp add: base_row_def Let_def)
  show ?thesis
    unfolding counted_rows_def build_filtered_def filtered_rows_def recurring_rows_def assms(2) same
    by (simp add: filter_map comp_def ts conj_commute)
qed

lemma group_errors_busiest:
  assumes "sg \<in> eg_signature ` set (group_errors threshold n rows)" and "sg' \<in> set (big_signatures threshold rows)"
    and "sg' \<notin> eg_signature ` set (group_errors threshold n rows)"
  shows "sig_count rows sg' \<le> sig_count rows sg"
proof -
  let ?gs = "sort_key (\<lambda>g. - eg_occurrences g) (big_groups threshold rows)"
  have size: "eg_occurrences g = sig_count rows (eg_signature g)" if "g \<in> set (big_groups threshold rows)" for g
    using that by (auto simp: big_groups_def error_group_of_def sig_count_def dest: group_rows_mem(1))
  have set: "set ?gs = set (big_groups threshold rows)" by simp
  have take: "group_errors threshold n rows = take n ?gs" by (simp add: group_errors_def big_groups_def)
  obtain g where g: "g \<in> set (take n ?gs)" "eg_signature g = sg" using assms(1) unfolding take by auto
  obtain g' where g': "g' \<in> set ?gs" "eg_signature g' = sg'" using assms(2) unfolding big_groups_set [symmetric] set by auto
  have "g' \<in> set (drop n ?gs)"
    using g' assms(3) unfolding take by (metis Un_iff append_take_drop_id image_eqI set_append)
  moreover have "sorted (map (\<lambda>g. - eg_occurrences g) (take n ?gs @ drop n ?gs))"
    unfolding append_take_drop_id by (rule sorted_sort_key)
  ultimately have "eg_occurrences g' \<le> eg_occurrences g" using g(1) unfolding map_append sorted_append by auto
  moreover have "g \<in> set (big_groups threshold rows)" using g(1) set by (auto dest: in_set_takeD)
  ultimately show ?thesis using size g(2) g' set by metis
qed

lemma card_group_errors: "card (eg_signature ` set (group_errors threshold n rows)) = min n (length (big_signatures threshold rows))"
proof -
  let ?gs = "sort_key (\<lambda>g. - eg_occurrences g) (big_groups threshold rows)"
  have "distinct (map eg_signature (big_groups threshold rows))"
    unfolding big_groups_signatures by (rule distinct_filter [OF distinct_group_rows])
  then have inj: "inj_on eg_signature (set ?gs)" and dist: "distinct (take n ?gs)" by (simp_all add: distinct_map)
  have "inj_on eg_signature (set (take n ?gs))" using inj by (rule inj_on_subset) (rule set_take_subset)
  with dist have "card (eg_signature ` set (take n ?gs)) = length (take n ?gs)" by (simp only: card_image distinct_card)
  then show ?thesis by (simp add: group_errors_def min.commute flip: big_groups_def length_big_groups)
qed

text \<open>C22: a pass leaves an incident open for exactly the errors that recur, as far as the query reports them. From a
  state in which flags and open incidents agree, after a pass that could read the logs they still agree and nothing
  ignored is flagged. An open incident belongs to a signature that at least \<open>occurrence_threshold\<close> rows still carry: Error
  rows of the window that are not ignored and later than their resolution, cut to the second. With at most
  500 such signatures each of them has an open incident; beyond that limit the 500 most frequent have one.\<close>

theorem recurring_alerts_exact:
  fixes st :: "'a log_db_scheme"
  assumes "error_inv st" and "run_check le now st = Inr (st', res)" and "le_rows le = Inr raws"
    and "0 < to_second (now - check_window st * MINUTE)" and "logs = recurring_rows le now st raws"
    and "big = {sg. check_threshold st \<le> sig_count logs sg}" and "hot = {sg. open_error (error_name sg) st'}"
  shows "error_inv st' \<and> hot \<subseteq> big \<and> card hot = min MAX_GROUPS (card big) \<and> (card big \<le> MAX_GROUPS \<longrightarrow> hot = big) \<and>
    (\<forall>sg \<in> hot. \<forall>sg' \<in> big - hot. sig_count logs sg' \<le> sig_count logs sg)"
proof -
  let ?t = "check_threshold st"
  have wf: "errors_wf (recurring_errors st)" using assms(1) by (simp add: error_inv_def)
  note logs = counted_rows_recurring [OF wf assms(3,4), folded assms(5)]
  obtain logs' where "counted_rows le now st = Inr logs'"
    and "(st', res) = apply_check le now (group_errors ?t MAX_GROUPS logs') st"
    using run_check_parts [OF assms(2)] by metis
  with logs have run: "(st', res) = apply_check le now (group_errors ?t MAX_GROUPS logs) st" by simp
  note inv = run_check_inv [OF assms(1) logs run]
  have hot: "hot = eg_signature ` set (group_errors ?t MAX_GROUPS logs)"
    using inv by (auto simp: assms(7) error_inv_def)
  have "sg \<in> set (map lm_sig logs)" if "?t \<le> sig_count logs sg" for sg
  proof -
    have "0 < sig_count logs sg" using that by (simp add: check_threshold_def)
    then have "filter (\<lambda>r. lm_sig r = sg) logs \<noteq> []" by (auto simp: sig_count_def)
    then show ?thesis by (auto simp: filter_empty_conv)
  qed
  then have big: "big = set (big_signatures ?t logs)" by (auto simp: assms(6) big_signatures_def)
  have "card big = length (big_signatures ?t logs)" unfolding big by (rule distinct_card) (simp add: big_signatures_def)
  then have card: "card hot = min MAX_GROUPS (card big)" by (simp add: hot card_group_errors)
  have sub: "hot \<subseteq> big" unfolding hot big using group_errors_subset big_groups_set by blast
  have "hot = big" if "card big \<le> MAX_GROUPS"
    by (rule card_subset_eq [OF _ sub]) (use that card big in simp_all)
  then show ?thesis using inv sub card group_errors_busiest [of _ ?t MAX_GROUPS logs] hot big by auto
qed

subsection \<open>Resolving and ignoring\<close>

lemma saved_error_inv:
  fixes st st1 :: "'a log_db_scheme"
  assumes "error_inv st" and "re_name d = error_name (re_signature d)" and "\<not> re_is_critical d"
    and "st1 = save_error d st"
    and "st' = (if open_error (re_name d) st1 then resolve_alert RECURRING_ERROR (re_name d) RECURRING_ERROR st1 else st1)"
  shows "error_inv st' \<and> \<not> open_error (re_name d) st' \<and> recurring_errors st' = put_row re_name d (recurring_errors st)"
proof -
  have wf: "errors_wf (recurring_errors st)" and ai: "alert_inv st" and inc: "\<And>n. open_error n st = flagged n st"
    using assms(1) by (auto simp: error_inv_def)
  have same: "alert_inv st1" "open_alerts_of st1 = open_alerts_of st"
    using alert_inv_same_log [of st1 st] ai by (simp_all add: assms(4))
  have recs: "recurring_errors st' = put_row re_name d (recurring_errors st)"
    unfolding assms(5) using same(1) by (simp add: assms(4))
  have "alert_inv st'" unfolding assms(5) using same(1) by (simp add: alert_inv_resolve)
  moreover have "errors_wf (recurring_errors st')" unfolding recs by (rule errors_wf_put [OF wf]) (use assms(2,3) in simp_all)
  moreover have op: "open_error n st' \<longleftrightarrow> open_error n st \<and> n \<noteq> re_name d" for n
    unfolding assms(5) using same by (auto simp: open_error_iff open_resolve)
  moreover have "flagged n st' \<longleftrightarrow> flagged n st \<and> n \<noteq> re_name d" for n using flagged_put [OF recs] assms(3) by auto
  ultimately show ?thesis using inc recs by (simp add: error_inv_def)
qed

lemma recovery_inv:
  fixes st :: "'a log_db_scheme"
  assumes "alert_inv st"
  shows "error_inv (dispatch_recovery e ty d n m g st) = error_inv st"
  using assms by (simp add: error_inv_def flagged_def open_error_iff open_recovery alert_inv_recovery)

lemma recurring_error_doc_facts:
  assumes "errors_wf (recurring_errors st)"
  shows "re_name (recurring_error_doc sg info st) = error_name sg" "re_signature (recurring_error_doc sg info st) = sg"
  using error_doc_facts(1) [OF assms] by (simp_all add: recurring_error_doc_def Let_def)

subsection \<open>An ignored error through later steps\<close>

lemma error_doc_put:
  assumes "errors_wf (recurring_errors st)" and "errors_wf (recurring_errors st')"
    and "recurring_errors st' = put_row re_name d (recurring_errors st)" and "re_name d = error_name (re_signature d)"
  shows "error_doc sg st' = (if sg = re_signature d then d else error_doc sg st)"
  using find_by_signature [OF assms(1), of sg] find_by_signature [OF assms(2), of sg] assms(4)
  by (simp add: error_doc_def assms(3) find_row_put)

lemma breach_step_doc:
  fixes st :: "'a log_db_scheme"
  assumes "error_inv st" and "\<not> re_ignored (error_doc (eg_signature row) st)" and "sg \<noteq> eg_signature row"
  shows "error_doc sg (fst (breach_step le now window hosts row (st, k))) = error_doc sg st"
proof -
  have wf: "errors_wf (recurring_errors st)" using assms(1) by (simp add: error_inv_def)
  define old where "old = error_doc (eg_signature row) st"
  note old = error_doc_facts [OF wf, of "eg_signature row", folded old_def]
  let ?st' = "fst (breach_step le now window hosts row (st, k))"
  have "\<exists>d. recurring_errors ?st' = put_row re_name d (recurring_errors st) \<and> re_name d = error_name (eg_signature row) \<and>
      re_signature d = eg_signature row"
    using old(1) by (simp add: breach_step_def Let_def breach_doc_facts flip: old_def) (auto simp: breach_doc_facts intro!: exI)
  moreover have "errors_wf (recurring_errors ?st')"
    using breach_step_inv(1) [OF assms(1,2)] by (simp add: error_inv_def)
  ultimately show ?thesis using error_doc_put [OF wf] assms(3) by metis
qed

lemma breach_fold_doc:
  fixes st :: "'a log_db_scheme"
  assumes "error_inv st" and "\<And>row. row \<in> set rows \<Longrightarrow> \<not> re_ignored (error_doc (eg_signature row) st)"
    and "sg \<notin> eg_signature ` set rows"
  shows "error_doc sg (fst (fold (breach_step le now window hosts) rows (st, k))) = error_doc sg st"
  using assms
proof (induction rows arbitrary: st k)
  case (Cons row rows)
  let ?st1 = "fst (breach_step le now window hosts row (st, k))" and ?k1 = "snd (breach_step le now window hosts row (st, k))"
  have ok: "\<not> re_ignored (error_doc (eg_signature row) st)" using Cons.prems(2) by simp
  note step = breach_step_inv [OF Cons.prems(1) ok]
  have later: "row' \<in> set rows \<Longrightarrow> \<not> re_ignored (error_doc (eg_signature row') ?st1)" for row'
    using step(3) Cons.prems(2) by simp
  have "fold (breach_step le now window hosts) (row # rows) (st, k) = fold (breach_step le now window hosts) rows (?st1, ?k1)"
    by simp
  then show ?case
    using Cons.IH [OF step(1) later, of ?k1] breach_step_doc [OF Cons.prems(1) ok, of sg] Cons.prems(3) by (simp only:) simp
qed simp

lemma recover_fold_ignored:
  fixes st :: "'a log_db_scheme"
  assumes "error_inv st"
  shows "re_ignored (error_doc sg (fold (recover_step le now threshold window) rs st)) = re_ignored (error_doc sg st)"
  using assms
proof (induction rs arbitrary: st)
  case (Cons r rs)
  have ai: "alert_inv st" using Cons.prems by (simp add: error_inv_def)
  define st1 where "st1 = st\<lparr>recurring_errors := map (\<lambda>x. if re_name x = re_name r
      then x\<lparr>re_is_critical := False, re_window_count := 0, re_last_recovered := Some now\<rparr> else x) (recurring_errors st)\<rparr>"
  have ai1: "alert_inv st1" using alert_inv_same_log [of st1 st] ai by (simp add: st1_def)
  have "recurring_errors (recover_step le now threshold window r st) = recurring_errors st1"
    using ai1 unfolding recover_step_def Let_def st1_def [symmetric] by simp
  then have "re_ignored (error_doc sg (recover_step le now threshold window r st)) = re_ignored (error_doc sg st)"
    using find_row_map_if [of re_signature "\<lambda>x. x\<lparr>re_is_critical := False, re_window_count := 0, re_last_recovered := Some now\<rparr>"
      sg "\<lambda>x. re_name x = re_name r" "recurring_errors st"]
    by (auto simp: error_doc_def st1_def new_error_def split: option.splits)
  then show ?case using Cons.IH [OF recover_step_inv(1) [OF Cons.prems]] by simp
qed simp

text \<open>The invariant of one ignored signature.\<close>

definition quiet :: "string \<Rightarrow> 'a log_db_scheme \<Rightarrow> bool" where
  "quiet sg st \<longleftrightarrow> error_inv st \<and> re_ignored (error_doc sg st)"

lemma quiet_not_open:
  assumes "quiet sg st"
  shows "\<not> open_error (error_name sg) st"
  using assms error_doc_facts(3,4) [of st sg] by (auto simp: quiet_def error_inv_def)

lemma quiet_pass:
  fixes st :: "'a log_db_scheme"
  assumes "quiet sg st" and "run_check le now st = Inr (st', res)"
  shows "quiet sg st'"
proof -
  have inv: "error_inv st" and ign: "re_ignored (error_doc sg st)" using assms(1) by (simp_all add: quiet_def)
  have wf: "errors_wf (recurring_errors st)" using inv by (simp add: error_inv_def)
  obtain logs where logs: "counted_rows le now st = Inr logs"
    and run: "(st', res) = apply_check le now (group_errors (check_threshold st) MAX_GROUPS logs) st"
    using run_check_parts [OF assms(2)] by metis
  let ?rows = "group_errors (check_threshold st) MAX_GROUPS logs"
  have counted: "\<not> re_ignored (error_doc (eg_signature row) st)" if "row \<in> set ?rows" for row
  proof -
    have "eg_signature row \<in> set (big_signatures (check_threshold st) logs)"
      using that group_errors_subset big_groups_set by fastforce
    then obtain r where "r \<in> set logs" "lm_sig r = eg_signature row" by (auto simp: big_signatures_def)
    then show ?thesis using counted_not_ignored [OF logs] error_doc_facts(5) [OF wf] by metis
  qed
  then have out: "sg \<notin> eg_signature ` set ?rows" using ign by auto
  let ?p = "fold (breach_step le now (check_window st) (monitored_hosts_by_site st)) ?rows (st, 0)"
  have "error_inv (fst ?p)" using breach_fold_inv [OF inv counted] by blast
  moreover have "re_ignored (error_doc sg (fst ?p))" using breach_fold_doc [OF inv counted out] ign by simp
  moreover obtain gone where "st' = fold (recover_step le now (check_threshold st) (check_window st)) gone (fst ?p)"
    using run by (auto simp: apply_check_def Let_def case_prod_unfold)
  ultimately show ?thesis
    using recover_fold_ignored recover_fold_inv by (metis quiet_def)
qed

lemma quiet_cong:
  fixes st st' :: "'a log_db_scheme"
  assumes "recurring_errors st' = recurring_errors st" and "alert_log st' = alert_log st" and "next_alert st' = next_alert st"
  shows "quiet sg st' = quiet sg st"
  using alert_inv_same_log [OF assms(2,3)] assms(1)
  by (simp add: quiet_def error_inv_def flagged_def open_error_iff error_doc_def)

text \<open>Saving a document with the flag it had keeps every incident in step.\<close>

lemma save_same_flag:
  fixes st :: "'a log_db_scheme"
  assumes "error_inv st" and "re_name d = error_name (re_signature d)" and "re_is_critical d = flagged (re_name d) st"
    and "\<not> (re_ignored d \<and> re_is_critical d)"
  shows "error_inv (save_error d st)"
proof -
  have inc: "\<And>n. open_error n st = flagged n st" and wf: "errors_wf (recurring_errors st)" and ai: "alert_inv st"
    using assms(1) by (auto simp: error_inv_def)
  have same: "alert_inv (save_error d st)" "open_alerts_of (save_error d st) = open_alerts_of st"
    using alert_inv_same_log [of "save_error d st" st] ai by simp_all
  have "flagged n (save_error d st) = flagged n st" for n
    using flagged_put [of "save_error d st" d st n] assms(3) by (simp split: if_splits)
  then show ?thesis
    using errors_wf_put [OF wf assms(2,4)] same inc by (simp add: error_inv_def open_error_iff)
qed

lemma recurring_doc_more:
  "re_ignored (recurring_error_doc sg info st) = re_ignored (error_doc sg st)"
  "re_is_critical (recurring_error_doc sg info st) = re_is_critical (error_doc sg st)"
  by (simp_all add: recurring_error_doc_def Let_def)

lemma ignore_step:
  fixes st :: "'a log_db_scheme"
  assumes "error_inv st"
  shows "error_inv (fst (set_error_ignored le roles user s ignore st))"
    and "snd (set_error_ignored le roles user s ignore st) = Inr b \<Longrightarrow>
      re_ignored (error_doc (py_strip s) (fst (set_error_ignored le roles user s ignore st))) = ignore"
    and "sg \<noteq> py_strip s \<or> ignore \<Longrightarrow> re_ignored (error_doc sg st) \<Longrightarrow>
      re_ignored (error_doc sg (fst (set_error_ignored le roles user s ignore st)))"
    and "outbox (fst (set_error_ignored le roles user s ignore st)) = outbox st"
proof -
  let ?r = "set_error_ignored le roles user s ignore st" and ?sg = "py_strip s"
  have wf: "errors_wf (recurring_errors st)" using assms(1) by (simp add: error_inv_def)
  have "fst ?r = st \<and> (\<forall>b. snd ?r \<noteq> Inr b) \<or> (error_inv (fst ?r) \<and> outbox (fst ?r) = outbox st \<and>
     (\<exists>d. recurring_errors (fst ?r) = put_row re_name d (recurring_errors st) \<and> re_name d = error_name ?sg \<and>
        re_signature d = ?sg \<and> re_ignored d = ignore))"
  proof (cases "(user \<noteq> ''Administrator'' \<and> \<not> allowed roles IGNORE_ROLES) \<or> (\<exists>e. lookup_error le st ?sg = Inl e)")
    case True
    then have "fst ?r = st \<and> (\<forall>b. snd ?r \<noteq> Inr b)" by (auto simp: set_error_ignored_def Let_def)
    then show ?thesis ..
  next
    case False
    then obtain info where info: "lookup_error le st ?sg = Inr info" by (cases "lookup_error le st ?sg") auto
    define d where "d = (let d = recurring_error_doc ?sg info st
        in if ignore then d\<lparr>re_ignored := True, re_ignored_at := Some (le_now le), re_ignored_by := user,
                            re_is_critical := False, re_window_count := 0\<rparr>
           else d\<lparr>re_ignored := False, re_ignored_at := None, re_ignored_by := []\<rparr>)"
    have d: "re_name d = error_name ?sg" "re_signature d = ?sg" "re_ignored d = ignore"
      "re_is_critical d = (\<not> ignore \<and> re_is_critical (error_doc ?sg st))"
      using recurring_error_doc_facts [OF wf] by (simp_all add: d_def Let_def recurring_doc_more)
    have r: "fst ?r = (if ignore \<and> open_error (re_name d) (save_error d st)
        then resolve_alert RECURRING_ERROR (re_name d) RECURRING_ERROR (save_error d st) else save_error d st)"
      using False info unfolding set_error_ignored_def by (auto simp: Let_def d_def)
    have nm: "re_name d = error_name (re_signature d)" using d by simp
    have "error_inv (fst ?r) \<and> recurring_errors (fst ?r) = put_row re_name d (recurring_errors st)"
    proof (cases ignore)
      case True
      have "fst ?r = (if open_error (re_name d) (save_error d st)
        then resolve_alert RECURRING_ERROR (re_name d) RECURRING_ERROR (save_error d st) else save_error d st)"
        unfolding r using True by simp
      then show ?thesis using saved_error_inv [OF assms nm _ refl, of "fst ?r"] d True by simp
    next
      case False
      have "error_inv (save_error d st)"
        by (rule save_same_flag [OF assms nm]) (use d False error_doc_facts(3) [OF wf, of ?sg] in auto)
      then show ?thesis unfolding r using False by simp
    qed
    moreover have "outbox (fst ?r) = outbox st" unfolding r by (simp add: save_error_def)
    ultimately show ?thesis using d by blast
  qed
  then show "error_inv (fst ?r)" "snd ?r = Inr b \<Longrightarrow> re_ignored (error_doc ?sg (fst ?r)) = ignore"
    "sg \<noteq> ?sg \<or> ignore \<Longrightarrow> re_ignored (error_doc sg st) \<Longrightarrow> re_ignored (error_doc sg (fst ?r))"
    "outbox (fst ?r) = outbox st"
    using assms error_doc_put [OF wf, of "fst ?r"] by (auto simp: error_inv_def split: if_splits)
qed

lemma quiet_resolve:
  fixes st :: "'a log_db_scheme"
  assumes "quiet sg st"
  shows "quiet sg (fst (resolve_error le roles user full s st))"
proof -
  let ?r = "resolve_error le roles user full s st" and ?sg = "py_strip s"
  have inv: "error_inv st" and ign: "re_ignored (error_doc sg st)" using assms by (simp_all add: quiet_def)
  have wf: "errors_wf (recurring_errors st)" using inv by (simp add: error_inv_def)
  show ?thesis
  proof (cases "\<not> allowed roles RESOLVE_ROLES \<or> (\<exists>e. lookup_error le st ?sg = Inl e)")
    case True
    then have "fst ?r = st" by (auto simp: resolve_error_def Let_def)
    then show ?thesis using assms by simp
  next
    case False
    then obtain info where info: "lookup_error le st ?sg = Inr info" by (cases "lookup_error le st ?sg") auto
    define d where "d = (recurring_error_doc ?sg info st)\<lparr>re_is_critical := False, re_window_count := 0,
        re_resolved_at := Some (le_now le), re_resolved_by := user\<rparr>"
    have d: "re_name d = error_name ?sg" "re_signature d = ?sg" "\<not> re_is_critical d" "re_ignored d = re_ignored (error_doc ?sg st)"
      using recurring_error_doc_facts [OF wf] by (simp_all add: d_def recurring_doc_more)
    define mid where "mid = (if open_error (re_name d) (save_error d st)
        then resolve_alert RECURRING_ERROR (re_name d) RECURRING_ERROR (save_error d st) else save_error d st)"
    have nm: "re_name d = error_name (re_signature d)" using d by simp
    note mid = saved_error_inv [OF inv nm d(3) refl mid_def]
    have "re_ignored (error_doc sg mid)"
      using error_doc_put [OF wf _ _ nm, of mid] mid ign d by (auto simp: error_inv_def)
    moreover have "fst ?r = mid \<or> (\<exists>m. fst ?r = dispatch_recovery (le_env le) RECURRING_ERROR RECURRING_ERROR (re_name d) m True mid)"
      using False info unfolding resolve_error_def mid_def by (auto simp: Let_def d_def)
    moreover have "alert_inv mid" using mid by (simp add: error_inv_def)
    ultimately show ?thesis using mid by (auto simp: quiet_def recovery_inv error_doc_def)
  qed
qed

lemma quiet_tick:
  fixes st :: "'a log_db_scheme"
  assumes "quiet sg st"
  shows "quiet sg (check_recurring_errors le st)"
proof -
  let ?st1 = "st\<lparr>last_check := Some (le_now le)\<rparr>"
  have q: "quiet sg ?st1" using assms by (simp add: quiet_cong [of ?st1 st])
  have set: "quiet sg (set_last_checked t e x) = quiet sg x" for t e and x :: "'a log_db_scheme"
    by (rule quiet_cong) (simp_all add: set_last_checked_def)
  have log: "quiet sg (log_error m x) = quiet sg x" for m and x :: "'a log_db_scheme"
    by (rule quiet_cong) (simp_all add: log_error_def)
  have "quiet sg x" if "run_check le (le_now le) ?st1 = Inr (x, res)" for x res using quiet_pass [OF q that] .
  then show ?thesis
    using assms q by (auto simp: check_recurring_errors_def Let_def set log split: sum.split prod.split)
qed

text \<open>What can happen to the errors afterwards: passes of the cron job or started by hand, resolving any error,
  ignoring any, taking another one off the list, and changes of the aliases.\<close>

inductive error_step :: "string \<Rightarrow> 'a log_db_scheme \<Rightarrow> 'a log_db_scheme \<Rightarrow> bool" for sg where
  Tick: "error_step sg st (check_recurring_errors le st)"
| Pass: "run_check le now st = Inr (st', res) \<Longrightarrow> error_step sg st st'"
| Resolve: "error_step sg st (fst (resolve_error le roles user full s st))"
| Ignore: "ignore \<or> py_strip s \<noteq> sg \<Longrightarrow> error_step sg st (fst (set_error_ignored le roles user s ignore st))"
| Alias: "error_step sg st (fst (save_site_alias roles src site st))"

inductive error_steps :: "string \<Rightarrow> 'a log_db_scheme \<Rightarrow> 'a log_db_scheme \<Rightarrow> bool" for sg where
  Stop: "error_steps sg st st"
| Next: "error_step sg st st' \<Longrightarrow> error_steps sg st' st'' \<Longrightarrow> error_steps sg st st''"

lemma quiet_step: "error_step sg st st' \<Longrightarrow> quiet sg st \<Longrightarrow> quiet sg st'"
proof (induction rule: error_step.induct)
  case (Ignore ignore s st le roles user)
  then show ?case using ignore_step(1,3) [of st] by (auto simp: quiet_def)
next
  case (Alias st roles src site)
  have "recurring_errors (fst (save_site_alias roles src site st)) = recurring_errors st"
    "alert_log (fst (save_site_alias roles src site st)) = alert_log st"
    "next_alert (fst (save_site_alias roles src site st)) = next_alert st"
    by (auto simp: save_site_alias_def Let_def split: sum.split prod.split)
  then show ?case using Alias quiet_cong by metis
qed (simp_all add: quiet_tick quiet_pass quiet_resolve)

lemma quiet_steps: "error_steps sg st st' \<Longrightarrow> quiet sg st \<Longrightarrow> quiet sg st'"
  by (induction rule: error_steps.induct) (simp_all add: quiet_step)

text \<open>C23: ignoring an error ends it quietly and for good. When the endpoint accepts the request nothing is sent, flags
  and open incidents still agree, and the error is marked ignored and has no open incident. All of this
  stays so through any sequence of later passes, resolutions, aliases and other errors ignored or
  taken back, until this very error is taken back.\<close>

theorem ignored_error_stays_quiet:
  fixes st :: "'a log_db_scheme"
  assumes "error_inv st" and "set_error_ignored le roles user signature True st = (st1, Inr b)"
    and "error_steps (py_strip signature) st1 st2"
  shows "outbox st1 = outbox st \<and> error_inv st2 \<and> re_ignored (error_doc (py_strip signature) st2) \<and>
    \<not> open_error (error_name (py_strip signature)) st2"
proof -
  have "quiet (py_strip signature) st1" and "outbox st1 = outbox st"
    using ignore_step(1,2,4) [OF assms(1), of le roles user signature True] assms(2) by (simp_all add: quiet_def)
  then show ?thesis using quiet_steps [OF assms(3)] quiet_not_open by (auto simp: quiet_def)
qed

text \<open>An occurrence at or before a resolution can still count. The moment of the resolution is compared
  after it has been cut to the second, so an Error row of the same second that happened before it is
  selected by the recurring-error check.\<close>

theorem occurrence_before_resolution_counts:
  assumes "errors_wf (recurring_errors st)" and "e \<in> set (recurring_errors st)" and "re_resolved_at e = Some t"
    and "lm_sig r = re_signature e" and "lm_type r = ''Error''" and "to_second t < lm_ts r" and "lm_ts r \<le> t"
    and "re_signature e \<notin> set (mk_ignored (log_marks_of st))"
  shows "row_passes (error_filter start stop None True True) (log_marks_of st) r"
proof -
  let ?f = "\<lambda>r. map_option (\<lambda>t. (re_signature r, to_second t)) (re_resolved_at r)"
  have inj: "e = e'" if "e' \<in> set (recurring_errors st)" "re_signature e' = re_signature e" for e'
    using assms(1,2) that by (auto simp: errors_wf_def distinct_map list_all_iff dest!: inj_onD [of re_name _ e e'])
  have "map_of (List.map_filter ?f rs) (re_signature e) = Some (to_second t)"
    if "set rs \<subseteq> set (recurring_errors st)" "e \<in> set rs" for rs
    using that
  proof (induction rs)
    case (Cons x rs)
    show ?case
    proof (cases "x = e")
      case True
      then show ?thesis using assms(3) by (simp add: List.map_filter_simps)
    next
      case False
      then have "re_signature x \<noteq> re_signature e" using inj Cons.prems(1) by auto
      moreover have "e \<in> set rs" using Cons.prems(2) False by simp
      ultimately show ?thesis using Cons by (auto simp: List.map_filter_simps split: option.split)
    qed
  qed simp
  then have res: "map_of (mk_resolutions (log_marks_of st)) (re_signature e) = Some (to_second t)"
    using assms(2) by (simp add: log_marks_of_def)
  show ?thesis
    using assms(4-6,8) by (simp add: row_passes_def error_filter_def res Let_def type_filter_def LOG_TYPES_def truthy_def)
qed

subsection \<open>Aliases form no chains\<close>

definition alias_wf :: "(string \<times> string) list \<Rightarrow> bool" where
  "alias_wf as \<longleftrightarrow> distinct (map fst as) \<and> list_all (\<lambda>(s, t). map_of as t = None) as"

lemma alias_wf_delete: "alias_wf as \<Longrightarrow> alias_wf (filter (\<lambda>a. fst a \<noteq> src) as)"
  by (auto simp: alias_wf_def list_all_iff distinct_map_filter map_of_eq_None_iff)

lemma alias_wf_put:
  assumes "alias_wf as" and "validate_alias src site as = Inr (s, t)"
  shows "alias_wf (put_row fst (s, t) as)"
proof -
  define tgt where "tgt = normalize_site_label (Some site)"
  from assms(2) [unfolded validate_alias_def Let_def, folded tgt_def]
  have t: "t = (case map_of as tgt of None \<Rightarrow> tgt | Some u \<Rightarrow> u)" and "tgt \<noteq> s"
    and free: "\<And>s' t'. (s', t') \<in> set as \<Longrightarrow> t' = s \<Longrightarrow> s' = s"
    by (auto simp: list_ex_iff split: if_splits)
  have keys: "distinct (map fst as)" and old: "\<And>s' t'. (s', t') \<in> set as \<Longrightarrow> t' \<notin> fst ` set as"
    using assms(1) by (auto simp: alias_wf_def list_all_iff map_of_eq_None_iff)
  have new: "t \<noteq> s \<and> t \<notin> fst ` set as"
  proof (cases "map_of as tgt")
    case None
    then have "t = tgt" and "tgt \<notin> fst ` set as" by (simp_all add: t flip: map_of_eq_None_iff)
    then show ?thesis using \<open>tgt \<noteq> s\<close> by simp
  next
    case (Some u)
    then have "(tgt, u) \<in> set as" by (rule map_of_SomeD)
    with free old \<open>tgt \<noteq> s\<close> show ?thesis by (auto simp: t Some)
  qed
  let ?as = "put_row fst (s, t) as"
  have keys': "fst ` set ?as = insert s (fst ` set as)"
  proof -
    have "set (map fst ?as) = insert s (set (map fst as))"
      using map_key_put_row [of fst "(s, t)" as] by auto
    then show ?thesis by simp
  qed
  have "b \<notin> fst ` set ?as" if "(a, b) \<in> set ?as" for a b
  proof -
    from that have "(a, b) = (s, t) \<or> (a, b) \<in> set as \<and> a \<noteq> s"
      by (auto simp: put_row_def find_row_None split: if_splits intro: rev_image_eqI)
    then show ?thesis
    proof
      assume "(a, b) = (s, t)"
      with new keys' show ?thesis by simp
    next
      assume "(a, b) \<in> set as \<and> a \<noteq> s"
      with free old keys' show ?thesis by blast
    qed
  qed
  then have "\<forall>p \<in> set ?as. snd p \<notin> fst ` set ?as" by (metis prod.collapse)
  then show ?thesis
    using distinct_put_row [OF keys, of "(s, t)"] by (simp add: alias_wf_def list_all_iff map_of_eq_None_iff case_prod_unfold)
qed

text \<open>C24: the aliases never form a chain. However an alias is saved or removed, no host that others are shown
  as is itself shown as something else, so that applying the aliases once gives the final site.\<close>

theorem aliases_never_chain:
  assumes "alias_wf (site_aliases st)" and "save_site_alias roles host site st = (st', r)"
  shows "alias_wf (site_aliases st') \<and>
    apply_alias (site_aliases st') (apply_alias (site_aliases st') h) = apply_alias (site_aliases st') h"
proof -
  have wf: "alias_wf (site_aliases st')"
    using assms by (auto simp: save_site_alias_def Let_def split: if_splits sum.splits intro: alias_wf_delete alias_wf_put)
  then have "\<And>s t. map_of (site_aliases st') s = Some t \<Longrightarrow> map_of (site_aliases st') t = None"
    by (auto simp: alias_wf_def list_all_iff dest: map_of_SomeD)
  then show ?thesis using wf by (auto simp: apply_alias_def split: option.split)
qed

subsection \<open>A small log\<close>

definition demo_raw :: "datetime \<Rightarrow> string \<Rightarrow> string \<Rightarrow> raw_log" where
  "demo_raw t site content = \<lparr>rl_ts = t, rl_site = site, rl_content = content, rl_title_column = None, rl_type_column = None, rl_id = ''x''\<rparr>"

definition demo_check_time :: datetime where "demo_check_time = 1000 * SECOND"

text \<open>Two errors of one site under two spellings of its address, a single one of another; the signature is
  the length of the site here.\<close>

definition demo_log_env :: log_env where
  "demo_log_env = \<lparr>le_env = demo_env\<lparr>now_datetime := demo_check_time\<rparr>,
     le_rows = Inr [demo_raw demo_check_time ''https://lulu/app'' ''Error: a'', demo_raw demo_check_time ''http://LULU'' ''Error: b'',
        demo_raw demo_check_time ''http://anson.example.org'' ''Error: a''],
     le_sig = (\<lambda>site title. show_nat (length site))\<rparr>"

definition demo_log_db :: log_db where
  "demo_log_db = host_db.extend demo_host_db
     \<lparr>recurring_errors = [], log_settings = \<lparr>ls_enabled = True, ls_host = Some ''ch'', ls_error_keyword = None,
        ls_enable_recurring_alerts = True, ls_occurrence_threshold = Some 2, ls_window_minutes = Some 10,
        ls_check_interval_minutes = None, ls_last_checked = None, ls_last_error = None\<rparr>,
      site_aliases = [(''lulu'', ''lulu.org'')], last_check = None\<rparr>"

lemma demo_error_inv: "error_inv demo_log_db"
proof -
  have ai: "alert_inv demo_log_db" and log: "alert_log demo_log_db = [demo_alert ''High Load Average'' 900]"
    and recs: "recurring_errors demo_log_db = []" by code_simp+
  have "\<not> open_row RECURRING_ERROR n RECURRING_ERROR (demo_alert ''High Load Average'' 900)" for n
    by (simp add: open_row_def demo_alert_def RECURRING_ERROR_def)
  then have "\<not> open_error n demo_log_db" for n by (simp add: open_error_def has_open_alert_def log)
  moreover have "\<not> flagged n demo_log_db" for n by (simp add: flagged_def recs find_row_def)
  ultimately show ?thesis using ai by (simp add: error_inv_def errors_wf_def recs)
qed

lemma run_check_total: "le_rows le = Inr rows \<Longrightarrow> \<exists>st' res. run_check le now st = Inr (st', res)"
  by (simp add: run_check_def breaching_groups_def build_filtered_def)

theorem recurring_alerts_exact_witness:
  "\<exists>st' res. run_check demo_log_env demo_check_time demo_log_db = Inr (st', res) \<and> open_error ''RE-8'' st' \<and> \<not> open_error ''RE-17'' st'"
proof -
  obtain st' res where run: "run_check demo_log_env demo_check_time demo_log_db = Inr (st', res)"
    using run_check_total [of demo_log_env] by (fastforce simp: demo_log_env_def)
  obtain raws where raws: "le_rows demo_log_env = Inr raws" by (simp add: demo_log_env_def)
  let ?logs = "recurring_rows demo_log_env demo_check_time demo_log_db raws"
  define big where "big = {sg. check_threshold demo_log_db \<le> sig_count ?logs sg}"
  have "(case le_rows demo_log_env of Inl e \<Rightarrow> False | Inr raws \<Rightarrow>
      let logs = recurring_rows demo_log_env demo_check_time demo_log_db raws; t = check_threshold demo_log_db
      in 0 < to_second (demo_check_time - check_window demo_log_db * MINUTE) \<and>
        t = 2 \<and> map lm_sig logs = [''8'', ''8'', ''17''])"
    by code_simp
  then have pos: "0 < to_second (demo_check_time - check_window demo_log_db * MINUTE)"
    and t: "check_threshold demo_log_db = 2" and sigs: "map lm_sig ?logs = [''8'', ''8'', ''17'']"
    by (simp_all add: raws Let_def)
  have "sig_count ?logs sg = int (length (filter (\<lambda>x. x = sg) (map lm_sig ?logs)))" for sg
    by (simp add: sig_count_def filter_map comp_def)
  then have count: "sig_count ?logs sg = (if sg = ''8'' then 2 else if sg = ''17'' then 1 else 0)" for sg
    unfolding sigs by simp
  have "2 \<le> sig_count ?logs sg \<longleftrightarrow> sg = ''8''" for sg unfolding count by (cases "sg = ''8''") simp_all
  then have big: "big = {''8''}" unfolding big_def t by simp
  have "card big \<le> MAX_GROUPS" unfolding big MAX_GROUPS_def by simp
  with recurring_alerts_exact [OF demo_error_inv run raws pos refl big_def refl] have "{sg. open_error (error_name sg) st'} = {''8''}"
    unfolding big by (elim conjE) (rule mp)
  then have "open_error (error_name ''8'') st'" "\<not> open_error (error_name ''17'') st'" by blast+
  then have "open_error ''RE-8'' st'" "\<not> open_error ''RE-17'' st'" unfolding error_name_def by simp_all
  with run show ?thesis by blast
qed

theorem ignored_error_stays_quiet_witness:
  "\<exists>st1 st2 res. set_error_ignored demo_log_env [''System Manager''] ''u'' ''8'' True demo_log_db = (st1, Inr True) \<and>
     run_check demo_log_env demo_check_time (check_recurring_errors demo_log_env st1) = Inr (st2, res) \<and> \<not> open_error ''RE-8'' st2"
proof -
  have "(case set_error_ignored demo_log_env [''System Manager''] ''u'' ''8'' True demo_log_db of (st1, Inr b) \<Rightarrow> b | _ \<Rightarrow> False)"
    by code_simp
  then obtain st1 where ig: "set_error_ignored demo_log_env [''System Manager''] ''u'' ''8'' True demo_log_db = (st1, Inr True)"
    by (auto split: prod.splits sum.splits)
  obtain st2 res where run: "run_check demo_log_env demo_check_time (check_recurring_errors demo_log_env st1) = Inr (st2, res)"
    using run_check_total [of demo_log_env] by (fastforce simp: demo_log_env_def)
  have sg: "py_strip ''8'' = ''8''" and "error_name ''8'' = ''RE-8''" by code_simp+
  moreover have "error_steps ''8'' st1 st2"
    by (rule error_steps.Next [OF error_step.Tick error_steps.Next [OF error_step.Pass [OF run] error_steps.Stop]])
  ultimately show ?thesis using ignored_error_stays_quiet [OF demo_error_inv ig, of st2] ig run by auto
qed

theorem occurrence_before_resolution_counts_witness:
  "row_passes (error_filter 0 (100 * SECOND) None True True)
     (log_marks_of (demo_log_db\<lparr>recurring_errors := [(new_error ''8'')\<lparr>re_resolved_at := Some (5 * SECOND + 900)\<rparr>]\<rparr>))
     \<lparr>lm_ts = 5 * SECOND + 200, lm_site = ''lulu.org'', lm_content = [], lm_title = [], lm_type = ''Error'', lm_sig = ''8'', lm_id = ''x''\<rparr>"
  by (rule occurrence_before_resolution_counts [where e = "(new_error ''8'')\<lparr>re_resolved_at := Some (5 * SECOND + 900)\<rparr>" and t = "5 * SECOND + 900"])
    (simp_all add: errors_wf_def new_error_def to_second_def SECOND_def log_marks_of_def)

theorem aliases_never_chain_witness:
  "\<exists>st' r. save_site_alias [''Proxmox Monitor Manager''] ''anson'' ''lulu'' demo_log_db = (st', r) \<and> alias_wf (site_aliases st')"
proof -
  have "site_aliases demo_log_db = [(''lulu'', ''lulu.org'')]" by code_simp
  then have "alias_wf (site_aliases demo_log_db)" by (simp add: alias_wf_def)
  from aliases_never_chain [OF this] show ?thesis
    by (cases "save_site_alias [''Proxmox Monitor Manager''] ''anson'' ''lulu'' demo_log_db") blast
qed

end
