(* ===== verification/Diagnosis.thy ===== *)
theory Diagnosis
  imports Host_Performance "HOL-Library.Sublist"
begin

text \<open>
  \<open>host_health/diagnosis.py\<close>: the rules that turn the stored performance samples of a host into findings. Each
  rule of the code is a definition of its own that gives no finding or one; \<open>evaluate\<close>, \<open>evaluate_mariadb\<close> and
  \<open>evaluate_redis\<close> put them together in the code's order and \<open>diagnose_host\<close> loads the samples. A finding has its
  id, its severity and, for the buffer pool, which advice is given; the sentences shown to the reader
  are left out.
\<close>

subsection \<open>Thresholds\<close>

definition MEM_AVAILABLE_WARN_PERCENT :: rat where "MEM_AVAILABLE_WARN_PERCENT = 10"
definition MEM_AVAILABLE_CRIT_PERCENT :: rat where "MEM_AVAILABLE_CRIT_PERCENT = 5"
definition SWAP_USED_WARN_PERCENT :: rat where "SWAP_USED_WARN_PERCENT = 80"
definition SWAP_RATE_WARN_PAGES_S :: rat where "SWAP_RATE_WARN_PAGES_S = 100"
definition SWAP_RATE_CRIT_PAGES_S :: rat where "SWAP_RATE_CRIT_PAGES_S = 1000"
definition CGROUP_MEM_WARN_RATIO :: rat where "CGROUP_MEM_WARN_RATIO = 90 / 100"
definition CGROUP_MEM_CRIT_RATIO :: rat where "CGROUP_MEM_CRIT_RATIO = 97 / 100"
definition OOM_LOOKBACK_MINUTES :: int where "OOM_LOOKBACK_MINUTES = 60"
definition THROTTLE_WARN_PERCENT :: rat where "THROTTLE_WARN_PERCENT = 10"
definition THROTTLE_CRIT_PERCENT :: rat where "THROTTLE_CRIT_PERCENT = 30"
definition PSI_IO_SOME_WARN :: rat where "PSI_IO_SOME_WARN = 25"
definition PSI_IO_FULL_CRIT :: rat where "PSI_IO_FULL_CRIT = 10"
definition PSI_MEMORY_SOME_WARN :: rat where "PSI_MEMORY_SOME_WARN = 20"
definition PSI_MEMORY_FULL_CRIT :: rat where "PSI_MEMORY_FULL_CRIT = 5"
definition PSI_CPU_SOME_WARN :: rat where "PSI_CPU_SOME_WARN = 50"
definition DISK_UTIL_WARN_PERCENT :: rat where "DISK_UTIL_WARN_PERCENT = 90"
definition DISK_AWAIT_WARN_MS :: rat where "DISK_AWAIT_WARN_MS = 30"
definition SUSTAINED_SAMPLES :: nat where "SUSTAINED_SAMPLES = 3"

definition DB_MIN_UPTIME_SECONDS :: rat where "DB_MIN_UPTIME_SECONDS = 1800"
definition DB_HIT_WARN_PERCENT :: rat where "DB_HIT_WARN_PERCENT = 99"
definition DB_HIT_CRIT_PERCENT :: rat where "DB_HIT_CRIT_PERCENT = 95"
definition DB_MIN_DISK_READS_PER_S :: rat where "DB_MIN_DISK_READS_PER_S = 20"
definition DB_CACHE_WINDOW :: nat where "DB_CACHE_WINDOW = 10"
definition DB_CACHE_MIN_SHARE :: rat where "DB_CACHE_MIN_SHARE = 8 / 10"
definition DB_CHECKPOINT_WARN_PERCENT :: rat where "DB_CHECKPOINT_WARN_PERCENT = 75"
definition DB_CHECKPOINT_CRIT_PERCENT :: rat where "DB_CHECKPOINT_CRIT_PERCENT = 90"
definition DB_DIRTY_WARN_FRACTION :: rat where "DB_DIRTY_WARN_FRACTION = 75 / 100"
definition DB_FLUSH_AT_CAPACITY :: rat where "DB_FLUSH_AT_CAPACITY = 9 / 10"
definition DB_DISK_BUSY_OK_PERCENT :: rat where "DB_DISK_BUSY_OK_PERCENT = 60"
definition DB_TMP_DISK_WARN_PERCENT :: rat where "DB_TMP_DISK_WARN_PERCENT = 25"
definition DB_TMP_DISK_MIN_PER_S :: rat where "DB_TMP_DISK_MIN_PER_S = 2 / 10"
definition DB_CONNECTIONS_WARN_RATIO :: rat where "DB_CONNECTIONS_WARN_RATIO = 8 / 10"
definition DB_CONNECTIONS_CRIT_RATIO :: rat where "DB_CONNECTIONS_CRIT_RATIO = 95 / 100"
definition DB_HISTORY_WARN :: rat where "DB_HISTORY_WARN = 1000000"
definition DB_HISTORY_CRIT :: rat where "DB_HISTORY_CRIT = 5000000"
definition DB_SWAP_WARN_MB :: rat where "DB_SWAP_WARN_MB = 50"
definition DB_SWAP_CRIT_MB :: rat where "DB_SWAP_CRIT_MB = 500"
definition DB_ROW_LOCK_WAITING_WARN :: rat where "DB_ROW_LOCK_WAITING_WARN = 5"
definition DB_ROW_LOCK_AVG_WAIT_WARN_MS :: rat where "DB_ROW_LOCK_AVG_WAIT_WARN_MS = 1000"
definition DB_TABLE_OPENS_WARN_PER_S :: rat where "DB_TABLE_OPENS_WARN_PER_S = 5"
definition DB_OPEN_FILES_WARN_RATIO :: rat where "DB_OPEN_FILES_WARN_RATIO = 8 / 10"
definition DB_SLOW_QUERIES_WARN_PER_S :: rat where "DB_SLOW_QUERIES_WARN_PER_S = 1"
definition POOL_SHARE_OF_FREE_RAM :: rat where "POOL_SHARE_OF_FREE_RAM = 7 / 10"
definition RAM_RESERVED_MB :: rat where "RAM_RESERVED_MB = 1024"

definition REDIS_MEMORY_WARN_RATIO :: rat where "REDIS_MEMORY_WARN_RATIO = 90 / 100"
definition REDIS_MEMORY_CRIT_RATIO :: rat where "REDIS_MEMORY_CRIT_RATIO = 97 / 100"
definition REDIS_UNBOUNDED_WARN_RAM_SHARE :: rat where "REDIS_UNBOUNDED_WARN_RAM_SHARE = 40 / 100"
definition REDIS_UNBOUNDED_CRIT_RAM_SHARE :: rat where "REDIS_UNBOUNDED_CRIT_RAM_SHARE = 60 / 100"
definition REDIS_FRAGMENTATION_WARN :: rat where "REDIS_FRAGMENTATION_WARN = 15 / 10"
definition REDIS_FRAGMENTATION_MIN_RSS_MB :: rat where "REDIS_FRAGMENTATION_MIN_RSS_MB = 200"
definition REDIS_SWAPPED_MIN_USED_MB :: rat where "REDIS_SWAPPED_MIN_USED_MB = 50"
definition REDIS_CACHE_HIT_WARN_PERCENT :: rat where "REDIS_CACHE_HIT_WARN_PERCENT = 80"
definition REDIS_CACHE_MIN_OPS_PER_S :: rat where "REDIS_CACHE_MIN_OPS_PER_S = 5"
definition REDIS_CLIENTS_WARN_RATIO :: rat where "REDIS_CLIENTS_WARN_RATIO = 8 / 10"
definition REDIS_FORK_WARN_MS :: rat where "REDIS_FORK_WARN_MS = 1000"
definition REDIS_SLOW_COMMAND_WARN_MS :: rat where "REDIS_SLOW_COMMAND_WARN_MS = 100"

subsection \<open>Samples and findings\<close>

datatype severity_level = Critical_level | Warning_level

fun SEVERITY_ORDER :: "severity_level \<Rightarrow> nat" where
  "SEVERITY_ORDER Critical_level = 0"
| "SEVERITY_ORDER Warning_level = 1"

datatype pool_advice = Raise_pool_to int | Pool_holds_all | Raise_if_free

record finding =
  f_id :: string
  f_severity :: severity_level
  f_pool :: "pool_advice option"

definition new_finding :: "string \<Rightarrow> severity_level \<Rightarrow> finding" where
  "new_finding i s = \<lparr>f_id = i, f_severity = s, f_pool = None\<rparr>"

definition critical_if :: "bool \<Rightarrow> severity_level" where
  "critical_if b = (if b then Critical_level else Warning_level)"

text \<open>One rule: its finding when the condition holds.\<close>

definition rule :: "bool \<Rightarrow> finding \<Rightarrow> finding list" where
  "rule c f = (if c then [f] else [])"

text \<open>A loaded row: whether its rates were computed, its numbers and its texts by column; \<open>None\<close> is a missing value.\<close>

record sample_row =
  sr_valid :: "bool option"
  sr_num :: "string \<Rightarrow> rat option"
  sr_text :: "string \<Rightarrow> string option"

definition num :: "sample_row \<Rightarrow> string \<Rightarrow> rat" where
  "num r k = or_zero (sr_num r k)"

definition known :: "sample_row list \<Rightarrow> string \<Rightarrow> rat list" where
  "known rows k = List.map_filter (\<lambda>r. sr_num r k) rows"

definition valid_rows :: "sample_row list \<Rightarrow> sample_row list" where
  "valid_rows rows = filter (\<lambda>r. sr_valid r \<noteq> Some False) rows"

definition sustained_min :: "sample_row list \<Rightarrow> string \<Rightarrow> rat option" where
  "sustained_min rows k =
     (let vs = take SUSTAINED_SAMPLES (known rows k)
      in if length vs \<ge> SUSTAINED_SAMPLES then Some (Min (set vs)) else None)"

definition all_pass :: "sample_row list \<Rightarrow> string \<Rightarrow> (rat \<Rightarrow> bool) \<Rightarrow> bool" where
  "all_pass rows k test \<longleftrightarrow>
     length (known rows k) \<ge> SUSTAINED_SAMPLES \<and> list_all test (take SUSTAINED_SAMPLES (known rows k))"

definition reaches :: "rat option \<Rightarrow> rat \<Rightarrow> bool" where
  "reaches v line \<longleftrightarrow> (case v of None \<Rightarrow> False | Some x \<Rightarrow> x \<ge> line)"

definition by_severity :: "finding list \<Rightarrow> finding list" where
  "by_severity fs = sort_key (\<lambda>f. SEVERITY_ORDER (f_severity f)) fs"

subsection \<open>Memory, processor and disk\<close>

definition oom_rule :: "int \<Rightarrow> finding list" where
  "oom_rule kills = rule (kills \<noteq> 0) (new_finding ''oom_kill'' Critical_level)"

definition memory_low_rule :: "sample_row \<Rightarrow> finding list" where
  "memory_low_rule latest =
     (let total = num latest ''mem_total_mb''; pct = num latest ''mem_available_mb'' / total * 100
      in rule (total \<noteq> 0 \<and> (pct < MEM_AVAILABLE_CRIT_PERCENT \<or> pct < MEM_AVAILABLE_WARN_PERCENT))
           (new_finding ''memory_low'' (critical_if (pct < MEM_AVAILABLE_CRIT_PERCENT))))"

definition swapping_rule :: "sample_row list \<Rightarrow> finding list" where
  "swapping_rule recent =
     (let rates = map (\<lambda>r. num r ''swap_in_per_s'' + num r ''swap_out_per_s'') (valid_rows recent)
      in if length rates \<ge> SUSTAINED_SAMPLES
         then rule (Min (set rates) \<ge> SWAP_RATE_WARN_PAGES_S)
                (new_finding ''swapping'' (critical_if (Min (set rates) \<ge> SWAP_RATE_CRIT_PAGES_S)))
         else [])"

definition swap_full_rule :: "sample_row \<Rightarrow> finding list" where
  "swap_full_rule latest =
     (let total = num latest ''swap_total_mb''
      in rule (total \<noteq> 0 \<and> num latest ''swap_used_mb'' / total * 100 \<ge> SWAP_USED_WARN_PERCENT)
           (new_finding ''swap_full'' Warning_level))"

definition container_memory_rule :: "sample_row \<Rightarrow> finding list" where
  "container_memory_rule latest =
     (let limit = num latest ''cgroup_mem_limit_mb''; current = num latest ''cgroup_mem_current_mb''
      in rule (limit \<noteq> 0 \<and> current / limit \<ge> CGROUP_MEM_WARN_RATIO)
           (new_finding ''container_memory'' (critical_if (current / limit \<ge> CGROUP_MEM_CRIT_RATIO))))"

definition throttle_rule :: "sample_row list \<Rightarrow> finding list" where
  "throttle_rule recent =
     (let throttled = sustained_min (valid_rows recent) ''cpu_throttled_percent''
      in rule (reaches throttled THROTTLE_WARN_PERCENT)
           (new_finding ''cpu_throttled'' (critical_if (reaches throttled THROTTLE_CRIT_PERCENT))))"

definition io_stall_rule :: "sample_row list \<Rightarrow> finding list" where
  "io_stall_rule recent =
     (if reaches (sustained_min recent ''psi_io_full'') PSI_IO_FULL_CRIT then [new_finding ''io_stall'' Critical_level]
      else rule (reaches (sustained_min recent ''psi_io_some'') PSI_IO_SOME_WARN) (new_finding ''io_waiting'' Warning_level))"

definition disk_rule :: "string \<times> sample_row list \<Rightarrow> finding list" where
  "disk_rule d = (case d of (device, rows) \<Rightarrow>
     rule (length rows \<ge> SUSTAINED_SAMPLES \<and> all_pass rows ''util_percent'' (\<lambda>v. v \<ge> DISK_UTIL_WARN_PERCENT) \<and>
           all_pass rows ''await_ms'' (\<lambda>v. v \<ge> DISK_AWAIT_WARN_MS))
       (new_finding (''disk_saturated_'' @ device) Warning_level))"

definition memory_stall_rule :: "sample_row list \<Rightarrow> finding list" where
  "memory_stall_rule recent =
     (if reaches (sustained_min recent ''psi_memory_full'') PSI_MEMORY_FULL_CRIT then [new_finding ''memory_stall'' Critical_level]
      else rule (reaches (sustained_min recent ''psi_memory_some'') PSI_MEMORY_SOME_WARN) (new_finding ''memory_waiting'' Warning_level))"

definition cpu_rule :: "sample_row list \<Rightarrow> finding list" where
  "cpu_rule recent =
     rule (reaches (sustained_min recent ''psi_cpu_some'') PSI_CPU_SOME_WARN) (new_finding ''cpu_contention'' Warning_level)"

definition evaluate :: "sample_row list \<Rightarrow> (string \<times> sample_row list) list \<Rightarrow> int \<Rightarrow> finding list" where
  "evaluate memory_rows io_by_device kills =
     (case memory_rows of
        [] \<Rightarrow> []
      | latest # _ \<Rightarrow>
          let recent = take SUSTAINED_SAMPLES memory_rows
          in by_severity (oom_rule kills @ memory_low_rule latest @ swapping_rule recent @ swap_full_rule latest @
               container_memory_rule latest @ throttle_rule recent @ io_stall_rule recent @
               concat (map disk_rule io_by_device) @ memory_stall_rule recent @ cpu_rule recent))"

subsection \<open>MariaDB\<close>

definition round_to :: "int \<Rightarrow> rat \<Rightarrow> int" where
  "round_to step v = py_round (v / of_int step) * step"

definition min_over :: "sample_row list \<Rightarrow> string \<Rightarrow> rat option" where
  "min_over rows k = (let vs = known rows k in if length vs = length rows \<and> vs \<noteq> [] then Some (Min (set vs)) else None)"

definition max_over :: "sample_row list \<Rightarrow> string \<Rightarrow> rat option" where
  "max_over rows k = (let vs = known rows k in if length vs = length rows \<and> vs \<noteq> [] then Some (Max (set vs)) else None)"

definition total_over :: "sample_row list \<Rightarrow> string \<Rightarrow> rat" where
  "total_over rows k = sum_list (map (\<lambda>r. num r k) rows)"

definition mean_over :: "sample_row list \<Rightarrow> string \<Rightarrow> rat" where
  "mean_over rows k = total_over rows k / of_nat (length rows)"

text \<open>What the rules share: the newest row, the newest samples with rates, and whether there are enough of them.\<close>

definition computed_rows :: "sample_row list \<Rightarrow> sample_row list" where
  "computed_rows rows = filter (\<lambda>r. sr_valid r = Some True) rows"

definition recent_rows :: "sample_row list \<Rightarrow> sample_row list" where
  "recent_rows rows = take SUSTAINED_SAMPLES (computed_rows rows)"

definition have_recent :: "sample_row list \<Rightarrow> bool" where
  "have_recent rows \<longleftrightarrow> length (recent_rows rows) \<ge> SUSTAINED_SAMPLES"

definition recent_min :: "sample_row list \<Rightarrow> string \<Rightarrow> rat option" where
  "recent_min rows k = (if have_recent rows then min_over (recent_rows rows) k else None)"

definition wait_free_rule :: "sample_row list \<Rightarrow> finding list" where
  "wait_free_rule rows = rule (have_recent rows \<and> total_over (recent_rows rows) ''bp_wait_free'' > 0) (new_finding ''db_wait_free'' Critical_level)"

text \<open>The samples of the cache window that show misses reaching the disk.\<close>

definition cache_window :: "sample_row list \<Rightarrow> sample_row list" where
  "cache_window rows = take DB_CACHE_WINDOW (computed_rows rows)"

definition cache_bad :: "sample_row list \<Rightarrow> sample_row list" where
  "cache_bad rows =
     filter (\<lambda>r. sr_num r ''bp_hit_percent'' \<noteq> None \<and> num r ''bp_hit_percent'' < DB_HIT_WARN_PERCENT \<and>
               num r ''bp_disk_reads_per_s'' \<ge> DB_MIN_DISK_READS_PER_S) (cache_window rows)"

definition cache_hit :: "sample_row list \<Rightarrow> rat option" where
  "cache_hit rows =
     (if length (cache_window rows) \<ge> DB_CACHE_WINDOW \<and>
         of_nat (length (cache_bad rows)) \<ge> of_nat (length (cache_window rows)) * DB_CACHE_MIN_SHARE
      then Some (mean_over (cache_bad rows) ''bp_hit_percent'') else None)"

definition pool_suggestion :: "rat \<Rightarrow> rat \<Rightarrow> int option" where
  "pool_suggestion data_mb ram_mb =
     (if data_mb \<noteq> 0 \<and> ram_mb \<noteq> 0
      then Some (round_to 64 (min (data_mb * 11 / 10) (max (ram_mb * POOL_SHARE_OF_FREE_RAM) (ram_mb - RAM_RESERVED_MB * 2))))
      else None)"

definition pool_advice_for :: "rat \<Rightarrow> rat \<Rightarrow> rat \<Rightarrow> pool_advice" where
  "pool_advice_for pool_mb data_mb ram_mb =
     (case pool_suggestion data_mb ram_mb of
        Some n \<Rightarrow>
          if n \<noteq> 0 \<and> of_int n > pool_mb * 11 / 10 then Raise_pool_to n
          else if pool_mb \<noteq> 0 \<and> data_mb \<noteq> 0 \<and> pool_mb \<ge> data_mb then Pool_holds_all else Raise_if_free
      | None \<Rightarrow> if pool_mb \<noteq> 0 \<and> data_mb \<noteq> 0 \<and> pool_mb \<ge> data_mb then Pool_holds_all else Raise_if_free)"

definition cache_rule :: "sample_row list \<Rightarrow> rat \<Rightarrow> rat \<Rightarrow> finding list" where
  "cache_rule rows data_mb ram_mb =
     (case cache_hit rows of
        Some hit \<Rightarrow>
          rule (num (hd rows) ''uptime_s'' \<ge> DB_MIN_UPTIME_SECONDS)
            ((new_finding ''db_cache_misses'' (critical_if (hit < DB_HIT_CRIT_PERCENT)))
               \<lparr>f_pool := Some (pool_advice_for (num (hd rows) ''bp_size_mb'') data_mb ram_mb)\<rparr>)
      | None \<Rightarrow> [])"

definition checkpoint_rule :: "sample_row list \<Rightarrow> finding list" where
  "checkpoint_rule rows =
     (let checkpoint = recent_min rows ''checkpoint_age_percent''
      in rule (reaches checkpoint DB_CHECKPOINT_WARN_PERCENT)
           (new_finding ''db_checkpoint'' (critical_if (reaches checkpoint DB_CHECKPOINT_CRIT_PERCENT))))"

definition dirty_rule :: "perf_env \<Rightarrow> dict \<Rightarrow> sample_row list \<Rightarrow> finding list" where
  "dirty_rule pf config rows =
     (let limit = flt_val pf (get config ''innodb_max_dirty_pages_pct''); max_dirty = (if limit = 0 then 90 else limit)
      in rule (reaches (recent_min rows ''bp_dirty_percent'') (max_dirty * DB_DIRTY_WARN_FRACTION)) (new_finding ''db_dirty_pages'' Warning_level))"

definition busiest_disk :: "sample_row list \<Rightarrow> rat option" where
  "busiest_disk io_latest = (if io_latest = [] then None else Some (Max (set (map (\<lambda>d. num d ''util_percent'') io_latest))))"

definition io_capacity_rule :: "sample_row list \<Rightarrow> sample_row list \<Rightarrow> finding list" where
  "io_capacity_rule io_latest rows =
     (let capacity = num (hd rows) ''io_capacity'';
          under_pressure = (or_zero (recent_min rows ''bp_dirty_percent'') \<ge> 50 \<or> or_zero (recent_min rows ''checkpoint_age_percent'') \<ge> 50)
      in rule (capacity \<noteq> 0 \<and> reaches (recent_min rows ''pages_flushed_per_s'') (capacity * DB_FLUSH_AT_CAPACITY) \<and> under_pressure \<and>
               (case busiest_disk io_latest of None \<Rightarrow> True | Some b \<Rightarrow> b < DB_DISK_BUSY_OK_PERCENT))
           (new_finding ''db_io_capacity'' Warning_level))"

definition tmp_tables_rule :: "sample_row list \<Rightarrow> finding list" where
  "tmp_tables_rule rows =
     rule (reaches (recent_min rows ''tmp_disk_percent'') DB_TMP_DISK_WARN_PERCENT \<and>
           or_zero (recent_min rows ''tmp_disk_per_s'') \<ge> DB_TMP_DISK_MIN_PER_S) (new_finding ''db_tmp_tables'' Warning_level)"

definition connections_rule :: "sample_row list \<Rightarrow> finding list" where
  "connections_rule rows =
     (let limit = num (hd rows) ''max_connections''; connected = num (hd rows) ''threads_connected'';
          refused = total_over (recent_rows rows) ''connection_limit_errors''
      in rule (limit \<noteq> 0 \<and> (connected / limit \<ge> DB_CONNECTIONS_WARN_RATIO \<or> refused > 0))
           (new_finding ''db_connections'' (critical_if (connected / limit \<ge> DB_CONNECTIONS_CRIT_RATIO \<or> refused > 0))))"

definition history_rule :: "sample_row list \<Rightarrow> finding list" where
  "history_rule rows =
     (let history = num (hd rows) ''history_list_length''
      in rule (history \<ge> DB_HISTORY_WARN) (new_finding ''db_history'' (critical_if (history \<ge> DB_HISTORY_CRIT))))"

definition db_swap_rule :: "sample_row list \<Rightarrow> finding list" where
  "db_swap_rule rows =
     (let swap = num (hd rows) ''mariadbd_swap_mb''
      in rule (swap \<ge> DB_SWAP_WARN_MB) (new_finding ''db_swapped'' (critical_if (swap \<ge> DB_SWAP_CRIT_MB))))"

definition log_buffer_rule :: "sample_row list \<Rightarrow> finding list" where
  "log_buffer_rule rows = rule (have_recent rows \<and> total_over (recent_rows rows) ''log_waits'' > 0) (new_finding ''db_log_buffer'' Warning_level)"

definition row_lock_rule :: "sample_row list \<Rightarrow> finding list" where
  "row_lock_rule rows =
     rule (reaches (recent_min rows ''row_lock_current_waits'') DB_ROW_LOCK_WAITING_WARN \<or>
           num (hd rows) ''row_lock_avg_wait_ms'' \<ge> DB_ROW_LOCK_AVG_WAIT_WARN_MS \<and> num (hd rows) ''row_lock_waits_per_s'' \<ge> 1 / 10)
       (new_finding ''db_row_locks'' Warning_level)"

definition table_cache_rule :: "sample_row list \<Rightarrow> finding list" where
  "table_cache_rule rows =
     rule (reaches (recent_min rows ''table_opens_per_s'') DB_TABLE_OPENS_WARN_PER_S) (new_finding ''db_table_cache'' Warning_level)"

definition open_files_limit :: "rat \<Rightarrow> rat option \<Rightarrow> rat" where
  "open_files_limit own process_limit =
     (case process_limit of
        Some p \<Rightarrow> if p = 0 then own else if own \<noteq> 0 then min own p else p
      | None \<Rightarrow> own)"

definition open_files_rule :: "rat option \<Rightarrow> sample_row list \<Rightarrow> finding list" where
  "open_files_rule process_limit rows =
     (let limit = open_files_limit (num (hd rows) ''open_files_limit'') process_limit
      in rule (limit \<noteq> 0 \<and> num (hd rows) ''open_files'' / limit \<ge> DB_OPEN_FILES_WARN_RATIO) (new_finding ''db_open_files'' Warning_level))"

definition slow_queries_rule :: "sample_row list \<Rightarrow> finding list" where
  "slow_queries_rule rows =
     rule (reaches (recent_min rows ''slow_queries_per_s'') DB_SLOW_QUERIES_WARN_PER_S) (new_finding ''db_slow_queries'' Warning_level)"

definition evaluate_mariadb ::
    "perf_env \<Rightarrow> sample_row list \<Rightarrow> dict \<Rightarrow> dict \<Rightarrow> sample_row option \<Rightarrow> sample_row list \<Rightarrow> rat option \<Rightarrow> finding list" where
  "evaluate_mariadb pf rows config sizes memory io_latest process_limit =
     (if rows = [] then []
      else
        let data_mb = flt_val pf (get sizes ''data_mb'') + flt_val pf (get sizes ''index_mb'');
            ram_mb = (case memory of None \<Rightarrow> 0 | Some m \<Rightarrow> num m ''mem_total_mb'')
        in wait_free_rule rows @ cache_rule rows data_mb ram_mb @ checkpoint_rule rows @ dirty_rule pf config rows @
           io_capacity_rule io_latest rows @ tmp_tables_rule rows @ connections_rule rows @ history_rule rows @ db_swap_rule rows @
           log_buffer_rule rows @ row_lock_rule rows @ table_cache_rule rows @ open_files_rule process_limit rows @ slow_queries_rule rows)"

subsection \<open>Redis\<close>

text \<open>The rules for one instance; \<open>key\<close> is its label without colons.\<close>

definition redis_key :: "string \<Rightarrow> string" where
  "redis_key label = py_replace_char (CHR '':'') (CHR ''_'') label"

definition is_queue :: "sample_row \<Rightarrow> bool" where
  "is_queue latest \<longleftrightarrow> ''queue'' \<in> set (py_split (CHR ''+'') (opt_str (sr_text latest ''roles'')))"

definition redis_policy :: "sample_row \<Rightarrow> string" where
  "redis_policy latest = (if truthy (sr_text latest ''maxmemory_policy'') then opt_str (sr_text latest ''maxmemory_policy'') else ''unknown'')"

definition redis_cache_rule :: "string \<Rightarrow> sample_row list \<Rightarrow> finding list" where
  "redis_cache_rule key rows =
     (let evicted = (if have_recent rows then total_over (recent_rows rows) ''evicted'' else 0);
          hit = (if have_recent rows then max_over (recent_rows rows) ''hit_percent'' else None);
          low = (case hit of None \<Rightarrow> False | Some h \<Rightarrow> h < REDIS_CACHE_HIT_WARN_PERCENT);
          busy = (or_zero (recent_min rows ''ops_per_s'') \<ge> REDIS_CACHE_MIN_OPS_PER_S)
      in if evicted > 0 \<and> is_queue (hd rows) then [new_finding (''redis_evict_queue_'' @ key) Critical_level]
         else if evicted > 0 \<and> low \<and> busy then [new_finding (''redis_cache_small_'' @ key) Warning_level]
         else rule (low \<and> busy \<and> \<not> is_queue (hd rows) \<and> num (hd rows) ''uptime_s'' \<ge> DB_MIN_UPTIME_SECONDS)
                (new_finding (''redis_cache_hits_'' @ key) Warning_level))"

definition redis_memory_rule :: "string \<Rightarrow> rat \<Rightarrow> sample_row \<Rightarrow> finding list" where
  "redis_memory_rule key ram_mb latest =
     (let limit_mb = num latest ''maxmemory_mb''; ratio = num latest ''used_mb'' / limit_mb; share = num latest ''rss_mb'' / ram_mb
      in if limit_mb \<noteq> 0
         then rule (ratio \<ge> REDIS_MEMORY_WARN_RATIO)
                (new_finding (''redis_memory_full_'' @ key)
                   (critical_if (ratio \<ge> REDIS_MEMORY_CRIT_RATIO \<and> redis_policy latest = ''noeviction'')))
         else rule (ram_mb \<noteq> 0 \<and> share \<ge> REDIS_UNBOUNDED_WARN_RAM_SHARE)
                (new_finding (''redis_unbounded_'' @ key) (critical_if (share \<ge> REDIS_UNBOUNDED_CRIT_RAM_SHARE))))"

definition redis_fragmentation_rule :: "string \<Rightarrow> sample_row \<Rightarrow> finding list" where
  "redis_fragmentation_rule key latest =
     (let frag = num latest ''fragmentation_ratio''
      in if frag \<noteq> 0 \<and> num latest ''rss_mb'' \<ge> REDIS_FRAGMENTATION_MIN_RSS_MB \<and> frag \<ge> REDIS_FRAGMENTATION_WARN
         then [new_finding (''redis_fragmentation_'' @ key) Warning_level]
         else rule (frag \<noteq> 0 \<and> 0 < frag \<and> frag < 1 \<and> num latest ''used_mb'' \<ge> REDIS_SWAPPED_MIN_USED_MB)
                (new_finding (''redis_swapped_'' @ key) Critical_level))"

definition redis_persistence_rule :: "string \<Rightarrow> sample_row \<Rightarrow> finding list" where
  "redis_persistence_rule key latest = rule (num latest ''persistence_ok'' = 0) (new_finding (''redis_persistence_'' @ key) Critical_level)"

definition redis_clients_rule :: "string \<Rightarrow> sample_row list \<Rightarrow> finding list" where
  "redis_clients_rule key rows =
     (let max_clients = num (hd rows) ''max_clients''
      in if total_over (take SUSTAINED_SAMPLES rows) ''rejected'' > 0 then [new_finding (''redis_refused_'' @ key) Critical_level]
         else rule (max_clients \<noteq> 0 \<and> num (hd rows) ''connected_clients'' / max_clients \<ge> REDIS_CLIENTS_WARN_RATIO)
                (new_finding (''redis_clients_'' @ key) Warning_level))"

definition redis_fork_rule :: "string \<Rightarrow> sample_row \<Rightarrow> finding list" where
  "redis_fork_rule key latest = rule (num latest ''fork_ms'' \<ge> REDIS_FORK_WARN_MS) (new_finding (''redis_fork_'' @ key) Warning_level)"

definition redis_slow_rule :: "string \<Rightarrow> sample_row \<Rightarrow> finding list" where
  "redis_slow_rule key latest =
     rule (num latest ''slowlog_recent_max_ms'' \<ge> REDIS_SLOW_COMMAND_WARN_MS) (new_finding (''redis_slow_'' @ key) Warning_level)"

definition redis_instance_rules :: "rat \<Rightarrow> string \<times> sample_row list \<Rightarrow> finding list" where
  "redis_instance_rules ram_mb i =
     (case i of (label, rows) \<Rightarrow>
        if rows = [] then []
        else let key = redis_key label; latest = hd rows
             in redis_cache_rule key rows @ redis_memory_rule key ram_mb latest @ redis_fragmentation_rule key latest @
                redis_persistence_rule key latest @ redis_clients_rule key rows @ redis_fork_rule key latest @ redis_slow_rule key latest)"

definition evaluate_redis :: "(string \<times> sample_row list) list \<Rightarrow> sample_row option \<Rightarrow> finding list" where
  "evaluate_redis rows_by_instance memory =
     (let ram_mb = (case memory of None \<Rightarrow> 0 | Some m \<Rightarrow> num m ''mem_total_mb'')
      in by_severity (concat (map (redis_instance_rules ram_mb) rows_by_instance)))"

subsection \<open>Loading the samples of a host\<close>

text \<open>A number read back from its column.\<close>

definition column_num :: "perf_env \<Rightarrow> json_val option \<Rightarrow> rat option" where
  "column_num pf v = (case pf_column pf v of None \<Rightarrow> None | Some Null \<Rightarrow> None | Some x \<Rightarrow> Some (flt_val pf (Some x)))"

definition memory_columns :: "memory_metric \<Rightarrow> (string \<times> json_val option) list" where
  "memory_columns m =
     [(''swap_in_per_s'', map_option Num (mm_swap_in_per_s m)), (''swap_out_per_s'', map_option Num (mm_swap_out_per_s m)),
      (''cpu_throttled_percent'', map_option Num (mm_cpu_throttled_percent m)), (''mem_used_percent'', map_option Num (mm_mem_used_percent m))] @
     mm_readings m"

definition row_of_columns :: "perf_env \<Rightarrow> bool \<Rightarrow> (string \<times> json_val option) list \<Rightarrow> dict \<Rightarrow> sample_row" where
  "row_of_columns pf valid cols texts =
     \<lparr>sr_valid = Some valid,
      sr_num = (\<lambda>k. column_num pf (case map_of cols k of None \<Rightarrow> None | Some v \<Rightarrow> v)),
      sr_text = (\<lambda>k. case map_of texts k of Some (Txt s) \<Rightarrow> Some s | _ \<Rightarrow> None)\<rparr>"

definition memory_sample_row :: "perf_env \<Rightarrow> memory_metric \<Rightarrow> sample_row" where
  "memory_sample_row pf m = row_of_columns pf (mm_rates_valid m) (memory_columns m) []"

definition io_columns :: "io_rates \<Rightarrow> (string \<times> json_val option) list" where
  "io_columns r =
     [(''read_iops'', map_option Num (ir_read_iops r)), (''write_iops'', map_option Num (ir_write_iops r)),
      (''read_mb_s'', Some (Num (ir_read_mb_s r))), (''write_mb_s'', Some (Num (ir_write_mb_s r))),
      (''await_ms'', Some (Num (ir_await_ms r))), (''util_percent'', Some (Num (ir_util_percent r))), (''avg_queue'', Some (Num (ir_avg_queue r)))]"

definition io_sample_row :: "perf_env \<Rightarrow> io_sample \<Rightarrow> sample_row" where
  "io_sample_row pf s = row_of_columns pf (io_rates s \<noteq> None) (case io_rates s of None \<Rightarrow> [] | Some r \<Rightarrow> io_columns r) []"

definition mariadb_sample_row :: "perf_env \<Rightarrow> mariadb_metric \<Rightarrow> sample_row" where
  "mariadb_sample_row pf m =
     row_of_columns pf (md_rates_valid m) ((''uptime_s'', Some (Num (md_uptime_s m))) # map (\<lambda>(k, v). (k, Some (Num v))) (md_values m)) []"

definition redis_sample_row :: "perf_env \<Rightarrow> redis_metric \<Rightarrow> sample_row" where
  "redis_sample_row pf m =
     row_of_columns pf (rd_rates_valid m) ((''uptime_s'', Some (Num (rd_uptime_s m))) # map (\<lambda>(k, v). (k, Some (Num v))) (rd_values m)) (rd_texts m)"

text \<open>\<open>order_by\<close> the time, newest first; a bucket per key that keeps its newest \<open>n\<close> rows.\<close>

definition newest_first :: "('r \<Rightarrow> datetime) \<Rightarrow> 'r list \<Rightarrow> 'r list" where
  "newest_first t rows = rev (sort_key t rows)"

definition newest_per :: "nat \<Rightarrow> ('r \<Rightarrow> string) \<Rightarrow> 'r list \<Rightarrow> (string \<times> 'r list) list" where
  "newest_per n key rows = map (\<lambda>(k, rs). (k, take n rs)) (group_rows key rows)"

definition memory_rows_of :: "perf_env \<Rightarrow> string \<Rightarrow> 'a perf_db_scheme \<Rightarrow> sample_row list" where
  "memory_rows_of pf host st =
     map (memory_sample_row pf)
       (take SUSTAINED_SAMPLES (newest_first mm_collected_at (filter (\<lambda>m. mm_monitored_host m = host) (memory_metrics st))))"

definition recent_kills :: "perf_env \<Rightarrow> string \<Rightarrow> 'a perf_db_scheme \<Rightarrow> int" where
  "recent_kills pf host st =
     (let rows = filter (\<lambda>m. mm_monitored_host m = host \<and> mm_collected_at m \<ge> pf_now pf - OOM_LOOKBACK_MINUTES * MINUTE) (memory_metrics st);
          total = sum_list (map mm_oom_kills_since_last rows) + sum_list (map mm_cgroup_oom_kills_since_last rows)
      in \<lfloor>total\<rfloor>)"

definition io_rows_of :: "perf_env \<Rightarrow> string \<Rightarrow> 'a perf_db_scheme \<Rightarrow> (string \<times> sample_row list) list" where
  "io_rows_of pf host st =
     map (\<lambda>(device, rs). (device, map (io_sample_row pf) rs))
       (newest_per SUSTAINED_SAMPLES io_device
          (newest_first io_collected_at
             (filter (\<lambda>s. io_monitored_host s = host \<and> io_rates s \<noteq> None \<and> io_collected_at s \<ge> pf_now pf - 10 * MINUTE) (io_samples st))))"

definition sizes_counted :: "perf_env \<Rightarrow> mariadb_snapshot \<Rightarrow> bool" where
  "sizes_counted pf s \<longleftrightarrow> (case mc_sizes s of None \<Rightarrow> False | Some d \<Rightarrow> or_zero (column_num pf (get d ''sites_counted'')) \<noteq> 0)"

definition diagnose_mariadb :: "perf_env \<Rightarrow> string \<Rightarrow> sample_row option \<Rightarrow> sample_row list \<Rightarrow> 'a store_perf_db_scheme \<Rightarrow> finding list \<times> bool" where
  "diagnose_mariadb pf host memory_latest io_latest st =
     (let rows = map (mariadb_sample_row pf)
            (take (DB_CACHE_WINDOW + 2) (newest_first md_collected_at (filter (\<lambda>m. md_monitored_host m = host) (mariadb_metrics st))));
          snapshots = take 20 (newest_first mc_collected_at (filter (\<lambda>s. mc_monitored_host s = host) (mariadb_snapshots st)));
          config = (case snapshots of [] \<Rightarrow> [] | s # _ \<Rightarrow> (case mc_variables s of None \<Rightarrow> [] | Some d \<Rightarrow> d));
          sizes = (case filter (sizes_counted pf) snapshots of [] \<Rightarrow> [] | s # _ \<Rightarrow> (case mc_sizes s of None \<Rightarrow> [] | Some d \<Rightarrow> d))
      in (evaluate_mariadb pf rows config sizes memory_latest io_latest None, rows \<noteq> []))"

definition diagnose_redis :: "perf_env \<Rightarrow> string \<Rightarrow> sample_row option \<Rightarrow> 'a store_perf_db_scheme \<Rightarrow> finding list \<times> bool" where
  "diagnose_redis pf host memory_latest st =
     (let rows = take 40 (newest_first rd_collected_at (filter (\<lambda>m. rd_monitored_host m = host) (redis_metrics st)));
          by_instance = map (\<lambda>(label, rs). (label, map (redis_sample_row pf) rs)) (newest_per (SUSTAINED_SAMPLES + 2) rd_instance rows)
      in (evaluate_redis by_instance memory_latest, rows \<noteq> []))"

record diagnosis =
  dg_findings :: "finding list"
  dg_has_data :: bool

definition diagnose_host :: "perf_env \<Rightarrow> string \<Rightarrow> 'a store_perf_db_scheme \<Rightarrow> diagnosis" where
  "diagnose_host pf host st =
     (let memory_rows = memory_rows_of pf host st; io_by_device = io_rows_of pf host st;
          latest = (case memory_rows of [] \<Rightarrow> None | r # _ \<Rightarrow> Some r);
          io_latest = map (\<lambda>(device, rs). hd rs) (filter (\<lambda>(device, rs). rs \<noteq> []) io_by_device);
          mariadb = diagnose_mariadb pf host latest io_latest st; redis = diagnose_redis pf host latest st
      in \<lparr>dg_findings = by_severity (evaluate memory_rows io_by_device (recent_kills pf host st) @ fst mariadb @ fst redis),
          dg_has_data = (memory_rows \<noteq> [] \<or> snd mariadb \<or> snd redis)\<rparr>)"

subsection \<open>A condition has to hold in every one of the last samples\<close>

definition fires :: "string \<Rightarrow> finding list \<Rightarrow> bool" where
  "fires i fs \<longleftrightarrow> i \<in> f_id ` set fs"

text \<open>All of the newest three samples, and there are three.\<close>

definition in_each_recent :: "(sample_row \<Rightarrow> bool) \<Rightarrow> sample_row list \<Rightarrow> bool" where
  "in_each_recent P rows \<longleftrightarrow> length rows \<ge> 3 \<and> list_all P (take 3 rows)"

lemma in_each_recent_eq: "in_each_recent P rows \<longleftrightarrow> length rows \<ge> SUSTAINED_SAMPLES \<and> list_all P (take SUSTAINED_SAMPLES rows)"
  by (simp add: in_each_recent_def SUSTAINED_SAMPLES_def)

lemma fires_simps [simp]:
  "fires i [] = False" "fires i (f # fs) \<longleftrightarrow> i = f_id f \<or> fires i fs" "fires i (xs @ ys) \<longleftrightarrow> fires i xs \<or> fires i ys"
  "fires i (by_severity fs) \<longleftrightarrow> fires i fs" "fires i (rule c f) \<longleftrightarrow> c \<and> i = f_id f" "f_id (new_finding j s) = j"
  by (auto simp: fires_def by_severity_def rule_def new_finding_def)

lemma fires_disks: "fires i (concat (map disk_rule ds)) \<Longrightarrow> \<exists>d. i = ''disk_saturated_'' @ d"
  by (auto simp: fires_def disk_rule_def rule_def new_finding_def split: if_splits)

lemma known_all: "length (known rows k) = length rows \<longleftrightarrow> list_all (\<lambda>r. sr_num r k \<noteq> None) rows"
proof (induction rows)
  case (Cons r rows)
  have "length (known rows k) \<le> length rows" by (simp add: known_def map_filter_def)
  with Cons show ?case by (cases "sr_num r k") (auto simp: known_def)
qed (simp add: known_def)

lemma known_values: "set (known rows k) = {v. \<exists>r \<in> set rows. sr_num r k = Some v}"
  by (auto simp: known_def map_filter_def) force

lemma reaches_None [simp]: "\<not> reaches None line"
  by (simp add: reaches_def)

lemma reaches_sustained:
  assumes "length rows \<le> SUSTAINED_SAMPLES"
  shows "reaches (sustained_min rows k) line \<longleftrightarrow> length rows = SUSTAINED_SAMPLES \<and> list_all (\<lambda>r. reaches (sr_num r k) line) rows"
proof -
  have le: "length (known rows k) \<le> length rows" by (simp add: known_def map_filter_def)
  then have all: "take SUSTAINED_SAMPLES (known rows k) = known rows k" using assms by simp
  show ?thesis
  proof (cases "length (known rows k) = SUSTAINED_SAMPLES")
    case True
    then have len: "length rows = SUSTAINED_SAMPLES" using le assms by simp
    then have some: "list_all (\<lambda>r. sr_num r k \<noteq> None) rows" using True known_all by metis
    have ne: "set (known rows k) \<noteq> {}" using True by (auto simp: SUSTAINED_SAMPLES_def)
    have "reaches (sustained_min rows k) line \<longleftrightarrow> line \<le> Min (set (known rows k))"
      by (simp add: sustained_min_def all True reaches_def)
    also have "\<dots> \<longleftrightarrow> (\<forall>v \<in> set (known rows k). line \<le> v)" using ne by simp
    also have "\<dots> \<longleftrightarrow> list_all (\<lambda>r. reaches (sr_num r k) line) rows"
      using some by (fastforce simp: known_values list_all_iff reaches_def split: option.split)
    finally show ?thesis using len by simp
  next
    case False
    have "\<not> (length rows = SUSTAINED_SAMPLES \<and> list_all (\<lambda>r. reaches (sr_num r k) line) rows)"
    proof
      assume a: "length rows = SUSTAINED_SAMPLES \<and> list_all (\<lambda>r. reaches (sr_num r k) line) rows"
      then have "list_all (\<lambda>r. sr_num r k \<noteq> None) rows" unfolding list_all_iff by (metis reaches_None)
      with a known_all False show False by metis
    qed
    moreover have "\<not> reaches (sustained_min rows k) line" using False le assms by (simp add: sustained_min_def all reaches_def)
    ultimately show ?thesis by simp
  qed
qed

lemma reaches_recent: "reaches (sustained_min (take SUSTAINED_SAMPLES rows) k) line \<longleftrightarrow> in_each_recent (\<lambda>r. reaches (sr_num r k) line) rows"
  by (auto simp: reaches_sustained in_each_recent_eq)

lemma length_valid: "length (valid_rows rs) \<le> length rs"
  by (simp add: valid_rows_def)

lemma valid_same: "length (valid_rows rs) = length rs \<longleftrightarrow> valid_rows rs = rs"
proof (induction rs)
  case (Cons r rs)
  have "length (valid_rows rs) \<noteq> Suc (length rs)" using length_valid [of rs] by linarith
  then have "length (valid_rows rs) \<noteq> Suc (length rs) \<and> valid_rows rs \<noteq> r # rs" by auto
  with Cons show ?case by (cases "sr_valid r = Some False") (simp_all add: valid_rows_def)
qed (simp add: valid_rows_def)

lemma valid_all: "valid_rows rs = rs \<longleftrightarrow> list_all (\<lambda>r. sr_valid r \<noteq> Some False) rs"
  by (simp add: valid_rows_def list_all_iff filter_id_conv)

lemma valid_recent:
  "length (valid_rows (take SUSTAINED_SAMPLES rows)) = SUSTAINED_SAMPLES \<longleftrightarrow> in_each_recent (\<lambda>r. sr_valid r \<noteq> Some False) rows"
  (is "length (valid_rows ?t) = _ \<longleftrightarrow> _")
proof -
  have "length (valid_rows ?t) = SUSTAINED_SAMPLES \<longleftrightarrow> SUSTAINED_SAMPLES \<le> length rows \<and> length (valid_rows ?t) = length ?t"
    using length_valid [of ?t] by auto
  then show ?thesis unfolding valid_same valid_all in_each_recent_eq by simp
qed

lemma in_each_recent_conj: "in_each_recent P rows \<and> in_each_recent Q rows \<longleftrightarrow> in_each_recent (\<lambda>r. P r \<and> Q r) rows"
  by (auto simp: in_each_recent_eq list_all_iff)

lemma valid_taken: "in_each_recent (\<lambda>r. sr_valid r \<noteq> Some False) rows \<Longrightarrow> valid_rows (take SUSTAINED_SAMPLES rows) = take SUSTAINED_SAMPLES rows"
  by (simp add: in_each_recent_eq valid_all)

lemma valid_few: "length (valid_rows (take SUSTAINED_SAMPLES rows)) \<le> SUSTAINED_SAMPLES"
  by (rule order.trans [OF length_valid]) simp

lemma reaches_recent_valid:
  "reaches (sustained_min (valid_rows (take SUSTAINED_SAMPLES rows)) k) line \<longleftrightarrow>
     in_each_recent (\<lambda>r. sr_valid r \<noteq> Some False \<and> reaches (sr_num r k) line) rows"
  unfolding in_each_recent_conj [symmetric] reaches_sustained [OF valid_few] valid_recent
  using valid_taken [of rows] by (auto simp: in_each_recent_eq)

lemma swapping_exact:
  "fires ''swapping'' (swapping_rule (take SUSTAINED_SAMPLES rows)) \<longleftrightarrow>
     in_each_recent (\<lambda>r. sr_valid r \<noteq> Some False \<and> num r ''swap_in_per_s'' + num r ''swap_out_per_s'' \<ge> SWAP_RATE_WARN_PAGES_S) rows"
proof (cases "in_each_recent (\<lambda>r. sr_valid r \<noteq> Some False) rows")
  case True
  then have len: "SUSTAINED_SAMPLES \<le> length rows" by (simp add: in_each_recent_eq)
  then have ne: "take SUSTAINED_SAMPLES rows \<noteq> []" by (auto simp: SUSTAINED_SAMPLES_def)
  show ?thesis
    unfolding swapping_rule_def valid_taken [OF True] Let_def in_each_recent_conj [symmetric]
    using True len ne by (simp add: in_each_recent_eq list_all_iff)
next
  case False
  then have "length (valid_rows (take SUSTAINED_SAMPLES rows)) \<noteq> SUSTAINED_SAMPLES" by (simp add: valid_recent)
  then have "\<not> SUSTAINED_SAMPLES \<le> length (valid_rows (take SUSTAINED_SAMPLES rows))" using valid_few [of rows] by linarith
  then show ?thesis using False unfolding in_each_recent_conj [symmetric] by (simp add: swapping_rule_def)
qed

lemma evaluate_unfold:
  "rows \<noteq> [] \<Longrightarrow> evaluate rows io kills = by_severity (oom_rule kills @ memory_low_rule (hd rows) @ swapping_rule (take SUSTAINED_SAMPLES rows) @
     swap_full_rule (hd rows) @ container_memory_rule (hd rows) @ throttle_rule (take SUSTAINED_SAMPLES rows) @ io_stall_rule (take SUSTAINED_SAMPLES rows) @
     concat (map disk_rule io) @ memory_stall_rule (take SUSTAINED_SAMPLES rows) @ cpu_rule (take SUSTAINED_SAMPLES rows))"
  unfolding evaluate_def Let_def by (cases rows) simp_all

lemma not_disk: "hd i \<noteq> CHR ''d'' \<Longrightarrow> \<not> fires i (concat (map disk_rule io))"
  using fires_disks by fastforce

lemma swapping_only: "i \<noteq> ''swapping'' \<Longrightarrow> \<not> fires i (swapping_rule rs)"
  by (simp add: swapping_rule_def Let_def)

lemmas other_rules = oom_rule_def memory_low_rule_def swap_full_rule_def container_memory_rule_def throttle_rule_def io_stall_rule_def
  memory_stall_rule_def cpu_rule_def Let_def not_disk swapping_only

lemmas recent_rules = throttle_rule_def io_stall_rule_def memory_stall_rule_def cpu_rule_def Let_def reaches_recent reaches_recent_valid

lemma fired_exact:
  assumes "rows \<noteq> []"
  shows "fires ''swapping'' (evaluate rows io kills) \<longleftrightarrow> fires ''swapping'' (swapping_rule (take SUSTAINED_SAMPLES rows))"
    "fires ''cpu_throttled'' (evaluate rows io kills) \<longleftrightarrow> fires ''cpu_throttled'' (throttle_rule (take SUSTAINED_SAMPLES rows))"
    "fires ''io_stall'' (evaluate rows io kills) \<longleftrightarrow> fires ''io_stall'' (io_stall_rule (take SUSTAINED_SAMPLES rows))"
    "fires ''io_waiting'' (evaluate rows io kills) \<longleftrightarrow> fires ''io_waiting'' (io_stall_rule (take SUSTAINED_SAMPLES rows))"
    "fires ''memory_stall'' (evaluate rows io kills) \<longleftrightarrow> fires ''memory_stall'' (memory_stall_rule (take SUSTAINED_SAMPLES rows))"
    "fires ''memory_waiting'' (evaluate rows io kills) \<longleftrightarrow> fires ''memory_waiting'' (memory_stall_rule (take SUSTAINED_SAMPLES rows))"
    "fires ''cpu_contention'' (evaluate rows io kills) \<longleftrightarrow> fires ''cpu_contention'' (cpu_rule (take SUSTAINED_SAMPLES rows))"
  unfolding evaluate_unfold [OF assms] fires_simps
  by (simp_all add: other_rules)

text \<open>C31: An alarm on the memory, the processor or the disk needs three samples in a row. Each of the seven sustained findings of a host is
  reported exactly when there are at least three samples and each of the newest three reaches its line (for the rates, with the rates
  of all three computed); "waiting" is only reported when the stronger "stalled" is not. A reading that is missing
  in one of them counts as not reached.\<close>

theorem sustained_alarms_exact:
  "(fires ''swapping'' (evaluate rows io kills) \<longleftrightarrow>
      in_each_recent (\<lambda>r. sr_valid r \<noteq> Some False \<and> num r ''swap_in_per_s'' + num r ''swap_out_per_s'' \<ge> 100) rows) \<and>
   (fires ''cpu_throttled'' (evaluate rows io kills) \<longleftrightarrow>
      in_each_recent (\<lambda>r. sr_valid r \<noteq> Some False \<and> reaches (sr_num r ''cpu_throttled_percent'') 10) rows) \<and>
   (fires ''io_stall'' (evaluate rows io kills) \<longleftrightarrow> in_each_recent (\<lambda>r. reaches (sr_num r ''psi_io_full'') 10) rows) \<and>
   (fires ''io_waiting'' (evaluate rows io kills) \<longleftrightarrow>
      in_each_recent (\<lambda>r. reaches (sr_num r ''psi_io_some'') 25) rows \<and> \<not> fires ''io_stall'' (evaluate rows io kills)) \<and>
   (fires ''memory_stall'' (evaluate rows io kills) \<longleftrightarrow> in_each_recent (\<lambda>r. reaches (sr_num r ''psi_memory_full'') 5) rows) \<and>
   (fires ''memory_waiting'' (evaluate rows io kills) \<longleftrightarrow>
      in_each_recent (\<lambda>r. reaches (sr_num r ''psi_memory_some'') 20) rows \<and> \<not> fires ''memory_stall'' (evaluate rows io kills)) \<and>
   (fires ''cpu_contention'' (evaluate rows io kills) \<longleftrightarrow> in_each_recent (\<lambda>r. reaches (sr_num r ''psi_cpu_some'') 50) rows)"
proof (cases "rows = []")
  case True
  then show ?thesis by (simp add: evaluate_def in_each_recent_eq SUSTAINED_SAMPLES_def)
next
  case False
  show ?thesis
    unfolding fired_exact [OF False] swapping_exact
    by (simp add: recent_rules SWAP_RATE_WARN_PAGES_S_def THROTTLE_WARN_PERCENT_def PSI_IO_FULL_CRIT_def PSI_IO_SOME_WARN_def
        PSI_MEMORY_FULL_CRIT_def PSI_MEMORY_SOME_WARN_def PSI_CPU_SOME_WARN_def)
qed


subsection \<open>The advice on the buffer pool\<close>

lemma py_round_near: "\<bar>of_int (py_round x) - x\<bar> \<le> 1 / 2"
proof -
  have "of_int \<lfloor>x\<rfloor> \<le> x" "x < of_int \<lfloor>x\<rfloor> + 1" by linarith+
  then show ?thesis by (auto simp: py_round_def Let_def abs_le_iff field_simps)
qed

lemma round_to_near: "0 < step \<Longrightarrow> \<bar>of_int (round_to step v) - v\<bar> \<le> of_int step / 2"
proof -
  assume s: "0 < step"
  have "of_int (round_to step v) - v = (of_int (py_round (v / of_int step)) - v / of_int step) * of_int step"
    using s by (simp add: round_to_def algebra_simps)
  then have "\<bar>of_int (round_to step v) - v\<bar> = \<bar>of_int (py_round (v / of_int step)) - v / of_int step\<bar> * of_int step"
    using s by (simp add: abs_mult)
  also have "\<dots> \<le> 1 / 2 * of_int step" using py_round_near [of "v / of_int step"] s by (intro mult_right_mono) simp_all
  finally show ?thesis by simp
qed

text \<open>The advice can exceed the share. The comment on \<open>POOL_SHARE_OF_FREE_RAM\<close> says a pool is never suggested above 70 percent of the guest's
  memory; with 8 GB and more, data as large as the memory and a pool of at most half of it, the advice is the memory less 2 GB (to
  the nearest 64 MB), which is above that share.\<close>

theorem pool_advice_exceeds_share:
  assumes "8192 \<le> ram_mb" and "ram_mb \<le> data_mb" and "pool_mb \<le> ram_mb / 2"
  shows "\<exists>n. pool_advice_for pool_mb data_mb ram_mb = Raise_pool_to n \<and> of_int n > ram_mb * POOL_SHARE_OF_FREE_RAM \<and>
    \<bar>of_int n - (ram_mb - 2048)\<bar> \<le> 32"
proof -
  let ?v = "min (data_mb * 11 / 10) (max (ram_mb * POOL_SHARE_OF_FREE_RAM) (ram_mb - RAM_RESERVED_MB * 2))"
  have v: "?v = ram_mb - 2048" using assms(1,2) by (simp add: POOL_SHARE_OF_FREE_RAM_def RAM_RESERVED_MB_def min_def max_def)
  define n where "n = round_to 64 (ram_mb - 2048)"
  have sug: "pool_suggestion data_mb ram_mb = Some n"
    using assms(1,2) by (simp only: pool_suggestion_def v n_def) simp
  have near: "\<bar>of_int n - (ram_mb - 2048)\<bar> \<le> 32" using round_to_near [of 64 "ram_mb - 2048"] by (simp add: n_def)
  then have big: "of_int n \<ge> ram_mb - 2080" by linarith
  have "of_int n > pool_mb * 11 / 10" and more: "of_int n > ram_mb * POOL_SHARE_OF_FREE_RAM" and "n \<noteq> 0"
    using big assms(1,3) by (auto simp: POOL_SHARE_OF_FREE_RAM_def)
  then have "pool_advice_for pool_mb data_mb ram_mb = Raise_pool_to n" by (simp add: pool_advice_for_def sug)
  with more near show ?thesis by blast
qed

theorem pool_advice_exceeds_share_witness:
  "\<exists>n. pool_advice_for 4096 65536 32768 = Raise_pool_to n \<and> of_int n > (32768 :: rat) * POOL_SHARE_OF_FREE_RAM"
  using pool_advice_exceeds_share [of 32768 65536 4096] by auto


subsection \<open>Cache misses are judged over ten samples\<close>

text \<open>The finding on cache misses is reported exactly when the server is up for half an hour, there are ten samples with
  rates, and at least eight of the newest ten missed the cache with a relevant number of reads.\<close>

theorem cache_misses_exact:
  "fires ''db_cache_misses'' (evaluate_mariadb pf rows config sizes memory io_latest limit) \<longleftrightarrow>
     rows \<noteq> [] \<and> num (hd rows) ''uptime_s'' \<ge> 1800 \<and> length (computed_rows rows) \<ge> 10 \<and>
     8 \<le> length (filter (\<lambda>r. \<exists>h. sr_num r ''bp_hit_percent'' = Some h \<and> h < 99 \<and> num r ''bp_disk_reads_per_s'' \<ge> 20)
            (take 10 (computed_rows rows)))"
proof -
  have bad: "cache_bad rows = filter (\<lambda>r. \<exists>h. sr_num r ''bp_hit_percent'' = Some h \<and> h < 99 \<and> num r ''bp_disk_reads_per_s'' \<ge> 20)
      (take 10 (computed_rows rows))"
    by (auto simp: cache_bad_def cache_window_def DB_CACHE_WINDOW_def num_def or_zero_def DB_HIT_WARN_PERCENT_def DB_MIN_DISK_READS_PER_S_def
        intro!: filter_cong)
  have hit: "cache_hit rows \<noteq> None \<longleftrightarrow> length (computed_rows rows) \<ge> 10 \<and> 8 \<le> length (cache_bad rows)"
  proof (cases "length (computed_rows rows) \<ge> 10")
    case True
    then have w: "length (cache_window rows) = 10" by (simp add: cache_window_def DB_CACHE_WINDOW_def)
    have "of_nat (length (cache_bad rows)) \<ge> (8 :: rat) \<longleftrightarrow> 8 \<le> length (cache_bad rows)" using of_nat_le_iff [of 8 "length (cache_bad rows)", where 'a = rat] by simp
    then show ?thesis using True by (simp add: cache_hit_def w DB_CACHE_WINDOW_def DB_CACHE_MIN_SHARE_def)
  next
    case False
    then show ?thesis by (simp add: cache_hit_def cache_window_def DB_CACHE_WINDOW_def)
  qed
  have own: "fires ''db_cache_misses'' (cache_rule rows a b) \<longleftrightarrow> cache_hit rows \<noteq> None \<and> num (hd rows) ''uptime_s'' \<ge> 1800" for a b
    by (cases "cache_hit rows") (auto simp: cache_rule_def DB_MIN_UPTIME_SECONDS_def new_finding_def)
  have "fires ''db_cache_misses'' (evaluate_mariadb pf rows config sizes memory io_latest limit) \<longleftrightarrow>
      rows \<noteq> [] \<and> (\<exists>a b. fires ''db_cache_misses'' (cache_rule rows a b))"
    unfolding own
    by (simp add: evaluate_mariadb_def Let_def own wait_free_rule_def checkpoint_rule_def dirty_rule_def io_capacity_rule_def tmp_tables_rule_def
        connections_rule_def history_rule_def db_swap_rule_def log_buffer_rule_def row_lock_rule_def table_cache_rule_def open_files_rule_def slow_queries_rule_def)
  then show ?thesis unfolding own hit bad by blast
qed

subsection \<open>One finding per id, the critical ones first\<close>

lemma by_severity_facts:
  "distinct (map f_id (by_severity fs)) = distinct (map f_id fs)" "sorted (map (\<lambda>f. SEVERITY_ORDER (f_severity f)) (by_severity fs))"
  "set (by_severity fs) = set fs"
proof -
  have "mset (map f_id (by_severity fs)) = mset (map f_id fs)" by (simp add: by_severity_def)
  then show "distinct (map f_id (by_severity fs)) = distinct (map f_id fs)" by (rule mset_eq_imp_distinct_iff)
qed (simp_all add: by_severity_def)

lemma subseq_distinct_list: "subseq xs ys \<Longrightarrow> distinct ys \<Longrightarrow> distinct xs"
  by (auto simp: subseq_conv_nths intro: distinct_nthsI)

lemma subseq_one: "subseq xs [a] \<Longrightarrow> subseq ys zs \<Longrightarrow> subseq (xs @ ys) (a # zs)"
  using list_emb_append_mono [of "(=)" xs "[a]" ys zs] by simp

lemma subseq_two: "subseq xs [a, b] \<Longrightarrow> subseq ys zs \<Longrightarrow> subseq (xs @ ys) (a # b # zs)"
  using list_emb_append_mono [of "(=)" xs "[a, b]" ys zs] by simp

lemma ids_two:
  "subseq (map f_id (if c then [new_finding a s] else rule c' (new_finding b s'))) [a, b]"
  by (simp add: rule_def new_finding_def)

lemma ids_one: "subseq (map f_id (rule c (new_finding a s))) [a]" "subseq (map f_id (if d then rule c (new_finding a s) else [])) [a]"
  by (simp_all add: rule_def new_finding_def)

definition ALARM_IDS :: "string list" where
  "ALARM_IDS =
     [''oom_kill'', ''memory_low'', ''swapping'', ''swap_full'', ''container_memory'', ''cpu_throttled'', ''io_stall'', ''io_waiting'']"

definition STALL_IDS :: "string list" where
  "STALL_IDS = [''memory_stall'', ''memory_waiting'', ''cpu_contention'']"

definition disk_ids_of :: "(string \<times> 'r) list \<Rightarrow> string list" where
  "disk_ids_of io = map (\<lambda>d. ''disk_saturated_'' @ fst d) io"

definition DB_IDS :: "string list" where
  "DB_IDS = [''db_wait_free'', ''db_cache_misses'', ''db_checkpoint'', ''db_dirty_pages'', ''db_io_capacity'', ''db_tmp_tables'', ''db_connections'',
     ''db_history'', ''db_swapped'', ''db_log_buffer'', ''db_row_locks'', ''db_table_cache'', ''db_open_files'', ''db_slow_queries'']"

definition REDIS_PREFIXES :: "string list" where
  "REDIS_PREFIXES = [''redis_evict_queue_'', ''redis_cache_small_'', ''redis_cache_hits_'', ''redis_memory_full_'', ''redis_unbounded_'', ''redis_fragmentation_'',
     ''redis_swapped_'', ''redis_persistence_'', ''redis_refused_'', ''redis_clients_'', ''redis_fork_'', ''redis_slow_'']"

lemma disk_ids: "subseq (map f_id (concat (map disk_rule io))) (disk_ids_of io)"
proof (induction io)
  case (Cons d io)
  have "subseq (map f_id (disk_rule d)) [''disk_saturated_'' @ fst d]" by (cases d) (simp add: disk_rule_def rule_def new_finding_def)
  then have "subseq (map f_id (disk_rule d) @ map f_id (concat (map disk_rule io))) ((''disk_saturated_'' @ fst d) # disk_ids_of io)"
    using Cons.IH by (rule subseq_one)
  then show ?case by (simp only: disk_ids_of_def list.map concat.simps map_append)
qed (simp add: disk_ids_of_def)

lemma alarm_ids_facts:
  "distinct (ALARM_IDS @ STALL_IDS)" "list_all (\<lambda>i. hd i \<noteq> CHR ''d'' \<and> hd i \<noteq> CHR ''r'') (ALARM_IDS @ STALL_IDS)" "distinct DB_IDS"
  "list_all (\<lambda>i. take 2 i = ''db'') DB_IDS" 
  by code_simp+

lemma disk_ids_start: "i \<in> set (disk_ids_of io) \<Longrightarrow> hd i = CHR ''d'' \<and> take 2 i = ''di''"
  by (auto simp: disk_ids_of_def)

lemma evaluate_ids:
  assumes "distinct (map fst io)"
  shows "distinct (map f_id (evaluate rows io kills)) \<and> f_id ` set (evaluate rows io kills) \<subseteq> set (ALARM_IDS @ disk_ids_of io @ STALL_IDS)"
proof (cases "rows = []")
  case False
  let ?t = "take SUSTAINED_SAMPLES rows"
  define fs where "fs = oom_rule kills @ memory_low_rule (hd rows) @ swapping_rule ?t @ swap_full_rule (hd rows) @ container_memory_rule (hd rows) @
     throttle_rule ?t @ io_stall_rule ?t @ concat (map disk_rule io) @ memory_stall_rule ?t @ cpu_rule ?t"
  have sub: "subseq (map f_id fs) (ALARM_IDS @ disk_ids_of io @ STALL_IDS)"
    unfolding fs_def ALARM_IDS_def STALL_IDS_def map_append append_Cons append_Nil oom_rule_def memory_low_rule_def swapping_rule_def swap_full_rule_def
      container_memory_rule_def throttle_rule_def io_stall_rule_def memory_stall_rule_def cpu_rule_def Let_def
    by (intro subseq_one [OF ids_one(1)] subseq_one [OF ids_one(2)] subseq_two [OF ids_two] list_emb_append_mono [OF disk_ids] ids_one(1))
  have "distinct (disk_ids_of io)" using assms by (simp add: disk_ids_of_def distinct_map inj_on_def)
  moreover have "set (disk_ids_of io) \<inter> set (ALARM_IDS @ STALL_IDS) = {}"
    using alarm_ids_facts(2) disk_ids_start unfolding list_all_iff by blast
  ultimately have "distinct (ALARM_IDS @ disk_ids_of io @ STALL_IDS)" using alarm_ids_facts(1) by auto
  then have "distinct (map f_id fs)" using sub subseq_distinct_list by blast
  moreover have "f_id ` set fs \<subseteq> set (ALARM_IDS @ disk_ids_of io @ STALL_IDS)"
    using list_emb_set [OF sub] unfolding set_map by blast
  ultimately show ?thesis unfolding evaluate_unfold [OF False] fs_def [symmetric] by (simp add: by_severity_facts)
qed (simp add: evaluate_def)

lemma db_ids: "subseq (map f_id (evaluate_mariadb pf rows config sizes memory io_latest limit)) DB_IDS"
proof -
  have cache: "subseq (map f_id (cache_rule rows a b)) [''db_cache_misses'']" for a b
    by (cases "cache_hit rows") (simp_all add: cache_rule_def rule_def new_finding_def)
  show ?thesis
    unfolding evaluate_mariadb_def DB_IDS_def Let_def if_distrib [of "map f_id"] map_append list.map
      wait_free_rule_def checkpoint_rule_def dirty_rule_def io_capacity_rule_def tmp_tables_rule_def
      connections_rule_def history_rule_def db_swap_rule_def log_buffer_rule_def row_lock_rule_def table_cache_rule_def open_files_rule_def slow_queries_rule_def
    by (cases "rows = []") (simp, simp only: if_False, intro subseq_one [OF ids_one(1)] subseq_one [OF cache] ids_one(1))
qed

text \<open>No prefix of the Redis ids begins with another one, so an id tells rule and instance.\<close>

lemma redis_prefixes: "list_all (\<lambda>p. take 2 p = ''re'' \<and> list_all (\<lambda>q. prefix p q \<longrightarrow> p = q) REDIS_PREFIXES) REDIS_PREFIXES" "distinct REDIS_PREFIXES"
  by code_simp+

lemma redis_id_inj:
  assumes "p \<in> set REDIS_PREFIXES" and "q \<in> set REDIS_PREFIXES" and "p @ k = q @ l"
  shows "p = q \<and> k = l"
proof -
  have "prefix p q \<or> prefix q p" using assms(3) by (metis prefixI prefix_same_cases)
  then have "p = q" using redis_prefixes(1) assms(1,2) unfolding list_all_iff by blast
  with assms(3) show ?thesis by simp
qed

lemma redis_instance_ids:
  "subseq (map f_id (redis_instance_rules ram (label, rows))) (map (\<lambda>p. p @ redis_key label) REDIS_PREFIXES)"
proof -
  have cache: "subseq (map f_id (redis_cache_rule k rows)) [''redis_evict_queue_'' @ k, ''redis_cache_small_'' @ k, ''redis_cache_hits_'' @ k]" for k
    by (simp only: redis_cache_rule_def Let_def rule_def) (simp add: new_finding_def)
  have three: "subseq (xs @ ys) (a # b # c # zs)" if "subseq xs [a, b, c]" "subseq ys zs" for xs ys zs and a b c :: string
    using list_emb_append_mono [of "(=)" xs "[a, b, c]" ys zs] that by simp
  have mem: "subseq (map f_id (redis_memory_rule k ram l)) [''redis_memory_full_'' @ k, ''redis_unbounded_'' @ k]" for k l
    by (simp only: redis_memory_rule_def Let_def rule_def) (simp add: new_finding_def)
  have frag: "subseq (map f_id (redis_fragmentation_rule k l)) [''redis_fragmentation_'' @ k, ''redis_swapped_'' @ k]" for k l
    unfolding redis_fragmentation_rule_def Let_def by (rule ids_two)
  have clients: "subseq (map f_id (redis_clients_rule k rows)) [''redis_refused_'' @ k, ''redis_clients_'' @ k]" for k
    unfolding redis_clients_rule_def Let_def by (rule ids_two)
  have ones: "subseq (map f_id (redis_persistence_rule k l)) [''redis_persistence_'' @ k]" "subseq (map f_id (redis_fork_rule k l)) [''redis_fork_'' @ k]"
    "subseq (map f_id (redis_slow_rule k l)) [''redis_slow_'' @ k]" for k l
    unfolding redis_persistence_rule_def redis_fork_rule_def redis_slow_rule_def by (rule ids_one)+
  have ps: "map (\<lambda>p. p @ k) REDIS_PREFIXES = [''redis_evict_queue_'' @ k, ''redis_cache_small_'' @ k, ''redis_cache_hits_'' @ k, ''redis_memory_full_'' @ k,
      ''redis_unbounded_'' @ k, ''redis_fragmentation_'' @ k, ''redis_swapped_'' @ k, ''redis_persistence_'' @ k, ''redis_refused_'' @ k, ''redis_clients_'' @ k,
      ''redis_fork_'' @ k, ''redis_slow_'' @ k]" for k
    by (simp only: REDIS_PREFIXES_def list.map)
  show ?thesis
  proof (cases "rows = []")
    case False
    then have "map f_id (redis_instance_rules ram (label, rows)) =
        map f_id (redis_cache_rule (redis_key label) rows) @ map f_id (redis_memory_rule (redis_key label) ram (hd rows)) @
        map f_id (redis_fragmentation_rule (redis_key label) (hd rows)) @ map f_id (redis_persistence_rule (redis_key label) (hd rows)) @
        map f_id (redis_clients_rule (redis_key label) rows) @ map f_id (redis_fork_rule (redis_key label) (hd rows)) @
        map f_id (redis_slow_rule (redis_key label) (hd rows))"
      by (simp add: redis_instance_rules_def Let_def)
    then show ?thesis
      unfolding ps by (simp only:) (rule three [OF cache subseq_two [OF mem subseq_two [OF frag subseq_one [OF ones(1) subseq_two [OF clients
        subseq_one [OF ones(2,3)]]]]]])
  qed (simp add: redis_instance_rules_def)
qed

lemma redis_ids:
  assumes "distinct (map fst is)" and "inj_on redis_key (fst ` set is)"
  shows "distinct (map f_id (concat (map (redis_instance_rules ram) is))) \<and>
    f_id ` set (concat (map (redis_instance_rules ram) is)) \<subseteq> (\<lambda>(p, l). p @ redis_key l) ` (set REDIS_PREFIXES \<times> fst ` set is)"
  using assms
proof (induction "is")
  case (Cons i "is")
  let ?one = "redis_instance_rules ram i" and ?all = "concat (map (redis_instance_rules ram) is)"
  have sub: "subseq (map f_id ?one) (map (\<lambda>p. p @ redis_key (fst i)) REDIS_PREFIXES)"
    using redis_instance_ids [of ram "fst i" "snd i"] by (simp only: prod.collapse)
  then have own: "f_id ` set ?one \<subseteq> (\<lambda>p. p @ redis_key (fst i)) ` set REDIS_PREFIXES" using list_emb_set [OF sub] unfolding set_map by blast
  have "distinct (map (\<lambda>p. p @ redis_key (fst i)) REDIS_PREFIXES)" using redis_prefixes(2) by (simp add: distinct_map inj_on_def)
  then have d1: "distinct (map f_id ?one)" using sub subseq_distinct_list by blast
  have inj: "inj_on redis_key (fst ` set is)" using Cons.prems(2) by (simp add: inj_on_def)
  have IH: "distinct (map f_id ?all)" "f_id ` set ?all \<subseteq> (\<lambda>(p, l). p @ redis_key l) ` (set REDIS_PREFIXES \<times> fst ` set is)"
    using Cons.IH Cons.prems(1) inj by auto
  have other: "redis_key (fst i) \<noteq> redis_key l" if "l \<in> fst ` set is" for l
    using Cons.prems that by (auto simp: inj_on_def)
  have apart: "x \<noteq> y" if xy: "x \<in> f_id ` set ?one" "y \<in> f_id ` set ?all" for x y
  proof -
    from own xy(1) obtain p where p: "p \<in> set REDIS_PREFIXES" "x = p @ redis_key (fst i)" by blast
    from subsetD [OF IH(2) xy(2)] obtain q l where q: "q \<in> set REDIS_PREFIXES" "l \<in> fst ` set is" "y = q @ redis_key l" by auto
    show ?thesis using redis_id_inj [OF p(1) q(1)] other [OF q(2)] p(2) q(3) by metis
  qed
  then have "f_id ` set ?one \<inter> f_id ` set ?all = {}" by blast
  then have "distinct (map f_id ?one @ map f_id ?all)" using d1 IH(1) by simp
  moreover have "x \<in> (\<lambda>(p, l). p @ redis_key l) ` (set REDIS_PREFIXES \<times> fst ` set (i # is))" if x: "x \<in> f_id ` set (?one @ ?all)" for x
  proof (cases "x \<in> f_id ` set ?one")
    case True
    then obtain p where "p \<in> set REDIS_PREFIXES" "x = p @ redis_key (fst i)" using own by blast
    then show ?thesis by (intro image_eqI [of _ _ "(p, fst i)"]) simp_all
  next
    case False
    with x have "x \<in> f_id ` set ?all" by (simp only: set_append image_Un Un_iff) blast
    from subsetD [OF IH(2) this] obtain p l where "p \<in> set REDIS_PREFIXES" "l \<in> fst ` set is" "x = p @ redis_key l" by auto
    then show ?thesis by (intro image_eqI [of _ _ "(p, l)"]) simp_all
  qed
  ultimately show ?case unfolding list.map concat.simps map_append by blast
qed simp

lemma newest_per_keys: "map fst (newest_per n key rows) = map fst (group_rows key rows)"
  by (simp add: newest_per_def case_prod_unfold comp_def)

lemma diagnosis_parts:
  "dg_findings (diagnose_host pf host st) = by_severity
     (evaluate (memory_rows_of pf host st) (io_rows_of pf host st) (recent_kills pf host st) @
      fst (diagnose_mariadb pf host m io st) @ fst (diagnose_redis pf host m st))"
  if "m = (case memory_rows_of pf host st of [] \<Rightarrow> None | r # _ \<Rightarrow> Some r)"
    and "io = map (\<lambda>(device, rs). hd rs) (filter (\<lambda>(device, rs). rs \<noteq> []) (io_rows_of pf host st))"
  unfolding diagnose_host_def Let_def that by simp

text \<open>A diagnosis names each problem once, the critical ones first: the ids of the findings are distinct, provided that no two Redis instances
  of the host differ only in a colon for an underscore.\<close>

theorem diagnosis_names_each_problem_once:
  assumes "inj_on redis_key (rd_instance ` {m \<in> set (redis_metrics st). rd_monitored_host m = host})"
  shows "distinct (map f_id (dg_findings (diagnose_host pf host st))) \<and>
    sorted (map (\<lambda>f. SEVERITY_ORDER (f_severity f)) (dg_findings (diagnose_host pf host st)))"
proof -
  define m where "m = (case memory_rows_of pf host st of [] \<Rightarrow> None | r # _ \<Rightarrow> Some r)"
  define io where "io = map (\<lambda>(device, rs). hd rs) (filter (\<lambda>(device, rs :: sample_row list). rs \<noteq> []) (io_rows_of pf host st))"
  note parts = diagnosis_parts [OF m_def io_def]
  let ?E = "evaluate (memory_rows_of pf host st) (io_rows_of pf host st) (recent_kills pf host st)"
    and ?M = "fst (diagnose_mariadb pf host m io st)" and ?R = "fst (diagnose_redis pf host m st)"
  have "map fst (io_rows_of pf host st) = map fst (newest_per SUSTAINED_SAMPLES io_device (newest_first io_collected_at
      (filter (\<lambda>s. io_monitored_host s = host \<and> io_rates s \<noteq> None \<and> io_collected_at s \<ge> pf_now pf - 10 * MINUTE) (io_samples st))))"
    by (simp add: io_rows_of_def case_prod_unfold comp_def)
  then have "distinct (map fst (io_rows_of pf host st))" by (simp only: newest_per_keys distinct_group_rows)
  note E = evaluate_ids [OF this, of "memory_rows_of pf host st" "recent_kills pf host st"]
  have sub: "subseq (map f_id ?M) DB_IDS" by (simp add: diagnose_mariadb_def Let_def db_ids)
  have M: "distinct (map f_id ?M)" "f_id ` set ?M \<subseteq> set DB_IDS"
    using subseq_distinct_list [OF sub alarm_ids_facts(3)] list_emb_set [OF sub] unfolding set_map by blast+
  define rows where "rows = take 40 (newest_first rd_collected_at (filter (\<lambda>m. rd_monitored_host m = host) (redis_metrics st)))"
  define insts where "insts = map (\<lambda>(label, rs). (label, map (redis_sample_row pf) rs)) (newest_per (SUSTAINED_SAMPLES + 2) rd_instance rows)"
  have "map fst insts = map fst (newest_per (SUSTAINED_SAMPLES + 2) rd_instance rows)"
    by (simp add: insts_def case_prod_unfold comp_def)
  then have keys: "map fst insts = map fst (group_rows rd_instance rows)" by (simp only: newest_per_keys)
  have "set rows \<subseteq> {m \<in> set (redis_metrics st). rd_monitored_host m = host}"
    unfolding rows_def newest_first_def by (auto dest: in_set_takeD)
  then have "rd_instance ` set rows \<subseteq> rd_instance ` {m \<in> set (redis_metrics st). rd_monitored_host m = host}" by blast
  moreover have "fst ` set insts = rd_instance ` set rows"
    using arg_cong [OF keys, of set] group_rows_keys [of rd_instance rows] by (simp only: set_map)
  ultimately have inj: "inj_on redis_key (fst ` set insts)" using assms by (metis inj_on_subset)
  have dk: "distinct (map fst insts)" by (simp only: keys distinct_group_rows)
  have Req: "?R = by_severity (concat (map (redis_instance_rules (case m of None \<Rightarrow> 0 | Some r \<Rightarrow> num r ''mem_total_mb'')) insts))"
    by (simp only: diagnose_redis_def Let_def evaluate_redis_def rows_def [symmetric] insts_def [symmetric] fst_conv)
  have R: "distinct (map f_id ?R)" "f_id ` set ?R \<subseteq> (\<lambda>(p, l). p @ redis_key l) ` (set REDIS_PREFIXES \<times> fst ` set insts)"
    using redis_ids [OF dk inj, of "case m of None \<Rightarrow> 0 | Some r \<Rightarrow> num r ''mem_total_mb''"] unfolding Req by_severity_facts by blast+
  have eM: "take 2 i = ''db''" if "i \<in> f_id ` set ?M" for i
    using that M(2) alarm_ids_facts(4) unfolding list_all_iff by blast
  have eR: "take 2 i = ''re''" if i: "i \<in> f_id ` set ?R" for i
  proof -
    from subsetD [OF R(2) i] obtain p l where p: "p \<in> set REDIS_PREFIXES" "i = p @ redis_key l" by auto
    then have "take 2 p = ''re''" using redis_prefixes(1) unfolding list_all_iff by blast
    then have "2 \<le> length p" by (cases p; cases "tl p") auto
    with p(2) \<open>take 2 p = ''re''\<close> show ?thesis by simp
  qed
  have eE: "take 2 i \<noteq> ''db'' \<and> take 2 i \<noteq> ''re''" if i: "i \<in> f_id ` set ?E" for i
  proof -
    from i E have "i \<in> set (disk_ids_of (io_rows_of pf host st)) \<or> i \<in> set (ALARM_IDS @ STALL_IDS)" by auto
    then show ?thesis
    proof
      assume "i \<in> set (ALARM_IDS @ STALL_IDS)"
      then have "hd i \<noteq> CHR ''d'' \<and> hd i \<noteq> CHR ''r''" using alarm_ids_facts(2) unfolding list_all_iff by blast
      then show ?thesis by (cases i) auto
    qed (auto dest: disk_ids_start)
  qed
  have "i \<notin> f_id ` set ?R" if "i \<in> f_id ` set ?M" for i using eM [OF that] eR [of i] by auto
  then have "f_id ` set ?E \<inter> f_id ` set ?M = {}" "f_id ` set ?E \<inter> f_id ` set ?R = {}" "f_id ` set ?M \<inter> f_id ` set ?R = {}"
    using eE eM eR by blast+
  then have "distinct (map f_id (?E @ ?M @ ?R))" using E M(1) R(1) by auto
  then show ?thesis unfolding parts by (simp only: by_severity_facts)
qed

end
