(* ===== verification/Spec2Isabelle.thy ===== *)
theory Spec2Isabelle
  imports Uptime_Overview Server_Deletion Host_Poll Site_Discovery Llm_Usage Log_Monitor Diagnosis
begin

text \<open>
  \<^bold>\<open>alfaEdge Pulse\<close>, a Frappe application that watches Proxmox hosts, their guests, storage and backups,
  web sites through Uptime Kuma, the health of hosts, application logs and usage of language models, and sends alerts about them
  (\<open>src/alfaedge_pulse\<close>). This development models its monitoring core and proves what makes it
  correct, and where the code falls short of what it means to do.

  \<^bold>\<open>The program.\<close> Background loops poll the outside world: \<open>tasks/poller.py\<close> every Proxmox server,
  \<open>tasks/uptime_kuma_poller.py\<close> every Kuma instance, \<open>tasks/host_poller.py\<close> every host over SSH. Each
  writes what it read into documents (database tables) and compares the new verdict with the one
  stored before; a change opens or closes an incident through \<open>_handle_transition\<close>, which calls
  \<open>alerts/dispatch.py\<close>. Some alert types are not sent at once but collected by two
  further jobs. The loops are kept alive by watchdogs and queue jobs (\<open>tasks/jobs.py\<close>).

  \<^bold>\<open>State.\<close> Every document is a \<open>record\<close> with the fields the code uses, a table is a list of rows with a
  name, and the database state is one record that grows theory by theory: \<open>alert_db\<close> (alert log, outbox,
  error log, settings), \<open>proxmox_db\<close> (servers, guests, datastores, backups, metrics, cache keys), \<open>job_db\<close> (queue
  jobs), then \<open>uptime_db\<close> and \<open>host_db\<close>, which \<open>site_db\<close> and \<open>log_db\<close> extend; \<open>usage_db\<close> extends \<open>job_db\<close>. Operations are functions on the record scheme, so each theory's
  operations apply to the later states. What the code only calls (mail, WhatsApp, Proxmox,
  Kuma, the job queue, the clock) is a parameter record; a call that raises is a value. A
  rollback is a function from the last committed tables and the current state.

  \<^bold>\<open>Theories.\<close>
  \<^item> \<open>Pulse_Prelude\<close>: Python's strings, rounding, calendar, insertion-ordered grouping; shared lemmas.
  \<^item> \<open>Incident_Log\<close>: the interface of an incident log as a locale, with the edge trigger proved once.
  \<^item> \<open>Alert_Dispatch\<close> (\<open>alerts/dispatch.py\<close>): recipients, channels, alerts, recoveries; it interprets the locale.
  \<^item> \<open>Severity\<close> (\<open>tasks/poller.py\<close>): thresholds, confirmation streaks, \<open>_handle_transition\<close>.
  \<^item> \<open>Proxmox_Client\<close>, \<open>Proxmox_Store\<close>, \<open>Batch_Purge\<close>, \<open>Resource_History\<close>: what the API clients compute, the
    documents, the batched deletion loop, metric history and its retention.
  \<^item> \<open>Guest_Sync\<close>, \<open>Backup_Log\<close>, \<open>Backup_Sync\<close>, \<open>Proxmox_Poller\<close>, \<open>Poll_Loop\<close> (\<open>tasks/poller.py\<close>): hosts, guests and
    storage; the parser of backup logs; recording and judging backups (locale \<open>task_recorder\<close>, interpreted
    for tasks and for snapshots); one pass over all servers; the bounded loop (locale \<open>bounded_loop\<close>) and
    the stall check.
  \<^item> \<open>Loop_Jobs\<close> (\<open>tasks/jobs.py\<close>): starting a loop, stale jobs, handing over.
  \<^item> \<open>Maintenance\<close> (\<open>uptime_monitor/maintenance.py\<close>): planned downtime windows.
  \<^item> \<open>Uptime_Store\<close>, \<open>Uptime_Sites\<close>, \<open>Uptime_Overview\<close> (\<open>uptime_monitor/api.py\<close>), \<open>Uptime_Poller\<close>
    (\<open>tasks/uptime_kuma_poller.py\<close>): documents, the operations that go out to all instances, the dashboard figures,
    the polling cycle with the vote of the instances; it interprets \<open>bounded_loop\<close> again.
  \<^item> \<open>Host_Store\<close>, \<open>Alert_Summaries\<close> (\<open>alerts/resource_batch.py\<close>, \<open>alerts/digest.py\<close>), \<open>Host_Watch\<close>
    (\<open>tasks/host_health_watchdog.py\<close>, parts of \<open>tasks/host_poller.py\<close>, \<open>tasks/resource_monitor.py\<close>).
  \<^item> \<open>Host_Status\<close>, \<open>Host_Resources\<close>, \<open>Host_Performance\<close> (\<open>host_health/ingest.py\<close>): what becomes of a host's report.
    Services, benches with their jobs (locale \<open>job_upsert\<close>, interpreted for failed and for active jobs) and sites; load, swap
    and mounts; memory, disk I/O, MariaDB and Redis counters turned into rates. \<open>host_db\<close> grows to \<open>status_db\<close> and
    \<open>resource_db\<close>; the performance tables are a state of their own, \<open>store_perf_db\<close>. The \<open>history_tables\<close> of \<open>host_db\<close> are
    the same tables as retention sees them, by their times only.
  \<^item> \<open>Diagnosis\<close> (\<open>host_health/diagnosis.py\<close>): the rules that turn the stored samples of a host into findings, each a definition of
    its own, and the loading of the samples from \<open>store_perf_db\<close>.
  \<^item> \<open>Ssh_Client\<close> (\<open>host_health/ssh_client.py\<close>), \<open>Host_Poll\<close> (\<open>tasks/host_poller.py\<close>): which hosts may be reached and how, connections
    with pinned keys, one poll with its retry; the pass over all hosts on \<open>poll_db\<close>, which joins \<open>resource_db\<close> and the performance tables, and
    the loop, a third interpretation of \<open>bounded_loop\<close>.
  \<^item> \<open>Ip_Address\<close>, \<open>Site_Clients\<close>, \<open>Site_Resolve\<close>, \<open>Site_Discovery\<close> (\<open>site_discovery/\<close>): Python's \<open>ipaddress\<close>, the clients of Nginx Proxy
    Manager and Cloudflare over their HTTP answers, the merge of proxy hosts, DNS records, guests and agents
    into one row per domain, and the daily run that brings the table of sites up to date.
  \<^item> \<open>Log_Queries\<close> (\<open>log_monitor/queries.py\<close>, \<open>log_monitor/connection.py\<close>), \<open>Log_Monitor\<close> (\<open>tasks/log_monitor.py\<close>, the
    writing endpoints of \<open>log_monitor/api.py\<close>, the alias document): the queries as functions on the rows of the log,
    the recurring error check, resolving, ignoring, aliases.
  \<^item> \<open>Llm_Usage\<close> (\<open>tasks/bifrost_sync.py\<close>): the incremental copy of Bifrost's request log.
  \<^item> \<open>Server_Deletion\<close> (\<open>proxmox_fleet_monitor/server_deletion.py\<close>): the plan, the archive and the deletion of a server.

  \<^bold>\<open>What is shown.\<close> Alerts: every alert is logged whatever the channels do; over any sequence of verdicts one
  alert is open exactly while the last verdict is bad; the tracker fires exactly after the configured
  number of readings in a row. Proxmox: stored guests mirror the host's; flags and alerts agree; a
  backup cycle is idempotent and never moves a last success back; the log parser inverts
  the rendering of a log and is sound on any text; a failing server neither stops nor spoils the others.
  Uptime: window expansion equals the set of all occurrences cut to the range; the vote is unanimous
  among the instances with an opinion, and its alert follows the first row's flag; deleting keeps Pulse and Kuma in step; a disabled instance is never called;
  importing and catching up mirror the instances. Host Health: a service, a load and a bench verdict hold
  exactly after the configured number of readings in a row, in step with their alerts; jobs and mounts mirror the report; rates are
  never negative, refer to the sample before and are withheld after a restart or a gap; the busiest disks are kept; a sustained
  finding needs three samples in a row; a pass reaches only hosts of the
  configured roles and runs only on servers with the pinned key. Sites: outages
  of a source wipe nothing, a full view rebuilds the table, a contested domain goes by DNS. Logs: an incident is open
  for exactly the errors that recur (the 500 most frequent when there are more), an ignored one stays quiet through any later steps,
  aliases never chain. Usage: a sync loses no row that can be stored, also while the log grows between its pages. Deleting
  a server is all or nothing and archives what it removes. Summaries: windows join, marks match what was sent. Loops:
  a run comes back, hands over to the other job id, and the watchdog restarts a dead loop.
  Theorems whose text speaks of a known defect prove a behaviour that contradicts the code's own comments.

  \<^bold>\<open>Bounds.\<close> Integers are Python's, unbounded; floats are exact rationals, so rounding errors of floats
  are outside the model. Date-times are whole microseconds without time zone. The loops \<open>poll_loop\<close>,
  \<open>uptime_loop\<close> and \<open>host_loop\<close> carry fuel; 301 is enough because a run is bounded to 300 seconds and every cycle that is not
  asked to stop sleeps at least one second, which the theorems take as the hypothesis on the clock. The
  purge and calendar loops are total functions with a measure. The page loops of Cloudflare (\<open>MAX_PAGES\<close>) and Bifrost
  (\<open>MAX_LOG_PAGES\<close>) and the alias chain of DNS (\<open>MAX_CNAME_HOPS\<close>) count down the limits of the code itself; the recurring error
  check looks at \<open>MAX_GROUPS\<close> signatures as the code does. One clock reading serves a whole pass.
  Strings hold UTF-8 bytes; where the code cuts a text at a number of characters the model cuts bytes.

  \<^bold>\<open>Not modelled.\<close> The front end, permissions beyond the role check of an endpoint, HTTP, SSH and Socket.IO sessions,
  the aggregate SQL queries of the log and usage dashboards, AI reports, migrations, the framework's check of links when a document is inserted.
  ClickHouse evaluates the recurring error query on rows the model is given, with its hash as a parameter.
  The collector runs on the watched hosts and mostly reads files and databases. The sentences of the diagnosis are left out. Not yet modelled: the
  history backfill, saving of maintenance windows, the settings endpoints and the metrics text parser.
\<close>

end
